(* ===== verification/Prelude.thy ===== *)
theory Prelude
  imports Main "HOL-Library.Word" "HOL-Library.AList"
begin

text \<open>
  What every component of the proxy model shares.

  \<^item> Results. Rust's \<open>Result<T, E>\<close> is the sum type \<open>'e + 'a\<close>; \<open>Ok\<close> and \<open>Err\<close> abbreviate
    its injections and \<open>and_then\<close> is the \<open>?\<close> operator. The two inversion rules of \<open>and_then\<close>
    are simplification rules, so a proof about a chain of fallible calls is a call of
    \<open>auto\<close>.
  \<^item> Machine integers. \<open>u64\<close>, \<open>u32\<close> and \<open>u16\<close> are words (\<open>+\<close> wraps, as an atomic
    \<open>fetch_add\<close> does); \<open>checked_add\<close> and its kin are Rust's. An \<open>i64\<close> read from or bound to
    a database column is an \<open>int\<close>.
  \<^item> Hash maps. A \<open>HashMap\<close> is an association list with distinct keys, so that \<open>len\<close>,
    \<open>retain\<close> and iteration are list operations; the order of the list is the unspecified
    iteration order, and every theorem holds for every order.
  \<^item> Strings and byte slices are \<open>string\<close>, one \<open>char\<close> per byte; \<open>str\<close> values are UTF-8
    byte strings. ASCII classification, \<open>trim\<close>, \<open>split\<close>, integer parsing and printing are
    those of the Rust standard library.
\<close>

section \<open>Collections of simplification rules\<close>

named_theorems result_simps \<open>inversion rules for chains of fallible calls\<close>
named_theorems u64_simps \<open>reading checked and saturating word arithmetic as arithmetic on nat\<close>
named_theorems hashmap_simps \<open>association lists as hash maps\<close>

section \<open>Results\<close>

type_synonym ('a, 'e) result = "'e + 'a"

abbreviation Ok :: "'a \<Rightarrow> ('a, 'e) result" where
  "Ok x \<equiv> Inr x"

abbreviation Err :: "'e \<Rightarrow> ('a, 'e) result" where
  "Err e \<equiv> Inl e"

definition and_then :: "('a, 'e) result \<Rightarrow> ('a \<Rightarrow> ('b, 'e) result) \<Rightarrow> ('b, 'e) result" where
  "and_then m f = (case m of Inl e \<Rightarrow> Inl e | Inr x \<Rightarrow> f x)"

definition map_err :: "('e \<Rightarrow> 'f) \<Rightarrow> ('a, 'e) result \<Rightarrow> ('a, 'f) result" where
  "map_err g m = (case m of Inl e \<Rightarrow> Inl (g e) | Inr x \<Rightarrow> Inr x)"

definition ok_or :: "'e \<Rightarrow> 'a option \<Rightarrow> ('a, 'e) result" where
  "ok_or e m = (case m of None \<Rightarrow> Inl e | Some x \<Rightarrow> Inr x)"

text \<open>\<open>Option<Result<T, E>>::transpose\<close>.\<close>

definition transpose_option :: "('a, 'e) result option \<Rightarrow> ('a option, 'e) result" where
  "transpose_option m =
     (case m of None \<Rightarrow> Inr None
      | Some r \<Rightarrow> (case r of Inl e \<Rightarrow> Inl e | Inr x \<Rightarrow> Inr (Some x)))"

text \<open>A loop that pushes \<open>f x?\<close> for every element: the first error ends it.\<close>

primrec try_map :: "('a \<Rightarrow> ('b, 'e) result) \<Rightarrow> 'a list \<Rightarrow> ('b list, 'e) result" where
  "try_map f [] = Ok []"
| "try_map f (x # xs) = and_then (f x) (\<lambda>y. and_then (try_map f xs) (\<lambda>ys. Ok (y # ys)))"

primrec try_fold :: "('b \<Rightarrow> 'a \<Rightarrow> ('b, 'e) result) \<Rightarrow> 'b \<Rightarrow> 'a list \<Rightarrow> ('b, 'e) result" where
  "try_fold f acc [] = Ok acc"
| "try_fold f acc (x # xs) = and_then (f acc x) (\<lambda>acc'. try_fold f acc' xs)"

lemma and_then_simps [simp]:
  "and_then (Inl e) f = Inl e"
  "and_then (Inr x) f = f x"
  by (simp_all add: and_then_def)

lemma and_then_eq_Ok [simp, result_simps]:
  "and_then m f = Inr y \<longleftrightarrow> (\<exists>x. m = Inr x \<and> f x = Inr y)"
  by (cases m) simp_all

lemma and_then_eq_Err [simp, result_simps]:
  "and_then m f = Inl e \<longleftrightarrow> m = Inl e \<or> (\<exists>x. m = Inr x \<and> f x = Inl e)"
  by (cases m) simp_all

lemma and_then_assoc: "and_then (and_then m f) g = and_then m (\<lambda>x. and_then (f x) g)"
  by (cases m) simp_all

lemma map_err_simps [simp, result_simps]:
  "map_err g (Inl e) = Inl (g e)"
  "map_err g (Inr x) = Inr x"
  "map_err g m = Inr y \<longleftrightarrow> m = Inr y"
  "map_err g m = Inl e' \<longleftrightarrow> (\<exists>e. m = Inl e \<and> e' = g e)"
  by (cases m; auto simp: map_err_def)+

lemma ok_or_simps [simp, result_simps]:
  "ok_or e None = Inl e"
  "ok_or e (Some x) = Inr x"
  "ok_or e m = Inr y \<longleftrightarrow> m = Some y"
  "ok_or e m = Inl e' \<longleftrightarrow> m = None \<and> e' = e"
  by (cases m; auto simp: ok_or_def)+

lemma transpose_option_simps [simp, result_simps]:
  "transpose_option None = Inr None"
  "transpose_option (Some (Inr x)) = Inr (Some x)"
  "transpose_option (Some (Inl e)) = Inl e"
  by (simp_all add: transpose_option_def)

lemma try_map_eq_Ok:
  "try_map f xs = Inr ys \<longleftrightarrow> list_all2 (\<lambda>x y. f x = Inr y) xs ys"
proof (induction xs arbitrary: ys)
  case Nil
  then show ?case by auto
next
  case (Cons x xs)
  show ?case by (cases ys) (auto simp: Cons.IH)
qed

lemma try_map_Ok_map:
  "(\<And>x. x \<in> set xs \<Longrightarrow> f x = Inr (g x)) \<Longrightarrow> try_map f xs = Inr (map g xs)"
  by (induction xs) simp_all

lemma try_fold_append:
  "try_fold f acc (xs @ ys) = and_then (try_fold f acc xs) (\<lambda>acc'. try_fold f acc' ys)"
  by (induction xs arbitrary: acc) (simp_all add: and_then_assoc)

section \<open>Rows found by a key\<close>

lemma find_unique:
  "distinct (map f xs) \<Longrightarrow> x \<in> set xs \<Longrightarrow> find (\<lambda>y. f y = f x) xs = Some x"
  by (induction xs) (auto simp: rev_image_eqI)

lemma find_key_iff:
  "distinct (map f xs) \<Longrightarrow> find (\<lambda>y. f y = k) xs = Some x \<longleftrightarrow> x \<in> set xs \<and> f x = k"
  using find_unique [of f xs x] by (auto simp: find_Some_iff)

lemma distinct_map_inj:
  "distinct (map f xs) \<Longrightarrow> x \<in> set xs \<Longrightarrow> y \<in> set xs \<Longrightarrow> f x = f y \<Longrightarrow> x = y"
  by (auto simp: distinct_map dest: inj_onD)

section \<open>Machine integers\<close>

type_synonym u8 = "8 word"
type_synonym u16 = "16 word"
type_synonym u32 = "32 word"
type_synonym u64 = "64 word"

definition checked_add :: "'a::len word \<Rightarrow> 'a word \<Rightarrow> 'a word option" where
  "checked_add a b = (if unat a + unat b < 2 ^ LENGTH('a) then Some (a + b) else None)"

definition checked_sub :: "'a::len word \<Rightarrow> 'a word \<Rightarrow> 'a word option" where
  "checked_sub a b = (if b \<le> a then Some (a - b) else None)"

definition checked_mul :: "'a::len word \<Rightarrow> 'a word \<Rightarrow> 'a word option" where
  "checked_mul a b = (if unat a * unat b < 2 ^ LENGTH('a) then Some (a * b) else None)"

definition saturating_add :: "'a::len word \<Rightarrow> 'a word \<Rightarrow> 'a word" where
  "saturating_add a b = (if unat a + unat b < 2 ^ LENGTH('a) then a + b else - 1)"

definition saturating_sub :: "'a::len word \<Rightarrow> 'a word \<Rightarrow> 'a word" where
  "saturating_sub a b = (if b \<le> a then a - b else 0)"

definition u64_max :: nat where
  "u64_max = 2 ^ 64 - 1"

definition i64_max :: int where
  "i64_max = 2 ^ 63 - 1"

text \<open>\<open>i64::try_from(u64)\<close>, \<open>u64::try_from(i64)\<close>, \<open>u32::try_from(i64)\<close>.\<close>

definition i64_try_from_u64 :: "u64 \<Rightarrow> int option" where
  "i64_try_from_u64 v = (if uint v \<le> i64_max then Some (uint v) else None)"

definition u64_try_from_i64 :: "int \<Rightarrow> u64 option" where
  "u64_try_from_i64 v = (if 0 \<le> v then Some (word_of_int v) else None)"

definition u32_try_from_i64 :: "int \<Rightarrow> u32 option" where
  "u32_try_from_i64 v = (if 0 \<le> v \<and> v < 2 ^ 32 then Some (word_of_int v) else None)"

lemma checked_add_Some [u64_simps]:
  "checked_add a b = Some c \<longleftrightarrow> c = a + b \<and> unat a + unat b < 2 ^ LENGTH('a)"
  for a b c :: "'a::len word"
  by (auto simp: checked_add_def)

lemma checked_add_None [u64_simps]:
  "checked_add a b = None \<longleftrightarrow> 2 ^ LENGTH('a) \<le> unat a + unat b"
  for a b :: "'a::len word"
  by (auto simp: checked_add_def)

lemma unat_add_no_wrap: "unat a + unat b < 2 ^ LENGTH('a) \<Longrightarrow> unat (a + b) = unat a + unat b"
  for a b :: "'a::len word"
  by (simp add: unat_add_lem [THEN iffD1])

lemma uint_add_no_wrap: "unat a + unat b < 2 ^ LENGTH('a) \<Longrightarrow> uint (a + b) = uint a + uint b"
  for a b :: "'a::len word"
  by (metis of_nat_add of_nat_unat unat_add_no_wrap)

lemma u64_add_fits:
  fixes a b :: u64
  assumes "uint a + uint b \<le> i64_max"
  shows "unat a + unat b < 18446744073709551616"
proof -
  have "int (unat a + unat b) < int 18446744073709551616"
    using assms by (simp add: i64_max_def)
  then show ?thesis by (simp only: of_nat_less_iff)
qed

lemma checked_add_unat: "checked_add a b = Some c \<Longrightarrow> unat c = unat a + unat b"
  by (auto simp: checked_add_def unat_add_no_wrap split: if_splits)

lemma unat_sub_no_wrap: "b \<le> a \<Longrightarrow> unat (a - b) = unat a - unat b"
  for a b :: "'a::len word"
  by (rule unat_sub)

lemma checked_sub_Some [u64_simps]: "checked_sub a b = Some c \<longleftrightarrow> b \<le> a \<and> c = a - b"
  by (auto simp: checked_sub_def)

lemma checked_sub_unat: "checked_sub a b = Some c \<Longrightarrow> unat c + unat b = unat a"
  by (auto simp: checked_sub_def unat_sub word_le_nat_alt split: if_splits)

lemma unat_saturating_sub [u64_simps]: "unat (saturating_sub a b) = unat a - unat b"
  by (auto simp: saturating_sub_def unat_sub word_le_nat_alt)

lemma unat_saturating_add [u64_simps]:
  "unat (saturating_add a b) = min (unat a + unat b) (2 ^ LENGTH('a) - 1)"
  for a b :: "'a::len word"
  by (auto simp: saturating_add_def unat_add_no_wrap min_def unsigned_minus_1_eq_mask
      mask_eq_exp_minus_1)

lemma unat_u64_lt: "unat (a :: u64) < 18446744073709551616"
  using unsigned_less [of a] by simp

lemma i64_try_from_u64_Some [u64_simps]:
  "i64_try_from_u64 v = Some i \<longleftrightarrow> i = int (unat v) \<and> int (unat v) \<le> i64_max"
  by (auto simp: i64_try_from_u64_def split: if_splits)

lemma u64_try_from_i64_of_u64 [simp]:
  "i64_try_from_u64 v = Some i \<Longrightarrow> u64_try_from_i64 i = Some v"
  by (auto simp: i64_try_from_u64_def u64_try_from_i64_def split: if_splits)

section \<open>Hash maps as association lists\<close>

type_synonym ('k, 'v) hashmap = "('k \<times> 'v) list"

abbreviation hm_wf :: "('k, 'v) hashmap \<Rightarrow> bool" where
  "hm_wf m \<equiv> distinct (map fst m)"

abbreviation hm_get :: "('k, 'v) hashmap \<Rightarrow> 'k \<Rightarrow> 'v option" where
  "hm_get m k \<equiv> map_of m k"

abbreviation hm_insert :: "'k \<Rightarrow> 'v \<Rightarrow> ('k, 'v) hashmap \<Rightarrow> ('k, 'v) hashmap" where
  "hm_insert k v m \<equiv> AList.update k v m"

abbreviation hm_remove :: "'k \<Rightarrow> ('k, 'v) hashmap \<Rightarrow> ('k, 'v) hashmap" where
  "hm_remove k m \<equiv> AList.delete k m"

definition hm_contains_key :: "('k, 'v) hashmap \<Rightarrow> 'k \<Rightarrow> bool" where
  "hm_contains_key m k \<longleftrightarrow> map_of m k \<noteq> None"

definition hm_retain :: "('v \<Rightarrow> bool) \<Rightarrow> ('k, 'v) hashmap \<Rightarrow> ('k, 'v) hashmap" where
  "hm_retain p m = filter (\<lambda>(k, v). p v) m"

text \<open>\<open>Iterator::min_by_key\<close>: the first element with the least key.\<close>

fun min_by_key :: "('a \<Rightarrow> 'b::linorder) \<Rightarrow> 'a list \<Rightarrow> 'a option" where
  "min_by_key f [] = None"
| "min_by_key f (x # xs) =
     (case min_by_key f xs of
        None \<Rightarrow> Some x
      | Some y \<Rightarrow> if f y < f x then Some y else Some x)"

lemma min_by_key_None [simp]: "min_by_key f xs = None \<longleftrightarrow> xs = []"
  by (cases xs) (auto split: option.splits)

lemma min_by_key_in: "min_by_key f xs = Some x \<Longrightarrow> x \<in> set xs"
  by (induction xs arbitrary: x) (auto split: option.splits if_splits)

lemma min_by_key_le: "min_by_key f xs = Some x \<Longrightarrow> y \<in> set xs \<Longrightarrow> f x \<le> f y"
proof (induction xs arbitrary: x y)
  case Nil
  then show ?case by simp
next
  case (Cons a xs)
  then show ?case
    by (cases "min_by_key f xs") (fastforce split: if_splits)+
qed

lemma hm_get_insert [simp, hashmap_simps]:
  "map_of (AList.update k v m) k' = (if k' = k then Some v else map_of m k')"
  by (simp add: update_conv')

lemma hm_get_remove [hashmap_simps]:
  "map_of (AList.delete k m) k' = (if k' = k then None else map_of m k')"
  by (simp add: delete_conv')

lemma hm_wf_insert [simp, hashmap_simps]: "hm_wf m \<Longrightarrow> hm_wf (AList.update k v m)"
  by (rule distinct_update)

lemma hm_wf_remove [simp, hashmap_simps]: "hm_wf m \<Longrightarrow> hm_wf (AList.delete k m)"
  by (rule distinct_delete)

lemma hm_retain_keys: "set (map fst (hm_retain p m)) \<subseteq> set (map fst m)"
  by (auto simp: hm_retain_def)

lemma hm_wf_retain [simp, hashmap_simps]: "hm_wf m \<Longrightarrow> hm_wf (hm_retain p m)"
  by (induction m) (auto simp: hm_retain_def)

lemma length_hm_retain: "length (hm_retain p m) \<le> length m"
  by (simp add: hm_retain_def)

lemma hm_get_retain [hashmap_simps]:
  "hm_wf m \<Longrightarrow>
     map_of (hm_retain p m) k =
       (case map_of m k of None \<Rightarrow> None | Some v \<Rightarrow> if p v then Some v else None)"
proof (induction m)
  case Nil
  then show ?case by (simp add: hm_retain_def)
next
  case (Cons e m)
  obtain a b where e: "e = (a, b)" by force
  have "map_of (hm_retain p m) a = None" if "a \<notin> fst ` set m"
    using that by (auto simp: hm_retain_def map_of_eq_None_iff)
  with Cons e show ?case
    by (auto simp: hm_retain_def map_of_eq_None_iff split: option.splits)
qed

lemma length_hm_insert [hashmap_simps]:
  "length (AList.update k v m) = (if map_of m k = None then Suc (length m) else length m)"
  by (induction m) auto

lemma length_hm_remove [hashmap_simps]:
  "hm_wf m \<Longrightarrow> length (AList.delete k m) = (if map_of m k = None then length m else length m - 1)"
proof (induction m)
  case Nil
  then show ?case by simp
next
  case (Cons e m)
  obtain a b where e: "e = (a, b)" by force
  show ?case
  proof (cases "a = k")
    case True
    with Cons.prems e have "AList.delete k m = m" by simp
    with True e show ?thesis by simp
  next
    case False
    have "map_of m k \<noteq> None \<Longrightarrow> length m \<noteq> 0" by auto
    with False e Cons show ?thesis by auto
  qed
qed

lemma hm_get_in: "map_of m k = Some v \<Longrightarrow> (k, v) \<in> set m"
  by (rule map_of_SomeD)

lemma hm_in_get: "hm_wf m \<Longrightarrow> (k, v) \<in> set m \<Longrightarrow> map_of m k = Some v"
  by simp

text \<open>Evicting the entry with the least key leaves one entry fewer.\<close>

definition hm_evict_min :: "('v \<Rightarrow> 'b::linorder) \<Rightarrow> ('k, 'v) hashmap \<Rightarrow> ('k, 'v) hashmap" where
  "hm_evict_min f m =
     (case min_by_key (\<lambda>(_, v). f v) m of
        None \<Rightarrow> m
      | Some (k, _) \<Rightarrow> hm_remove k m)"

lemma hm_wf_evict_min [simp, hashmap_simps]: "hm_wf m \<Longrightarrow> hm_wf (hm_evict_min f m)"
  by (auto simp: hm_evict_min_def split: option.splits)

lemma length_hm_evict_min: "hm_wf m \<Longrightarrow> length (hm_evict_min f m) = length m - 1"
proof (cases "min_by_key (\<lambda>(_, v). f v) m")
  case None
  then show ?thesis by (simp add: hm_evict_min_def)
next
  case (Some e)
  assume wf: "hm_wf m"
  obtain k v where e: "e = (k, v)" by force
  with Some have "(k, v) \<in> set m" by (simp add: min_by_key_in)
  with wf have "map_of m k = Some v" by simp
  with wf Some e show ?thesis by (simp add: hm_evict_min_def length_hm_remove)
qed

lemma hm_get_evict_min:
  "map_of (hm_evict_min f m) k = Some v \<Longrightarrow> map_of m k = Some v"
  by (auto simp: hm_evict_min_def hm_get_remove split: option.splits if_splits)

text \<open>The evicted entry is one with the least key; every other entry stays.\<close>

lemma hm_evict_min_victim:
  assumes "hm_wf m" and "m \<noteq> []"
  obtains k v where "map_of m k = Some v" and "hm_evict_min f m = hm_remove k m"
    and "\<And>k' v'. map_of m k' = Some v' \<Longrightarrow> f v \<le> f v'"
proof -
  from assms(2) obtain k v where kv: "min_by_key (\<lambda>(_, v). f v) m = Some (k, v)"
    by (metis min_by_key_None option.exhaust surj_pair)
  have "map_of m k = Some v"
    using min_by_key_in [OF kv] assms(1) by simp
  moreover have "hm_evict_min f m = hm_remove k m"
    using kv by (simp add: hm_evict_min_def)
  moreover have "f v \<le> f v'" if "map_of m k' = Some v'" for k' v'
    using min_by_key_le [OF kv map_of_SomeD [OF that]] by simp
  ultimately show ?thesis using that by blast
qed

end
