(* ===== verification/Rust_Strings.thy ===== *)
theory Rust_Strings
  imports Prelude
begin

text \<open>
  The string operations of the Rust standard library that the proxy calls, on byte strings:
  ASCII classification and case folding (\<open>u8::is_ascii_*\<close>, \<open>eq_ignore_ascii_case\<close>), UTF-8
  validation (\<open>str::from_utf8\<close>), \<open>trim\<close> with the Unicode white-space set, \<open>split\<close>,
  \<open>split_once\<close>, \<open>split_ascii_whitespace\<close>, decimal parsing and printing of unsigned
  integers. The lemmas are the ones the components use: decimal round trip, what validated
  UTF-8 cannot contain, and what trimming and case folding keep.
\<close>

section \<open>Bytes\<close>

definition byte :: "char \<Rightarrow> nat" where
  "byte c = of_char c"

definition is_ascii_digit :: "char \<Rightarrow> bool" where
  "is_ascii_digit c \<longleftrightarrow> 48 \<le> byte c \<and> byte c \<le> 57"

definition is_ascii_uppercase :: "char \<Rightarrow> bool" where
  "is_ascii_uppercase c \<longleftrightarrow> 65 \<le> byte c \<and> byte c \<le> 90"

definition is_ascii_lowercase :: "char \<Rightarrow> bool" where
  "is_ascii_lowercase c \<longleftrightarrow> 97 \<le> byte c \<and> byte c \<le> 122"

definition is_ascii_alphanumeric :: "char \<Rightarrow> bool" where
  "is_ascii_alphanumeric c \<longleftrightarrow> is_ascii_digit c \<or> is_ascii_uppercase c \<or> is_ascii_lowercase c"

definition is_ascii_byte :: "char \<Rightarrow> bool" where
  "is_ascii_byte c \<longleftrightarrow> byte c < 128"

definition is_ascii_control :: "char \<Rightarrow> bool" where
  "is_ascii_control c \<longleftrightarrow> byte c < 32 \<or> byte c = 127"

definition is_ascii_whitespace :: "char \<Rightarrow> bool" where
  "is_ascii_whitespace c \<longleftrightarrow> byte c \<in> {9, 10, 12, 13, 32}"

definition ascii_lower :: "char \<Rightarrow> char" where
  "ascii_lower c = (if is_ascii_uppercase c then char_of (byte c + 32) else c)"

definition to_ascii_lowercase :: "string \<Rightarrow> string" where
  "to_ascii_lowercase s = map ascii_lower s"

definition eq_ignore_ascii_case :: "string \<Rightarrow> string \<Rightarrow> bool" where
  "eq_ignore_ascii_case a b \<longleftrightarrow> to_ascii_lowercase a = to_ascii_lowercase b"

lemmas ascii_defs = is_ascii_digit_def is_ascii_uppercase_def is_ascii_lowercase_def
  is_ascii_alphanumeric_def is_ascii_byte_def is_ascii_control_def is_ascii_whitespace_def

lemma byte_lt_256 [simp]: "byte c < 256"
  using nat_of_char_less_256 [of c] by (simp add: byte_def)

lemma byte_inject [simp]: "byte a = byte b \<longleftrightarrow> a = b"
  by (simp add: byte_def)

lemma byte_char_of: "n < 256 \<Longrightarrow> byte (char_of n) = n"
  by (simp add: byte_def)

lemma byte_ascii_lower: "byte (ascii_lower c) = (if is_ascii_uppercase c then byte c + 32 else byte c)"
  by (auto simp: ascii_lower_def is_ascii_uppercase_def byte_char_of)

lemma ascii_lower_idem [simp]: "ascii_lower (ascii_lower c) = ascii_lower c"
  by (auto simp: ascii_lower_def is_ascii_uppercase_def byte_char_of)

lemma ascii_lower_not_upper [simp]: "\<not> is_ascii_uppercase (ascii_lower c)"
  by (auto simp: is_ascii_uppercase_def byte_ascii_lower)

lemma to_ascii_lowercase_idem [simp]:
  "to_ascii_lowercase (to_ascii_lowercase s) = to_ascii_lowercase s"
  by (simp add: to_ascii_lowercase_def comp_def)

lemma to_ascii_lowercase_no_upper: "list_all (\<lambda>c. \<not> is_ascii_uppercase c) (to_ascii_lowercase s)"
  by (simp add: to_ascii_lowercase_def list.pred_map list_all_iff)

lemma length_to_ascii_lowercase [simp]: "length (to_ascii_lowercase s) = length s"
  by (simp add: to_ascii_lowercase_def)

lemma eq_ignore_ascii_case_refl [simp]: "eq_ignore_ascii_case s s"
  by (simp add: eq_ignore_ascii_case_def)

section \<open>UTF-8\<close>

text \<open>
  The ranges of the continuation bytes that must follow a leading byte; \<open>None\<close> for a byte
  that cannot start a code point (overlong forms, surrogates and code points beyond
  \<open>U+10FFFF\<close> are excluded by the first range).
\<close>

definition utf8_lead :: "nat \<Rightarrow> (nat \<times> nat) list option" where
  "utf8_lead b =
     (if b < 128 then Some []
      else if 194 \<le> b \<and> b \<le> 223 then Some [(128, 191)]
      else if b = 224 then Some [(160, 191), (128, 191)]
      else if b = 237 then Some [(128, 159), (128, 191)]
      else if 225 \<le> b \<and> b \<le> 239 then Some [(128, 191), (128, 191)]
      else if b = 240 then Some [(144, 191), (128, 191), (128, 191)]
      else if 241 \<le> b \<and> b \<le> 243 then Some [(128, 191), (128, 191), (128, 191)]
      else if b = 244 then Some [(128, 143), (128, 191), (128, 191)]
      else None)"

fun utf8_run :: "(nat \<times> nat) list \<Rightarrow> string \<Rightarrow> bool" where
  "utf8_run [] [] = True"
| "utf8_run (r # rs) [] = False"
| "utf8_run ((lo, hi) # rs) (c # cs) = (lo \<le> byte c \<and> byte c \<le> hi \<and> utf8_run rs cs)"
| "utf8_run [] (c # cs) =
     (case utf8_lead (byte c) of None \<Rightarrow> False | Some rs \<Rightarrow> utf8_run rs cs)"

definition from_utf8_ok :: "string \<Rightarrow> bool" where
  "from_utf8_ok s = utf8_run [] s"

lemma utf8_lead_lt: "utf8_lead b = Some rs \<Longrightarrow> b < 245 \<and> (\<forall>(lo, hi) \<in> set rs. hi < 245)"
  by (auto simp: utf8_lead_def split: if_splits)

lemma utf8_run_lt:
  "utf8_run rs s \<Longrightarrow> \<forall>(lo, hi) \<in> set rs. hi < 245 \<Longrightarrow> \<forall>c \<in> set s. byte c < 245"
proof (induction rs s rule: utf8_run.induct)
  case (4 c cs)
  then obtain rs where rs: "utf8_lead (byte c) = Some rs" "utf8_run rs cs"
    by (auto split: option.splits)
  from utf8_lead_lt [OF rs(1)] have "byte c < 245" "\<forall>(lo, hi) \<in> set rs. hi < 245" by auto
  with "4.IH" rs show ?case by auto
qed auto

text \<open>The byte \<open>0xff\<close>, which \<open>Hasher::write_str\<close> appends, never occurs in a \<open>str\<close>.\<close>

lemma from_utf8_ok_no_ff: "from_utf8_ok s \<Longrightarrow> CHR 0xFF \<notin> set s"
proof
  assume "from_utf8_ok s" and "CHR 0xFF \<in> set s"
  then have "byte (CHR 0xFF) < 245"
    using utf8_run_lt [of "[]" s] by (simp add: from_utf8_ok_def)
  then show False by (simp add: byte_def)
qed

lemma utf8_run_ascii: "list_all is_ascii_byte s \<Longrightarrow> utf8_run [] s"
  by (induction s) (auto simp: utf8_lead_def is_ascii_byte_def)

lemma from_utf8_ok_ascii: "list_all is_ascii_byte s \<Longrightarrow> from_utf8_ok s"
  by (simp add: from_utf8_ok_def utf8_run_ascii)

section \<open>Trimming\<close>

text \<open>The UTF-8 encodings of the code points with the property \<open>White_Space\<close>.\<close>

definition white_space :: "string list" where
  "white_space = map (map char_of)
     ([[9], [10], [11], [12], [13], [32], [194, 133], [194, 160], [225, 154, 128],
       [226, 128, 168], [226, 128, 169], [226, 128, 175], [226, 129, 159], [227, 128, 128]]
      @ map (\<lambda>b. [226, 128, b]) [128, 129, 130, 131, 132, 133, 134, 135, 136, 137, (138::nat)])"

definition match_len :: "string list \<Rightarrow> string \<Rightarrow> nat" where
  "match_len pats s =
     (case find (\<lambda>p. take (length p) s = p) pats of None \<Rightarrow> 0 | Some p \<Rightarrow> length p)"

fun strip_by :: "string list \<Rightarrow> nat \<Rightarrow> string \<Rightarrow> string" where
  "strip_by pats 0 s = s"
| "strip_by pats (Suc n) s =
     (if match_len pats s = 0 then s else strip_by pats n (drop (match_len pats s) s))"

text \<open>A string of \<open>n\<close> bytes begins with at most \<open>n\<close> white-space code points.\<close>

definition trim_start :: "string \<Rightarrow> string" where
  "trim_start s = strip_by white_space (length s) s"

definition trim_end :: "string \<Rightarrow> string" where
  "trim_end s = rev (strip_by (map rev white_space) (length s) (rev s))"

definition str_trim :: "string \<Rightarrow> string" where
  "str_trim s = trim_end (trim_start s)"

lemma set_strip_by: "set (strip_by pats n s) \<subseteq> set s"
proof (induction n arbitrary: s)
  case 0
  then show ?case by simp
next
  case (Suc n)
  have "set (strip_by pats n (drop k s)) \<subseteq> set s" for k
    using Suc.IH [of "drop k s"] set_drop_subset [of k s] by blast
  then show ?case by simp
qed

lemma set_str_trim: "set (str_trim s) \<subseteq> set s"
  using set_strip_by [of white_space "length s" s]
    set_strip_by [of "map rev white_space" "length (trim_start s)" "rev (trim_start s)"]
  by (auto simp: str_trim_def trim_end_def trim_start_def)

lemma length_strip_by: "length (strip_by pats n s) \<le> length s"
proof (induction n arbitrary: s)
  case 0
  then show ?case by simp
next
  case (Suc n)
  have "length (strip_by pats n (drop k s)) \<le> length s" for k
    using Suc.IH [of "drop k s"] by simp
  then show ?case by simp
qed

text \<open>
  The fuel is enough: after as many rounds as there are bytes no white space is left in
  front, because every round that goes on removes at least one byte.
\<close>

lemma match_len_nonempty: "match_len pats [] = 0"
  by (auto simp: match_len_def find_Some_iff split: option.splits)

lemma strip_by_done: "length s \<le> n \<Longrightarrow> match_len pats (strip_by pats n s) = 0"
proof (induction n arbitrary: s)
  case 0
  then show ?case by (simp add: match_len_nonempty)
next
  case (Suc n)
  show ?case
  proof (cases "match_len pats s = 0")
    case True
    then show ?thesis by simp
  next
    case False
    with Suc.prems have "length (drop (match_len pats s) s) \<le> n" by simp
    with Suc.IH False show ?thesis by simp
  qed
qed

lemma trim_start_done: "match_len white_space (trim_start s) = 0"
  by (simp add: trim_start_def strip_by_done)

lemma trim_end_done: "match_len (map rev white_space) (rev (trim_end s)) = 0"
  by (simp add: trim_end_def strip_by_done)

text \<open>A string without white space is not changed by trimming.\<close>

lemma match_len_zeroI:
  "(\<And>p. p \<in> set pats \<Longrightarrow> \<exists>c \<in> set p. c \<notin> set s) \<Longrightarrow> match_len pats s = 0"
proof -
  assume *: "\<And>p. p \<in> set pats \<Longrightarrow> \<exists>c \<in> set p. c \<notin> set s"
  have "find (\<lambda>p. take (length p) s = p) pats = None"
    unfolding find_None_iff using * set_take_subset by (metis subsetD)
  then show ?thesis by (simp add: match_len_def)
qed

lemma strip_by_same: "match_len pats s = 0 \<Longrightarrow> strip_by pats n s = s"
  by (cases n) simp_all

definition no_white_space_byte :: "string \<Rightarrow> bool" where
  "no_white_space_byte s \<longleftrightarrow> list_all (\<lambda>c. byte c \<notin> {9, 10, 11, 12, 13, 32} \<and> byte c < 128) s"

lemma white_space_bytes:
  "p \<in> set white_space \<Longrightarrow> \<exists>c \<in> set p. byte c \<in> {9, 10, 11, 12, 13, 32} \<or> 128 \<le> byte c"
  by (auto simp: white_space_def byte_def)

lemma str_trim_id: "no_white_space_byte s \<Longrightarrow> str_trim s = s"
proof -
  assume no: "no_white_space_byte s"
  have out: "\<exists>c \<in> set p. c \<notin> set s" if "p \<in> set white_space" for p
    using white_space_bytes [OF that] no unfolding no_white_space_byte_def list_all_iff
    by (metis linorder_not_le)
  have "match_len white_space s = 0" by (rule match_len_zeroI) (rule out)
  moreover have "match_len (map rev white_space) (rev s) = 0"
    by (rule match_len_zeroI) (use out in force)
  ultimately show ?thesis
    by (simp add: str_trim_def trim_start_def trim_end_def strip_by_same)
qed

section \<open>Splitting\<close>

fun str_split :: "char \<Rightarrow> string \<Rightarrow> string list" where
  "str_split d [] = [[]]"
| "str_split d (c # cs) =
     (if c = d then [] # str_split d cs
      else (case str_split d cs of [] \<Rightarrow> [[c]] | w # ws \<Rightarrow> (c # w) # ws))"

fun split_once :: "char \<Rightarrow> string \<Rightarrow> (string \<times> string) option" where
  "split_once d [] = None"
| "split_once d (c # cs) =
     (if c = d then Some ([], cs)
      else map_option (\<lambda>(a, b). (c # a, b)) (split_once d cs))"

fun split_once_str :: "string \<Rightarrow> string \<Rightarrow> (string \<times> string) option" where
  "split_once_str d [] = (if d = [] then Some ([], []) else None)"
| "split_once_str d (c # cs) =
     (if take (length d) (c # cs) = d then Some ([], drop (length d) (c # cs))
      else map_option (\<lambda>(a, b). (c # a, b)) (split_once_str d cs))"

definition strip_prefix :: "string \<Rightarrow> string \<Rightarrow> string option" where
  "strip_prefix p s = (if take (length p) s = p then Some (drop (length p) s) else None)"

definition starts_with :: "string \<Rightarrow> string \<Rightarrow> bool" where
  "starts_with s p \<longleftrightarrow> take (length p) s = p"

definition ends_with :: "string \<Rightarrow> string \<Rightarrow> bool" where
  "ends_with s p \<longleftrightarrow> length p \<le> length s \<and> drop (length s - length p) s = p"

definition trim_start_matches :: "char \<Rightarrow> string \<Rightarrow> string" where
  "trim_start_matches d s = dropWhile (\<lambda>c. c = d) s"

definition trim_end_matches :: "char \<Rightarrow> string \<Rightarrow> string" where
  "trim_end_matches d s = rev (dropWhile (\<lambda>c. c = d) (rev s))"

text \<open>\<open>split_ascii_whitespace\<close>: the maximal non-empty runs of other bytes.\<close>

fun words_ws :: "string \<Rightarrow> string \<Rightarrow> string list" where
  "words_ws w [] = (if w = [] then [] else [rev w])"
| "words_ws w (c # cs) =
     (if is_ascii_whitespace c then (if w = [] then words_ws [] cs else rev w # words_ws [] cs)
      else words_ws (c # w) cs)"

definition split_ascii_whitespace :: "string \<Rightarrow> string list" where
  "split_ascii_whitespace s = words_ws [] s"

lemma split_once_Some:
  "split_once d s = Some (a, b) \<longleftrightarrow> s = a @ d # b \<and> d \<notin> set a"
proof (induction s arbitrary: a)
  case Nil
  then show ?case by simp
next
  case (Cons c cs)
  show ?case
  proof (cases "c = d")
    case True
    then show ?thesis by (cases a) auto
  next
    case False
    show ?thesis
    proof (cases a)
      case Nil
      with False show ?thesis by (cases "split_once d cs") auto
    next
      case (Cons x a')
      have "split_once d (c # cs) = Some (a, b) \<longleftrightarrow> x = c \<and> split_once d cs = Some (a', b)"
        using False Cons by (cases "split_once d cs") auto
      with Cons.IH [of a'] False Cons show ?thesis by auto
    qed
  qed
qed

lemma split_once_None: "split_once d s = None \<longleftrightarrow> d \<notin> set s"
  by (induction s) auto

lemma strip_prefix_Some: "strip_prefix p s = Some r \<longleftrightarrow> s = p @ r"
  by (auto simp: strip_prefix_def) (metis append_take_drop_id)

lemma str_split_nonempty [simp]: "str_split d s \<noteq> []"
  by (cases s) (auto split: list.splits)

lemma str_split_no_sep: "w \<in> set (str_split d s) \<Longrightarrow> d \<notin> set w"
proof (induction s arbitrary: w)
  case Nil
  then show ?case by simp
next
  case (Cons c cs)
  then show ?case
    by (cases "str_split d cs") (auto split: if_splits)
qed

lemma trim_end_matches_append [simp]: "trim_end_matches d (s @ [d]) = trim_end_matches d s"
  by (simp add: trim_end_matches_def)

lemma set_trim_start_matches: "set (trim_start_matches d s) \<subseteq> set s"
  by (auto simp: trim_start_matches_def dest: set_dropWhileD)

lemma set_trim_end_matches: "set (trim_end_matches d s) \<subseteq> set s"
  by (auto simp: trim_end_matches_def dest: set_dropWhileD)

section \<open>Decimal numbers\<close>

definition digit_char :: "nat \<Rightarrow> char" where
  "digit_char n = char_of (48 + n)"

fun show_nat :: "nat \<Rightarrow> string" where
  "show_nat n = (if n < 10 then [digit_char n] else show_nat (n div 10) @ [digit_char (n mod 10)])"

declare show_nat.simps [simp del]

definition digits_value :: "string \<Rightarrow> nat" where
  "digits_value s = foldl (\<lambda>acc c. 10 * acc + (byte c - 48)) 0 s"

text \<open>
  \<open>str::parse\<close> for an unsigned type with the given maximum: an optional \<open>+\<close>, then at least
  one digit and nothing else; a value beyond the maximum is an error.
\<close>

definition parse_unsigned :: "nat \<Rightarrow> string \<Rightarrow> nat option" where
  "parse_unsigned mx s =
     (let body = (case s of [] \<Rightarrow> [] | c # cs \<Rightarrow> if c = CHR ''+'' then cs else s)
      in if body \<noteq> [] \<and> list_all is_ascii_digit body \<and> digits_value body \<le> mx
         then Some (digits_value body) else None)"

definition parse_u64 :: "string \<Rightarrow> u64 option" where
  "parse_u64 s = map_option of_nat (parse_unsigned u64_max s)"

lemma byte_digit_char: "n < 10 \<Longrightarrow> byte (digit_char n) = 48 + n"
  by (simp add: digit_char_def byte_char_of)

lemma digits_value_snoc [simp]: "digits_value (s @ [c]) = 10 * digits_value s + (byte c - 48)"
  by (simp add: digits_value_def)

lemma show_nat_nonempty [simp]: "show_nat n \<noteq> []"
  by (subst show_nat.simps) simp

lemma show_nat_digits: "list_all is_ascii_digit (show_nat n)"
proof (induction n rule: show_nat.induct)
  case (1 n)
  show ?case
  proof (cases "n < 10")
    case True
    then show ?thesis by (subst show_nat.simps) (simp add: is_ascii_digit_def byte_digit_char)
  next
    case False
    have "is_ascii_digit (digit_char (n mod 10))"
      using mod_less_divisor [of 10 n] by (simp add: is_ascii_digit_def byte_digit_char)
    with False 1 show ?thesis by (subst show_nat.simps) simp
  qed
qed

lemma digits_value_show_nat [simp]: "digits_value (show_nat n) = n"
proof (induction n rule: show_nat.induct)
  case (1 n)
  show ?case
  proof (cases "n < 10")
    case True
    then show ?thesis
      by (subst show_nat.simps) (simp add: digits_value_def byte_digit_char)
  next
    case False
    with 1 show ?thesis by (subst show_nat.simps) (simp add: byte_digit_char)
  qed
qed

lemma length_show_nat: "n < 10 ^ k \<Longrightarrow> 0 < k \<Longrightarrow> length (show_nat n) \<le> k"
proof (induction n arbitrary: k rule: show_nat.induct)
  case (1 n)
  show ?case
  proof (cases "n < 10")
    case True
    with 1(3) show ?thesis by (subst show_nat.simps) simp
  next
    case False
    with 1(2) obtain k' where k: "k = Suc k'" "0 < k'" by (cases k; cases "k - 1") auto
    have "n div 10 < 10 ^ k'" using 1(2) k by (simp add: less_mult_imp_div_less mult.commute)
    with 1(1) [of k'] False k show ?thesis by (subst show_nat.simps) simp
  qed
qed

lemma show_nat_inject [simp]: "show_nat m = show_nat n \<longleftrightarrow> m = n"
  using digits_value_show_nat by metis

lemma hd_show_nat: "show_nat n = c # cs \<Longrightarrow> is_ascii_digit c"
  using show_nat_digits [of n] by simp

lemma plus_not_digit: "\<not> is_ascii_digit (CHR ''+'')"
  by (simp add: is_ascii_digit_def byte_def)

lemma parse_show_nat: "n \<le> mx \<Longrightarrow> parse_unsigned mx (show_nat n) = Some n"
proof -
  assume le: "n \<le> mx"
  obtain c cs where s: "show_nat n = c # cs"
    using show_nat_nonempty [of n] by (cases "show_nat n") auto
  with hd_show_nat plus_not_digit have "c \<noteq> CHR ''+''" by blast
  with s have "(case show_nat n of [] \<Rightarrow> [] | c # cs \<Rightarrow> if c = CHR ''+'' then cs else show_nat n)
      = show_nat n" by simp
  then show ?thesis using le show_nat_digits [of n]
    by (simp add: parse_unsigned_def Let_def)
qed

lemma parse_unsigned_le: "parse_unsigned mx s = Some n \<Longrightarrow> n \<le> mx"
  by (auto simp: parse_unsigned_def Let_def split: if_splits)

lemma parse_u64_show: "parse_u64 (show_nat (unat v)) = Some v"
proof -
  have "unat v \<le> u64_max" using unat_u64_lt [of v] by (simp add: u64_max_def)
  then show ?thesis by (simp add: parse_u64_def parse_show_nat)
qed

section \<open>Environment variables\<close>

text \<open>The three results of \<open>std::env::var\<close>.\<close>

datatype env_var = Env_Value string | Env_NotPresent | Env_NotUnicode

end
