(* ===== verification/Account_Types.thy ===== *)
theory Account_Types
  imports Rust_Strings
begin

text \<open>
  The data of \<open>src/src/account_management.rs\<close>: identifiers, timestamps, plan codes, status
  enumerations, account limits, usage deltas and snapshots, the error types, the conversions
  between Rust integers and database columns, and the normalisation of caller-supplied text.
  The lemmas are the round trips between a value and its database form, the well-formedness
  every constructor establishes, and that a normalised string is a fixed point of its
  normalisation.
\<close>

section \<open>Errors\<close>

datatype EntityKind = Entity_Account | Entity_Workspace | Entity_ApiKey | Entity_DeviceCredential

text \<open>
  A \<open>rusqlite::Error\<close>, as far as the code looks at it: \<open>is_constraint_violation\<close> tells a
  constraint failure from every other failure.
\<close>

datatype rusqlite_error = ConstraintViolation | SqliteOther nat

datatype AccountManagementError =
    Database rusqlite_error
  | Io nat
  | Entropy nat
  | InvalidInput string
  | NotFound EntityKind
  | Conflict string
  | UnsupportedSchemaVersion int
  | InsecureDatabasePath string
  | InsecureDatabasePermissions nat
  | InsecureSecretPath string
  | InsecureSecretPermissions nat
  | InvalidSecretLength nat nat
  | CorruptData string
  | CounterOverflow
  | StatePoisoned
  | CredentialGenerationExhausted

definition is_constraint_violation :: "rusqlite_error \<Rightarrow> bool" where
  "is_constraint_violation e \<longleftrightarrow> e = ConstraintViolation"

section \<open>Identifiers\<close>

datatype AccountId = AccountId (account_id_as_i64: int)
datatype WorkspaceId = WorkspaceId (workspace_id_as_i64: int)
datatype ApiKeyId = ApiKeyId (api_key_id_as_i64: int)
datatype DeviceCredentialId = DeviceCredentialId (device_credential_id_as_i64: int)

definition AccountId_from_database :: "int \<Rightarrow> (AccountId, AccountManagementError) result" where
  "AccountId_from_database v =
     (if v \<le> 0 then Err (CorruptData ''AccountId must be positive'') else Ok (AccountId v))"

definition WorkspaceId_from_database :: "int \<Rightarrow> (WorkspaceId, AccountManagementError) result" where
  "WorkspaceId_from_database v =
     (if v \<le> 0 then Err (CorruptData ''WorkspaceId must be positive'') else Ok (WorkspaceId v))"

definition ApiKeyId_from_database :: "int \<Rightarrow> (ApiKeyId, AccountManagementError) result" where
  "ApiKeyId_from_database v =
     (if v \<le> 0 then Err (CorruptData ''ApiKeyId must be positive'') else Ok (ApiKeyId v))"

definition DeviceCredentialId_from_database ::
    "int \<Rightarrow> (DeviceCredentialId, AccountManagementError) result" where
  "DeviceCredentialId_from_database v =
     (if v \<le> 0 then Err (CorruptData ''DeviceCredentialId must be positive'')
      else Ok (DeviceCredentialId v))"

lemmas from_database_id_defs = AccountId_from_database_def WorkspaceId_from_database_def
  ApiKeyId_from_database_def DeviceCredentialId_from_database_def

section \<open>Timestamps\<close>

datatype UnixTimestamp = UnixTimestamp (timestamp_as_i64: int)

definition UnixTimestamp_new :: "int \<Rightarrow> (UnixTimestamp, AccountManagementError) result" where
  "UnixTimestamp_new seconds =
     (if seconds < 0 then Err (InvalidInput ''timestamp must not be negative'')
      else Ok (UnixTimestamp seconds))"

text \<open>
  \<open>now\<close> takes what \<open>SystemTime::now().duration_since(UNIX_EPOCH)\<close> returned: the seconds
  since the epoch, or nothing when the clock is before it.
\<close>

definition UnixTimestamp_now :: "u64 option \<Rightarrow> (UnixTimestamp, AccountManagementError) result" where
  "UnixTimestamp_now elapsed =
     and_then (ok_or (InvalidInput ''system clock predates Unix epoch'') elapsed) (\<lambda>secs.
     and_then (ok_or CounterOverflow (i64_try_from_u64 secs)) (\<lambda>seconds.
     Ok (UnixTimestamp seconds)))"

text \<open>\<open>mod\<close> with a positive divisor is \<open>rem_euclid\<close>.\<close>

definition UnixTimestamp_period_start_now ::
    "u64 \<Rightarrow> u64 option \<Rightarrow> (UnixTimestamp, AccountManagementError) result" where
  "UnixTimestamp_period_start_now period_secs elapsed =
     and_then (ok_or CounterOverflow (i64_try_from_u64 period_secs)) (\<lambda>period_seconds.
     if period_seconds = 0
     then Err (InvalidInput ''usage period must contain at least one second'')
     else and_then (UnixTimestamp_now elapsed) (\<lambda>t.
       let now = timestamp_as_i64 t in Ok (UnixTimestamp (now - now mod period_seconds))))"

text \<open>
  A quota period is a window: its start is a multiple of the period length, and the clock
  reading lies in it.
\<close>

lemma period_start_window:
  assumes "UnixTimestamp_period_start_now period (Some secs) = Ok t"
  shows "timestamp_as_i64 t \<le> int (unat secs)"
    and "int (unat secs) < timestamp_as_i64 t + int (unat period)"
    and "int (unat period) dvd timestamp_as_i64 t"
    and "0 \<le> timestamp_as_i64 t"
proof -
  from assms have p: "0 < int (unat period)" and
    t: "timestamp_as_i64 t = int (unat secs) - int (unat secs) mod int (unat period)"
    by (auto simp: UnixTimestamp_period_start_now_def UnixTimestamp_now_def Let_def u64_simps
        less_le split: if_splits)
  show "timestamp_as_i64 t \<le> int (unat secs)" using p t by simp
  show "int (unat secs) < timestamp_as_i64 t + int (unat period)" using p t by simp
  show "int (unat period) dvd timestamp_as_i64 t" unfolding t by (rule dvd_minus_mod)
  show "0 \<le> timestamp_as_i64 t"
    unfolding t minus_mod_eq_mult_div using p by (simp add: pos_imp_zdiv_nonneg_iff)
qed

section \<open>Plan codes and statuses\<close>

datatype PlanCode = PlanCode (plan_as_str: string)

definition plan_code_byte :: "char \<Rightarrow> bool" where
  "plan_code_byte c \<longleftrightarrow> is_ascii_alphanumeric c \<or> c \<in> set ''-_.''"

definition PlanCode_new :: "string \<Rightarrow> (PlanCode, AccountManagementError) result" where
  "PlanCode_new value =
     (let value = str_trim value in
      if value = [] \<or> length value > 64 \<or> \<not> list_all plan_code_byte value
      then Err (InvalidInput
        ''plan code must be 1-64 ASCII letters, digits, dots, dashes, or underscores'')
      else Ok (PlanCode value))"

datatype AccountStatus = Account_Active | Account_Suspended | Account_Closed

fun AccountStatus_as_database_value :: "AccountStatus \<Rightarrow> string" where
  "AccountStatus_as_database_value Account_Active = ''active''"
| "AccountStatus_as_database_value Account_Suspended = ''suspended''"
| "AccountStatus_as_database_value Account_Closed = ''closed''"

definition AccountStatus_from_database :: "string \<Rightarrow> (AccountStatus, AccountManagementError) result" where
  "AccountStatus_from_database value =
     (if value = ''active'' then Ok Account_Active
      else if value = ''suspended'' then Ok Account_Suspended
      else if value = ''closed'' then Ok Account_Closed
      else Err (CorruptData ''unknown account status''))"

datatype WorkspaceStatus = Workspace_Active | Workspace_Suspended | Workspace_Closed

fun WorkspaceStatus_as_database_value :: "WorkspaceStatus \<Rightarrow> string" where
  "WorkspaceStatus_as_database_value Workspace_Active = ''active''"
| "WorkspaceStatus_as_database_value Workspace_Suspended = ''suspended''"
| "WorkspaceStatus_as_database_value Workspace_Closed = ''closed''"

definition WorkspaceStatus_from_database ::
    "string \<Rightarrow> (WorkspaceStatus, AccountManagementError) result" where
  "WorkspaceStatus_from_database value =
     (if value = ''active'' then Ok Workspace_Active
      else if value = ''suspended'' then Ok Workspace_Suspended
      else if value = ''closed'' then Ok Workspace_Closed
      else Err (CorruptData ''unknown workspace status''))"

datatype CredentialStatus = Credential_Active | Credential_Revoked

fun CredentialStatus_as_database_value :: "CredentialStatus \<Rightarrow> string" where
  "CredentialStatus_as_database_value Credential_Active = ''active''"
| "CredentialStatus_as_database_value Credential_Revoked = ''revoked''"

definition CredentialStatus_from_database ::
    "string \<Rightarrow> (CredentialStatus, AccountManagementError) result" where
  "CredentialStatus_from_database value =
     (if value = ''active'' then Ok Credential_Active
      else if value = ''revoked'' then Ok Credential_Revoked
      else Err (CorruptData ''unknown credential status''))"

lemma AccountStatus_roundtrip [simp]:
  "AccountStatus_from_database (AccountStatus_as_database_value s) = Ok s"
  by (cases s) (simp_all add: AccountStatus_from_database_def)

lemma WorkspaceStatus_roundtrip [simp]:
  "WorkspaceStatus_from_database (WorkspaceStatus_as_database_value s) = Ok s"
  by (cases s) (simp_all add: WorkspaceStatus_from_database_def)

lemma CredentialStatus_roundtrip [simp]:
  "CredentialStatus_from_database (CredentialStatus_as_database_value s) = Ok s"
  by (cases s) (simp_all add: CredentialStatus_from_database_def)

lemma PlanCode_new_idem: "PlanCode_new v = Ok p \<Longrightarrow> PlanCode_new (plan_as_str p) = Ok p"
proof -
  assume "PlanCode_new v = Ok p"
  then have p: "plan_as_str p \<noteq> []" "length (plan_as_str p) \<le> 64"
    "list_all plan_code_byte (plan_as_str p)"
    by (auto simp: PlanCode_new_def Let_def split: if_splits)
  have "no_white_space_byte (plan_as_str p)"
    using p(3) unfolding no_white_space_byte_def
    by (rule list.pred_mono_strong) (auto simp: plan_code_byte_def ascii_defs byte_def)
  with p show ?thesis by (cases p) (simp add: PlanCode_new_def str_trim_id)
qed

section \<open>Database integers\<close>

definition checked_database_counter :: "u64 \<Rightarrow> (int, AccountManagementError) result" where
  "checked_database_counter value = ok_or CounterOverflow (i64_try_from_u64 value)"

definition optional_nonzero_limit ::
    "u64 option \<Rightarrow> string \<Rightarrow> (u64 option, AccountManagementError) result" where
  "optional_nonzero_limit value description =
     (case value of
        Some v \<Rightarrow> and_then (checked_database_counter v) (\<lambda>_.
          if v \<noteq> 0 then Ok (Some v) else Err (InvalidInput description))
      | None \<Rightarrow> Ok None)"

definition optional_limit_to_database ::
    "u64 option \<Rightarrow> (int option, AccountManagementError) result" where
  "optional_limit_to_database value = transpose_option (map_option checked_database_counter value)"

definition positive_u32_from_database ::
    "int \<Rightarrow> string \<Rightarrow> (u32, AccountManagementError) result" where
  "positive_u32_from_database value description =
     and_then (ok_or (CorruptData description) (u32_try_from_i64 value)) (\<lambda>v.
     if v = 0 then Err (CorruptData description) else Ok v)"

definition optional_u64_from_database ::
    "int option \<Rightarrow> string \<Rightarrow> (u64 option, AccountManagementError) result" where
  "optional_u64_from_database value description =
     transpose_option (map_option (\<lambda>v.
       if v \<le> 0 then Err (CorruptData description)
       else ok_or (CorruptData description) (u64_try_from_i64 v)) value)"

definition nonnegative_u64_from_database ::
    "int \<Rightarrow> string \<Rightarrow> (u64, AccountManagementError) result" where
  "nonnegative_u64_from_database value description =
     ok_or (CorruptData description) (u64_try_from_i64 value)"

lemmas database_integer_defs = checked_database_counter_def optional_nonzero_limit_def
  optional_limit_to_database_def positive_u32_from_database_def optional_u64_from_database_def
  nonnegative_u64_from_database_def

lemma checked_database_counter_Ok:
  "checked_database_counter v = Ok i \<longleftrightarrow> i = int (unat v) \<and> int (unat v) \<le> i64_max"
  by (simp add: checked_database_counter_def u64_simps)

lemma nonnegative_u64_roundtrip:
  "checked_database_counter v = Ok i \<Longrightarrow> nonnegative_u64_from_database i d = Ok v"
  by (simp add: checked_database_counter_def nonnegative_u64_from_database_def)

section \<open>Account limits\<close>

text \<open>
  \<open>NonZeroU32\<close> and \<open>NonZeroU64\<close> fields are words; \<open>limits_wf\<close> states that they are not
  zero, and that the period limits fit an \<open>i64\<close> column.
\<close>

record AccountLimits =
  requests_per_second :: u32
  request_burst :: u32
  max_concurrent_tunnels :: u32
  period_request_limit :: "u64 option"
  period_byte_limit :: "u64 option"

record DatabaseLimitValues =
  db_requests_per_second :: int
  db_request_burst :: int
  db_max_concurrent_tunnels :: int
  db_period_request_limit :: "int option"
  db_period_byte_limit :: "int option"

definition AccountLimits_new ::
    "u32 \<Rightarrow> u32 \<Rightarrow> u32 \<Rightarrow> u64 option \<Rightarrow> u64 option \<Rightarrow> (AccountLimits, AccountManagementError) result" where
  "AccountLimits_new rps burst tunnels prl pbl =
     (if rps = 0 then Err (InvalidInput ''requests per second must be non-zero'')
      else if burst = 0 then Err (InvalidInput ''request burst must be non-zero'')
      else if tunnels = 0 then Err (InvalidInput ''concurrent tunnel limit must be non-zero'')
      else and_then (optional_nonzero_limit prl ''period request limit'') (\<lambda>prl.
        and_then (optional_nonzero_limit pbl ''period byte limit'') (\<lambda>pbl.
        Ok \<lparr>requests_per_second = rps, request_burst = burst, max_concurrent_tunnels = tunnels,
             period_request_limit = prl, period_byte_limit = pbl\<rparr>)))"

definition AccountLimits_from_database ::
    "int \<Rightarrow> int \<Rightarrow> int \<Rightarrow> int option \<Rightarrow> int option \<Rightarrow> (AccountLimits, AccountManagementError) result" where
  "AccountLimits_from_database rps burst tunnels prl pbl =
     and_then (positive_u32_from_database rps ''requests per second'') (\<lambda>rps.
     and_then (positive_u32_from_database burst ''request burst'') (\<lambda>burst.
     and_then (positive_u32_from_database tunnels ''concurrent tunnel limit'') (\<lambda>tunnels.
     and_then (optional_u64_from_database prl ''period request limit'') (\<lambda>prl.
     and_then (optional_u64_from_database pbl ''period byte limit'') (\<lambda>pbl.
     map_err (\<lambda>_. CorruptData ''invalid stored account limits'')
       (AccountLimits_new rps burst tunnels prl pbl))))))"

definition AccountLimits_database_values ::
    "AccountLimits \<Rightarrow> (DatabaseLimitValues, AccountManagementError) result" where
  "AccountLimits_database_values l =
     and_then (optional_limit_to_database (period_request_limit l)) (\<lambda>prl.
     and_then (optional_limit_to_database (period_byte_limit l)) (\<lambda>pbl.
     Ok \<lparr>db_requests_per_second = uint (requests_per_second l),
          db_request_burst = uint (request_burst l),
          db_max_concurrent_tunnels = uint (max_concurrent_tunnels l),
          db_period_request_limit = prl,
          db_period_byte_limit = pbl\<rparr>))"

definition optional_limit_wf :: "u64 option \<Rightarrow> bool" where
  "optional_limit_wf v \<longleftrightarrow> (case v of None \<Rightarrow> True | Some n \<Rightarrow> n \<noteq> 0 \<and> uint n \<le> i64_max)"

definition limits_wf :: "AccountLimits \<Rightarrow> bool" where
  "limits_wf l \<longleftrightarrow> requests_per_second l \<noteq> 0 \<and> request_burst l \<noteq> 0 \<and> max_concurrent_tunnels l \<noteq> 0
     \<and> optional_limit_wf (period_request_limit l) \<and> optional_limit_wf (period_byte_limit l)"

lemma optional_nonzero_limit_Ok:
  "optional_nonzero_limit v d = Ok r \<longleftrightarrow> r = v \<and> optional_limit_wf v"
  by (cases v) (auto simp: optional_nonzero_limit_def optional_limit_wf_def
      checked_database_counter_Ok)

lemma AccountLimits_new_Ok:
  "AccountLimits_new rps burst tunnels prl pbl = Ok l \<longleftrightarrow>
     l = \<lparr>requests_per_second = rps, request_burst = burst, max_concurrent_tunnels = tunnels,
           period_request_limit = prl, period_byte_limit = pbl\<rparr> \<and> limits_wf l"
  by (auto simp: AccountLimits_new_def optional_nonzero_limit_Ok limits_wf_def)

lemma AccountLimits_from_database_wf:
  "AccountLimits_from_database a b c d e = Ok l \<Longrightarrow> limits_wf l"
  by (auto simp: AccountLimits_from_database_def AccountLimits_new_Ok)

lemma optional_limit_to_database_Ok:
  "optional_limit_wf v \<Longrightarrow> optional_limit_to_database v = Ok (map_option uint v)"
  by (cases v) (auto simp: optional_limit_to_database_def optional_limit_wf_def
      checked_database_counter_def i64_try_from_u64_def)

lemma word_ne_0_uint: "w \<noteq> 0 \<Longrightarrow> 0 < uint w"
  by (simp add: less_le uint_0_iff)

lemma optional_u64_from_database_Ok:
  "optional_limit_wf v \<Longrightarrow> optional_u64_from_database (map_option uint v) d = Ok v"
  by (cases v) (auto simp: optional_u64_from_database_def optional_limit_wf_def
      u64_try_from_i64_def dest: word_ne_0_uint)

lemma positive_u32_from_database_Ok:
  "w \<noteq> 0 \<Longrightarrow> positive_u32_from_database (uint w) d = Ok w"
  using unsigned_less [of w]
  by (auto simp: positive_u32_from_database_def u32_try_from_i64_def)

text \<open>Limits written to the database are read back unchanged.\<close>

lemma AccountLimits_roundtrip:
  assumes "limits_wf l"
  shows "\<exists>v. AccountLimits_database_values l = Ok v \<and>
     AccountLimits_from_database (db_requests_per_second v) (db_request_burst v)
       (db_max_concurrent_tunnels v) (db_period_request_limit v) (db_period_byte_limit v) = Ok l"
  using assms
  by (simp add: AccountLimits_database_values_def AccountLimits_from_database_def limits_wf_def
      optional_limit_to_database_Ok optional_u64_from_database_Ok positive_u32_from_database_Ok
      AccountLimits_new_Ok)

section \<open>Normalised text\<close>

definition email_components_valid :: "string \<Rightarrow> bool" where
  "email_components_valid value =
     (case str_split (CHR ''@'') value of
        [local_part, domain_part] \<Rightarrow> local_part \<noteq> [] \<and> domain_part \<noteq> []
      | _ \<Rightarrow> False)"

definition normalize_email :: "string \<Rightarrow> (string, AccountManagementError) result" where
  "normalize_email value =
     (let value = str_trim value in
      if \<not> email_components_valid value \<or> length value > 320
         \<or> \<not> list_all is_ascii_byte value
         \<or> list_ex (\<lambda>c. is_ascii_control c \<or> is_ascii_whitespace c) value
      then Err (InvalidInput ''email address is invalid'')
      else Ok (to_ascii_lowercase value))"

text \<open>
  \<open>char::is_control\<close> on a UTF-8 string: the ASCII controls, and the code points
  \<open>U+0080\<close> to \<open>U+009F\<close>, encoded as \<open>0xC2\<close> and a byte from \<open>0x80\<close> to \<open>0x9F\<close>.
\<close>

fun has_control :: "string \<Rightarrow> bool" where
  "has_control [] = False"
| "has_control [c] = is_ascii_control c"
| "has_control (c # d # cs) =
     (is_ascii_control c \<or> byte c = 194 \<and> 128 \<le> byte d \<and> byte d \<le> 159 \<or> has_control (d # cs))"

definition normalize_label_like ::
    "string \<Rightarrow> nat \<Rightarrow> string \<Rightarrow> (string, AccountManagementError) result" where
  "normalize_label_like value maximum_bytes error =
     (let value = str_trim value in
      if value = [] \<or> length value > maximum_bytes \<or> has_control value
         \<or> list_ex (\<lambda>c. byte c = 13 \<or> byte c = 10) value
      then Err (InvalidInput error)
      else Ok value)"

definition normalize_workspace_name :: "string \<Rightarrow> (string, AccountManagementError) result" where
  "normalize_workspace_name value = normalize_label_like value 128 ''workspace name is invalid''"

definition normalize_credential_label :: "string \<Rightarrow> (string, AccountManagementError) result" where
  "normalize_credential_label value = normalize_label_like value 64 ''credential label is invalid''"

definition stripe_id_byte :: "char \<Rightarrow> bool" where
  "stripe_id_byte c \<longleftrightarrow> is_ascii_alphanumeric c \<or> c \<in> set ''_-''"

definition normalize_stripe_customer_id ::
    "string option \<Rightarrow> (string option, AccountManagementError) result" where
  "normalize_stripe_customer_id value =
     transpose_option (map_option (\<lambda>v.
       let v = str_trim v in
       if v = [] \<or> length v > 255 \<or> \<not> list_all stripe_id_byte v
       then Err (InvalidInput ''Stripe customer identifier is invalid'')
       else Ok v) value)"

lemma str_split_lower:
  "d \<notin> {c. is_ascii_uppercase c \<or> is_ascii_lowercase c} \<Longrightarrow>
     str_split d (to_ascii_lowercase s) = map to_ascii_lowercase (str_split d s)"
proof (induction s)
  case Nil
  then show ?case by (simp add: to_ascii_lowercase_def)
next
  case (Cons c cs)
  have eq: "ascii_lower c = d \<longleftrightarrow> c = d"
  proof
    assume "ascii_lower c = d"
    with Cons.prems have "\<not> is_ascii_uppercase c"
      by (auto simp: ascii_lower_def is_ascii_lowercase_def is_ascii_uppercase_def byte_char_of)
    with \<open>ascii_lower c = d\<close> show "c = d" by (simp add: ascii_lower_def)
  qed (use Cons.prems in \<open>auto simp: ascii_lower_def\<close>)
  obtain w ws where split: "str_split d cs = w # ws"
    using str_split_nonempty [of d cs] by (cases "str_split d cs") auto
  have "str_split d (map ascii_lower cs) = map ascii_lower w # map (map ascii_lower) ws"
    using Cons split by (simp add: to_ascii_lowercase_def [abs_def])
  with split eq show ?case by (simp add: to_ascii_lowercase_def [abs_def])
qed

lemma email_components_valid_lower:
  "email_components_valid (to_ascii_lowercase s) = email_components_valid s"
proof -
  have "CHR ''@'' \<notin> {c. is_ascii_uppercase c \<or> is_ascii_lowercase c}"
    by (simp add: ascii_defs byte_def)
  then have "str_split (CHR ''@'') (to_ascii_lowercase s) =
      map to_ascii_lowercase (str_split (CHR ''@'') s)" by (rule str_split_lower)
  then show ?thesis
    by (auto simp: email_components_valid_def to_ascii_lowercase_def split: list.splits)
qed

lemma ascii_lower_control [simp]:
  "is_ascii_byte (ascii_lower c) = is_ascii_byte c"
  "is_ascii_control (ascii_lower c) = is_ascii_control c"
  "is_ascii_whitespace (ascii_lower c) = is_ascii_whitespace c"
  by (auto simp: is_ascii_byte_def is_ascii_control_def is_ascii_whitespace_def
      byte_ascii_lower is_ascii_uppercase_def)

text \<open>An accepted email address is stored in a canonical form: normalising it again changes nothing.\<close>

lemma normalize_email_idem: "normalize_email e = Ok e' \<Longrightarrow> normalize_email e' = Ok e'"
proof -
  assume "normalize_email e = Ok e'"
  then have e': "e' = to_ascii_lowercase (str_trim e)" and v: "email_components_valid (str_trim e)"
    "length (str_trim e) \<le> 320" "list_all is_ascii_byte (str_trim e)"
    "\<not> list_ex (\<lambda>c. is_ascii_control c \<or> is_ascii_whitespace c) (str_trim e)"
    by (auto simp: normalize_email_def Let_def split: if_splits)
  have w: "list_all is_ascii_byte e'"
    "\<not> list_ex (\<lambda>c. is_ascii_control c \<or> is_ascii_whitespace c) e'"
    using v(3,4) by (auto simp: e' to_ascii_lowercase_def list_all_iff list_ex_iff)
  then have "no_white_space_byte e'"
    by (auto simp: no_white_space_byte_def list_all_iff list_ex_iff ascii_defs)
  then have "str_trim e' = e'" by (rule str_trim_id)
  with v(1,2) w e' show ?thesis
    by (simp add: normalize_email_def email_components_valid_lower)
qed

lemma normalize_email_lower: "normalize_email e = Ok e' \<Longrightarrow> to_ascii_lowercase e' = e'"
  by (auto simp: normalize_email_def Let_def split: if_splits)

section \<open>Records\<close>

record AccountRecord =
  account_record_id :: AccountId
  account_record_email :: string
  account_record_stripe_customer_id :: "string option"
  account_record_plan :: PlanCode
  account_record_status :: AccountStatus
  account_record_limits :: AccountLimits

record WorkspaceRecord =
  workspace_record_id :: WorkspaceId
  workspace_record_account_id :: AccountId
  workspace_record_name :: string
  workspace_record_status :: WorkspaceStatus

record ApiKeyMetadata =
  key_meta_id :: ApiKeyId
  key_meta_public_id :: string
  key_meta_label :: string
  key_meta_status :: CredentialStatus
  key_meta_created_at :: UnixTimestamp
  key_meta_revoked_at :: "UnixTimestamp option"

record DeviceCredentialMetadata =
  device_meta_id :: DeviceCredentialId
  device_meta_label :: string
  device_meta_status :: CredentialStatus
  device_meta_created_at :: UnixTimestamp
  device_meta_revoked_at :: "UnixTimestamp option"

record IngressIdentity =
  identity_account_id :: AccountId
  identity_workspace_id :: WorkspaceId
  identity_api_key_id :: ApiKeyId
  identity_device_credential_id :: DeviceCredentialId
  identity_limits :: AccountLimits

record UsageDelta =
  delta_requests :: u64
  delta_bytes_to_tor :: u64
  delta_bytes_from_tor :: u64

record UsageSnapshot =
  snapshot_account_id :: AccountId
  snapshot_workspace_id :: WorkspaceId
  snapshot_period_start :: UnixTimestamp
  snapshot_requests_used :: u64
  snapshot_bytes_to_tor :: u64
  snapshot_bytes_from_tor :: u64

definition UsageDelta_new ::
    "u64 \<Rightarrow> u64 \<Rightarrow> u64 \<Rightarrow> (UsageDelta, AccountManagementError) result" where
  "UsageDelta_new requests to_tor from_tor =
     and_then (checked_database_counter requests) (\<lambda>_.
     and_then (checked_database_counter to_tor) (\<lambda>_.
     and_then (checked_database_counter from_tor) (\<lambda>_.
     and_then (ok_or CounterOverflow (checked_add to_tor from_tor)) (\<lambda>_.
     Ok \<lparr>delta_requests = requests, delta_bytes_to_tor = to_tor,
          delta_bytes_from_tor = from_tor\<rparr>))))"

definition UsageDelta_total_bytes :: "UsageDelta \<Rightarrow> (u64, AccountManagementError) result" where
  "UsageDelta_total_bytes d =
     ok_or CounterOverflow (checked_add (delta_bytes_to_tor d) (delta_bytes_from_tor d))"

definition UsageSnapshot_total_bytes :: "UsageSnapshot \<Rightarrow> (u64, AccountManagementError) result" where
  "UsageSnapshot_total_bytes s =
     ok_or CounterOverflow (checked_add (snapshot_bytes_to_tor s) (snapshot_bytes_from_tor s))"

text \<open>A delta that was accepted has a byte total: the error of \<open>total_bytes\<close> is unreachable.\<close>

lemma UsageDelta_new_total:
  assumes "UsageDelta_new r a b = Ok d"
  shows "UsageDelta_total_bytes d = Ok (a + b)"
  using assms
  by (auto simp: UsageDelta_new_def UsageDelta_total_bytes_def u64_simps)

end
