(* ===== verification/Account_Database.thy ===== *)
theory Account_Database
  imports Account_Types "HOL-Library.Product_Lexorder"
begin

text \<open>
  The SQLite account store of \<open>src/src/account_management.rs\<close>: the schema (\<open>SCHEMA_SQL\<close>) as
  tables of row records with its CHECK, UNIQUE and FOREIGN KEY constraints, the SQL
  statements of the source as functions on those tables, transactions with rollback, and
  one definition per method of \<open>AccountDatabase\<close>.

  A connection carries the tables and a schedule of faults: the \<open>k\<close>-th statement sent to
  SQLite fails with the error \<open>faults k\<close> names, if it names one, whatever the statement is.
  Every theorem about an operation therefore also covers an I/O error at any point of it.
\<close>

section \<open>Schema\<close>

record accounts_row =
  a_id :: int
  a_email :: string
  a_stripe_customer_id :: "string option"
  a_plan :: string
  a_status :: string
  a_created_at :: int
  a_updated_at :: int

record account_limits_row =
  l_account_id :: int
  l_values :: DatabaseLimitValues
  l_updated_at :: int

record workspaces_row =
  w_id :: int
  w_account_id :: int
  w_name :: string
  w_status :: string
  w_created_at :: int
  w_updated_at :: int

record api_keys_row =
  k_id :: int
  k_public_id :: string
  k_account_id :: int
  k_workspace_id :: int
  k_label :: string
  k_key_hash_version :: int
  k_key_hash :: string
  k_status :: string
  k_created_at :: int
  k_revoked_at :: "int option"

record device_credentials_row =
  d_id :: int
  d_account_id :: int
  d_workspace_id :: int
  d_label :: string
  d_certificate_fingerprint :: string
  d_status :: string
  d_created_at :: int
  d_revoked_at :: "int option"

record usage_periods_row =
  u_account_id :: int
  u_workspace_id :: int
  u_period_start :: int
  u_requests_used :: int
  u_bytes_to_tor :: int
  u_bytes_from_tor :: int

text \<open>The \<open>seq\<close> fields are the \<open>AUTOINCREMENT\<close> counters (\<open>sqlite_sequence\<close>).\<close>

record tables =
  accounts :: "accounts_row list"
  account_limits :: "account_limits_row list"
  workspaces :: "workspaces_row list"
  api_keys :: "api_keys_row list"
  device_credentials :: "device_credentials_row list"
  usage_periods :: "usage_periods_row list"
  seq_accounts :: int
  seq_workspaces :: int
  seq_api_keys :: int
  seq_device_credentials :: int

definition empty_tables :: tables where
  "empty_tables = \<lparr>accounts = [], account_limits = [], workspaces = [], api_keys = [],
     device_credentials = [], usage_periods = [], seq_accounts = 0, seq_workspaces = 0,
     seq_api_keys = 0, seq_device_credentials = 0\<rparr>"

definition account_row_check :: "accounts_row \<Rightarrow> bool" where
  "account_row_check r \<longleftrightarrow>
     a_status r \<in> {''active'', ''suspended'', ''closed''} \<and> 0 \<le> a_created_at r \<and> 0 \<le> a_updated_at r"

definition limits_row_check :: "account_limits_row \<Rightarrow> bool" where
  "limits_row_check r \<longleftrightarrow>
     0 < db_requests_per_second (l_values r) \<and> 0 < db_request_burst (l_values r)
     \<and> 0 < db_max_concurrent_tunnels (l_values r)
     \<and> pred_option (\<lambda>v. 0 < v) (db_period_request_limit (l_values r))
     \<and> pred_option (\<lambda>v. 0 < v) (db_period_byte_limit (l_values r))
     \<and> 0 \<le> l_updated_at r"

definition workspace_row_check :: "workspaces_row \<Rightarrow> bool" where
  "workspace_row_check r \<longleftrightarrow>
     w_status r \<in> {''active'', ''suspended'', ''closed''} \<and> 0 \<le> w_created_at r \<and> 0 \<le> w_updated_at r"

definition api_key_row_check :: "api_keys_row \<Rightarrow> bool" where
  "api_key_row_check r \<longleftrightarrow> length (k_key_hash r) = 32 \<and> k_status r \<in> {''active'', ''revoked''}
     \<and> 0 \<le> k_created_at r \<and> pred_option (\<lambda>v. 0 \<le> v) (k_revoked_at r)"

definition device_row_check :: "device_credentials_row \<Rightarrow> bool" where
  "device_row_check r \<longleftrightarrow> length (d_certificate_fingerprint r) = 32
     \<and> d_status r \<in> {''active'', ''revoked''}
     \<and> 0 \<le> d_created_at r \<and> pred_option (\<lambda>v. 0 \<le> v) (d_revoked_at r)"

definition usage_row_check :: "usage_periods_row \<Rightarrow> bool" where
  "usage_row_check r \<longleftrightarrow> 0 \<le> u_period_start r \<and> 0 \<le> u_requests_used r
     \<and> 0 \<le> u_bytes_to_tor r \<and> 0 \<le> u_bytes_from_tor r"

text \<open>Foreign keys: \<open>accounts(id)\<close> and \<open>workspaces(id, account_id)\<close>.\<close>

definition account_exists :: "tables \<Rightarrow> int \<Rightarrow> bool" where
  "account_exists t i \<longleftrightarrow> list_ex (\<lambda>r. a_id r = i) (accounts t)"

definition workspace_scope_exists :: "tables \<Rightarrow> int \<Rightarrow> int \<Rightarrow> bool" where
  "workspace_scope_exists t w a \<longleftrightarrow> list_ex (\<lambda>r. w_id r = w \<and> w_account_id r = a) (workspaces t)"

section \<open>Statements\<close>

type_synonym 'a statement = "tables \<Rightarrow> ('a \<times> tables, rusqlite_error) result"

definition next_rowid :: "int \<Rightarrow> (int, rusqlite_error) result" where
  "next_rowid s = (if s < i64_max then Ok (s + 1) else Err (SqliteOther 13))"

text \<open>\<open>INSERT INTO accounts\<close>, with the \<open>UNIQUE\<close> constraints on the email (\<open>COLLATE NOCASE\<close>) and on the
  Stripe identifier (\<open>NULL\<close>s are distinct). The result is \<open>last_insert_rowid\<close>.\<close>

definition insert_account ::
    "string \<Rightarrow> string option \<Rightarrow> string \<Rightarrow> int \<Rightarrow> int statement" where
  "insert_account email stripe plan now t =
     and_then (next_rowid (seq_accounts t)) (\<lambda>i.
     let row = \<lparr>a_id = i, a_email = email, a_stripe_customer_id = stripe, a_plan = plan,
                a_status = ''active'', a_created_at = now, a_updated_at = now\<rparr> in
     if account_row_check row
        \<and> \<not> list_ex (\<lambda>r. eq_ignore_ascii_case (a_email r) email) (accounts t)
        \<and> \<not> list_ex (\<lambda>r. stripe \<noteq> None \<and> a_stripe_customer_id r = stripe) (accounts t)
     then Ok (i, t\<lparr>accounts := accounts t @ [row], seq_accounts := i\<rparr>)
     else Err ConstraintViolation)"

definition insert_account_limits :: "int \<Rightarrow> DatabaseLimitValues \<Rightarrow> int \<Rightarrow> unit statement" where
  "insert_account_limits account_id v now t =
     (let row = \<lparr>l_account_id = account_id, l_values = v, l_updated_at = now\<rparr> in
      if limits_row_check row \<and> account_exists t account_id
         \<and> \<not> list_ex (\<lambda>r. l_account_id r = account_id) (account_limits t)
      then Ok ((), t\<lparr>account_limits := account_limits t @ [row]\<rparr>)
      else Err ConstraintViolation)"

definition insert_workspace :: "int \<Rightarrow> string \<Rightarrow> int \<Rightarrow> int statement" where
  "insert_workspace account_id name now t =
     and_then (next_rowid (seq_workspaces t)) (\<lambda>i.
     let row = \<lparr>w_id = i, w_account_id = account_id, w_name = name, w_status = ''active'',
                w_created_at = now, w_updated_at = now\<rparr> in
     if workspace_row_check row \<and> account_exists t account_id
        \<and> \<not> list_ex (\<lambda>r. w_account_id r = account_id \<and> w_name r = name) (workspaces t)
     then Ok (i, t\<lparr>workspaces := workspaces t @ [row], seq_workspaces := i\<rparr>)
     else Err ConstraintViolation)"

definition insert_api_key_row ::
    "string \<Rightarrow> int \<Rightarrow> int \<Rightarrow> string \<Rightarrow> int \<Rightarrow> string \<Rightarrow> int \<Rightarrow> int statement" where
  "insert_api_key_row public_id account_id workspace_id label version hash now t =
     and_then (next_rowid (seq_api_keys t)) (\<lambda>i.
     let row = \<lparr>k_id = i, k_public_id = public_id, k_account_id = account_id,
                k_workspace_id = workspace_id, k_label = label, k_key_hash_version = version,
                k_key_hash = hash, k_status = ''active'', k_created_at = now,
                k_revoked_at = None\<rparr> in
     if api_key_row_check row \<and> account_exists t account_id
        \<and> workspace_scope_exists t workspace_id account_id
        \<and> \<not> list_ex (\<lambda>r. k_public_id r = public_id) (api_keys t)
     then Ok (i, t\<lparr>api_keys := api_keys t @ [row], seq_api_keys := i\<rparr>)
     else Err ConstraintViolation)"

definition insert_device_credential ::
    "int \<Rightarrow> int \<Rightarrow> string \<Rightarrow> string \<Rightarrow> int \<Rightarrow> int statement" where
  "insert_device_credential account_id workspace_id label fingerprint now t =
     and_then (next_rowid (seq_device_credentials t)) (\<lambda>i.
     let row = \<lparr>d_id = i, d_account_id = account_id, d_workspace_id = workspace_id,
                d_label = label, d_certificate_fingerprint = fingerprint, d_status = ''active'',
                d_created_at = now, d_revoked_at = None\<rparr> in
     if device_row_check row \<and> account_exists t account_id
        \<and> workspace_scope_exists t workspace_id account_id
        \<and> \<not> list_ex (\<lambda>r. d_certificate_fingerprint r = fingerprint) (device_credentials t)
     then Ok (i, t\<lparr>device_credentials := device_credentials t @ [row],
                   seq_device_credentials := i\<rparr>)
     else Err ConstraintViolation)"

text \<open>\<open>INSERT ... ON CONFLICT (account_id, workspace_id, period_start) DO UPDATE\<close>.\<close>

definition usage_key :: "usage_periods_row \<Rightarrow> int \<times> int \<times> int" where
  "usage_key r = (u_account_id r, u_workspace_id r, u_period_start r)"

definition upsert_usage :: "usage_periods_row \<Rightarrow> unit statement" where
  "upsert_usage row t =
     (if usage_row_check row \<and> account_exists t (u_account_id row)
         \<and> workspace_scope_exists t (u_workspace_id row) (u_account_id row)
      then Ok ((), t\<lparr>usage_periods :=
             (if list_ex (\<lambda>r. usage_key r = usage_key row) (usage_periods t)
              then map (\<lambda>r. if usage_key r = usage_key row then row else r) (usage_periods t)
              else usage_periods t @ [row])\<rparr>)
      else Err ConstraintViolation)"

text \<open>\<open>UPDATE ... SET ... WHERE ...\<close> on one table: the number of changed rows and the new rows.\<close>

definition update_where ::
    "('r \<Rightarrow> bool) \<Rightarrow> ('r \<Rightarrow> 'r) \<Rightarrow> ('r \<Rightarrow> bool) \<Rightarrow> 'r list \<Rightarrow> (nat \<times> 'r list, rusqlite_error) result" where
  "update_where p f check rows =
     (if list_all (\<lambda>r. p r \<longrightarrow> check (f r)) rows
      then Ok (length (filter p rows), map (\<lambda>r. if p r then f r else r) rows)
      else Err ConstraintViolation)"

definition update_account_status :: "int \<Rightarrow> string \<Rightarrow> int \<Rightarrow> nat statement" where
  "update_account_status account_id status now t =
     and_then (update_where (\<lambda>r. a_id r = account_id \<and> a_status r \<noteq> status)
         (\<lambda>r. r\<lparr>a_status := status, a_updated_at := now\<rparr>) account_row_check (accounts t))
       (\<lambda>(n, rows). Ok (n, t\<lparr>accounts := rows\<rparr>))"

definition update_account_plan :: "int \<Rightarrow> string \<Rightarrow> int \<Rightarrow> nat statement" where
  "update_account_plan account_id plan now t =
     and_then (update_where (\<lambda>r. a_id r = account_id)
         (\<lambda>r. r\<lparr>a_plan := plan, a_updated_at := now\<rparr>) account_row_check (accounts t))
       (\<lambda>(n, rows). Ok (n, t\<lparr>accounts := rows\<rparr>))"

definition update_account_limits :: "int \<Rightarrow> DatabaseLimitValues \<Rightarrow> int \<Rightarrow> nat statement" where
  "update_account_limits account_id v now t =
     and_then (update_where (\<lambda>r. l_account_id r = account_id)
         (\<lambda>r. r\<lparr>l_values := v, l_updated_at := now\<rparr>) limits_row_check (account_limits t))
       (\<lambda>(n, rows). Ok (n, t\<lparr>account_limits := rows\<rparr>))"

definition update_stripe_customer_id :: "int \<Rightarrow> string option \<Rightarrow> int \<Rightarrow> nat statement" where
  "update_stripe_customer_id account_id stripe now t =
     and_then (update_where (\<lambda>r. a_id r = account_id)
         (\<lambda>r. r\<lparr>a_stripe_customer_id := stripe, a_updated_at := now\<rparr>)
         (\<lambda>r. account_row_check r \<and>
            \<not> list_ex (\<lambda>q. a_id q \<noteq> a_id r \<and> stripe \<noteq> None \<and> a_stripe_customer_id q = stripe)
              (accounts t)) (accounts t))
       (\<lambda>(n, rows). Ok (n, t\<lparr>accounts := rows\<rparr>))"

definition update_workspace_status :: "int \<Rightarrow> string \<Rightarrow> int \<Rightarrow> nat statement" where
  "update_workspace_status workspace_id status now t =
     and_then (update_where (\<lambda>r. w_id r = workspace_id \<and> w_status r \<noteq> status)
         (\<lambda>r. r\<lparr>w_status := status, w_updated_at := now\<rparr>) workspace_row_check (workspaces t))
       (\<lambda>(n, rows). Ok (n, t\<lparr>workspaces := rows\<rparr>))"

definition update_revoke_api_key :: "int \<Rightarrow> int \<Rightarrow> nat statement" where
  "update_revoke_api_key api_key_id now t =
     and_then (update_where (\<lambda>r. k_id r = api_key_id \<and> k_status r = ''active'')
         (\<lambda>r. r\<lparr>k_status := ''revoked'', k_revoked_at := Some now\<rparr>) api_key_row_check (api_keys t))
       (\<lambda>(n, rows). Ok (n, t\<lparr>api_keys := rows\<rparr>))"

definition update_revoke_device :: "int \<Rightarrow> int \<Rightarrow> nat statement" where
  "update_revoke_device device_id now t =
     and_then (update_where (\<lambda>r. d_id r = device_id \<and> d_status r = ''active'')
         (\<lambda>r. r\<lparr>d_status := ''revoked'', d_revoked_at := Some now\<rparr>) device_row_check
         (device_credentials t))
       (\<lambda>(n, rows). Ok (n, t\<lparr>device_credentials := rows\<rparr>))"

text \<open>A query leaves the tables as they are.\<close>

definition select_stmt :: "(tables \<Rightarrow> 'a) \<Rightarrow> 'a statement" where
  "select_stmt f t = Ok (f t, t)"

section \<open>Connections and transactions\<close>

record connection =
  tbls :: tables
  clock :: nat
  faults :: "nat \<Rightarrow> nat option"
  poisoned :: bool

type_synonym ('a, 'e) dbm = "connection \<Rightarrow> ('a, 'e) result \<times> connection"

definition db_return :: "'a \<Rightarrow> ('a, 'e) dbm" where
  "db_return x c = (Ok x, c)"

definition db_lift :: "('a, 'e) result \<Rightarrow> ('a, 'e) dbm" where
  "db_lift r c = (r, c)"

definition db_bind :: "('a, 'e) dbm \<Rightarrow> ('a \<Rightarrow> ('b, 'e) dbm) \<Rightarrow> ('b, 'e) dbm" where
  "db_bind m f c = (case m c of (Inl e, c') \<Rightarrow> (Err e, c') | (Inr x, c') \<Rightarrow> f x c')"

definition db_map_err :: "('e \<Rightarrow> 'f) \<Rightarrow> ('a, 'e) dbm \<Rightarrow> ('a, 'f) dbm" where
  "db_map_err g m c = (case m c of (r, c') \<Rightarrow> (map_err g r, c'))"

definition run_statement :: "'a statement \<Rightarrow> ('a, rusqlite_error) dbm" where
  "run_statement s c =
     (let c' = c\<lparr>clock := Suc (clock c)\<rparr> in
      case faults c (clock c) of
        Some n \<Rightarrow> (Err (SqliteOther n), c')
      | None \<Rightarrow>
          (case s (tbls c) of
             Inl e \<Rightarrow> (Err e, c')
           | Inr (x, t) \<Rightarrow> (Ok x, c'\<lparr>tbls := t\<rparr>)))"

text \<open>The \<open>?\<close> operator on a statement: \<open>From<rusqlite::Error>\<close>.\<close>

definition sql :: "'a statement \<Rightarrow> ('a, AccountManagementError) dbm" where
  "sql s = db_map_err Database (run_statement s)"

text \<open>
  \<open>transaction_with_behavior(Immediate)\<close>, the body, \<open>commit\<close>. A transaction that is dropped
  before its commit succeeded rolls back: the tables are those at its start. \<open>wrap\<close> is the
  conversion the \<open>?\<close> operator applies to an error of the two statements.
\<close>

definition transaction ::
    "(AccountManagementError \<Rightarrow> 'e) \<Rightarrow> ('a, 'e) dbm \<Rightarrow> ('a, 'e) dbm" where
  "transaction wrap body c =
     (case sql (select_stmt (\<lambda>_. ())) c of
        (Inl e, c1) \<Rightarrow> (Err (wrap e), c1)
      | (Inr _, c1) \<Rightarrow>
          (case body c1 of
             (Inl e, c2) \<Rightarrow> (Err e, c2\<lparr>tbls := tbls c1\<rparr>)
           | (Inr x, c2) \<Rightarrow>
               (case sql (select_stmt (\<lambda>_. ())) c2 of
                  (Inl e, c3) \<Rightarrow> (Err (wrap e), c3\<lparr>tbls := tbls c1\<rparr>)
                | (Inr _, c3) \<Rightarrow> (Ok x, c3))))"

text \<open>\<open>AccountDatabase::connection\<close>: the mutex around the connection.\<close>

definition lock_connection :: "(unit, AccountManagementError) dbm" where
  "lock_connection c = (if poisoned c then (Err StatePoisoned, c) else (Ok (), c))"

section \<open>Helpers of the operations\<close>

definition record_exists :: "string \<Rightarrow> int \<Rightarrow> (bool, AccountManagementError) dbm" where
  "record_exists table i =
     (if table = ''accounts'' then sql (select_stmt (\<lambda>t. account_exists t i))
      else if table = ''workspaces''
        then sql (select_stmt (\<lambda>t. list_ex (\<lambda>r. w_id r = i) (workspaces t)))
      else if table = ''api_keys''
        then sql (select_stmt (\<lambda>t. list_ex (\<lambda>r. k_id r = i) (api_keys t)))
      else if table = ''device_credentials''
        then sql (select_stmt (\<lambda>t. list_ex (\<lambda>r. d_id r = i) (device_credentials t)))
      else db_lift (Err (InvalidInput ''unsupported account table'')))"

definition require_workspace_scope ::
    "AccountId \<Rightarrow> WorkspaceId \<Rightarrow> (unit, AccountManagementError) dbm" where
  "require_workspace_scope account_id workspace_id =
     db_bind (sql (select_stmt (\<lambda>t.
         workspace_scope_exists t (workspace_id_as_i64 workspace_id) (account_id_as_i64 account_id))))
       (\<lambda>found. if found then db_return () else db_lift (Err (NotFound Entity_Workspace)))"

record RawAccountRecord =
  raw_id :: int
  raw_email :: string
  raw_stripe_customer_id :: "string option"
  raw_plan :: string
  raw_status :: string
  raw_limits :: DatabaseLimitValues

definition account_record_from_raw ::
    "RawAccountRecord \<Rightarrow> (AccountRecord, AccountManagementError) result" where
  "account_record_from_raw raw =
     and_then (AccountId_from_database (raw_id raw)) (\<lambda>i.
     and_then (map_err (\<lambda>_. CorruptData ''invalid stored plan code'') (PlanCode_new (raw_plan raw)))
       (\<lambda>plan.
     and_then (AccountStatus_from_database (raw_status raw)) (\<lambda>status.
     and_then (AccountLimits_from_database
         (db_requests_per_second (raw_limits raw)) (db_request_burst (raw_limits raw))
         (db_max_concurrent_tunnels (raw_limits raw)) (db_period_request_limit (raw_limits raw))
         (db_period_byte_limit (raw_limits raw))) (\<lambda>limits.
     Ok \<lparr>account_record_id = i, account_record_email = raw_email raw,
          account_record_stripe_customer_id = raw_stripe_customer_id raw,
          account_record_plan = plan, account_record_status = status,
          account_record_limits = limits\<rparr>))))"

text \<open>\<open>accounts a JOIN account_limits l ON l.account_id = a.id\<close>.\<close>

definition join_account_limits :: "tables \<Rightarrow> RawAccountRecord list" where
  "join_account_limits t =
     concat (map (\<lambda>a. map (\<lambda>l.
         \<lparr>raw_id = a_id a, raw_email = a_email a, raw_stripe_customer_id = a_stripe_customer_id a,
          raw_plan = a_plan a, raw_status = a_status a, raw_limits = l_values l\<rparr>)
       (filter (\<lambda>l. l_account_id l = a_id a) (account_limits t))) (accounts t))"

section \<open>Account operations\<close>

definition db_create_account ::
    "string \<Rightarrow> string option \<Rightarrow> PlanCode \<Rightarrow> AccountLimits \<Rightarrow> UnixTimestamp
      \<Rightarrow> (AccountRecord, AccountManagementError) dbm" where
  "db_create_account email stripe plan limits now =
     db_bind (db_lift (normalize_email email)) (\<lambda>email.
     db_bind (db_lift (normalize_stripe_customer_id stripe)) (\<lambda>stripe.
     db_bind (db_lift (AccountLimits_database_values limits)) (\<lambda>values.
     db_bind lock_connection (\<lambda>_.
     db_bind (transaction id (
       db_bind (db_map_err (\<lambda>e. if is_constraint_violation e
             then Conflict ''email or Stripe customer identifier already exists''
             else Database e)
           (run_statement (insert_account email stripe (plan_as_str plan) (timestamp_as_i64 now))))
         (\<lambda>rowid.
       db_bind (db_lift (AccountId_from_database rowid)) (\<lambda>account_id.
       db_bind (sql (insert_account_limits (account_id_as_i64 account_id) values
           (timestamp_as_i64 now))) (\<lambda>_.
       db_return account_id)))))
     (\<lambda>account_id.
     db_return \<lparr>account_record_id = account_id, account_record_email = email,
       account_record_stripe_customer_id = stripe, account_record_plan = plan,
       account_record_status = Account_Active, account_record_limits = limits\<rparr>)))))"

definition db_account :: "AccountId \<Rightarrow> (AccountRecord, AccountManagementError) dbm" where
  "db_account account_id =
     db_bind lock_connection (\<lambda>_.
     db_bind (sql (select_stmt (\<lambda>t.
         find (\<lambda>r. raw_id r = account_id_as_i64 account_id) (join_account_limits t)))) (\<lambda>raw.
     db_bind (db_lift (ok_or (NotFound Entity_Account) raw)) (\<lambda>raw.
     db_lift (account_record_from_raw raw))))"

definition db_account_by_email :: "string \<Rightarrow> (AccountRecord, AccountManagementError) dbm" where
  "db_account_by_email email =
     db_bind (db_lift (normalize_email email)) (\<lambda>email.
     db_bind lock_connection (\<lambda>_.
     db_bind (sql (select_stmt (\<lambda>t. map_option a_id
         (find (\<lambda>r. eq_ignore_ascii_case (a_email r) email) (accounts t))))) (\<lambda>found.
     db_bind (db_lift (and_then (ok_or (NotFound Entity_Account) found) AccountId_from_database))
       (\<lambda>account_id.
     db_account account_id))))"

definition db_account_by_stripe_customer_id ::
    "string \<Rightarrow> (AccountRecord, AccountManagementError) dbm" where
  "db_account_by_stripe_customer_id stripe =
     db_bind (db_lift (and_then (normalize_stripe_customer_id (Some stripe))
         (ok_or (InvalidInput ''Stripe customer identifier is required'')))) (\<lambda>stripe.
     db_bind lock_connection (\<lambda>_.
     db_bind (sql (select_stmt (\<lambda>t. map_option a_id
         (find (\<lambda>r. a_stripe_customer_id r = Some stripe) (accounts t))))) (\<lambda>found.
     db_bind (db_lift (and_then (ok_or (NotFound Entity_Account) found) AccountId_from_database))
       (\<lambda>account_id.
     db_account account_id))))"

definition db_list_accounts :: "(AccountRecord list, AccountManagementError) dbm" where
  "db_list_accounts =
     db_bind lock_connection (\<lambda>_.
     db_bind (sql (select_stmt (\<lambda>t. sort_key raw_id (join_account_limits t)))) (\<lambda>rows.
     db_lift (try_map account_record_from_raw rows)))"

definition db_set_account_status ::
    "AccountId \<Rightarrow> AccountStatus \<Rightarrow> UnixTimestamp \<Rightarrow> (bool, AccountManagementError) dbm" where
  "db_set_account_status account_id status now =
     db_bind lock_connection (\<lambda>_.
     db_bind (sql (update_account_status (account_id_as_i64 account_id)
         (AccountStatus_as_database_value status) (timestamp_as_i64 now))) (\<lambda>changed.
     if changed > 0 then db_return True
     else db_bind (record_exists ''accounts'' (account_id_as_i64 account_id)) (\<lambda>found.
       if found then db_return False else db_lift (Err (NotFound Entity_Account)))))"

definition db_update_account_plan_and_limits ::
    "AccountId \<Rightarrow> PlanCode \<Rightarrow> AccountLimits \<Rightarrow> UnixTimestamp \<Rightarrow> (unit, AccountManagementError) dbm" where
  "db_update_account_plan_and_limits account_id plan limits now =
     db_bind (db_lift (AccountLimits_database_values limits)) (\<lambda>values.
     db_bind lock_connection (\<lambda>_.
     transaction id (
       db_bind (sql (update_account_plan (account_id_as_i64 account_id) (plan_as_str plan)
           (timestamp_as_i64 now))) (\<lambda>changed.
       if changed = 0 then db_lift (Err (NotFound Entity_Account))
       else db_bind (sql (update_account_limits (account_id_as_i64 account_id) values
           (timestamp_as_i64 now))) (\<lambda>limits_changed.
         if limits_changed \<noteq> 1
         then db_lift (Err (CorruptData ''account is missing its limits record''))
         else db_return ())))))"

definition db_set_stripe_customer_id ::
    "AccountId \<Rightarrow> string option \<Rightarrow> UnixTimestamp \<Rightarrow> (unit, AccountManagementError) dbm" where
  "db_set_stripe_customer_id account_id stripe now =
     db_bind (db_lift (normalize_stripe_customer_id stripe)) (\<lambda>stripe.
     db_bind lock_connection (\<lambda>_.
     db_bind (db_map_err (\<lambda>e. if is_constraint_violation e
           then Conflict ''Stripe customer identifier already exists'' else Database e)
         (run_statement (update_stripe_customer_id (account_id_as_i64 account_id) stripe
           (timestamp_as_i64 now)))) (\<lambda>changed.
     if changed = 0 then db_lift (Err (NotFound Entity_Account)) else db_return ())))"

section \<open>Workspace operations\<close>

definition db_create_workspace ::
    "AccountId \<Rightarrow> string \<Rightarrow> UnixTimestamp \<Rightarrow> (WorkspaceRecord, AccountManagementError) dbm" where
  "db_create_workspace account_id name now =
     db_bind (db_lift (normalize_workspace_name name)) (\<lambda>name.
     db_bind lock_connection (\<lambda>_.
     db_bind (record_exists ''accounts'' (account_id_as_i64 account_id)) (\<lambda>found.
     if \<not> found then db_lift (Err (NotFound Entity_Account))
     else db_bind (db_map_err (\<lambda>e. if is_constraint_violation e
             then Conflict ''workspace name already exists for account'' else Database e)
           (run_statement (insert_workspace (account_id_as_i64 account_id) name
             (timestamp_as_i64 now)))) (\<lambda>rowid.
       db_bind (db_lift (WorkspaceId_from_database rowid)) (\<lambda>i.
       db_return \<lparr>workspace_record_id = i, workspace_record_account_id = account_id,
         workspace_record_name = name, workspace_record_status = Workspace_Active\<rparr>)))))"

definition db_workspace :: "WorkspaceId \<Rightarrow> (WorkspaceRecord, AccountManagementError) dbm" where
  "db_workspace workspace_id =
     db_bind lock_connection (\<lambda>_.
     db_bind (sql (select_stmt (\<lambda>t.
         find (\<lambda>r. w_id r = workspace_id_as_i64 workspace_id) (workspaces t)))) (\<lambda>raw.
     db_bind (db_lift (ok_or (NotFound Entity_Workspace) raw)) (\<lambda>row.
     db_lift (and_then (AccountId_from_database (w_account_id row)) (\<lambda>a.
       and_then (WorkspaceStatus_from_database (w_status row)) (\<lambda>s.
       Ok \<lparr>workspace_record_id = workspace_id, workspace_record_account_id = a,
            workspace_record_name = w_name row, workspace_record_status = s\<rparr>))))))"

definition db_list_workspaces :: "AccountId \<Rightarrow> (WorkspaceRecord list, AccountManagementError) dbm" where
  "db_list_workspaces account_id =
     db_bind lock_connection (\<lambda>_.
     db_bind (record_exists ''accounts'' (account_id_as_i64 account_id)) (\<lambda>found.
     if \<not> found then db_lift (Err (NotFound Entity_Account))
     else db_bind (sql (select_stmt (\<lambda>t. sort_key w_id
           (filter (\<lambda>r. w_account_id r = account_id_as_i64 account_id) (workspaces t))))) (\<lambda>rows.
       db_lift (try_map (\<lambda>row.
         and_then (WorkspaceId_from_database (w_id row)) (\<lambda>i.
         and_then (WorkspaceStatus_from_database (w_status row)) (\<lambda>s.
         Ok \<lparr>workspace_record_id = i, workspace_record_account_id = account_id,
              workspace_record_name = w_name row, workspace_record_status = s\<rparr>))) rows))))"

definition db_set_workspace_status ::
    "WorkspaceId \<Rightarrow> WorkspaceStatus \<Rightarrow> UnixTimestamp \<Rightarrow> (bool, AccountManagementError) dbm" where
  "db_set_workspace_status workspace_id status now =
     db_bind lock_connection (\<lambda>_.
     db_bind (sql (update_workspace_status (workspace_id_as_i64 workspace_id)
         (WorkspaceStatus_as_database_value status) (timestamp_as_i64 now))) (\<lambda>changed.
     if changed > 0 then db_return True
     else db_bind (record_exists ''workspaces'' (workspace_id_as_i64 workspace_id)) (\<lambda>found.
       if found then db_return False else db_lift (Err (NotFound Entity_Workspace)))))"

section \<open>Credential operations\<close>

definition API_KEY_HASH_VERSION :: int where
  "API_KEY_HASH_VERSION = 1"

record GeneratedApiKey =
  generated_public_id :: string
  generated_secret :: string
  generated_digest :: string

definition db_insert_api_key ::
    "AccountId \<Rightarrow> WorkspaceId \<Rightarrow> string \<Rightarrow> GeneratedApiKey \<Rightarrow> UnixTimestamp
      \<Rightarrow> (ApiKeyId, AccountManagementError) dbm" where
  "db_insert_api_key account_id workspace_id label generated now =
     db_bind (db_lift (normalize_credential_label label)) (\<lambda>label.
     db_bind lock_connection (\<lambda>_.
     db_bind (require_workspace_scope account_id workspace_id) (\<lambda>_.
     db_bind (sql (insert_api_key_row (generated_public_id generated)
         (account_id_as_i64 account_id) (workspace_id_as_i64 workspace_id) label
         API_KEY_HASH_VERSION (generated_digest generated) (timestamp_as_i64 now))) (\<lambda>rowid.
     db_lift (ApiKeyId_from_database rowid)))))"

definition db_rotate_api_key ::
    "ApiKeyId \<Rightarrow> GeneratedApiKey \<Rightarrow> UnixTimestamp \<Rightarrow> (ApiKeyId, AccountManagementError) dbm" where
  "db_rotate_api_key old_api_key_id generated now =
     db_bind lock_connection (\<lambda>_.
     transaction id (
       db_bind (sql (select_stmt (\<lambda>t.
           find (\<lambda>r. k_id r = api_key_id_as_i64 old_api_key_id) (api_keys t)))) (\<lambda>old.
       db_bind (db_lift (ok_or (NotFound Entity_ApiKey) old)) (\<lambda>old.
       db_bind (db_lift (CredentialStatus_from_database (k_status old))) (\<lambda>status.
       if status \<noteq> Credential_Active
       then db_lift (Err (Conflict ''only an active API key can be rotated''))
       else db_bind (sql (insert_api_key_row (generated_public_id generated)
             (k_account_id old) (k_workspace_id old) (k_label old)
             API_KEY_HASH_VERSION (generated_digest generated) (timestamp_as_i64 now))) (\<lambda>rowid.
         db_bind (db_lift (ApiKeyId_from_database rowid)) (\<lambda>new_api_key_id.
         db_bind (sql (update_revoke_api_key (api_key_id_as_i64 old_api_key_id)
             (timestamp_as_i64 now))) (\<lambda>changed.
         if changed \<noteq> 1
         then db_lift (Err (Conflict ''API key changed while it was being rotated''))
         else db_return new_api_key_id))))))))"

definition db_revoke_api_key ::
    "ApiKeyId \<Rightarrow> UnixTimestamp \<Rightarrow> (bool, AccountManagementError) dbm" where
  "db_revoke_api_key api_key_id now =
     db_bind lock_connection (\<lambda>_.
     db_bind (sql (update_revoke_api_key (api_key_id_as_i64 api_key_id) (timestamp_as_i64 now)))
       (\<lambda>changed.
     if changed > 0 then db_return True
     else db_bind (record_exists ''api_keys'' (api_key_id_as_i64 api_key_id)) (\<lambda>found.
       if found then db_return False else db_lift (Err (NotFound Entity_ApiKey)))))"

definition db_list_api_keys ::
    "AccountId \<Rightarrow> WorkspaceId \<Rightarrow> (ApiKeyMetadata list, AccountManagementError) dbm" where
  "db_list_api_keys account_id workspace_id =
     db_bind lock_connection (\<lambda>_.
     db_bind (require_workspace_scope account_id workspace_id) (\<lambda>_.
     db_bind (sql (select_stmt (\<lambda>t. sort_key k_id
         (filter (\<lambda>r. k_account_id r = account_id_as_i64 account_id
                    \<and> k_workspace_id r = workspace_id_as_i64 workspace_id) (api_keys t))))) (\<lambda>rows.
     db_lift (try_map (\<lambda>row.
       and_then (ApiKeyId_from_database (k_id row)) (\<lambda>i.
       and_then (CredentialStatus_from_database (k_status row)) (\<lambda>s.
       and_then (map_err (\<lambda>_. CorruptData ''invalid key timestamp'')
           (UnixTimestamp_new (k_created_at row))) (\<lambda>created.
       and_then (map_err (\<lambda>_. CorruptData ''invalid key revocation timestamp'')
           (transpose_option (map_option UnixTimestamp_new (k_revoked_at row)))) (\<lambda>revoked.
       Ok \<lparr>key_meta_id = i, key_meta_public_id = k_public_id row, key_meta_label = k_label row,
            key_meta_status = s, key_meta_created_at = created,
            key_meta_revoked_at = revoked\<rparr>))))) rows))))"

definition db_register_device_credential ::
    "AccountId \<Rightarrow> WorkspaceId \<Rightarrow> string \<Rightarrow> string \<Rightarrow> UnixTimestamp
      \<Rightarrow> (DeviceCredentialMetadata, AccountManagementError) dbm" where
  "db_register_device_credential account_id workspace_id fingerprint label now =
     db_bind (db_lift (normalize_credential_label label)) (\<lambda>label.
     db_bind lock_connection (\<lambda>_.
     db_bind (require_workspace_scope account_id workspace_id) (\<lambda>_.
     db_bind (db_map_err (\<lambda>e. if is_constraint_violation e
           then Conflict ''certificate fingerprint is already registered'' else Database e)
         (run_statement (insert_device_credential (account_id_as_i64 account_id)
           (workspace_id_as_i64 workspace_id) label fingerprint (timestamp_as_i64 now)))) (\<lambda>rowid.
     db_bind (db_lift (DeviceCredentialId_from_database rowid)) (\<lambda>i.
     db_return \<lparr>device_meta_id = i, device_meta_label = label,
       device_meta_status = Credential_Active, device_meta_created_at = now,
       device_meta_revoked_at = None\<rparr>)))))"

definition db_revoke_device_credential ::
    "DeviceCredentialId \<Rightarrow> UnixTimestamp \<Rightarrow> (bool, AccountManagementError) dbm" where
  "db_revoke_device_credential device_id now =
     db_bind lock_connection (\<lambda>_.
     db_bind (sql (update_revoke_device (device_credential_id_as_i64 device_id)
         (timestamp_as_i64 now))) (\<lambda>changed.
     if changed > 0 then db_return True
     else db_bind (record_exists ''device_credentials'' (device_credential_id_as_i64 device_id))
       (\<lambda>found.
       if found then db_return False else db_lift (Err (NotFound Entity_DeviceCredential)))))"

definition db_list_device_credentials ::
    "AccountId \<Rightarrow> WorkspaceId \<Rightarrow> (DeviceCredentialMetadata list, AccountManagementError) dbm" where
  "db_list_device_credentials account_id workspace_id =
     db_bind lock_connection (\<lambda>_.
     db_bind (require_workspace_scope account_id workspace_id) (\<lambda>_.
     db_bind (sql (select_stmt (\<lambda>t. sort_key d_id
         (filter (\<lambda>r. d_account_id r = account_id_as_i64 account_id
                    \<and> d_workspace_id r = workspace_id_as_i64 workspace_id)
           (device_credentials t))))) (\<lambda>rows.
     db_lift (try_map (\<lambda>row.
       and_then (DeviceCredentialId_from_database (d_id row)) (\<lambda>i.
       and_then (CredentialStatus_from_database (d_status row)) (\<lambda>s.
       and_then (map_err (\<lambda>_. CorruptData ''invalid device timestamp'')
           (UnixTimestamp_new (d_created_at row))) (\<lambda>created.
       and_then (map_err (\<lambda>_. CorruptData ''invalid device revocation timestamp'')
           (transpose_option (map_option UnixTimestamp_new (d_revoked_at row)))) (\<lambda>revoked.
       Ok \<lparr>device_meta_id = i, device_meta_label = d_label row, device_meta_status = s,
            device_meta_created_at = created, device_meta_revoked_at = revoked\<rparr>))))) rows))))"

section \<open>Inversion rules\<close>

named_theorems dbm_simps \<open>what a computation returned, step by step\<close>

lemma db_return_iff [dbm_simps]: "db_return x c = (r, c') \<longleftrightarrow> r = Ok x \<and> c' = c"
  by (auto simp: db_return_def)

lemma db_lift_iff [dbm_simps]: "db_lift v c = (r, c') \<longleftrightarrow> v = r \<and> c' = c"
  by (auto simp: db_lift_def)

lemma db_bind_Err [dbm_simps]:
  "db_bind m f c = (Inl e, c') \<longleftrightarrow>
     m c = (Inl e, c') \<or> (\<exists>x c1. m c = (Inr x, c1) \<and> f x c1 = (Inl e, c'))"
  by (cases "m c"; cases "fst (m c)") (auto simp: db_bind_def)

lemma db_bind_Ok [dbm_simps]:
  "db_bind m f c = (Inr y, c') \<longleftrightarrow> (\<exists>x c1. m c = (Inr x, c1) \<and> f x c1 = (Inr y, c'))"
  by (cases "m c"; cases "fst (m c)") (auto simp: db_bind_def)

lemma db_map_err_Err [dbm_simps]:
  "db_map_err g m c = (Inl e, c') \<longleftrightarrow> (\<exists>d. m c = (Inl d, c') \<and> e = g d)"
  by (cases "m c") (auto simp: db_map_err_def)

lemma db_map_err_Ok [dbm_simps]: "db_map_err g m c = (Inr x, c') \<longleftrightarrow> m c = (Inr x, c')"
  by (cases "m c") (auto simp: db_map_err_def)

lemma lock_connection_Ok [dbm_simps]: "lock_connection c = (Inr u, c') \<longleftrightarrow> \<not> poisoned c \<and> c' = c"
  by (auto simp: lock_connection_def)

text \<open>The connection after a statement: its clock has advanced, and its tables are the new ones.\<close>

definition after :: "tables \<Rightarrow> connection \<Rightarrow> connection" where
  "after t c = c\<lparr>clock := Suc (clock c), tbls := t\<rparr>"

lemma after_sel [simp]:
  "tbls (after t c) = t" "clock (after t c) = Suc (clock c)"
  "faults (after t c) = faults c" "poisoned (after t c) = poisoned c"
  by (simp_all add: after_def)

lemma run_statement_Ok [dbm_simps]:
  "run_statement s c = (Inr x, c') \<longleftrightarrow> faults c (clock c) = None
     \<and> (\<exists>t. s (tbls c) = Inr (x, t) \<and> c' = after t c)"
  by (auto simp: run_statement_def after_def Let_def split: option.splits sum.splits)

lemma run_statement_Err:
  "run_statement s c = (Inl e, c') \<Longrightarrow> tbls c' = tbls c"
  by (auto simp: run_statement_def Let_def split: option.splits sum.splits)

lemma sql_Ok [dbm_simps]:
  "sql s c = (Inr x, c') \<longleftrightarrow> faults c (clock c) = None
     \<and> (\<exists>t. s (tbls c) = Inr (x, t) \<and> c' = after t c)"
  by (simp add: sql_def dbm_simps)

lemma select_stmt_Ok [dbm_simps]: "select_stmt f t = Inr (x, t') \<longleftrightarrow> x = f t \<and> t' = t"
  by (auto simp: select_stmt_def)

lemma transaction_Ok [dbm_simps]:
  "transaction w m c = (Inr x, c') \<longleftrightarrow> faults c (clock c) = None
     \<and> (\<exists>c2. m (after (tbls c) c) = (Inr x, c2) \<and> faults c2 (clock c2) = None
            \<and> c' = after (tbls c2) c2)"
  by (cases "m (after (tbls c) c)"; cases "fst (m (after (tbls c) c))")
    (auto simp: transaction_def sql_def db_map_err_def run_statement_def select_stmt_def
      after_def Let_def split: option.splits)

end
