(* ===== verification/Account_Usage.thy ===== *)
theory Account_Usage
  imports Account_Database
begin

text \<open>
  Usage accounting of \<open>src/src/account_management.rs\<close>: reading a usage period, adding a delta
  to it (\<open>record_usage\<close>), adding a delta only within the quota (\<open>record_usage_if_allowed\<close>,
  \<open>check_usage_allowance\<close>) and admitting one request (\<open>admit_request\<close>).
\<close>

section \<open>Errors\<close>

datatype UsageQuotaError =
  RequestLimitReached | ByteLimitReached | QuotaCounterOverflow | ScopeMismatch

datatype UsageAdmissionError =
  Quota UsageQuotaError | UsageStorage AccountManagementError

section \<open>The quota check\<close>

definition check_usage_allowance ::
    "IngressIdentity \<Rightarrow> UsageSnapshot \<Rightarrow> UsageDelta \<Rightarrow> (unit, UsageQuotaError) result" where
  "check_usage_allowance identity snapshot proposed =
     (if snapshot_account_id snapshot \<noteq> identity_account_id identity
         \<or> snapshot_workspace_id snapshot \<noteq> identity_workspace_id identity
      then Err ScopeMismatch
      else and_then (ok_or QuotaCounterOverflow
          (checked_add (snapshot_requests_used snapshot) (delta_requests proposed)))
        (\<lambda>projected_requests.
      if (case period_request_limit (identity_limits identity) of
            Some limit \<Rightarrow> projected_requests > limit
              \<or> (delta_requests proposed > 0 \<and> snapshot_requests_used snapshot \<ge> limit)
          | None \<Rightarrow> False)
      then Err RequestLimitReached
      else and_then (ok_or QuotaCounterOverflow
          (checked_add (snapshot_bytes_to_tor snapshot) (snapshot_bytes_from_tor snapshot)))
        (\<lambda>current_bytes.
      and_then (ok_or QuotaCounterOverflow
          (checked_add (delta_bytes_to_tor proposed) (delta_bytes_from_tor proposed)))
        (\<lambda>proposed_bytes.
      and_then (ok_or QuotaCounterOverflow (checked_add current_bytes proposed_bytes))
        (\<lambda>projected_bytes.
      if (case period_byte_limit (identity_limits identity) of
            Some limit \<Rightarrow> projected_bytes > limit
              \<or> (delta_requests proposed > 0 \<and> current_bytes \<ge> limit)
          | None \<Rightarrow> False)
      then Err ByteLimitReached
      else Ok ())))))"

definition checked_usage_add :: "u64 \<Rightarrow> u64 \<Rightarrow> (u64, AccountManagementError) result" where
  "checked_usage_add current delta =
     and_then (ok_or CounterOverflow (checked_add current delta)) (\<lambda>result.
     and_then (checked_database_counter result) (\<lambda>_. Ok result))"

section \<open>Reading usage\<close>

definition select_usage :: "int \<Rightarrow> int \<Rightarrow> int \<Rightarrow> tables \<Rightarrow> (int \<times> int \<times> int) option" where
  "select_usage account_id workspace_id period_start t =
     map_option (\<lambda>r. (u_requests_used r, u_bytes_to_tor r, u_bytes_from_tor r))
       (find (\<lambda>r. usage_key r = (account_id, workspace_id, period_start)) (usage_periods t))"

definition usage_counters_from_row ::
    "(int \<times> int \<times> int) option \<Rightarrow> (u64 \<times> u64 \<times> u64, AccountManagementError) result" where
  "usage_counters_from_row stored =
     (let (r, a, b) = (case stored of None \<Rightarrow> (0, 0, 0) | Some v \<Rightarrow> v) in
      and_then (nonnegative_u64_from_database r ''requests used'') (\<lambda>r.
      and_then (nonnegative_u64_from_database a ''bytes to Tor'') (\<lambda>a.
      and_then (nonnegative_u64_from_database b ''bytes from Tor'') (\<lambda>b.
      Ok (r, a, b)))))"

definition usage_values ::
    "IngressIdentity \<Rightarrow> UnixTimestamp \<Rightarrow> (u64 \<times> u64 \<times> u64, AccountManagementError) dbm" where
  "usage_values identity period_start =
     db_bind (sql (select_stmt (select_usage
         (account_id_as_i64 (identity_account_id identity))
         (workspace_id_as_i64 (identity_workspace_id identity))
         (timestamp_as_i64 period_start)))) (\<lambda>stored.
     db_lift (usage_counters_from_row stored))"

definition db_usage_for_scope ::
    "AccountId \<Rightarrow> WorkspaceId \<Rightarrow> UnixTimestamp \<Rightarrow> (UsageSnapshot, AccountManagementError) dbm" where
  "db_usage_for_scope account_id workspace_id period_start =
     db_bind lock_connection (\<lambda>_.
     db_bind (require_workspace_scope account_id workspace_id) (\<lambda>_.
     db_bind (sql (select_stmt (select_usage (account_id_as_i64 account_id)
         (workspace_id_as_i64 workspace_id) (timestamp_as_i64 period_start)))) (\<lambda>stored.
     db_bind (db_lift (usage_counters_from_row stored)) (\<lambda>(r, a, b).
     db_return \<lparr>snapshot_account_id = account_id, snapshot_workspace_id = workspace_id,
       snapshot_period_start = period_start, snapshot_requests_used = r,
       snapshot_bytes_to_tor = a, snapshot_bytes_from_tor = b\<rparr>))))"

definition db_usage ::
    "IngressIdentity \<Rightarrow> UnixTimestamp \<Rightarrow> (UsageSnapshot, AccountManagementError) dbm" where
  "db_usage identity period_start =
     db_usage_for_scope (identity_account_id identity) (identity_workspace_id identity) period_start"

definition db_list_usage_for_period ::
    "UnixTimestamp \<Rightarrow> (UsageSnapshot list, AccountManagementError) dbm" where
  "db_list_usage_for_period period_start =
     db_bind lock_connection (\<lambda>_.
     db_bind (sql (select_stmt (\<lambda>t.
         sort_key (\<lambda>r. (u_account_id r, u_workspace_id r))
           (filter (\<lambda>r. u_period_start r = timestamp_as_i64 period_start) (usage_periods t)))))
       (\<lambda>rows.
     db_lift (try_map (\<lambda>row.
       and_then (AccountId_from_database (u_account_id row)) (\<lambda>account_id.
       and_then (WorkspaceId_from_database (u_workspace_id row)) (\<lambda>workspace_id.
       and_then (nonnegative_u64_from_database (u_requests_used row) ''requests used'') (\<lambda>r.
       and_then (nonnegative_u64_from_database (u_bytes_to_tor row) ''bytes to Tor'') (\<lambda>a.
       and_then (nonnegative_u64_from_database (u_bytes_from_tor row) ''bytes from Tor'') (\<lambda>b.
       Ok \<lparr>snapshot_account_id = account_id, snapshot_workspace_id = workspace_id,
            snapshot_period_start = period_start, snapshot_requests_used = r,
            snapshot_bytes_to_tor = a, snapshot_bytes_from_tor = b\<rparr>)))))) rows)))"

section \<open>Writing usage\<close>

definition usage_row :: "IngressIdentity \<Rightarrow> UnixTimestamp \<Rightarrow> int \<Rightarrow> int \<Rightarrow> int \<Rightarrow> usage_periods_row" where
  "usage_row identity period_start r a b =
     \<lparr>u_account_id = account_id_as_i64 (identity_account_id identity),
      u_workspace_id = workspace_id_as_i64 (identity_workspace_id identity),
      u_period_start = timestamp_as_i64 period_start,
      u_requests_used = r, u_bytes_to_tor = a, u_bytes_from_tor = b\<rparr>"

definition usage_snapshot ::
    "IngressIdentity \<Rightarrow> UnixTimestamp \<Rightarrow> u64 \<Rightarrow> u64 \<Rightarrow> u64 \<Rightarrow> UsageSnapshot" where
  "usage_snapshot identity period_start r a b =
     \<lparr>snapshot_account_id = identity_account_id identity,
      snapshot_workspace_id = identity_workspace_id identity,
      snapshot_period_start = period_start, snapshot_requests_used = r,
      snapshot_bytes_to_tor = a, snapshot_bytes_from_tor = b\<rparr>"

text \<open>The additions, the range checks on the bound parameters and the upsert of both writers.\<close>

definition write_usage ::
    "IngressIdentity \<Rightarrow> UnixTimestamp \<Rightarrow> UsageDelta \<Rightarrow> u64 \<times> u64 \<times> u64
      \<Rightarrow> (UsageSnapshot, AccountManagementError) dbm" where
  "write_usage identity period_start delta current =
     (case current of (r0, a0, b0) \<Rightarrow>
     db_bind (db_lift (checked_usage_add r0 (delta_requests delta))) (\<lambda>r.
     db_bind (db_lift (checked_usage_add a0 (delta_bytes_to_tor delta))) (\<lambda>a.
     db_bind (db_lift (checked_usage_add b0 (delta_bytes_from_tor delta))) (\<lambda>b.
     db_bind (db_lift (checked_database_counter r)) (\<lambda>ri.
     db_bind (db_lift (checked_database_counter a)) (\<lambda>ai.
     db_bind (db_lift (checked_database_counter b)) (\<lambda>bi.
     db_bind (sql (upsert_usage (usage_row identity period_start ri ai bi))) (\<lambda>_.
     db_return (usage_snapshot identity period_start r a b)))))))))"

definition db_record_usage ::
    "IngressIdentity \<Rightarrow> UnixTimestamp \<Rightarrow> UsageDelta \<Rightarrow> (UsageSnapshot, AccountManagementError) dbm" where
  "db_record_usage identity period_start delta =
     db_bind lock_connection (\<lambda>_.
     transaction id (
       db_bind (require_workspace_scope (identity_account_id identity)
           (identity_workspace_id identity)) (\<lambda>_.
       db_bind (usage_values identity period_start) (\<lambda>current.
       write_usage identity period_start delta current))))"

definition db_record_usage_if_allowed ::
    "IngressIdentity \<Rightarrow> UnixTimestamp \<Rightarrow> UsageDelta \<Rightarrow> (UsageSnapshot, UsageAdmissionError) dbm" where
  "db_record_usage_if_allowed identity period_start delta =
     db_bind (db_map_err UsageStorage lock_connection) (\<lambda>_.
     transaction UsageStorage (
       db_bind (db_map_err UsageStorage (require_workspace_scope (identity_account_id identity)
           (identity_workspace_id identity))) (\<lambda>_.
       db_bind (db_map_err UsageStorage (usage_values identity period_start)) (\<lambda>(r0, a0, b0).
       db_bind (db_lift (map_err Quota (check_usage_allowance identity
           (usage_snapshot identity period_start r0 a0 b0) delta))) (\<lambda>_.
       db_map_err UsageStorage (write_usage identity period_start delta (r0, a0, b0)))))))"

definition db_admit_request ::
    "IngressIdentity \<Rightarrow> UnixTimestamp \<Rightarrow> (UsageSnapshot, UsageAdmissionError) dbm" where
  "db_admit_request identity period_start =
     db_bind (db_lift (map_err UsageStorage (UsageDelta_new 1 0 0))) (\<lambda>delta.
     db_record_usage_if_allowed identity period_start delta)"

section \<open>The quota check as arithmetic\<close>

definition within_limit :: "u64 option \<Rightarrow> nat \<Rightarrow> bool" where
  "within_limit limit n \<longleftrightarrow> (case limit of None \<Rightarrow> True | Some l \<Rightarrow> n \<le> unat l)"

definition below_limit :: "u64 option \<Rightarrow> nat \<Rightarrow> bool" where
  "below_limit limit n \<longleftrightarrow> (case limit of None \<Rightarrow> True | Some l \<Rightarrow> n < unat l)"

lemma check_usage_allowance_Ok:
  assumes "check_usage_allowance identity snapshot delta = Ok ()"
  shows "within_limit (period_request_limit (identity_limits identity))
           (unat (snapshot_requests_used snapshot) + unat (delta_requests delta))"
    and "within_limit (period_byte_limit (identity_limits identity))
           (unat (snapshot_bytes_to_tor snapshot) + unat (snapshot_bytes_from_tor snapshot)
            + unat (delta_bytes_to_tor delta) + unat (delta_bytes_from_tor delta))"
  using assms
  by (auto simp: check_usage_allowance_def within_limit_def word_less_nat_alt not_less
      dest!: checked_add_unat split: if_splits option.splits)

lemma checked_usage_add_Ok:
  "checked_usage_add a b = Ok c \<longleftrightarrow> c = a + b \<and> uint a + uint b \<le> i64_max"
  using u64_add_fits [of a b] uint_add_no_wrap [of a b]
  by (auto simp: checked_usage_add_def u64_simps checked_database_counter_Ok)

end
