(* ===== verification/Account_Auth.thy ===== *)
theory Account_Auth
  imports Account_Usage
begin

text \<open>
  API keys and authentication of \<open>src/src/account_management.rs\<close>: the format of a key and of
  the \<open>Proxy-Authorization\<close> header, key generation, issue and rotation with their bounded
  retries, the database check that binds a key, an account, a workspace and a client
  certificate to one identity, and the methods of \<open>AccountManager\<close> around them.

  Code of other crates is a parameter: \<open>std_decode\<close> is base64's \<open>STANDARD.decode\<close>,
  \<open>url_encode\<close> its \<open>URL_SAFE_NO_PAD.encode\<close>, \<open>keyed_hash\<close> BLAKE3 under the hasher's key, and
  \<open>fill\<close> what \<open>getrandom\<close> returned for the two buffers of the \<open>i\<close>-th generation attempt.
\<close>

section \<open>Errors\<close>

datatype ProxyAuthorizationError =
    MissingScheme
  | UnsupportedScheme
  | Oversized
  | InvalidBase64
  | InvalidUtf8
  | MissingPasswordSeparator
  | PasswordMustBeEmpty
  | InvalidApiKeyFormat

datatype AuthenticationError =
    InvalidAuthorization ProxyAuthorizationError
  | InvalidApiKey
  | ApiKeyRevoked
  | AccountInactive
  | WorkspaceInactive
  | UnknownDevice
  | DeviceRevoked
  | CredentialScopeMismatch
  | AuthStorage AccountManagementError

section \<open>Key format\<close>

definition API_KEY_PREFIX :: string where
  "API_KEY_PREFIX = ''pxy_''"

definition API_KEY_PUBLIC_ID_ENCODED_BYTES :: nat where
  "API_KEY_PUBLIC_ID_ENCODED_BYTES = 16"

definition API_KEY_SECRET_ENCODED_BYTES :: nat where
  "API_KEY_SECRET_ENCODED_BYTES = 43"

definition MAX_PROXY_AUTHORIZATION_BYTES :: nat where
  "MAX_PROXY_AUTHORIZATION_BYTES = 1024"

definition API_KEY_GENERATION_ATTEMPTS :: nat where
  "API_KEY_GENERATION_ATTEMPTS = 4"

definition is_base64_url_byte :: "char \<Rightarrow> bool" where
  "is_base64_url_byte c \<longleftrightarrow> is_ascii_alphanumeric c \<or> c \<in> set ''-_''"

definition parse_api_key_public_id :: "string \<Rightarrow> (string, ProxyAuthorizationError) result" where
  "parse_api_key_public_id api_key =
     and_then (ok_or InvalidApiKeyFormat (strip_prefix API_KEY_PREFIX api_key)) (\<lambda>body.
     and_then (ok_or InvalidApiKeyFormat (split_once (CHR ''.'') body)) (\<lambda>(public_id, secret).
     if length public_id \<noteq> API_KEY_PUBLIC_ID_ENCODED_BYTES
        \<or> length secret \<noteq> API_KEY_SECRET_ENCODED_BYTES
        \<or> CHR ''.'' \<in> set secret
        \<or> \<not> list_all is_base64_url_byte public_id
        \<or> \<not> list_all is_base64_url_byte secret
     then Err InvalidApiKeyFormat
     else Ok public_id))"

definition extract_proxy_auth_api_key ::
    "(string \<Rightarrow> string option) \<Rightarrow> string \<Rightarrow> (string, ProxyAuthorizationError) result" where
  "extract_proxy_auth_api_key std_decode header_value =
     (if length header_value > MAX_PROXY_AUTHORIZATION_BYTES then Err Oversized
      else case split_ascii_whitespace header_value of
        [scheme, encoded] \<Rightarrow>
          if \<not> eq_ignore_ascii_case scheme ''Basic'' then Err UnsupportedScheme
          else and_then (ok_or InvalidBase64 (std_decode encoded)) (\<lambda>decoded.
            if \<not> from_utf8_ok decoded then Err InvalidUtf8
            else and_then (ok_or MissingPasswordSeparator (split_once (CHR '':'') decoded))
              (\<lambda>(api_key, password).
              if password \<noteq> [] then Err PasswordMustBeEmpty
              else and_then (parse_api_key_public_id api_key) (\<lambda>_. Ok api_key)))
      | _ \<Rightarrow> Err MissingScheme)"

definition api_key_domain :: string where
  "api_key_domain = ''proxy-account-api-key-v1'' @ [CHR 0x00]"

definition ApiKeyHasher_digest :: "(string \<Rightarrow> string) \<Rightarrow> string \<Rightarrow> string" where
  "ApiKeyHasher_digest keyed_hash api_key = keyed_hash (api_key_domain @ api_key)"

section \<open>Generation, issue and rotation\<close>

definition GeneratedApiKey_generate ::
    "(string \<Rightarrow> string) \<Rightarrow> (string \<Rightarrow> string) \<Rightarrow> (string \<times> string, nat) result
      \<Rightarrow> (GeneratedApiKey, AccountManagementError) result" where
  "GeneratedApiKey_generate url_encode keyed_hash random =
     and_then (map_err Entropy random) (\<lambda>(public_bytes, secret_bytes).
     let public_id = url_encode public_bytes;
         secret = API_KEY_PREFIX @ public_id @ ''.'' @ url_encode secret_bytes
     in Ok \<lparr>generated_public_id = public_id, generated_secret = secret,
             generated_digest = ApiKeyHasher_digest keyed_hash secret\<rparr>)"

record IssuedApiKey =
  issued_id :: ApiKeyId
  issued_public_id :: string
  issued_secret :: string

text \<open>
  The \<open>for\<close> loop of \<open>issue_api_key\<close> and \<open>rotate_api_key\<close>: a constraint violation means that
  the generated public identifier is taken, and the next attempt draws a new one.
\<close>

fun issue_attempts ::
    "(string \<Rightarrow> string) \<Rightarrow> (string \<Rightarrow> string) \<Rightarrow> (nat \<Rightarrow> (string \<times> string, nat) result)
      \<Rightarrow> (GeneratedApiKey \<Rightarrow> (ApiKeyId, AccountManagementError) dbm) \<Rightarrow> nat \<Rightarrow> nat
      \<Rightarrow> (IssuedApiKey, AccountManagementError) dbm" where
  "issue_attempts url_encode keyed_hash fill store i 0 c = (Err CredentialGenerationExhausted, c)"
| "issue_attempts url_encode keyed_hash fill store i (Suc n) c =
     (case GeneratedApiKey_generate url_encode keyed_hash (fill i) of
        Inl e \<Rightarrow> (Err e, c)
      | Inr generated \<Rightarrow>
          (case store generated c of
             (Inr key_id, c') \<Rightarrow>
               (Ok \<lparr>issued_id = key_id, issued_public_id = generated_public_id generated,
                     issued_secret = generated_secret generated\<rparr>, c')
           | (Inl (Database error), c') \<Rightarrow>
               (if is_constraint_violation error
                then issue_attempts url_encode keyed_hash fill store (Suc i) n c'
                else (Err (Database error), c'))
           | (Inl error, c') \<Rightarrow> (Err error, c')))"

definition AccountManager_issue_api_key ::
    "(string \<Rightarrow> string) \<Rightarrow> (string \<Rightarrow> string) \<Rightarrow> (nat \<Rightarrow> (string \<times> string, nat) result)
      \<Rightarrow> AccountId \<Rightarrow> WorkspaceId \<Rightarrow> string \<Rightarrow> UnixTimestamp
      \<Rightarrow> (IssuedApiKey, AccountManagementError) dbm" where
  "AccountManager_issue_api_key url_encode keyed_hash fill account_id workspace_id label now =
     issue_attempts url_encode keyed_hash fill
       (\<lambda>generated. db_insert_api_key account_id workspace_id label generated now)
       0 API_KEY_GENERATION_ATTEMPTS"

definition AccountManager_rotate_api_key ::
    "(string \<Rightarrow> string) \<Rightarrow> (string \<Rightarrow> string) \<Rightarrow> (nat \<Rightarrow> (string \<times> string, nat) result)
      \<Rightarrow> ApiKeyId \<Rightarrow> UnixTimestamp \<Rightarrow> (IssuedApiKey, AccountManagementError) dbm" where
  "AccountManager_rotate_api_key url_encode keyed_hash fill old_api_key_id now =
     issue_attempts url_encode keyed_hash fill
       (\<lambda>generated. db_rotate_api_key old_api_key_id generated now)
       0 API_KEY_GENERATION_ATTEMPTS"

section \<open>Authentication\<close>

record CredentialLookup =
  cred_api_key_id :: int
  cred_public_id :: string
  cred_account_id :: int
  cred_workspace_id :: int
  cred_key_hash_version :: int
  cred_key_hash :: string
  cred_api_key_status :: string
  cred_account_status :: string
  cred_workspace_status :: string
  cred_limits :: DatabaseLimitValues

record DeviceLookup =
  dev_id :: int
  dev_account_id :: int
  dev_workspace_id :: int
  dev_status :: string

text \<open>
  \<open>api_keys k JOIN accounts a ON a.id = k.account_id JOIN workspaces w ON w.id = k.workspace_id
  AND w.account_id = k.account_id JOIN account_limits l ON l.account_id = k.account_id
  WHERE k.public_id = ?1\<close>.
\<close>

definition credential_of ::
    "api_keys_row \<Rightarrow> accounts_row \<Rightarrow> workspaces_row \<Rightarrow> account_limits_row \<Rightarrow> CredentialLookup" where
  "credential_of k a w l =
     \<lparr>cred_api_key_id = k_id k, cred_public_id = k_public_id k, cred_account_id = k_account_id k,
      cred_workspace_id = k_workspace_id k, cred_key_hash_version = k_key_hash_version k,
      cred_key_hash = k_key_hash k, cred_api_key_status = k_status k,
      cred_account_status = a_status a, cred_workspace_status = w_status w,
      cred_limits = l_values l\<rparr>"

definition join_credentials :: "string \<Rightarrow> tables \<Rightarrow> CredentialLookup list" where
  "join_credentials public_id t =
     concat (map (\<lambda>k. concat (map (\<lambda>a. concat (map (\<lambda>w. map (\<lambda>l. credential_of k a w l)
         (filter (\<lambda>l. l_account_id l = k_account_id k) (account_limits t)))
       (filter (\<lambda>w. w_id w = k_workspace_id k \<and> w_account_id w = k_account_id k) (workspaces t))))
       (filter (\<lambda>a. a_id a = k_account_id k) (accounts t))))
       (filter (\<lambda>k. k_public_id k = public_id) (api_keys t)))"

definition select_credential :: "string \<Rightarrow> tables \<Rightarrow> CredentialLookup option" where
  "select_credential public_id t =
     (case join_credentials public_id t of [] \<Rightarrow> None | r # _ \<Rightarrow> Some r)"

definition select_device :: "string \<Rightarrow> tables \<Rightarrow> DeviceLookup option" where
  "select_device fingerprint t =
     map_option (\<lambda>d. \<lparr>dev_id = d_id d, dev_account_id = d_account_id d,
         dev_workspace_id = d_workspace_id d, dev_status = d_status d\<rparr>)
       (find (\<lambda>d. d_certificate_fingerprint d = fingerprint) (device_credentials t))"

text \<open>The checks between the two queries, in the order of the code.\<close>

definition check_credential ::
    "string \<Rightarrow> string \<Rightarrow> CredentialLookup \<Rightarrow> (unit, AuthenticationError) result" where
  "check_credential public_id digest cred =
     (if cred_public_id cred \<noteq> public_id
         \<or> cred_key_hash_version cred \<noteq> API_KEY_HASH_VERSION
         \<or> length (cred_key_hash cred) \<noteq> 32
      then Err (AuthStorage (CorruptData ''invalid stored API key material''))
      else if cred_key_hash cred \<noteq> digest then Err InvalidApiKey
      else and_then (map_err AuthStorage (CredentialStatus_from_database (cred_api_key_status cred)))
        (\<lambda>status.
      if status \<noteq> Credential_Active then Err ApiKeyRevoked
      else and_then (map_err AuthStorage (AccountStatus_from_database (cred_account_status cred)))
        (\<lambda>status.
      if status \<noteq> Account_Active then Err AccountInactive
      else and_then (map_err AuthStorage (WorkspaceStatus_from_database (cred_workspace_status cred)))
        (\<lambda>status.
      if status \<noteq> Workspace_Active then Err WorkspaceInactive
      else Ok ()))))"

definition check_device ::
    "CredentialLookup \<Rightarrow> DeviceLookup \<Rightarrow> (unit, AuthenticationError) result" where
  "check_device cred device =
     and_then (map_err AuthStorage (CredentialStatus_from_database (dev_status device))) (\<lambda>status.
     if status \<noteq> Credential_Active then Err DeviceRevoked
     else if dev_account_id device \<noteq> cred_account_id cred
          \<or> dev_workspace_id device \<noteq> cred_workspace_id cred
     then Err CredentialScopeMismatch
     else Ok ())"

definition ingress_identity ::
    "CredentialLookup \<Rightarrow> DeviceLookup \<Rightarrow> (IngressIdentity, AccountManagementError) result" where
  "ingress_identity cred device =
     and_then (AccountId_from_database (cred_account_id cred)) (\<lambda>account_id.
     and_then (WorkspaceId_from_database (cred_workspace_id cred)) (\<lambda>workspace_id.
     and_then (ApiKeyId_from_database (cred_api_key_id cred)) (\<lambda>api_key_id.
     and_then (DeviceCredentialId_from_database (dev_id device)) (\<lambda>device_id.
     and_then (AccountLimits_from_database
         (db_requests_per_second (cred_limits cred)) (db_request_burst (cred_limits cred))
         (db_max_concurrent_tunnels (cred_limits cred)) (db_period_request_limit (cred_limits cred))
         (db_period_byte_limit (cred_limits cred))) (\<lambda>limits.
     Ok \<lparr>identity_account_id = account_id, identity_workspace_id = workspace_id,
          identity_api_key_id = api_key_id, identity_device_credential_id = device_id,
          identity_limits = limits\<rparr>)))))"

definition db_authenticate ::
    "string \<Rightarrow> string \<Rightarrow> string \<Rightarrow> (IngressIdentity, AuthenticationError) dbm" where
  "db_authenticate public_id digest fingerprint =
     db_bind (db_map_err AuthStorage lock_connection) (\<lambda>_.
     db_bind (db_map_err AuthStorage (sql (select_stmt (select_credential public_id)))) (\<lambda>found.
     db_bind (db_lift (ok_or InvalidApiKey found)) (\<lambda>cred.
     db_bind (db_lift (check_credential public_id digest cred)) (\<lambda>_.
     db_bind (db_map_err AuthStorage (sql (select_stmt (select_device fingerprint)))) (\<lambda>found.
     db_bind (db_lift (ok_or UnknownDevice found)) (\<lambda>device.
     db_bind (db_lift (check_device cred device)) (\<lambda>_.
     db_lift (map_err AuthStorage (ingress_identity cred device)))))))))"

definition AccountManager_authenticate_ingress ::
    "(string \<Rightarrow> string option) \<Rightarrow> (string \<Rightarrow> string) \<Rightarrow> string \<Rightarrow> string
      \<Rightarrow> (IngressIdentity, AuthenticationError) dbm" where
  "AccountManager_authenticate_ingress std_decode keyed_hash proxy_authorization fingerprint =
     db_bind (db_lift (map_err InvalidAuthorization
         (extract_proxy_auth_api_key std_decode proxy_authorization))) (\<lambda>api_key.
     db_bind (db_lift (map_err InvalidAuthorization (parse_api_key_public_id api_key))) (\<lambda>public_id.
     db_authenticate public_id (ApiKeyHasher_digest keyed_hash api_key) fingerprint))"

section \<open>Lemmas on the key format\<close>

lemma parse_api_key_public_id_Ok:
  "parse_api_key_public_id key = Ok p \<longleftrightarrow>
     (\<exists>s. key = API_KEY_PREFIX @ p @ ''.'' @ s \<and> length p = 16 \<and> length s = 43
        \<and> list_all is_base64_url_byte p \<and> list_all is_base64_url_byte s)"
proof -
  have dot: "\<not> is_base64_url_byte (CHR ''.'')"
    by (simp add: is_base64_url_byte_def ascii_defs byte_def)
  have nodot: "CHR ''.'' \<notin> set x" if "list_all is_base64_url_byte x" for x
    using that dot by (auto simp: list_all_iff)
  show ?thesis
    by (auto simp: parse_api_key_public_id_def strip_prefix_Some split_once_Some
        API_KEY_PUBLIC_ID_ENCODED_BYTES_def API_KEY_SECRET_ENCODED_BYTES_def
        dest: nodot split: if_splits prod.splits)
qed

lemma extract_proxy_auth_api_key_Ok:
  assumes "extract_proxy_auth_api_key std_decode h = Ok key"
  shows "\<exists>scheme encoded. split_ascii_whitespace h = [scheme, encoded]
    \<and> eq_ignore_ascii_case scheme ''Basic'' \<and> std_decode encoded = Some (key @ '':'')
    \<and> (\<exists>p. parse_api_key_public_id key = Ok p)"
  using assms
  by (auto simp: extract_proxy_auth_api_key_def split_once_Some
      split: if_splits list.splits prod.splits)

section \<open>Lemmas on the join\<close>

lemma join_credentials_iff:
  "cred \<in> set (join_credentials public_id t) \<longleftrightarrow>
     (\<exists>k a w l. k \<in> set (api_keys t) \<and> a \<in> set (accounts t) \<and> w \<in> set (workspaces t)
        \<and> l \<in> set (account_limits t) \<and> k_public_id k = public_id \<and> a_id a = k_account_id k
        \<and> w_id w = k_workspace_id k \<and> w_account_id w = k_account_id k
        \<and> l_account_id l = k_account_id k \<and> cred = credential_of k a w l)"
  unfolding join_credentials_def by auto

lemma select_credential_Some:
  "select_credential public_id t = Some cred \<Longrightarrow> cred \<in> set (join_credentials public_id t)"
  by (auto simp: select_credential_def split: list.splits)

lemma check_credential_Ok:
  "check_credential public_id digest cred = Ok () \<longleftrightarrow>
     cred_public_id cred = public_id \<and> cred_key_hash_version cred = API_KEY_HASH_VERSION
     \<and> length (cred_key_hash cred) = 32 \<and> cred_key_hash cred = digest
     \<and> cred_api_key_status cred = ''active'' \<and> cred_account_status cred = ''active''
     \<and> cred_workspace_status cred = ''active''"
  by (auto simp: check_credential_def CredentialStatus_from_database_def
      AccountStatus_from_database_def WorkspaceStatus_from_database_def split: if_splits)

lemma check_device_Ok:
  "check_device cred device = Ok () \<longleftrightarrow> dev_status device = ''active''
     \<and> dev_account_id device = cred_account_id cred \<and> dev_workspace_id device = cred_workspace_id cred"
  by (auto simp: check_device_def CredentialStatus_from_database_def split: if_splits)

end
