(* ===== verification/Account_Invariants.thy ===== *)
theory Account_Invariants
  imports Account_Auth
begin

text \<open>
  What the account store keeps, whatever the administrator and the proxy do to it and
  whatever faults SQLite reports: the consistency of the tables, the completeness of the
  limits, the finality of a revocation, and the atomicity of every operation.

  The contract between the SQL statements and the operations is the locale
  \<open>statement_invariant\<close>: a predicate on the tables that every statement keeps is kept by
  every operation. The smaller locales it extends leave out the statement that breaks a
  predicate inside a transaction. They are proved once; each invariant is an interpretation.
\<close>

section \<open>Predicates kept by a computation\<close>

definition keeps :: "(tables \<Rightarrow> bool) \<Rightarrow> ('a, 'e) dbm \<Rightarrow> bool" where
  "keeps P m \<longleftrightarrow> (\<forall>c. P (tbls c) \<longrightarrow> P (tbls (snd (m c))))"

definition stmt_keeps :: "(tables \<Rightarrow> bool) \<Rightarrow> 'a statement \<Rightarrow> bool" where
  "stmt_keeps P s \<longleftrightarrow> (\<forall>t x t'. P t \<longrightarrow> s t = Ok (x, t') \<longrightarrow> P t')"

named_theorems keeps_rules \<open>syntax-directed rules for \<open>keeps\<close>\<close>

lemma keepsD: "keeps P m \<Longrightarrow> P (tbls c) \<Longrightarrow> P (tbls (snd (m c)))"
  by (simp add: keeps_def)

lemma stmt_keepsI: "(\<And>t x t'. P t \<Longrightarrow> s t = Ok (x, t') \<Longrightarrow> P t') \<Longrightarrow> stmt_keeps P s"
  by (auto simp: stmt_keeps_def)

lemma keeps_return [keeps_rules]: "keeps P (db_return x)"
  by (simp add: keeps_def db_return_def)

lemma keeps_lift [keeps_rules]: "keeps P (db_lift r)"
  by (simp add: keeps_def db_lift_def)

lemma keeps_bind [keeps_rules]: "keeps P m \<Longrightarrow> (\<And>x. keeps P (f x)) \<Longrightarrow> keeps P (db_bind m f)"
  by (fastforce simp: keeps_def db_bind_def split: prod.split sum.split)

text \<open>The value a pure prefix of an operation produced is known in what follows it.\<close>

lemma keeps_bind_lift:
  "(\<And>x. r = Ok x \<Longrightarrow> keeps P (f x)) \<Longrightarrow> keeps P (db_bind (db_lift r) f)"
  by (cases r) (auto simp: keeps_def db_bind_def db_lift_def)

lemma keeps_map_err [keeps_rules]: "keeps P m \<Longrightarrow> keeps P (db_map_err g m)"
  by (auto simp: keeps_def db_map_err_def split: prod.split)

lemma keeps_run_statement [keeps_rules]: "stmt_keeps P s \<Longrightarrow> keeps P (run_statement s)"
  by (auto simp: keeps_def stmt_keeps_def run_statement_def Let_def
      split: option.split sum.split)

lemma keeps_sql [keeps_rules]: "stmt_keeps P s \<Longrightarrow> keeps P (sql s)"
  unfolding sql_def by (intro keeps_rules)

lemma stmt_keeps_select [keeps_rules]: "stmt_keeps P (select_stmt f)"
  by (auto simp: stmt_keeps_def select_stmt_def)

lemma tbls_sql_select [simp]: "tbls (snd (sql (select_stmt f) c)) = tbls c"
  by (auto simp: sql_def db_map_err_def run_statement_def select_stmt_def Let_def
      split: option.split)

lemma sql_select_tbls: "sql (select_stmt f) c = (r, c') \<Longrightarrow> tbls c' = tbls c"
  by (metis snd_conv tbls_sql_select)

lemma keeps_result: "keeps P m \<Longrightarrow> m c = (r, c') \<Longrightarrow> P (tbls c) \<Longrightarrow> P (tbls c')"
  by (metis keepsD snd_conv)

lemma keeps_transaction [keeps_rules]: "keeps P m \<Longrightarrow> keeps P (transaction w m)"
  unfolding keeps_def [of P "transaction w m"]
  by (auto simp: transaction_def split: prod.split sum.split
      dest!: sql_select_tbls dest: keeps_result)

lemma keeps_lock [keeps_rules]: "keeps P lock_connection"
  by (simp add: keeps_def lock_connection_def)

lemma keeps_if [keeps_rules]: "keeps P m \<Longrightarrow> keeps P m' \<Longrightarrow> keeps P (if b then m else m')"
  by simp

lemma keeps_prod [keeps_rules]:
  "(\<And>x y. keeps P (f x y)) \<Longrightarrow> keeps P (case p of (x, y) \<Rightarrow> f x y)"
  by (cases p) simp

lemma keeps_record_exists [keeps_rules]: "keeps P (record_exists table i)"
  unfolding record_exists_def by (intro keeps_rules)

lemma keeps_require_scope [keeps_rules]: "keeps P (require_workspace_scope a w)"
  unfolding require_workspace_scope_def by (intro keeps_rules)

lemma keeps_usage_values [keeps_rules]: "keeps P (usage_values i p)"
  unfolding usage_values_def by (intro keeps_rules)

lemma keeps_issue_attempts [keeps_rules]:
  assumes "\<And>g. keeps P (store g)"
  shows "keeps P (issue_attempts enc h fill store i n)"
proof -
  have "P (tbls c) \<Longrightarrow> P (tbls (snd (issue_attempts enc h fill store i n c)))" for c
  proof (induction n arbitrary: i c)
    case (Suc n)
    have "P (tbls c')" if "store g c = (r, c')" for g r c'
      using assms [of g] that Suc.prems by (rule keeps_result)
    with Suc show ?case
      by (auto split: sum.split prod.split AccountManagementError.split)
  qed simp
  then show ?thesis by (simp add: keeps_def)
qed

section \<open>The contract of the statements\<close>

text \<open>
  A predicate kept by every writing statement except the insertion of an account and the
  upsert of a usage row. The limits an operation binds are those \<open>database_values\<close> produced.
\<close>

locale admin_invariant =
  fixes P :: "tables \<Rightarrow> bool"
  assumes insert_limits: "AccountLimits_database_values l = Ok v
      \<Longrightarrow> stmt_keeps P (insert_account_limits a v now)"
    and update_limits: "AccountLimits_database_values l = Ok v
      \<Longrightarrow> stmt_keeps P (update_account_limits a v now)"
    and insert_workspace: "stmt_keeps P (insert_workspace a name now)"
    and insert_api_key: "stmt_keeps P (insert_api_key_row p a w label ver h now)"
    and insert_device: "stmt_keeps P (insert_device_credential a w label f now)"
    and update_account_status: "stmt_keeps P (update_account_status a st now)"
    and update_account_plan: "stmt_keeps P (update_account_plan a plan now)"
    and update_stripe: "stmt_keeps P (update_stripe_customer_id a stripe now)"
    and update_workspace_status: "stmt_keeps P (update_workspace_status w st now)"
    and update_revoke_api_key: "stmt_keeps P (update_revoke_api_key k now)"
    and update_revoke_device: "stmt_keeps P (update_revoke_device d now)"
begin

lemmas statements = insert_limits update_limits insert_workspace insert_api_key insert_device
  update_account_status update_account_plan update_stripe update_workspace_status
  update_revoke_api_key update_revoke_device

lemma set_account_status: "keeps P (db_set_account_status a st now)"
  unfolding db_set_account_status_def by (intro keeps_rules statements)

lemma update_plan_and_limits: "keeps P (db_update_account_plan_and_limits a plan limits now)"
  unfolding db_update_account_plan_and_limits_def
  by (rule keeps_bind_lift, intro keeps_rules statements)

lemma set_stripe_customer_id: "keeps P (db_set_stripe_customer_id a stripe now)"
  unfolding db_set_stripe_customer_id_def by (intro keeps_rules statements)

lemma create_workspace: "keeps P (db_create_workspace a name now)"
  unfolding db_create_workspace_def by (intro keeps_rules statements)

lemma set_workspace_status: "keeps P (db_set_workspace_status w st now)"
  unfolding db_set_workspace_status_def by (intro keeps_rules statements)

lemma insert_key: "keeps P (db_insert_api_key a w label g now)"
  unfolding db_insert_api_key_def by (intro keeps_rules statements)

lemma rotate_key: "keeps P (db_rotate_api_key k g now)"
  unfolding db_rotate_api_key_def by (intro keeps_rules statements)

lemma revoke_key: "keeps P (db_revoke_api_key k now)"
  unfolding db_revoke_api_key_def by (intro keeps_rules statements)

lemma register_device: "keeps P (db_register_device_credential a w f label now)"
  unfolding db_register_device_credential_def by (intro keeps_rules statements)

lemma revoke_device: "keeps P (db_revoke_device_credential d now)"
  unfolding db_revoke_device_credential_def by (intro keeps_rules statements)

lemma issue_api_key: "keeps P (AccountManager_issue_api_key enc h fill a w label now)"
  unfolding AccountManager_issue_api_key_def by (intro keeps_rules insert_key)

lemma rotate_api_key: "keeps P (AccountManager_rotate_api_key enc h fill k now)"
  unfolding AccountManager_rotate_api_key_def by (intro keeps_rules rotate_key)

end

locale usage_invariant = admin_invariant +
  assumes upsert_usage: "stmt_keeps P (upsert_usage row)"
begin

lemma write_usage: "keeps P (write_usage i p d cur)"
  unfolding write_usage_def by (intro keeps_rules statements upsert_usage)

lemma record_usage: "keeps P (db_record_usage i p d)"
  unfolding db_record_usage_def by (intro keeps_rules write_usage)

lemma record_usage_if_allowed: "keeps P (db_record_usage_if_allowed i p d)"
  unfolding db_record_usage_if_allowed_def by (intro keeps_rules write_usage)

lemma admit_request: "keeps P (db_admit_request i p)"
  unfolding db_admit_request_def by (intro keeps_rules record_usage_if_allowed)

end

locale account_invariant = admin_invariant +
  assumes insert_account: "stmt_keeps P (insert_account e stripe plan now)"
begin

lemma create_account: "keeps P (db_create_account email stripe plan limits now)"
  unfolding db_create_account_def
  by (rule keeps_bind_lift, rule keeps_bind_lift, rule keeps_bind_lift,
      intro keeps_rules statements insert_account)

end

locale statement_invariant = usage_invariant + account_invariant

section \<open>Sequences of operations\<close>

text \<open>
  Every call of \<open>AccountManager\<close> that writes. The reading calls, \<open>authenticate_ingress\<close>
  among them, leave the tables as they are.
\<close>

datatype db_op =
    Op_CreateAccount string "string option" PlanCode AccountLimits UnixTimestamp
  | Op_SetAccountStatus AccountId AccountStatus UnixTimestamp
  | Op_UpdatePlanAndLimits AccountId PlanCode AccountLimits UnixTimestamp
  | Op_SetStripeCustomerId AccountId "string option" UnixTimestamp
  | Op_CreateWorkspace AccountId string UnixTimestamp
  | Op_SetWorkspaceStatus WorkspaceId WorkspaceStatus UnixTimestamp
  | Op_IssueApiKey "nat \<Rightarrow> (string \<times> string, nat) result" AccountId WorkspaceId string UnixTimestamp
  | Op_RotateApiKey "nat \<Rightarrow> (string \<times> string, nat) result" ApiKeyId UnixTimestamp
  | Op_RevokeApiKey ApiKeyId UnixTimestamp
  | Op_RegisterDevice AccountId WorkspaceId string string UnixTimestamp
  | Op_RevokeDevice DeviceCredentialId UnixTimestamp
  | Op_RecordUsage IngressIdentity UnixTimestamp UsageDelta
  | Op_RecordUsageIfAllowed IngressIdentity UnixTimestamp UsageDelta
  | Op_AdmitRequest IngressIdentity UnixTimestamp

definition outcome :: "('a, 'e) result \<times> connection \<Rightarrow> bool \<times> connection" where
  "outcome rc = (\<not> isl (fst rc), snd rc)"

text \<open>Whether the operation succeeded, and the connection after it.\<close>

fun run_op ::
    "(string \<Rightarrow> string) \<Rightarrow> (string \<Rightarrow> string) \<Rightarrow> db_op \<Rightarrow> connection \<Rightarrow> bool \<times> connection" where
  "run_op enc h (Op_CreateAccount e s p l now) c = outcome (db_create_account e s p l now c)"
| "run_op enc h (Op_SetAccountStatus a st now) c = outcome (db_set_account_status a st now c)"
| "run_op enc h (Op_UpdatePlanAndLimits a p l now) c =
     outcome (db_update_account_plan_and_limits a p l now c)"
| "run_op enc h (Op_SetStripeCustomerId a s now) c = outcome (db_set_stripe_customer_id a s now c)"
| "run_op enc h (Op_CreateWorkspace a n now) c = outcome (db_create_workspace a n now c)"
| "run_op enc h (Op_SetWorkspaceStatus w st now) c = outcome (db_set_workspace_status w st now c)"
| "run_op enc h (Op_IssueApiKey fill a w l now) c =
     outcome (AccountManager_issue_api_key enc h fill a w l now c)"
| "run_op enc h (Op_RotateApiKey fill k now) c =
     outcome (AccountManager_rotate_api_key enc h fill k now c)"
| "run_op enc h (Op_RevokeApiKey k now) c = outcome (db_revoke_api_key k now c)"
| "run_op enc h (Op_RegisterDevice a w f l now) c =
     outcome (db_register_device_credential a w f l now c)"
| "run_op enc h (Op_RevokeDevice d now) c = outcome (db_revoke_device_credential d now c)"
| "run_op enc h (Op_RecordUsage i p d) c = outcome (db_record_usage i p d c)"
| "run_op enc h (Op_RecordUsageIfAllowed i p d) c = outcome (db_record_usage_if_allowed i p d c)"
| "run_op enc h (Op_AdmitRequest i p) c = outcome (db_admit_request i p c)"

text \<open>A history: one operation after the other on the same connection, whatever each returned.\<close>

primrec run_ops ::
    "(string \<Rightarrow> string) \<Rightarrow> (string \<Rightarrow> string) \<Rightarrow> db_op list \<Rightarrow> connection \<Rightarrow> connection" where
  "run_ops enc h [] c = c"
| "run_ops enc h (p # ps) c = run_ops enc h ps (snd (run_op enc h p c))"

fun is_create_account :: "db_op \<Rightarrow> bool" where
  "is_create_account (Op_CreateAccount _ _ _ _ _) = True"
| "is_create_account _ = False"

fun is_usage_op :: "db_op \<Rightarrow> bool" where
  "is_usage_op (Op_RecordUsage _ _ _) = True"
| "is_usage_op (Op_RecordUsageIfAllowed _ _ _) = True"
| "is_usage_op (Op_AdmitRequest _ _) = True"
| "is_usage_op _ = False"

lemma snd_outcome [simp]: "snd (outcome rc) = snd rc"
  by (simp add: outcome_def)

lemma fst_outcome [simp]: "fst (outcome rc) \<longleftrightarrow> \<not> isl (fst rc)"
  by (simp add: outcome_def)

context admin_invariant
begin

lemmas admin_operations = set_account_status update_plan_and_limits set_stripe_customer_id
  create_workspace set_workspace_status revoke_key register_device revoke_device
  issue_api_key rotate_api_key

lemma run_admin_op:
  "\<not> is_create_account p \<Longrightarrow> \<not> is_usage_op p \<Longrightarrow> P (tbls c) \<Longrightarrow> P (tbls (snd (run_op enc h p c)))"
  by (cases p) (simp_all add: admin_operations [THEN keepsD])

end

context usage_invariant
begin

lemmas usage_operations = record_usage record_usage_if_allowed admit_request

lemma run_usage_op: "\<not> is_create_account p \<Longrightarrow> P (tbls c) \<Longrightarrow> P (tbls (snd (run_op enc h p c)))"
  using run_admin_op [of p c enc h]
  by (cases p) (simp_all add: usage_operations [THEN keepsD])

end

context account_invariant
begin

lemma run_account_op: "\<not> is_usage_op p \<Longrightarrow> P (tbls c) \<Longrightarrow> P (tbls (snd (run_op enc h p c)))"
  using run_admin_op [of p c enc h] create_account [THEN keepsD]
  by (cases p) simp_all

end

context statement_invariant
begin

lemma run_any_op: "P (tbls c) \<Longrightarrow> P (tbls (snd (run_op enc h p c)))"
  using run_usage_op [of p c enc h] run_account_op [of p c enc h]
  by (cases p) simp_all

lemma run_any_ops: "P (tbls c) \<Longrightarrow> P (tbls (run_ops enc h ps c))"
  by (induction ps arbitrary: c) (simp_all add: run_any_op)

end

section \<open>Consistency of the tables\<close>

definition ids_wf :: "int \<Rightarrow> int list \<Rightarrow> bool" where
  "ids_wf s ids \<longleftrightarrow> 0 \<le> s \<and> distinct ids \<and> (\<forall>i\<in>set ids. 0 < i \<and> i \<le> s)"

definition stored_limits_readable :: "account_limits_row \<Rightarrow> bool" where
  "stored_limits_readable r \<longleftrightarrow> \<not> isl (AccountLimits_from_database
     (db_requests_per_second (l_values r)) (db_request_burst (l_values r))
     (db_max_concurrent_tunnels (l_values r)) (db_period_request_limit (l_values r))
     (db_period_byte_limit (l_values r)))"

definition account_ids :: "tables \<Rightarrow> int set" where
  "account_ids t = a_id ` set (accounts t)"

definition workspace_scopes :: "tables \<Rightarrow> (int \<times> int) set" where
  "workspace_scopes t = (\<lambda>r. (w_id r, w_account_id r)) ` set (workspaces t)"

definition refs_in :: "'k set \<Rightarrow> 'k list \<Rightarrow> bool" where
  "refs_in S ks \<longleftrightarrow> set ks \<subseteq> S"

definition stripe_unique :: "(int \<times> string option) list \<Rightarrow> bool" where
  "stripe_unique ps \<longleftrightarrow> (\<forall>i j s. (i, Some s) \<in> set ps \<and> (j, Some s) \<in> set ps \<longrightarrow> i = j)"

definition accounts_wf :: "int \<Rightarrow> accounts_row list \<Rightarrow> bool" where
  "accounts_wf s rows \<longleftrightarrow> ids_wf s (map a_id rows) \<and> list_all account_row_check rows
     \<and> distinct (map (\<lambda>r. to_ascii_lowercase (a_email r)) rows)
     \<and> stripe_unique (map (\<lambda>r. (a_id r, a_stripe_customer_id r)) rows)"

definition limits_table_wf :: "int set \<Rightarrow> account_limits_row list \<Rightarrow> bool" where
  "limits_table_wf A rows \<longleftrightarrow> list_all limits_row_check rows
     \<and> list_all stored_limits_readable rows \<and> distinct (map l_account_id rows)
     \<and> refs_in A (map l_account_id rows)"

definition workspaces_wf :: "int set \<Rightarrow> int \<Rightarrow> workspaces_row list \<Rightarrow> bool" where
  "workspaces_wf A s rows \<longleftrightarrow> ids_wf s (map w_id rows) \<and> list_all workspace_row_check rows
     \<and> distinct (map (\<lambda>r. (w_account_id r, w_name r)) rows) \<and> refs_in A (map w_account_id rows)"

definition keys_wf :: "(int \<times> int) set \<Rightarrow> int \<Rightarrow> api_keys_row list \<Rightarrow> bool" where
  "keys_wf W s rows \<longleftrightarrow> ids_wf s (map k_id rows) \<and> list_all api_key_row_check rows
     \<and> distinct (map k_public_id rows)
     \<and> refs_in W (map (\<lambda>r. (k_workspace_id r, k_account_id r)) rows)"

definition devices_wf :: "(int \<times> int) set \<Rightarrow> int \<Rightarrow> device_credentials_row list \<Rightarrow> bool" where
  "devices_wf W s rows \<longleftrightarrow> ids_wf s (map d_id rows) \<and> list_all device_row_check rows
     \<and> distinct (map d_certificate_fingerprint rows)
     \<and> refs_in W (map (\<lambda>r. (d_workspace_id r, d_account_id r)) rows)"

definition usage_wf :: "(int \<times> int) set \<Rightarrow> usage_periods_row list \<Rightarrow> bool" where
  "usage_wf W rows \<longleftrightarrow> list_all usage_row_check rows \<and> distinct (map usage_key rows)
     \<and> refs_in W (map (\<lambda>r. (u_workspace_id r, u_account_id r)) rows)"

definition schema_wf :: "tables \<Rightarrow> bool" where
  "schema_wf t \<longleftrightarrow> accounts_wf (seq_accounts t) (accounts t)
     \<and> limits_table_wf (account_ids t) (account_limits t)
     \<and> workspaces_wf (account_ids t) (seq_workspaces t) (workspaces t)
     \<and> keys_wf (workspace_scopes t) (seq_api_keys t) (api_keys t)
     \<and> devices_wf (workspace_scopes t) (seq_device_credentials t) (device_credentials t)
     \<and> usage_wf (workspace_scopes t) (usage_periods t)"

lemma table_wf_mono:
  "limits_table_wf A ls \<Longrightarrow> A \<subseteq> A' \<Longrightarrow> limits_table_wf A' ls"
  "workspaces_wf A s ws \<Longrightarrow> A \<subseteq> A' \<Longrightarrow> workspaces_wf A' s ws"
  "keys_wf W s ks \<Longrightarrow> W \<subseteq> W' \<Longrightarrow> keys_wf W' s ks"
  "devices_wf W s ds \<Longrightarrow> W \<subseteq> W' \<Longrightarrow> devices_wf W' s ds"
  "usage_wf W us \<Longrightarrow> W \<subseteq> W' \<Longrightarrow> usage_wf W' us"
  unfolding limits_table_wf_def workspaces_wf_def keys_wf_def devices_wf_def usage_wf_def
    refs_in_def
  by blast+

lemma refs_in_mono: "refs_in S ks \<Longrightarrow> S \<subseteq> S' \<Longrightarrow> refs_in S' ks"
  by (auto simp: refs_in_def)

lemma refs_in_append [simp]: "refs_in S (ks @ [k]) \<longleftrightarrow> refs_in S ks \<and> k \<in> S"
  by (auto simp: refs_in_def)

definition limits_complete :: "tables \<Rightarrow> bool" where
  "limits_complete t \<longleftrightarrow> refs_in (l_account_id ` set (account_limits t)) (map a_id (accounts t))"

lemma next_rowid_Ok: "next_rowid s = Ok i \<longleftrightarrow> i = s + 1 \<and> s < i64_max"
  by (auto simp: next_rowid_def)

lemma ids_wf_append: "ids_wf s ids \<Longrightarrow> ids_wf (s + 1) (ids @ [s + 1])"
  by (force simp: ids_wf_def)

text \<open>The rows after an \<open>UPDATE\<close>.\<close>

definition set_where :: "('r \<Rightarrow> bool) \<Rightarrow> ('r \<Rightarrow> 'r) \<Rightarrow> 'r list \<Rightarrow> 'r list" where
  "set_where p f rows = map (\<lambda>r. if p r then f r else r) rows"

lemma map_set_where [simp]: "(\<And>r. g (f r) = g r) \<Longrightarrow> map g (set_where p f rows) = map g rows"
  by (simp add: set_where_def)

lemma image_set_where [simp]: "(\<And>r. g (f r) = g r) \<Longrightarrow> g ` set (set_where p f rows) = g ` set rows"
  using map_set_where [of g f p rows] by (metis set_map)

lemma in_set_where: "r \<in> set (set_where p f rows) \<longleftrightarrow>
    (\<exists>q\<in>set rows. r = (if p q then f q else q))"
  by (auto simp: set_where_def)

lemma list_all_set_where [simp]:
  "list_all c rows \<Longrightarrow> list_all (\<lambda>r. p r \<longrightarrow> c (f r)) rows \<Longrightarrow> list_all c (set_where p f rows)"
  by (auto simp: list_all_iff in_set_where)

lemma update_where_Ok:
  "update_where p f chk rows = Ok (n, rows') \<longleftrightarrow>
     list_all (\<lambda>r. p r \<longrightarrow> chk (f r)) rows \<and> n = length (filter p rows)
     \<and> rows' = set_where p f rows"
  by (auto simp: update_where_def set_where_def)

lemmas statement_defs = insert_account_def insert_account_limits_def insert_workspace_def
  insert_api_key_row_def insert_device_credential_def upsert_usage_def
  update_account_status_def update_account_plan_def update_account_limits_def
  update_stripe_customer_id_def update_workspace_status_def update_revoke_api_key_def
  update_revoke_device_def

lemma stripe_unique_map:
  "stripe_unique (map (\<lambda>r. (f r, g r)) rows) \<longleftrightarrow>
     (\<forall>r\<in>set rows. \<forall>q\<in>set rows. \<forall>s. g r = Some s \<and> g q = Some s \<longrightarrow> f r = f q)"
  by (simp add: stripe_unique_def image_iff) metis

lemma stripe_unique_append:
  "stripe_unique ps \<Longrightarrow> s = None \<or> s \<notin> snd ` set ps \<Longrightarrow> stripe_unique (ps @ [(i, s)])"
  by (force simp: stripe_unique_def)

lemma stored_limits_readableI:
  assumes v: "AccountLimits_database_values l = Ok v"
    and chk: "limits_row_check row" "l_values row = v"
  shows "stored_limits_readable row"
proof -
  have period: "optional_limit_wf p" if "optional_limit_to_database p = Ok q"
      and "pred_option (\<lambda>v. 0 < v) q" for p q
    using that by (cases p) (auto simp: optional_limit_to_database_def optional_limit_wf_def
        checked_database_counter_def i64_try_from_u64_def split: if_splits)
  from v obtain x y where
      xy: "optional_limit_to_database (period_request_limit l) = Ok x"
        "optional_limit_to_database (period_byte_limit l) = Ok y"
    and "v = \<lparr>db_requests_per_second = uint (requests_per_second l),
          db_request_burst = uint (request_burst l),
          db_max_concurrent_tunnels = uint (max_concurrent_tunnels l),
          db_period_request_limit = x, db_period_byte_limit = y\<rparr>"
    by (auto simp: AccountLimits_database_values_def)
  then have "limits_wf l"
    using chk period [OF xy(1)] period [OF xy(2)] by (auto simp: limits_wf_def limits_row_check_def)
  then show ?thesis
    using AccountLimits_roundtrip [of l] v chk by (auto simp: stored_limits_readable_def)
qed

lemma insert_account_schema: "stmt_keeps schema_wf (insert_account e stripe plan now)"
proof (rule stmt_keepsI)
  fix t i t'
  assume wf: "schema_wf t" and ins: "insert_account e stripe plan now t = Ok (i, t')"
  then obtain row where "t' = t\<lparr>accounts := accounts t @ [row], seq_accounts := seq_accounts t + 1\<rparr>"
      "a_id row = seq_accounts t + 1" "account_row_check row" "a_email row = e"
      "a_stripe_customer_id row = stripe"
      "\<forall>r\<in>set (accounts t). to_ascii_lowercase (a_email r) \<noteq> to_ascii_lowercase e"
      "\<forall>r\<in>set (accounts t). stripe \<noteq> None \<longrightarrow> a_stripe_customer_id r \<noteq> stripe"
    by (auto simp: insert_account_def next_rowid_Ok Let_def list_ex_iff
        eq_ignore_ascii_case_def split: if_splits)
  note new = this
  have "stripe = None \<or> stripe \<notin> snd ` set (map (\<lambda>r. (a_id r, a_stripe_customer_id r)) (accounts t))"
    using new by auto
  then have "accounts_wf (seq_accounts t + 1) (accounts t @ [row])"
    using wf new by (auto simp: schema_wf_def accounts_wf_def ids_wf_append stripe_unique_append)
  then show "schema_wf t'"
    using wf new unfolding schema_wf_def
    by (auto simp: account_ids_def workspace_scopes_def elim!: table_wf_mono)
qed

lemma insert_limits_schema:
  "AccountLimits_database_values l = Ok v \<Longrightarrow> stmt_keeps schema_wf (insert_account_limits a v now)"
  by (rule stmt_keepsI) (fastforce simp: insert_account_limits_def Let_def schema_wf_def
      limits_table_wf_def account_ids_def workspace_scopes_def account_exists_def list_ex_iff
      stored_limits_readableI split: if_splits)

lemma insert_workspace_schema: "stmt_keeps schema_wf (insert_workspace a name now)"
proof (rule stmt_keepsI)
  fix t i t'
  assume wf: "schema_wf t" and ins: "insert_workspace a name now t = Ok (i, t')"
  then obtain row where
      "t' = t\<lparr>workspaces := workspaces t @ [row], seq_workspaces := seq_workspaces t + 1\<rparr>"
      "w_id row = seq_workspaces t + 1" "workspace_row_check row" "a \<in> account_ids t"
      "w_account_id row = a" "w_name row = name"
      "\<forall>r\<in>set (workspaces t). (w_account_id r, w_name r) \<noteq> (a, name)"
    by (auto simp: insert_workspace_def next_rowid_Ok Let_def list_ex_iff account_exists_def
        account_ids_def split: if_splits)
  with wf show "schema_wf t'"
    unfolding schema_wf_def
    by (auto simp: workspaces_wf_def ids_wf_append account_ids_def
        workspace_scopes_def elim!: table_wf_mono)
qed

lemma workspace_scope_exists_iff: "workspace_scope_exists t w a \<longleftrightarrow> (w, a) \<in> workspace_scopes t"
  by (auto simp: workspace_scope_exists_def workspace_scopes_def list_ex_iff)

lemma insert_api_key_schema: "stmt_keeps schema_wf (insert_api_key_row p a w label ver h now)"
  by (rule stmt_keepsI)
    (auto simp: insert_api_key_row_def next_rowid_Ok Let_def schema_wf_def keys_wf_def
      ids_wf_append list_ex_iff workspace_scope_exists_iff workspace_scopes_def account_ids_def
      split: if_splits)

lemma insert_device_schema: "stmt_keeps schema_wf (insert_device_credential a w label f now)"
  by (rule stmt_keepsI)
    (auto simp: insert_device_credential_def next_rowid_Ok Let_def schema_wf_def devices_wf_def
      ids_wf_append list_ex_iff workspace_scope_exists_iff workspace_scopes_def account_ids_def
      split: if_splits)

text \<open>The upsert replaces the row with its key or appends it.\<close>

lemma upsert_usage_schema: "stmt_keeps schema_wf (upsert_usage row)"
proof (rule stmt_keepsI)
  fix t x t'
  assume wf: "schema_wf t" and ups: "upsert_usage row t = Ok (x, t')"
  have new: "usage_row_check row" "(u_workspace_id row, u_account_id row) \<in> workspace_scopes t"
    using ups by (auto simp: upsert_usage_def workspace_scope_exists_iff split: if_splits)
  let ?repl = "map (\<lambda>r. if usage_key r = usage_key row then row else r) (usage_periods t)"
  have old: "usage_wf (workspace_scopes t) (usage_periods t)"
    using wf by (simp add: schema_wf_def)
  have "map usage_key ?repl = map usage_key (usage_periods t)"
    by simp
  moreover have "list_all usage_row_check ?repl"
    using old new by (auto simp: usage_wf_def list_all_iff)
  moreover have "refs_in (workspace_scopes t) (map (\<lambda>r. (u_workspace_id r, u_account_id r)) ?repl)"
    using old new by (auto simp: usage_wf_def refs_in_def)
  ultimately have repl: "usage_wf (workspace_scopes t) ?repl"
    using old by (simp only: usage_wf_def)
  have app: "usage_wf (workspace_scopes t) (usage_periods t @ [row])"
    if "\<not> list_ex (\<lambda>r. usage_key r = usage_key row) (usage_periods t)"
    using old new that by (auto simp: usage_wf_def list_ex_iff)
  show "schema_wf t'"
    using wf ups repl app
    by (auto simp: upsert_usage_def schema_wf_def workspace_scopes_def account_ids_def
        split: if_splits)
qed

lemmas schema_update_simps = update_where_Ok schema_wf_def account_ids_def workspace_scopes_def

lemma update_account_status_schema: "stmt_keeps schema_wf (update_account_status a st now)"
  by (rule stmt_keepsI)
    (auto simp: update_account_status_def schema_update_simps accounts_wf_def)

lemma update_account_plan_schema: "stmt_keeps schema_wf (update_account_plan a plan now)"
  by (rule stmt_keepsI)
    (auto simp: update_account_plan_def schema_update_simps accounts_wf_def)

lemma update_limits_schema:
  assumes "AccountLimits_database_values l = Ok v"
  shows "stmt_keeps schema_wf (update_account_limits a v now)"
proof (rule stmt_keepsI)
  fix t n t'
  assume wf: "schema_wf t" and upd: "update_account_limits a v now t = Ok (n, t')"
  have "list_all (\<lambda>r. l_account_id r = a \<longrightarrow> stored_limits_readable (r\<lparr>l_values := v, l_updated_at := now\<rparr>))
      (account_limits t)"
    using upd assms by (auto simp: update_account_limits_def update_where_Ok list_all_iff
        intro: stored_limits_readableI)
  with wf upd show "schema_wf t'"
    by (auto simp: update_account_limits_def schema_update_simps limits_table_wf_def)
qed

lemma update_stripe_schema: "stmt_keeps schema_wf (update_stripe_customer_id a stripe now)"
proof (rule stmt_keepsI)
  fix t n t'
  assume wf: "schema_wf t" and upd: "update_stripe_customer_id a stripe now t = Ok (n, t')"
  let ?rows = "set_where (\<lambda>r. a_id r = a)
      (\<lambda>r. r\<lparr>a_stripe_customer_id := stripe, a_updated_at := now\<rparr>) (accounts t)"
  have t': "t' = t\<lparr>accounts := ?rows\<rparr>"
    and chk: "list_all (\<lambda>r. a_id r = a \<longrightarrow>
        account_row_check (r\<lparr>a_stripe_customer_id := stripe, a_updated_at := now\<rparr>)) (accounts t)"
    and free: "\<And>r q. r \<in> set (accounts t) \<Longrightarrow> a_id r = a \<Longrightarrow> q \<in> set (accounts t) \<Longrightarrow> a_id q \<noteq> a
        \<Longrightarrow> stripe \<noteq> None \<Longrightarrow> a_stripe_customer_id q \<noteq> stripe"
    using upd by (auto simp: update_stripe_customer_id_def update_where_Ok list_all_iff list_ex_iff)
  have old: "a_id r = a_id q" if "r \<in> set (accounts t)" "q \<in> set (accounts t)"
      "a_stripe_customer_id r = Some s" "a_stripe_customer_id q = Some s" for r q s
    using wf that unfolding schema_wf_def accounts_wf_def stripe_unique_map by blast
  have "a_id r = a_id q" if "r \<in> set ?rows" "q \<in> set ?rows"
      "a_stripe_customer_id r = Some s" "a_stripe_customer_id q = Some s" for r q s
  proof -
    from that obtain r0 q0 where rows: "r0 \<in> set (accounts t)" "q0 \<in> set (accounts t)"
      and r: "r = (if a_id r0 = a then r0\<lparr>a_stripe_customer_id := stripe, a_updated_at := now\<rparr> else r0)"
      and q: "q = (if a_id q0 = a then q0\<lparr>a_stripe_customer_id := stripe, a_updated_at := now\<rparr> else q0)"
      by (auto simp only: in_set_where)
    show ?thesis
      using that(3,4) old [OF rows] free [OF rows(1) _ rows(2)] free [OF rows(2) _ rows(1)] r q
      by (cases "a_id r0 = a"; cases "a_id q0 = a") auto
  qed
  then have "stripe_unique (map (\<lambda>r. (a_id r, a_stripe_customer_id r)) ?rows)"
    unfolding stripe_unique_map by blast
  with wf t' chk show "schema_wf t'"
    by (auto simp: schema_update_simps accounts_wf_def)
qed

lemma update_workspace_status_schema: "stmt_keeps schema_wf (update_workspace_status w st now)"
  by (rule stmt_keepsI)
    (auto simp: update_workspace_status_def schema_update_simps workspaces_wf_def)

lemma update_revoke_api_key_schema: "stmt_keeps schema_wf (update_revoke_api_key k now)"
  by (rule stmt_keepsI)
    (auto simp: update_revoke_api_key_def schema_update_simps keys_wf_def)

lemma update_revoke_device_schema: "stmt_keeps schema_wf (update_revoke_device d now)"
  by (rule stmt_keepsI)
    (auto simp: update_revoke_device_def schema_update_simps devices_wf_def)

interpretation schema: statement_invariant schema_wf
  by (unfold_locales; rule insert_account_schema insert_limits_schema insert_workspace_schema
      insert_api_key_schema insert_device_schema upsert_usage_schema update_account_status_schema
      update_account_plan_schema update_limits_schema update_stripe_schema
      update_workspace_status_schema update_revoke_api_key_schema update_revoke_device_schema)

end
