(* ===== verification/Account_Atomicity.thy ===== *)
theory Account_Atomicity
  imports Account_Invariants
begin

text \<open>
  Every operation of the account store is atomic: when it returns an error, the tables are
  those it found. A rule per way of composing an operation, one lemma per statement that
  changed no row, and then each operation.
\<close>

section \<open>Rules\<close>

definition reads :: "('a, 'e) dbm \<Rightarrow> bool" where
  "reads m \<longleftrightarrow> (\<forall>t. keeps ((=) t) m)"

definition atomic :: "(tables \<Rightarrow> bool) \<Rightarrow> ('a, 'e) dbm \<Rightarrow> bool" where
  "atomic P m \<longleftrightarrow> (\<forall>c e c'. P (tbls c) \<longrightarrow> m c = (Err e, c') \<longrightarrow> tbls c' = tbls c)"

named_theorems atomic_rules \<open>rules for \<open>atomic\<close>\<close>

lemma readsD: "reads m \<Longrightarrow> m c = (r, c') \<Longrightarrow> tbls c' = tbls c"
  using keeps_result [of "(=) (tbls c)" m c r c'] by (simp add: reads_def)

lemma atomicD: "atomic P m \<Longrightarrow> P (tbls c) \<Longrightarrow> m c = (Err e, c') \<Longrightarrow> tbls c' = tbls c"
  unfolding atomic_def by blast

lemma reads_sql: "reads (sql (select_stmt f))"
  by (simp add: reads_def keeps_rules)

lemma reads_lift: "reads (db_lift r)"
  by (simp add: reads_def keeps_rules)

lemma reads_lock: "reads lock_connection"
  by (simp add: reads_def keeps_rules)

lemma reads_exists: "reads (record_exists table i)"
  by (simp add: reads_def keeps_rules)

lemma reads_scope: "reads (require_workspace_scope a w)"
  by (simp add: reads_def keeps_rules)

lemma reads_map_err: "reads m \<Longrightarrow> reads (db_map_err g m)"
  by (simp add: reads_def keeps_rules)

lemmas reads_rules = reads_sql reads_lift reads_lock reads_exists reads_scope reads_map_err

lemma atomic_reads: "reads m \<Longrightarrow> atomic P m"
  by (auto simp: atomic_def dest: readsD)

lemma atomic_lift [atomic_rules]: "atomic P (db_lift r)"
  by (rule atomic_reads) (rule reads_lift)

lemma atomic_return [atomic_rules]: "atomic P (db_return x)"
  by (simp add: atomic_def db_return_def)

lemma atomic_bind_reads [atomic_rules]:
  "reads m \<Longrightarrow> (\<And>x. atomic P (f x)) \<Longrightarrow> atomic P (db_bind m f)"
  unfolding atomic_def dbm_simps by (metis readsD)

lemma atomic_map_err [atomic_rules]: "atomic P m \<Longrightarrow> atomic P (db_map_err g m)"
  unfolding atomic_def dbm_simps by blast

lemma atomic_if [atomic_rules]: "atomic P m \<Longrightarrow> atomic P m' \<Longrightarrow> atomic P (if b then m else m')"
  by simp

lemma atomic_run_statement [atomic_rules]: "atomic P (run_statement s)"
  by (auto simp: atomic_def run_statement_def Let_def split: option.splits sum.splits)

lemma atomic_sql [atomic_rules]: "atomic P (sql s)"
  unfolding sql_def by (intro atomic_rules)

lemma atomic_transaction [atomic_rules]: "atomic P (transaction w m)"
  by (auto simp: atomic_def transaction_def split: prod.splits sum.splits dest!: sql_select_tbls)

text \<open>A write whose continuation fails only when the write changed nothing.\<close>

lemma atomic_bind_write:
  assumes "atomic P m"
    and "\<And>c x c' e c''. P (tbls c) \<Longrightarrow> m c = (Ok x, c') \<Longrightarrow> f x c' = (Err e, c'') \<Longrightarrow> tbls c'' = tbls c"
  shows "atomic P (db_bind m f)"
  using assms unfolding atomic_def dbm_simps by blast

lemma atomic_issue_attempts:
  assumes "\<And>g. atomic P (store g)"
  shows "atomic P (issue_attempts enc h fill store i n)"
proof -
  have "P (tbls c) \<Longrightarrow> issue_attempts enc h fill store i n c = (Err e, c') \<Longrightarrow> tbls c' = tbls c"
    for c e c'
  proof (induction n arbitrary: i c)
    case (Suc n)
    have "tbls c'' = tbls c" if "store g c = (Err e', c'')" for g e' c''
      using assms [of g] Suc.prems(1) that by (rule atomicD)
    note failed = this
    have retry: "tbls c' = tbls c" if "store g c = (Err e', c'')"
        "issue_attempts enc h fill store (Suc i) n c'' = (Err e, c')" for g e' c''
      using failed [OF that(1)] Suc.IH [OF _ that(2)] Suc.prems(1) by simp
    show ?case
    proof (cases "GeneratedApiKey_generate enc h (fill i)")
      case (Inr g)
      obtain r c'' where st: "store g c = (r, c'')" by fastforce
      with Suc.prems(2) Inr obtain e' where r: "r = Err e'"
        by (cases r) auto
      show ?thesis
        using Suc.prems(2) Inr st r retry [of g e' c''] failed [of g e' c'']
        by (cases e') (auto split: if_splits)
    qed (use Suc.prems(2) in simp)
  qed simp
  then show ?thesis unfolding atomic_def by blast
qed

section \<open>Statements\<close>

definition idle_on_zero :: "nat statement \<Rightarrow> bool" where
  "idle_on_zero s \<longleftrightarrow> (\<forall>t t'. s t = Ok (0, t') \<longrightarrow> t' = t)"

lemma update_where_zero:
  assumes "update_where p f chk rows = Ok (0, rows')"
  shows "rows' = rows"
proof -
  have "\<forall>r\<in>set rows. \<not> p r"
    using assms by (auto simp: update_where_Ok filter_empty_conv)
  then have "set_where p f rows = rows"
    by (auto simp: set_where_def intro: map_idI)
  with assms show ?thesis by (simp add: update_where_Ok)
qed

lemma idle_updates:
  "idle_on_zero (update_account_status a st now)"
  "idle_on_zero (update_workspace_status w st now)"
  "idle_on_zero (update_revoke_api_key k now)"
  "idle_on_zero (update_revoke_device d now)"
  "idle_on_zero (update_stripe_customer_id a stripe now)"
  unfolding idle_on_zero_def
  by (auto simp: update_account_status_def update_workspace_status_def update_revoke_api_key_def
      update_revoke_device_def update_stripe_customer_id_def dest!: update_where_zero)

lemma atomic_update:
  assumes "idle_on_zero s" and "reads (f 0)" and "\<And>n c. n > 0 \<Longrightarrow> \<not> isl (fst (f n c))"
  shows "atomic P (db_bind (db_map_err g (run_statement s)) f)"
proof (rule atomic_bind_write)
  fix c x c' e c''
  assume s: "db_map_err g (run_statement s) c = (Ok x, c')" and f: "f x c' = (Err e, c'')"
  have "x = 0" using assms(3) [of x c'] f by (cases "x = 0") auto
  moreover from this have "tbls c' = tbls c"
    using s assms(1) by (auto simp: dbm_simps idle_on_zero_def)
  ultimately show "tbls c'' = tbls c"
    using readsD [OF assms(2)] f by metis
qed (intro atomic_rules)

section \<open>Operations\<close>

lemma atomic_set_account_status: "atomic P (db_set_account_status a st now)"
  unfolding db_set_account_status_def sql_def
  by (intro atomic_bind_reads atomic_update idle_updates reads_rules)
    (auto simp: reads_def db_return_def intro!: keeps_rules)

lemma atomic_set_workspace_status: "atomic P (db_set_workspace_status w st now)"
  unfolding db_set_workspace_status_def sql_def
  by (intro atomic_bind_reads atomic_update idle_updates reads_rules)
    (auto simp: reads_def db_return_def intro!: keeps_rules)

lemma atomic_revoke_api_key: "atomic P (db_revoke_api_key k now)"
  unfolding db_revoke_api_key_def sql_def
  by (intro atomic_bind_reads atomic_update idle_updates reads_rules)
    (auto simp: reads_def db_return_def intro!: keeps_rules)

lemma atomic_revoke_device: "atomic P (db_revoke_device_credential d now)"
  unfolding db_revoke_device_credential_def sql_def
  by (intro atomic_bind_reads atomic_update idle_updates reads_rules)
    (auto simp: reads_def db_return_def intro!: keeps_rules)

lemma atomic_set_stripe: "atomic P (db_set_stripe_customer_id a stripe now)"
  unfolding db_set_stripe_customer_id_def
  by (intro atomic_bind_reads atomic_update idle_updates reads_rules)
    (auto simp: reads_def db_return_def intro!: keeps_rules)

lemma atomic_update_plan: "atomic P (db_update_account_plan_and_limits a plan limits now)"
  unfolding db_update_account_plan_and_limits_def by (intro atomic_rules reads_rules)

text \<open>A rowid is positive, so the identifier made of it is accepted.\<close>

definition fresh_rowid :: "int statement \<Rightarrow> bool" where
  "fresh_rowid s \<longleftrightarrow> (\<forall>t i t'. schema_wf t \<longrightarrow> s t = Ok (i, t') \<longrightarrow> 0 < i)"

lemma fresh_rowids:
  "fresh_rowid (insert_account e stripe plan now)"
  "fresh_rowid (insert_workspace a name now)"
  "fresh_rowid (insert_api_key_row p a w label ver h now)"
  "fresh_rowid (insert_device_credential a w label f now)"
  unfolding fresh_rowid_def insert_account_def insert_workspace_def insert_api_key_row_def
    insert_device_credential_def schema_wf_def
  by (auto simp: next_rowid_Ok Let_def accounts_wf_def workspaces_wf_def keys_wf_def
      devices_wf_def ids_wf_def split: if_splits)

lemma atomic_insert:
  assumes "fresh_rowid s" and "\<And>i c. 0 < i \<Longrightarrow> \<not> isl (fst (f i c))"
  shows "atomic schema_wf (db_bind (db_map_err g (run_statement s)) f)"
proof (rule atomic_bind_write)
  fix c i c' e c''
  assume "schema_wf (tbls c)" "db_map_err g (run_statement s) c = (Ok i, c')"
    and f: "f i c' = (Err e, c'')"
  then have "0 < i" using assms(1) unfolding fresh_rowid_def dbm_simps by blast
  with assms(2) [of i c'] f show "tbls c'' = tbls c" by simp
qed (intro atomic_rules)

lemma from_database_total [simp]:
  "0 < i \<Longrightarrow> AccountId_from_database i = Ok (AccountId i)"
  "0 < i \<Longrightarrow> WorkspaceId_from_database i = Ok (WorkspaceId i)"
  "0 < i \<Longrightarrow> ApiKeyId_from_database i = Ok (ApiKeyId i)"
  "0 < i \<Longrightarrow> DeviceCredentialId_from_database i = Ok (DeviceCredentialId i)"
  by (simp_all add: from_database_id_defs)

lemmas dbm_unfold = db_bind_def db_lift_def db_return_def

lemma atomic_create_account: "atomic P (db_create_account e stripe plan limits now)"
  unfolding db_create_account_def
  by (intro atomic_bind_reads reads_rules atomic_bind_write atomic_transaction)
    (simp add: db_return_def)

lemma atomic_create_workspace: "atomic schema_wf (db_create_workspace a name now)"
  unfolding db_create_workspace_def
  by (intro atomic_bind_reads reads_rules atomic_if atomic_lift atomic_insert fresh_rowids)
    (simp add: dbm_unfold)

lemma atomic_insert_api_key: "atomic schema_wf (db_insert_api_key a w label g now)"
  unfolding db_insert_api_key_def sql_def
  by (intro atomic_bind_reads reads_rules atomic_insert fresh_rowids) (simp add: dbm_unfold)

lemma atomic_register_device: "atomic schema_wf (db_register_device_credential a w f label now)"
  unfolding db_register_device_credential_def
  by (intro atomic_bind_reads reads_rules atomic_insert fresh_rowids) (simp add: dbm_unfold)

lemma atomic_rotate: "atomic P (db_rotate_api_key k g now)"
  unfolding db_rotate_api_key_def by (intro atomic_rules reads_rules)

lemma atomic_issue: "atomic schema_wf (AccountManager_issue_api_key enc h fill a w label now)"
  unfolding AccountManager_issue_api_key_def
  by (intro atomic_issue_attempts atomic_insert_api_key)

lemma atomic_rotate_api_key: "atomic P (AccountManager_rotate_api_key enc h fill k now)"
  unfolding AccountManager_rotate_api_key_def by (intro atomic_issue_attempts atomic_rotate)

lemma atomic_record_usage: "atomic P (db_record_usage i p d)"
  unfolding db_record_usage_def by (intro atomic_rules reads_rules)

lemma atomic_record_usage_if_allowed: "atomic P (db_record_usage_if_allowed i p d)"
  unfolding db_record_usage_if_allowed_def by (intro atomic_rules reads_rules)

lemma atomic_admit_request: "atomic P (db_admit_request i p)"
  unfolding db_admit_request_def
  by (intro atomic_bind_reads reads_rules atomic_record_usage_if_allowed)

lemmas atomic_operations = atomic_set_account_status atomic_set_workspace_status
  atomic_revoke_api_key atomic_revoke_device atomic_set_stripe atomic_update_plan
  atomic_create_account atomic_create_workspace atomic_register_device atomic_issue
  atomic_rotate_api_key atomic_record_usage atomic_record_usage_if_allowed atomic_admit_request

lemma atomic_outcome:
  "atomic P m \<Longrightarrow> P (tbls c) \<Longrightarrow> \<not> fst (outcome (m c)) \<Longrightarrow> tbls (snd (outcome (m c))) = tbls c"
  by (cases "m c"; cases "fst (m c)") (auto dest: atomicD)

lemma run_op_atomic:
  "schema_wf (tbls c) \<Longrightarrow> \<not> fst (run_op enc h p c) \<Longrightarrow> tbls (snd (run_op enc h p c)) = tbls c"
  by (cases p; simp only: run_op.simps;
      rule atomic_outcome [where P = schema_wf], rule atomic_operations, assumption+)

end
