(* ===== verification/Account_Properties.thy ===== *)
theory Account_Properties
  imports Account_Atomicity
begin

text \<open>
  The properties of the account store: consistency of every reachable database, atomicity,
  the exact condition under which a request is authenticated, the finality of revocation and
  rotation, the life of an issued key, and the quota of a period.
\<close>

section \<open>Limits of every account\<close>

lemma insert_limits_complete: "stmt_keeps limits_complete (insert_account_limits a v now)"
  by (rule stmt_keepsI) (auto simp: limits_complete_def insert_account_limits_def Let_def
      elim!: refs_in_mono split: if_splits)

interpretation complete: usage_invariant limits_complete
  by (unfold_locales; (rule insert_limits_complete)?; (rule stmt_keepsI)?)
    (auto simp: limits_complete_def statement_defs update_where_Ok Let_def split: if_splits)

lemma insert_account_ids:
  "insert_account e stripe plan now t = Ok (i, t')
    \<Longrightarrow> account_ids t' = insert i (account_ids t) \<and> account_limits t' = account_limits t"
  by (auto simp: insert_account_def account_ids_def Let_def split: if_splits)

lemma insert_limits_ids:
  "insert_account_limits a v now t = Ok (u, t') \<Longrightarrow> account_ids t' = account_ids t
    \<and> l_account_id ` set (account_limits t') = insert a (l_account_id ` set (account_limits t))"
  by (auto simp: insert_account_limits_def account_ids_def Let_def split: if_splits)

lemma limits_complete_iff:
  "limits_complete t \<longleftrightarrow> account_ids t \<subseteq> l_account_id ` set (account_limits t)"
  by (simp add: limits_complete_def refs_in_def account_ids_def)

text \<open>Inside the transaction of \<open>create_account\<close> the predicate fails; after it, it holds again.\<close>

lemma create_account_complete:
  assumes "schema_wf (tbls c)" "limits_complete (tbls c)"
  shows "limits_complete (tbls (snd (db_create_account e stripe plan limits now c)))"
proof (cases "db_create_account e stripe plan limits now c")
  case (Pair r c')
  show ?thesis
  proof (cases r)
    case (Inl err)
    then show ?thesis
      using atomicD [OF atomic_create_account [where P = schema_wf] assms(1)] Pair assms(2) by simp
  next
    case (Inr acc)
    with Pair obtain e' stripe' t1 i v where
        ins: "insert_account e' stripe' (plan_as_str plan) (timestamp_as_i64 now) (tbls c) = Ok (i, t1)"
      and lim: "insert_account_limits i v (timestamp_as_i64 now) t1 = Ok ((), tbls c')"
      by (auto simp: db_create_account_def dbm_simps from_database_id_defs split: if_splits)
    show ?thesis
      using insert_account_ids [OF ins] insert_limits_ids [OF lim] assms(2) Pair
      by (auto simp: limits_complete_iff)
  qed
qed

lemma limits_complete_op:
  "schema_wf (tbls c) \<Longrightarrow> limits_complete (tbls c) \<Longrightarrow> limits_complete (tbls (snd (run_op enc h p c)))"
  using complete.run_usage_op [of p c enc h] create_account_complete
  by (cases p) simp_all

definition store_wf :: "tables \<Rightarrow> bool" where
  "store_wf t \<longleftrightarrow> schema_wf t \<and> limits_complete t"

lemma store_wf_op: "store_wf (tbls c) \<Longrightarrow> store_wf (tbls (snd (run_op enc h p c)))"
  by (simp add: store_wf_def limits_complete_op schema.run_any_op)

lemma store_wf_ops: "store_wf (tbls c) \<Longrightarrow> store_wf (tbls (run_ops enc h ps c))"
  by (induction ps arbitrary: c) (simp_all add: store_wf_op)

lemma store_wf_empty: "store_wf empty_tables"
  by (simp add: store_wf_def schema_wf_def limits_complete_def empty_tables_def accounts_wf_def
      limits_table_wf_def workspaces_wf_def keys_wf_def devices_wf_def usage_wf_def ids_wf_def
      stripe_unique_def refs_in_def)

definition fresh_connection :: "(nat \<Rightarrow> nat option) \<Rightarrow> connection" where
  "fresh_connection f = \<lparr>tbls = empty_tables, clock = 0, faults = f, poisoned = False\<rparr>"

text \<open>
  Property C3. Whatever sequence of operations an administrator and the proxy run on a new
  database, and at whatever statements SQLite fails, the tables satisfy every CHECK, UNIQUE
  and FOREIGN KEY constraint of the schema, every stored limit can be read back, and every
  account has its limits record.
\<close>

theorem account_store_invariant:
  "store_wf (tbls (run_ops enc h ps (fresh_connection f)))"
  by (rule store_wf_ops) (simp add: fresh_connection_def store_wf_empty)

text \<open>
  Property C4. An operation that fails leaves no trace: whatever it did before the error, the
  tables after it are the tables before it.
\<close>

theorem account_operations_atomic:
  assumes "\<not> fst (run_op enc h p (run_ops enc h ps (fresh_connection f)))"
  shows "tbls (snd (run_op enc h p (run_ops enc h ps (fresh_connection f))))
    = tbls (run_ops enc h ps (fresh_connection f))"
proof (rule run_op_atomic)
  show "schema_wf (tbls (run_ops enc h ps (fresh_connection f)))"
    by (rule schema.run_any_ops)
      (use store_wf_empty in \<open>simp add: fresh_connection_def store_wf_def\<close>)
qed (rule assms)

theorem account_operations_atomic_witness:
  "let c = run_ops id id [] (fresh_connection (\<lambda>_. None));
       p = Op_SetAccountStatus (AccountId 7) Account_Suspended (UnixTimestamp 5)
   in \<not> fst (run_op id id p c) \<and> tbls (snd (run_op id id p c)) = tbls c"
  unfolding Let_def
  by (intro conjI account_operations_atomic)
    (simp_all add: fresh_connection_def empty_tables_def db_set_account_status_def db_bind_def
      lock_connection_def sql_def db_map_err_def run_statement_def update_account_status_def
      update_where_def record_exists_def select_stmt_def account_exists_def db_lift_def)

section \<open>Authentication\<close>

text \<open>With unique keys the join has at most one row, and the query finds it.\<close>

lemma join_credentials_unique:
  assumes wf: "schema_wf t"
    and "x \<in> set (join_credentials p t)" "y \<in> set (join_credentials p t)"
  shows "x = y"
proof -
  from assms(2) obtain k a w l where x: "k \<in> set (api_keys t)" "a \<in> set (accounts t)"
      "w \<in> set (workspaces t)" "l \<in> set (account_limits t)" "k_public_id k = p"
      "a_id a = k_account_id k" "w_id w = k_workspace_id k" "l_account_id l = k_account_id k"
      "x = credential_of k a w l"
    by (auto simp: join_credentials_iff)
  from assms(3) obtain k' a' w' l' where y: "k' \<in> set (api_keys t)" "a' \<in> set (accounts t)"
      "w' \<in> set (workspaces t)" "l' \<in> set (account_limits t)" "k_public_id k' = p"
      "a_id a' = k_account_id k'" "w_id w' = k_workspace_id k'" "l_account_id l' = k_account_id k'"
      "y = credential_of k' a' w' l'"
    by (auto simp: join_credentials_iff)
  note d = wf [unfolded schema_wf_def accounts_wf_def limits_table_wf_def workspaces_wf_def
      keys_wf_def ids_wf_def]
  have "k = k'"
    using d x y by (intro distinct_map_inj [of k_public_id "api_keys t"]) simp_all
  moreover from this have "a = a'"
    using d x y by (intro distinct_map_inj [of a_id "accounts t"]) simp_all
  moreover from \<open>k = k'\<close> have "w = w'"
    using d x y by (intro distinct_map_inj [of w_id "workspaces t"]) simp_all
  moreover from \<open>k = k'\<close> have "l = l'"
    using d x y by (intro distinct_map_inj [of l_account_id "account_limits t"]) simp_all
  ultimately show ?thesis using x y by simp
qed

lemma select_credential_iff:
  assumes "schema_wf t"
  shows "select_credential p t = Some cred \<longleftrightarrow> cred \<in> set (join_credentials p t)"
proof
  assume cred: "cred \<in> set (join_credentials p t)"
  then show "select_credential p t = Some cred"
    using join_credentials_unique [OF assms _ cred, of "hd (join_credentials p t)"]
    by (cases "join_credentials p t") (simp_all add: select_credential_def)
qed (rule select_credential_Some)

definition device_of :: "device_credentials_row \<Rightarrow> DeviceLookup" where
  "device_of d = \<lparr>dev_id = d_id d, dev_account_id = d_account_id d,
     dev_workspace_id = d_workspace_id d, dev_status = d_status d\<rparr>"

lemma select_device_iff:
  assumes "schema_wf t"
  shows "select_device fp t = Some dev \<longleftrightarrow>
    (\<exists>d\<in>set (device_credentials t). d_certificate_fingerprint d = fp \<and> dev = device_of d)"
proof -
  have "distinct (map d_certificate_fingerprint (device_credentials t))"
    using assms by (simp add: schema_wf_def devices_wf_def)
  then show ?thesis
    by (auto simp: select_device_def device_of_def find_key_iff)
qed

text \<open>
  What an authenticated request shows: one active key, one active device, one active
  workspace and account, all of the same account and workspace.
\<close>

definition authorized ::
    "tables \<Rightarrow> string \<Rightarrow> string \<Rightarrow> string \<Rightarrow> IngressIdentity \<Rightarrow> bool" where
  "authorized t public_id digest fingerprint identity \<longleftrightarrow>
     (\<exists>k\<in>set (api_keys t). \<exists>a\<in>set (accounts t). \<exists>w\<in>set (workspaces t).
      \<exists>l\<in>set (account_limits t). \<exists>d\<in>set (device_credentials t).
        k_public_id k = public_id \<and> k_key_hash_version k = 1 \<and> k_key_hash k = digest
        \<and> k_status k = ''active''
        \<and> a_id a = k_account_id k \<and> a_status a = ''active''
        \<and> w_id w = k_workspace_id k \<and> w_account_id w = k_account_id k \<and> w_status w = ''active''
        \<and> d_certificate_fingerprint d = fingerprint \<and> d_status d = ''active''
        \<and> d_account_id d = k_account_id k \<and> d_workspace_id d = k_workspace_id k
        \<and> l_account_id l = k_account_id k
        \<and> AccountLimits_from_database
            (db_requests_per_second (l_values l)) (db_request_burst (l_values l))
            (db_max_concurrent_tunnels (l_values l)) (db_period_request_limit (l_values l))
            (db_period_byte_limit (l_values l)) = Ok (identity_limits identity)
        \<and> identity_account_id identity = AccountId (a_id a)
        \<and> identity_workspace_id identity = WorkspaceId (w_id w)
        \<and> identity_api_key_id identity = ApiKeyId (k_id k)
        \<and> identity_device_credential_id identity = DeviceCredentialId (d_id d))"

lemma ids_positive:
  assumes "schema_wf t"
  shows "a \<in> set (accounts t) \<Longrightarrow> 0 < a_id a" "w \<in> set (workspaces t) \<Longrightarrow> 0 < w_id w"
    "k \<in> set (api_keys t) \<Longrightarrow> 0 < k_id k" "d \<in> set (device_credentials t) \<Longrightarrow> 0 < d_id d"
    and "k \<in> set (api_keys t) \<Longrightarrow> length (k_key_hash k) = 32"
  using assms by (auto simp: schema_wf_def accounts_wf_def workspaces_wf_def keys_wf_def
      devices_wf_def ids_wf_def api_key_row_check_def list_all_iff)

lemma authenticate_Ok:
  "db_authenticate p dg fp c = (Ok identity, c') \<longleftrightarrow>
     \<not> poisoned c \<and> faults c (clock c) = None \<and> faults c (Suc (clock c)) = None
     \<and> c' = after (tbls c) (after (tbls c) c)
     \<and> (\<exists>cred dev. select_credential p (tbls c) = Some cred \<and> check_credential p dg cred = Ok ()
          \<and> select_device fp (tbls c) = Some dev \<and> check_device cred dev = Ok ()
          \<and> ingress_identity cred dev = Ok identity)"
  by (auto simp: db_authenticate_def dbm_simps)

lemma authorized_iff:
  assumes wf: "schema_wf t"
  shows "(\<exists>cred dev. select_credential p t = Some cred \<and> check_credential p dg cred = Ok ()
          \<and> select_device fp t = Some dev \<and> check_device cred dev = Ok ()
          \<and> ingress_identity cred dev = Ok identity) \<longleftrightarrow> authorized t p dg fp identity"
    (is "?l \<longleftrightarrow> ?r")
proof
  assume ?l
  then show ?r
    using ids_positive [OF wf]
    by (fastforce simp: select_credential_iff [OF wf] select_device_iff [OF wf] join_credentials_iff
        check_credential_Ok check_device_Ok credential_of_def device_of_def ingress_identity_def
        authorized_def API_KEY_HASH_VERSION_def)
next
  assume ?r
  then obtain k a w l d where rows: "k\<in>set (api_keys t)" "a\<in>set (accounts t)" "w\<in>set (workspaces t)"
      "l\<in>set (account_limits t)" "d\<in>set (device_credentials t)"
    and m: "k_public_id k = p" "k_key_hash_version k = 1" "k_key_hash k = dg" "k_status k = ''active''"
      "a_id a = k_account_id k" "a_status a = ''active''"
      "w_id w = k_workspace_id k" "w_account_id w = k_account_id k" "w_status w = ''active''"
      "d_certificate_fingerprint d = fp" "d_status d = ''active''"
      "d_account_id d = k_account_id k" "d_workspace_id d = k_workspace_id k"
      "l_account_id l = k_account_id k"
      "AccountLimits_from_database
            (db_requests_per_second (l_values l)) (db_request_burst (l_values l))
            (db_max_concurrent_tunnels (l_values l)) (db_period_request_limit (l_values l))
            (db_period_byte_limit (l_values l)) = Ok (identity_limits identity)"
      "identity_account_id identity = AccountId (a_id a)"
      "identity_workspace_id identity = WorkspaceId (w_id w)"
      "identity_api_key_id identity = ApiKeyId (k_id k)"
      "identity_device_credential_id identity = DeviceCredentialId (d_id d)"
    unfolding authorized_def by blast
  have "credential_of k a w l \<in> set (join_credentials p t)"
    using rows m unfolding join_credentials_iff by blast
  moreover have "ingress_identity (credential_of k a w l) (device_of d) = Ok identity"
    using m ids_positive(1) [OF wf rows(2)] ids_positive(2) [OF wf rows(3)]
      ids_positive(3) [OF wf rows(1)] ids_positive(4) [OF wf rows(5)]
    by (simp add: ingress_identity_def credential_of_def device_of_def)
  moreover have "check_credential p dg (credential_of k a w l) = Ok ()"
    using m ids_positive(5) [OF wf rows(1)]
    by (simp add: check_credential_Ok credential_of_def API_KEY_HASH_VERSION_def)
  moreover have "check_device (credential_of k a w l) (device_of d) = Ok ()"
    using m by (simp add: check_device_Ok credential_of_def device_of_def)
  ultimately show ?l
    unfolding select_credential_iff [OF wf] select_device_iff [OF wf]
    using rows m by blast
qed

text \<open>
  Property C5. A key, by its public identifier and digest, and a client certificate
  authenticate as an identity exactly when the store authorizes it: the key is active and
  carries that digest, the device is active, its scope is the scope of the key, account and
  workspace are active, and the identity's limits are those stored for the account.
\<close>

theorem authenticate_iff_authorized:
  assumes "schema_wf (tbls c)" "\<not> poisoned c"
    and "faults c (clock c) = None" "faults c (Suc (clock c)) = None"
  shows "fst (db_authenticate p dg fp c) = Ok identity \<longleftrightarrow> authorized (tbls c) p dg fp identity"
proof
  assume "fst (db_authenticate p dg fp c) = Ok identity"
  then obtain c' where "db_authenticate p dg fp c = (Ok identity, c')"
    by (cases "db_authenticate p dg fp c") simp
  then show "authorized (tbls c) p dg fp identity"
    unfolding authenticate_Ok authorized_iff [OF assms(1)] by blast
next
  assume "authorized (tbls c) p dg fp identity"
  then have "db_authenticate p dg fp c = (Ok identity, after (tbls c) (after (tbls c) c))"
    unfolding authenticate_Ok authorized_iff [OF assms(1)] using assms(2-) by blast
  then show "fst (db_authenticate p dg fp c) = Ok identity" by simp
qed

section \<open>A small store\<close>

text \<open>
  The store the examples run on: one active account with limits of two requests and a
  thousand bytes per period, one workspace, one key and one device.
\<close>

definition demo_limits :: AccountLimits where
  "demo_limits = \<lparr>requests_per_second = 5, request_burst = 5, max_concurrent_tunnels = 2,
     period_request_limit = Some 2, period_byte_limit = Some 1000\<rparr>"

definition demo_values :: DatabaseLimitValues where
  "demo_values = \<lparr>db_requests_per_second = 5, db_request_burst = 5, db_max_concurrent_tunnels = 2,
     db_period_request_limit = Some 2, db_period_byte_limit = Some 1000\<rparr>"

definition demo_digest :: string where
  "demo_digest = replicate 32 (CHR ''d'')"

definition demo_fingerprint :: string where
  "demo_fingerprint = replicate 32 (CHR ''f'')"

definition demo_key_row :: api_keys_row where
  "demo_key_row = \<lparr>k_id = 1, k_public_id = ''AAAABBBBCCCCDDDD'', k_account_id = 1,
     k_workspace_id = 1, k_label = ''ci'', k_key_hash_version = 1, k_key_hash = demo_digest,
     k_status = ''active'', k_created_at = 13, k_revoked_at = None\<rparr>"

definition demo_tables :: tables where
  "demo_tables = \<lparr>
     accounts = [\<lparr>a_id = 1, a_email = ''owner@example.org'', a_stripe_customer_id = None,
       a_plan = ''team'', a_status = ''active'', a_created_at = 10, a_updated_at = 10\<rparr>],
     account_limits = [\<lparr>l_account_id = 1, l_values = demo_values, l_updated_at = 10\<rparr>],
     workspaces = [\<lparr>w_id = 1, w_account_id = 1, w_name = ''main'', w_status = ''active'',
       w_created_at = 11, w_updated_at = 11\<rparr>],
     api_keys = [demo_key_row],
     device_credentials = [\<lparr>d_id = 1, d_account_id = 1, d_workspace_id = 1, d_label = ''laptop'',
       d_certificate_fingerprint = demo_fingerprint, d_status = ''active'', d_created_at = 12,
       d_revoked_at = None\<rparr>],
     usage_periods = [], seq_accounts = 1, seq_workspaces = 1, seq_api_keys = 1,
     seq_device_credentials = 1\<rparr>"

definition demo_connection :: connection where
  "demo_connection = \<lparr>tbls = demo_tables, clock = 0, faults = (\<lambda>_. None), poisoned = False\<rparr>"

definition demo_identity :: IngressIdentity where
  "demo_identity = \<lparr>identity_account_id = AccountId 1, identity_workspace_id = WorkspaceId 1,
     identity_api_key_id = ApiKeyId 1, identity_device_credential_id = DeviceCredentialId 1,
     identity_limits = demo_limits\<rparr>"

lemma demo_limits_stored:
  "AccountLimits_from_database 5 5 2 (Some 2) (Some 1000) = Ok demo_limits"
  by (simp add: AccountLimits_from_database_def positive_u32_from_database_def
      u32_try_from_i64_def optional_u64_from_database_def u64_try_from_i64_def
      AccountLimits_new_def optional_nonzero_limit_def checked_database_counter_def
      i64_try_from_u64_def i64_max_def demo_limits_def)

lemma demo_schema_wf: "schema_wf demo_tables"
  by (simp add: schema_wf_def demo_tables_def accounts_wf_def limits_table_wf_def
      workspaces_wf_def keys_wf_def devices_wf_def usage_wf_def ids_wf_def stripe_unique_def
      refs_in_def account_ids_def workspace_scopes_def account_row_check_def limits_row_check_def
      workspace_row_check_def api_key_row_check_def device_row_check_def demo_key_row_def
      demo_digest_def demo_fingerprint_def demo_values_def stored_limits_readable_def
      demo_limits_stored)

lemma demo_connection_simps [simp]:
  "tbls demo_connection = demo_tables" "clock demo_connection = 0"
  "faults demo_connection = (\<lambda>_. None)" "\<not> poisoned demo_connection"
  by (simp_all add: demo_connection_def)

lemma demo_authorized:
  "authorized demo_tables ''AAAABBBBCCCCDDDD'' demo_digest demo_fingerprint demo_identity"
  by (simp add: authorized_def demo_tables_def demo_key_row_def demo_values_def demo_identity_def
      demo_limits_stored)

theorem authenticate_iff_authorized_witness:
  "fst (db_authenticate ''AAAABBBBCCCCDDDD'' demo_digest demo_fingerprint demo_connection)
     = Ok demo_identity"
  using authenticate_iff_authorized [of demo_connection "''AAAABBBBCCCCDDDD''" demo_digest
      demo_fingerprint demo_identity] demo_schema_wf demo_authorized by simp

section \<open>Finality of revocation\<close>

definition public_id_retired :: "string \<Rightarrow> tables \<Rightarrow> bool" where
  "public_id_retired p t \<longleftrightarrow> p \<in> k_public_id ` set (api_keys t)
     \<and> (\<forall>r\<in>set (api_keys t). k_public_id r = p \<longrightarrow> k_status r = ''revoked'')"

lemma revoke_retired: "stmt_keeps (public_id_retired p) (update_revoke_api_key k now)"
  by (rule stmt_keepsI) (auto simp: public_id_retired_def update_revoke_api_key_def
      update_where_Ok in_set_where)

lemma insert_key_retired:
  "stmt_keeps (public_id_retired p) (insert_api_key_row q a w label ver h now)"
  by (rule stmt_keepsI) (fastforce simp: public_id_retired_def insert_api_key_row_def Let_def
      list_ex_iff split: if_splits)

interpretation retired: statement_invariant "public_id_retired p" for p
  by (unfold_locales; (rule revoke_retired insert_key_retired)?; (rule stmt_keepsI)?)
    (auto simp: public_id_retired_def statement_defs update_where_Ok Let_def split: if_splits)

lemma retired_not_authorized:
  "public_id_retired p t \<Longrightarrow> \<not> authorized t p dg fp identity"
  by (auto simp: public_id_retired_def authorized_def)

lemma revoke_statement_retires:
  assumes "schema_wf t" "row \<in> set (api_keys t)" "k_id row = k"
    and upd: "update_revoke_api_key k now t = Ok (n, t')"
  shows "public_id_retired (k_public_id row) t'"
proof -
  have d: "distinct (map k_public_id (api_keys t))"
    and chk: "list_all api_key_row_check (api_keys t)"
    using assms(1) by (auto simp: schema_wf_def keys_wf_def)
  have only: "r = row" if "r \<in> set (api_keys t)" "k_public_id r = k_public_id row" for r
    using distinct_map_inj [OF d that(1) assms(2) that(2)] .
  have "k_status row = ''active'' \<or> k_status row = ''revoked''"
    using chk assms(2) by (auto simp: list_all_iff api_key_row_check_def)
  note active_or_revoked = this
  have "k_status r = ''revoked''"
    if r: "r \<in> set (api_keys t')" "k_public_id r = k_public_id row" for r
  proof -
    from r(1) upd obtain q where q: "q \<in> set (api_keys t)"
      "r = (if k_id q = k \<and> k_status q = ''active''
            then q\<lparr>k_status := ''revoked'', k_revoked_at := Some now\<rparr> else q)"
      by (auto simp: update_revoke_api_key_def update_where_Ok in_set_where)
    then have "q = row" using only r(2) by (auto split: if_splits)
    with q active_or_revoked assms(3) show ?thesis by auto
  qed
  then show ?thesis
    using upd assms(2) by (auto simp: public_id_retired_def update_revoke_api_key_def update_where_Ok)
qed

text \<open>
  Property C25. Revocation is final: once \<open>revoke_api_key\<close> returned for a key, no later
  history of operations lets its public identifier authenticate again, with any digest and
  any certificate.
\<close>

theorem revoked_key_never_authenticates:
  assumes "schema_wf (tbls c)" "row \<in> set (api_keys (tbls c))"
    and "db_revoke_api_key (ApiKeyId (k_id row)) now c = (Ok b, c')"
  shows "fst (db_authenticate (k_public_id row) dg fp (run_ops enc h ps c')) \<noteq> Ok identity"
proof -
  let ?c = "run_ops enc h ps c'"
  have "public_id_retired (k_public_id row) (tbls c')"
    using assms(3) revoke_statement_retires [OF assms(1,2) refl]
    by (auto simp: db_revoke_api_key_def dbm_simps record_exists_def split: if_splits)
  then have "public_id_retired (k_public_id row) (tbls ?c)"
    by (rule retired.run_any_ops)
  moreover have "schema_wf (tbls ?c)"
    using schema.run_any_ops schema.revoke_key keeps_result assms(1,3) by metis
  ultimately show ?thesis
    using authorized_iff retired_not_authorized
    by (metis authenticate_Ok prod.collapse)
qed

lemma demo_revoke:
  "db_revoke_api_key (ApiKeyId 1) (UnixTimestamp 20) demo_connection
    = (Ok True, snd (db_revoke_api_key (ApiKeyId 1) (UnixTimestamp 20) demo_connection))"
  by (simp add: db_revoke_api_key_def db_bind_def lock_connection_def sql_def db_map_err_def
      run_statement_def update_revoke_api_key_def update_where_def demo_tables_def demo_key_row_def
      api_key_row_check_def demo_digest_def db_return_def Let_def)

theorem revoked_key_never_authenticates_witness:
  "demo_key_row \<in> set (api_keys (tbls demo_connection))
   \<and> fst (db_authenticate ''AAAABBBBCCCCDDDD'' demo_digest demo_fingerprint
        (run_ops id id [Op_SetAccountStatus (AccountId 1) Account_Active (UnixTimestamp 21)]
          (snd (db_revoke_api_key (ApiKeyId 1) (UnixTimestamp 20) demo_connection))))
      \<noteq> Ok demo_identity"
proof -
  have row: "demo_key_row \<in> set (api_keys (tbls demo_connection))"
    by (simp add: demo_tables_def)
  have ids: "k_id demo_key_row = 1" "k_public_id demo_key_row = ''AAAABBBBCCCCDDDD''"
    by (simp_all add: demo_key_row_def)
  show ?thesis
    using revoked_key_never_authenticates [OF _ row demo_revoke [folded ids(1)]] demo_schema_wf row
    by (simp add: ids del: run_ops.simps)
qed

section \<open>The life of an issued key\<close>

lemma issue_attempts_Ok:
  assumes "\<And>g. atomic P (store g)" "P (tbls c)"
    and "issue_attempts enc h fill store i n c = (Ok issued, c')"
  shows "\<exists>j g c0. GeneratedApiKey_generate enc h (fill j) = Ok g \<and> tbls c0 = tbls c
    \<and> store g c0 = (Ok (issued_id issued), c')
    \<and> issued_public_id issued = generated_public_id g \<and> issued_secret issued = generated_secret g"
  using assms(2,3)
proof (induction n arbitrary: i c)
  case (Suc n)
  then obtain g where g: "GeneratedApiKey_generate enc h (fill i) = Ok g"
    by (cases "GeneratedApiKey_generate enc h (fill i)") auto
  obtain r c1 where st: "store g c = (r, c1)" by fastforce
  show ?case
  proof (cases r)
    case (Inl e)
    then have c1: "tbls c1 = tbls c"
      using atomicD [OF assms(1) Suc.prems(1)] st by simp
    have "issue_attempts enc h fill store (Suc i) n c1 = (Ok issued, c')"
      using Suc.prems(2) g st Inl by (cases e) (auto split: if_splits)
    from Suc.IH [OF _ this] Suc.prems(1) c1 show ?thesis by auto
  next
    case (Inr k)
    with Suc.prems(2) g st have "store g c = (Ok (issued_id issued), c')"
        "issued_public_id issued = generated_public_id g" "issued_secret issued = generated_secret g"
      by auto
    with g show ?thesis by blast
  qed
qed simp

text \<open>The key a store accepted is its last row, active, with the digest of the secret.\<close>

lemma insert_api_key_Ok:
  assumes "db_insert_api_key a w label g now c = (Ok i, c')"
  obtains j lbl where "\<not> poisoned c'" "i = ApiKeyId j"
    "tbls c' = (tbls c)\<lparr>api_keys := api_keys (tbls c) @ [
        \<lparr>k_id = j, k_public_id = generated_public_id g, k_account_id = account_id_as_i64 a,
         k_workspace_id = workspace_id_as_i64 w, k_label = lbl, k_key_hash_version = 1,
         k_key_hash = generated_digest g, k_status = ''active'',
         k_created_at = timestamp_as_i64 now, k_revoked_at = None\<rparr>], seq_api_keys := j\<rparr>"
  using assms
  by (auto simp: db_insert_api_key_def dbm_simps require_workspace_scope_def
      insert_api_key_row_def Let_def API_KEY_HASH_VERSION_def from_database_id_defs
      split: if_splits)

text \<open>What the code relies on of base64 (URL-safe, unpadded) at the two sizes it encodes.\<close>

definition url_encoder :: "(string \<Rightarrow> string) \<Rightarrow> bool" where
  "url_encoder enc \<longleftrightarrow>
     (\<forall>b. length b = 12 \<longrightarrow> length (enc b) = 16 \<and> list_all is_base64_url_byte (enc b))
     \<and> (\<forall>b. length b = 32 \<longrightarrow> length (enc b) = 43 \<and> list_all is_base64_url_byte (enc b))"

definition fills_buffers :: "(nat \<Rightarrow> (string \<times> string, nat) result) \<Rightarrow> bool" where
  "fills_buffers fill \<longleftrightarrow> (\<forall>i p s. fill i = Ok (p, s) \<longrightarrow> length p = 12 \<and> length s = 32)"

lemma generated_key_parses:
  assumes "url_encoder enc" "fills_buffers fill"
    and "GeneratedApiKey_generate enc h (fill i) = Ok g"
  shows "parse_api_key_public_id (generated_secret g) = Ok (generated_public_id g)"
    and "generated_digest g = ApiKeyHasher_digest h (generated_secret g)"
  using assms
  by (auto simp: GeneratedApiKey_generate_def parse_api_key_public_id_Ok url_encoder_def
      fills_buffers_def Let_def)

lemma key_bytes_ascii:
  assumes "parse_api_key_public_id key = Ok p"
  shows "list_all is_ascii_byte key" "CHR '':'' \<notin> set key"
proof -
  have b: "is_ascii_byte x \<and> x \<noteq> CHR '':''" if "is_base64_url_byte x" for x
    using that by (auto simp: is_base64_url_byte_def ascii_defs is_ascii_byte_def byte_def)
  have pre: "list_all is_ascii_byte ''pxy_.''" "CHR '':'' \<notin> set ''pxy_.''"
    by (simp_all add: is_ascii_byte_def byte_def)
  from assms obtain s where "key = ''pxy_'' @ p @ ''.'' @ s" "list_all is_base64_url_byte p"
      "list_all is_base64_url_byte s"
    by (auto simp: parse_api_key_public_id_Ok API_KEY_PREFIX_def)
  with b pre show "list_all is_ascii_byte key" "CHR '':'' \<notin> set key"
    by (auto simp: list_all_iff)
qed

text \<open>The header a client builds from a key is read back to the key.\<close>

lemma extract_key:
  assumes "parse_api_key_public_id key = Ok p"
    and "split_ascii_whitespace header = [scheme, encoded]" "eq_ignore_ascii_case scheme ''Basic''"
    and "length header \<le> 1024" "std_decode encoded = Some (key @ '':'')"
  shows "extract_proxy_auth_api_key std_decode header = Ok key"
proof -
  have "list_all is_ascii_byte (key @ '':'')"
    using key_bytes_ascii [OF assms(1)] by (simp add: is_ascii_byte_def byte_def)
  then have "from_utf8_ok (key @ '':'')" by (rule from_utf8_ok_ascii)
  moreover have "split_once (CHR '':'') (key @ '':'') = Some (key, [])"
    using key_bytes_ascii [OF assms(1)] by (auto simp: split_once_Some)
  ultimately show ?thesis
    using assms by (simp add: extract_proxy_auth_api_key_def MAX_PROXY_AUTHORIZATION_BYTES_def)
qed

text \<open>A device and a workspace of an active account, as the administrator registered them.\<close>

definition scope_active :: "tables \<Rightarrow> int \<Rightarrow> int \<Rightarrow> device_credentials_row \<Rightarrow> bool" where
  "scope_active t a w d \<longleftrightarrow>
     (\<exists>r\<in>set (accounts t). a_id r = a \<and> a_status r = ''active'')
     \<and> (\<exists>r\<in>set (workspaces t). w_id r = w \<and> w_account_id r = a \<and> w_status r = ''active'')
     \<and> d \<in> set (device_credentials t) \<and> d_account_id d = a \<and> d_workspace_id d = w
     \<and> d_status d = ''active''"

lemma stored_limits_exist:
  assumes "store_wf t" "r \<in> set (accounts t)"
  obtains l limits where "l \<in> set (account_limits t)" "l_account_id l = a_id r"
    "AccountLimits_from_database
            (db_requests_per_second (l_values l)) (db_request_burst (l_values l))
            (db_max_concurrent_tunnels (l_values l)) (db_period_request_limit (l_values l))
            (db_period_byte_limit (l_values l)) = Ok limits"
proof -
  have "a_id r \<in> l_account_id ` set (account_limits t)"
    using assms by (auto simp: store_wf_def limits_complete_iff account_ids_def)
  then obtain l where l: "l \<in> set (account_limits t)" "l_account_id l = a_id r"
    by (metis imageE)
  moreover have "stored_limits_readable l"
    using assms(1) l(1) by (auto simp: store_wf_def schema_wf_def limits_table_wf_def list_all_iff)
  ultimately show ?thesis
    using that unfolding stored_limits_readable_def by (metis isl_def sum.exhaust_sel)
qed

lemma new_key_authorized:
  assumes wf: "store_wf t"
    and act: "scope_active t a w d"
    and k: "k_public_id k = p" "k_key_hash k = dg" "k_key_hash_version k = 1" "k_status k = ''active''"
      "k_account_id k = a" "k_workspace_id k = w"
  shows "\<exists>limits. authorized (t\<lparr>api_keys := api_keys t @ [k], seq_api_keys := n\<rparr>) p dg
    (d_certificate_fingerprint d)
    \<lparr>identity_account_id = AccountId a, identity_workspace_id = WorkspaceId w,
     identity_api_key_id = ApiKeyId (k_id k), identity_device_credential_id = DeviceCredentialId (d_id d),
     identity_limits = limits\<rparr>"
proof -
  from act obtain r v where r: "r \<in> set (accounts t)" "a_id r = a" "a_status r = ''active''"
    and v: "v \<in> set (workspaces t)" "w_id v = w" "w_account_id v = a" "w_status v = ''active''"
    and d: "d \<in> set (device_credentials t)" "d_account_id d = a" "d_workspace_id d = w"
      "d_status d = ''active''"
    unfolding scope_active_def by blast
  from stored_limits_exist [OF wf r(1)] obtain l limits where
      l: "l \<in> set (account_limits t)" "l_account_id l = a_id r"
      "AccountLimits_from_database
            (db_requests_per_second (l_values l)) (db_request_burst (l_values l))
            (db_max_concurrent_tunnels (l_values l)) (db_period_request_limit (l_values l))
            (db_period_byte_limit (l_values l)) = Ok limits" .
  show ?thesis
    unfolding authorized_def
    by (intro exI [of _ limits] bexI [of _ k] bexI [of _ r] bexI [of _ v] bexI [of _ l] bexI [of _ d])
      (use r v d l k in simp_all)
qed

text \<open>
  Property C24. An issued key works: when \<open>issue_api_key\<close> returned a key for an active account
  and workspace that has an active device, the \<open>Proxy-Authorization\<close> header built from the
  returned secret, presented with that device's certificate, authenticates as exactly that
  account, workspace, key and device.
\<close>

theorem issued_key_authenticates:
  assumes wf: "store_wf (tbls c)" and enc: "url_encoder url_encode" "fills_buffers fill"
    and issued: "AccountManager_issue_api_key url_encode keyed_hash fill (AccountId a) (WorkspaceId w)
      label now c = (Ok issued, c')"
    and active: "scope_active (tbls c) a w d"
    and header: "split_ascii_whitespace header = [scheme, encoded]"
      "eq_ignore_ascii_case scheme ''Basic''" "length header \<le> 1024"
      "std_decode encoded = Some (issued_secret issued @ '':'')"
    and no_fault: "faults c' (clock c') = None" "faults c' (Suc (clock c')) = None"
  shows "\<exists>limits. fst (AccountManager_authenticate_ingress std_decode keyed_hash header
      (d_certificate_fingerprint d) c') =
    Ok \<lparr>identity_account_id = AccountId a, identity_workspace_id = WorkspaceId w,
        identity_api_key_id = issued_id issued,
        identity_device_credential_id = DeviceCredentialId (d_id d), identity_limits = limits\<rparr>"
proof -
  have swf: "schema_wf (tbls c)" using wf by (simp add: store_wf_def)
  from issue_attempts_Ok [OF atomic_insert_api_key swf issued [unfolded AccountManager_issue_api_key_def]]
  obtain j g c0 where gen: "GeneratedApiKey_generate url_encode keyed_hash (fill j) = Ok g"
    and c0: "tbls c0 = tbls c"
    and ins: "db_insert_api_key (AccountId a) (WorkspaceId w) label g now c0 = (Ok (issued_id issued), c')"
    and sec: "issued_secret issued = generated_secret g"
    by blast
  note parses = generated_key_parses [OF enc gen]
  from insert_api_key_Ok [OF ins] obtain i lbl where np: "\<not> poisoned c'"
    and i: "issued_id issued = ApiKeyId i"
    and t': "tbls c' = (tbls c0)\<lparr>api_keys := api_keys (tbls c0) @ [
        \<lparr>k_id = i, k_public_id = generated_public_id g, k_account_id = account_id_as_i64 (AccountId a),
         k_workspace_id = workspace_id_as_i64 (WorkspaceId w), k_label = lbl, k_key_hash_version = 1,
         k_key_hash = generated_digest g, k_status = ''active'',
         k_created_at = timestamp_as_i64 now, k_revoked_at = None\<rparr>], seq_api_keys := i\<rparr>" .
  have swf': "schema_wf (tbls c')"
    using schema.insert_key ins swf c0 by (metis keeps_result)
  from new_key_authorized [OF wf active, of
      "\<lparr>k_id = i, k_public_id = generated_public_id g, k_account_id = a, k_workspace_id = w,
        k_label = lbl, k_key_hash_version = 1, k_key_hash = generated_digest g,
        k_status = ''active'', k_created_at = timestamp_as_i64 now, k_revoked_at = None\<rparr>"
      "generated_public_id g" "generated_digest g" i]
  obtain limits where "authorized (tbls c') (generated_public_id g) (generated_digest g)
      (d_certificate_fingerprint d)
      \<lparr>identity_account_id = AccountId a, identity_workspace_id = WorkspaceId w,
       identity_api_key_id = issued_id issued,
       identity_device_credential_id = DeviceCredentialId (d_id d), identity_limits = limits\<rparr>"
    using t' c0 i by auto
  then have "db_authenticate (generated_public_id g) (generated_digest g)
      (d_certificate_fingerprint d) c' =
      (Ok \<lparr>identity_account_id = AccountId a, identity_workspace_id = WorkspaceId w,
       identity_api_key_id = issued_id issued,
       identity_device_credential_id = DeviceCredentialId (d_id d), identity_limits = limits\<rparr>,
       after (tbls c') (after (tbls c') c'))"
    unfolding authenticate_Ok authorized_iff [OF swf'] using np no_fault by blast
  moreover have "extract_proxy_auth_api_key std_decode header = Ok (generated_secret g)"
    using extract_key [OF parses(1) header(1-3)] header(4) sec by simp
  ultimately show ?thesis
    using parses by (auto simp: AccountManager_authenticate_ingress_def db_bind_def db_lift_def)
qed

text \<open>The schedule of faults is a constant of the connection.\<close>

definition same_faults :: "('a, 'e) dbm \<Rightarrow> bool" where
  "same_faults m \<longleftrightarrow> (\<forall>c r c'. m c = (r, c') \<longrightarrow> faults c' = faults c)"

lemma same_faultsD: "same_faults m \<Longrightarrow> m c = (r, c') \<Longrightarrow> faults c' = faults c"
  unfolding same_faults_def by blast

lemma same_faults_bind:
  assumes "same_faults m" "\<And>x. same_faults (f x)"
  shows "same_faults (db_bind m f)"
  unfolding same_faults_def
proof (intro allI impI)
  fix c r c' assume "db_bind m f c = (r, c')"
  then consider "m c = (map_sum id undefined r, c')" "isl r"
    | x c1 where "m c = (Ok x, c1)" "f x c1 = (r, c')"
    by (auto simp: db_bind_def split: prod.splits sum.splits)
  then show "faults c' = faults c"
  proof cases
    case 1
    then show ?thesis using same_faultsD [OF assms(1)] by blast
  next
    case 2
    then show ?thesis using same_faultsD [OF assms(1)] same_faultsD [OF assms(2)] by simp
  qed
qed

lemma same_faults_map_err: "same_faults m \<Longrightarrow> same_faults (db_map_err g m)"
  by (auto simp: same_faults_def db_map_err_def split: prod.splits)

lemma same_faults_basic:
  "same_faults (db_return x)" "same_faults (db_lift r)" "same_faults lock_connection"
  "same_faults (run_statement s)"
  by (auto simp: same_faults_def db_return_def db_lift_def lock_connection_def run_statement_def
      Let_def split: option.splits sum.splits if_splits)

lemma same_faults_insert_key: "same_faults (db_insert_api_key a w label g now)"
  unfolding db_insert_api_key_def require_workspace_scope_def sql_def
  by (intro same_faults_bind same_faults_map_err same_faults_basic)
    (simp add: same_faults_basic)

definition demo_encode :: "string \<Rightarrow> string" where
  "demo_encode b = replicate (if length b = 12 then 16 else 43) (CHR ''k'')"

definition demo_hash :: "string \<Rightarrow> string" where
  "demo_hash s = demo_digest"

definition demo_fill :: "nat \<Rightarrow> (string \<times> string, nat) result" where
  "demo_fill i = Ok (replicate 12 (CHR 0x00), replicate 32 (CHR 0x00))"

definition demo_secret :: string where
  "demo_secret = ''pxy_'' @ replicate 16 (CHR ''k'') @ ''.'' @ replicate 43 (CHR ''k'')"

definition demo_decode :: "string \<Rightarrow> string option" where
  "demo_decode e = (if e = ''cHh5'' then Some (demo_secret @ '':'') else None)"

lemma demo_label: "normalize_credential_label ''ci'' = Ok ''ci''"
  by code_simp

lemma demo_url_encoder: "url_encoder demo_encode" "fills_buffers demo_fill"
  by (auto simp: url_encoder_def demo_encode_def fills_buffers_def demo_fill_def
      is_base64_url_byte_def ascii_defs byte_def list_all_iff)

lemma four_attempts: "API_KEY_GENERATION_ATTEMPTS = Suc (Suc (Suc (Suc 0)))"
  by (simp add: API_KEY_GENERATION_ATTEMPTS_def)

lemma issue_faults:
  "faults (snd (AccountManager_issue_api_key enc h fill a w label now c)) = faults c"
proof -
  have "faults (snd (issue_attempts enc h fill (\<lambda>g. db_insert_api_key a w label g now) i n c)) = faults c"
    for i n
  proof (induction n arbitrary: i c)
    case (Suc n)
    have "faults c1 = faults c" if "db_insert_api_key a w label g now c = (r, c1)" for g r c1
      using same_faultsD [OF same_faults_insert_key that] .
    with Suc show ?case
      by (auto split: sum.split prod.split AccountManagementError.split)
  qed simp
  then show ?thesis by (simp add: AccountManager_issue_api_key_def)
qed

lemma demo_issue:
  "AccountManager_issue_api_key demo_encode demo_hash demo_fill (AccountId 1) (WorkspaceId 1) ''ci''
     (UnixTimestamp 30) demo_connection
   = (Ok \<lparr>issued_id = ApiKeyId 2, issued_public_id = replicate 16 (CHR ''k''),
           issued_secret = demo_secret\<rparr>,
      snd (AccountManager_issue_api_key demo_encode demo_hash demo_fill (AccountId 1) (WorkspaceId 1)
        ''ci'' (UnixTimestamp 30) demo_connection))"
  by (simp add: AccountManager_issue_api_key_def four_attempts
      GeneratedApiKey_generate_def demo_fill_def demo_encode_def demo_secret_def API_KEY_PREFIX_def
      db_insert_api_key_def demo_label db_bind_def db_lift_def lock_connection_def
      require_workspace_scope_def sql_def db_map_err_def run_statement_def select_stmt_def
      workspace_scope_exists_def demo_tables_def db_return_def insert_api_key_row_def next_rowid_def
      i64_max_def api_key_row_check_def account_exists_def ApiKeyHasher_digest_def demo_hash_def
      demo_digest_def demo_key_row_def Let_def ApiKeyId_from_database_def Cons_replicate_eq)

theorem issued_key_authenticates_witness:
  "\<exists>limits. fst (AccountManager_authenticate_ingress demo_decode demo_hash ''Basic cHh5''
      demo_fingerprint
      (snd (AccountManager_issue_api_key demo_encode demo_hash demo_fill (AccountId 1) (WorkspaceId 1)
        ''ci'' (UnixTimestamp 30) demo_connection))) =
    Ok \<lparr>identity_account_id = AccountId 1, identity_workspace_id = WorkspaceId 1,
        identity_api_key_id = ApiKeyId 2,
        identity_device_credential_id = DeviceCredentialId 1, identity_limits = limits\<rparr>"
proof -
  let ?d = "\<lparr>d_id = 1, d_account_id = 1, d_workspace_id = 1, d_label = ''laptop'',
       d_certificate_fingerprint = demo_fingerprint, d_status = ''active'', d_created_at = 12,
       d_revoked_at = None\<rparr>"
  have "limits_complete demo_tables"
    by (simp add: limits_complete_def refs_in_def demo_tables_def)
  then have wf: "store_wf (tbls demo_connection)"
    using demo_schema_wf by (simp add: store_wf_def)
  have active: "scope_active (tbls demo_connection) 1 1 ?d"
    by (simp add: scope_active_def demo_tables_def)
  have header: "split_ascii_whitespace ''Basic cHh5'' = [''Basic'', ''cHh5'']"
    by code_simp
  have faults: "faults (snd (AccountManager_issue_api_key demo_encode demo_hash demo_fill
      (AccountId 1) (WorkspaceId 1) ''ci'' (UnixTimestamp 30) demo_connection)) = (\<lambda>_. None)"
    using issue_faults [of demo_encode demo_hash demo_fill] by simp
  show ?thesis
    using issued_key_authenticates [OF wf demo_url_encoder demo_issue active header, of demo_decode]
    by (simp add: demo_decode_def faults)
qed

end
