(* ===== verification/Account_Quota.thy ===== *)
theory Account_Quota
  imports Account_Properties
begin

text \<open>
  The quota of a usage period: what one recorded delta does to the stored counters, that the
  counters of a period never pass the limits the writer was checked against, that no history
  admits more requests than the limit, and that the limit of an account is counted
  separately in each of its workspaces.
\<close>

section \<open>Stored usage\<close>

definition usage_of :: "tables \<Rightarrow> int \<times> int \<times> int \<Rightarrow> int \<times> int \<times> int" where
  "usage_of t k =
     (case find (\<lambda>r. usage_key r = k) (usage_periods t) of
        None \<Rightarrow> (0, 0, 0)
      | Some r \<Rightarrow> (u_requests_used r, u_bytes_to_tor r, u_bytes_from_tor r))"

definition scope_key :: "IngressIdentity \<Rightarrow> UnixTimestamp \<Rightarrow> int \<times> int \<times> int" where
  "scope_key identity period_start =
     (account_id_as_i64 (identity_account_id identity),
      workspace_id_as_i64 (identity_workspace_id identity), timestamp_as_i64 period_start)"

text \<open>Counters are non-negative and fit their 64-bit columns.\<close>

definition counters_ok :: "tables \<Rightarrow> bool" where
  "counters_ok t \<longleftrightarrow> list_all (\<lambda>r. u_requests_used r \<in> {0..i64_max} \<and> u_bytes_to_tor r \<in> {0..i64_max}
     \<and> u_bytes_from_tor r \<in> {0..i64_max}) (usage_periods t)"

lemma usage_of_bounds:
  assumes "counters_ok t" "usage_of t k = (r, a, b)"
  shows "r \<in> {0..i64_max}" "a \<in> {0..i64_max}" "b \<in> {0..i64_max}"
  using assms by (auto simp: usage_of_def counters_ok_def list_all_iff find_Some_iff i64_max_def
      split: option.splits)

lemma find_map_same:
  "find (\<lambda>r. f r = k) (map (\<lambda>r. if f r = f row then row else r) xs) =
     (case find (\<lambda>r. f r = k) xs of None \<Rightarrow> None | Some r \<Rightarrow> Some (if f r = f row then row else r))"
  by (induction xs) auto

lemma find_append: "find p (xs @ ys) = (case find p xs of None \<Rightarrow> find p ys | Some x \<Rightarrow> Some x)"
  by (induction xs) auto

lemma usage_of_upsert:
  assumes "upsert_usage row t = Ok (u, t')"
  shows "usage_of t' k = (if k = usage_key row
    then (u_requests_used row, u_bytes_to_tor row, u_bytes_from_tor row) else usage_of t k)"
proof (cases "list_ex (\<lambda>r. usage_key r = usage_key row) (usage_periods t)")
  case True
  then have "usage_periods t' = map (\<lambda>r. if usage_key r = usage_key row then row else r) (usage_periods t)"
    using assms by (auto simp: upsert_usage_def split: if_splits)
  moreover have "find (\<lambda>r. usage_key r = usage_key row) (usage_periods t) \<noteq> None"
    using True by (auto simp: find_None_iff list_ex_iff)
  moreover have "usage_key r = k" if "find (\<lambda>r. usage_key r = k) (usage_periods t) = Some r" for r
    using that by (auto simp: find_Some_iff)
  ultimately show ?thesis
    by (cases "find (\<lambda>r. usage_key r = k) (usage_periods t)") (auto simp: usage_of_def find_map_same)
next
  case False
  then have "usage_periods t' = usage_periods t @ [row]"
    using assms by (auto simp: upsert_usage_def split: if_splits)
  moreover have "find (\<lambda>r. usage_key r = usage_key row) (usage_periods t) = None"
    using False by (auto simp: find_None_iff list_ex_iff)
  ultimately show ?thesis
    by (cases "k = usage_key row") (simp_all add: usage_of_def find_append split: option.splits)
qed

lemma upsert_counters_ok:
  "upsert_usage row t = Ok (u, t') \<Longrightarrow> counters_ok t \<Longrightarrow> u_requests_used row \<in> {0..i64_max}
    \<Longrightarrow> u_bytes_to_tor row \<in> {0..i64_max} \<Longrightarrow> u_bytes_from_tor row \<in> {0..i64_max} \<Longrightarrow> counters_ok t'"
  by (auto simp: upsert_usage_def counters_ok_def list_all_iff split: if_splits)

section \<open>One recorded delta\<close>

definition add_usage :: "int \<times> int \<times> int \<Rightarrow> UsageDelta \<Rightarrow> int \<times> int \<times> int" where
  "add_usage u d = (case u of (r, a, b) \<Rightarrow>
     (r + uint (delta_requests d), a + uint (delta_bytes_to_tor d), b + uint (delta_bytes_from_tor d)))"

definition snapshot_values :: "UsageSnapshot \<Rightarrow> int \<times> int \<times> int" where
  "snapshot_values s = (uint (snapshot_requests_used s), uint (snapshot_bytes_to_tor s),
     uint (snapshot_bytes_from_tor s))"

lemma uint_of_int_i64: "0 \<le> v \<Longrightarrow> v \<le> i64_max \<Longrightarrow> uint (word_of_int v :: u64) = v"
  by (simp add: uint_word_of_int i64_max_def)

lemma usage_values_Ok:
  assumes "usage_values identity ps c = (Ok (r, a, b), c')" "counters_ok (tbls c)"
  shows "usage_of (tbls c) (scope_key identity ps) = (uint r, uint a, uint b)"
    and "tbls c' = tbls c"
proof -
  from assms(1) have v: "usage_counters_from_row (select_usage
         (account_id_as_i64 (identity_account_id identity))
         (workspace_id_as_i64 (identity_workspace_id identity)) (timestamp_as_i64 ps) (tbls c))
         = Ok (r, a, b)" and c': "tbls c' = tbls c"
    by (auto simp: usage_values_def dbm_simps)
  obtain r' a' b' where u: "usage_of (tbls c) (scope_key identity ps) = (r', a', b')"
    by (cases "usage_of (tbls c) (scope_key identity ps)")
  have "usage_counters_from_row (Some (r', a', b')) = Ok (r, a, b)"
    using v u by (auto simp: select_usage_def usage_of_def scope_key_def usage_counters_from_row_def
        split: option.splits)
  then show "usage_of (tbls c) (scope_key identity ps) = (uint r, uint a, uint b)"
    using usage_of_bounds [OF assms(2) u] u
    by (auto simp: usage_counters_from_row_def nonnegative_u64_from_database_def
        u64_try_from_i64_def uint_of_int_i64 split: if_splits)
qed (use assms(1) in \<open>auto simp: usage_values_def dbm_simps\<close>)

lemma write_usage_Ok:
  assumes "write_usage identity ps d (r, a, b) c = (Ok snap, c')" "counters_ok (tbls c)"
  shows "counters_ok (tbls c')"
    and "snapshot_values snap = add_usage (uint r, uint a, uint b) d"
    and "usage_of (tbls c') = (usage_of (tbls c))(scope_key identity ps := snapshot_values snap)"
proof -
  from assms(1) obtain r' a' b' where
      w: "checked_usage_add r (delta_requests d) = Ok r'"
        "checked_usage_add a (delta_bytes_to_tor d) = Ok a'"
        "checked_usage_add b (delta_bytes_from_tor d) = Ok b'"
      and ups: "upsert_usage (usage_row identity ps (uint r') (uint a') (uint b')) (tbls c)
        = Ok ((), tbls c')"
      and snap: "snap = usage_snapshot identity ps r' a' b'"
    by (auto simp: write_usage_def dbm_simps checked_database_counter_Ok)
  have fits: "uint x + uint y \<le> i64_max \<Longrightarrow> uint (x + y) = uint x + uint y" for x y :: u64
    using u64_add_fits [of x y] uint_add_no_wrap [of x y] by simp
  have sums: "uint r' = uint r + uint (delta_requests d)"
      "uint a' = uint a + uint (delta_bytes_to_tor d)"
      "uint b' = uint b + uint (delta_bytes_from_tor d)"
      "uint r' \<le> i64_max" "uint a' \<le> i64_max" "uint b' \<le> i64_max"
    using w fits by (auto simp: checked_usage_add_Ok)
  show "counters_ok (tbls c')"
    using upsert_counters_ok [OF ups assms(2)] sums by (simp add: usage_row_def)
  show "snapshot_values snap = add_usage (uint r, uint a, uint b) d"
    using snap sums by (simp add: snapshot_values_def usage_snapshot_def add_usage_def)
  show "usage_of (tbls c') = (usage_of (tbls c))(scope_key identity ps := snapshot_values snap)"
    using usage_of_upsert [OF ups] snap
    by (auto simp: fun_eq_iff usage_row_def usage_key_def scope_key_def snapshot_values_def
        usage_snapshot_def)
qed

lemma record_usage_Ok:
  assumes "db_record_usage identity ps d c = (Ok snap, c')" "counters_ok (tbls c)"
  shows "counters_ok (tbls c')"
    and "snapshot_values snap = add_usage (usage_of (tbls c) (scope_key identity ps)) d"
    and "usage_of (tbls c') = (usage_of (tbls c))(scope_key identity ps := snapshot_values snap)"
proof -
  from assms(1) obtain r a b c2 c3 where
      v: "usage_values identity ps (after (tbls c) (after (tbls c) c)) = (Ok (r, a, b), c2)"
    and w: "write_usage identity ps d (r, a, b) c2 = (Ok snap, c3)" and c': "c' = after (tbls c3) c3"
    by (auto simp: db_record_usage_def require_workspace_scope_def dbm_simps split: if_splits)
  note vals = usage_values_Ok [OF v, simplified, OF assms(2)]
  note res = write_usage_Ok [OF w, unfolded vals(2), OF assms(2)]
  show "counters_ok (tbls c')"
    "snapshot_values snap = add_usage (usage_of (tbls c) (scope_key identity ps)) d"
    "usage_of (tbls c') = (usage_of (tbls c))(scope_key identity ps := snapshot_values snap)"
    using res vals c' by simp_all
qed

text \<open>The counters a snapshot shows, against the limits of an identity.\<close>

definition within_quota :: "IngressIdentity \<Rightarrow> int \<times> int \<times> int \<Rightarrow> bool" where
  "within_quota identity u = (case u of (r, a, b) \<Rightarrow>
     within_limit (period_request_limit (identity_limits identity)) (nat r)
     \<and> within_limit (period_byte_limit (identity_limits identity)) (nat (a + b)))"

lemma nat_uint_add: "nat (uint x + uint y) = unat x + unat y"
  by (simp add: nat_add_distrib)

lemma record_if_allowed_Ok:
  assumes "db_record_usage_if_allowed identity ps d c = (Ok snap, c')" "counters_ok (tbls c)"
  shows "counters_ok (tbls c')"
    and "snapshot_values snap = add_usage (usage_of (tbls c) (scope_key identity ps)) d"
    and "usage_of (tbls c') = (usage_of (tbls c))(scope_key identity ps := snapshot_values snap)"
    and "within_quota identity (snapshot_values snap)"
proof -
  from assms(1) obtain r a b c2 c3 where
      v: "usage_values identity ps (after (tbls c) (after (tbls c) c)) = (Ok (r, a, b), c2)"
    and chk: "check_usage_allowance identity (usage_snapshot identity ps r a b) d = Ok ()"
    and w: "write_usage identity ps d (r, a, b) c2 = (Ok snap, c3)" and c': "c' = after (tbls c3) c3"
    by (auto simp: db_record_usage_if_allowed_def require_workspace_scope_def dbm_simps
        split: if_splits)
  note vals = usage_values_Ok [OF v, simplified, OF assms(2)]
  note res = write_usage_Ok [OF w, unfolded vals(2), OF assms(2)]
  show "counters_ok (tbls c')"
    "snapshot_values snap = add_usage (usage_of (tbls c) (scope_key identity ps)) d"
    "usage_of (tbls c') = (usage_of (tbls c))(scope_key identity ps := snapshot_values snap)"
    using res vals c' by simp_all
  show "within_quota identity (snapshot_values snap)"
    using check_usage_allowance_Ok [OF chk]
    unfolding res(2) by (simp add: add_usage_def within_quota_def usage_snapshot_def
        nat_add_distrib add.assoc add.left_commute)
qed

section \<open>Histories\<close>

interpretation usage_frame: account_invariant "\<lambda>t. usage_periods t = us" for us
  by (unfold_locales; rule stmt_keepsI)
    (auto simp: statement_defs Let_def split: if_splits)

lemma admin_op_usage:
  assumes "\<not> is_usage_op p"
  shows "usage_periods (tbls (snd (run_op enc h p c))) = usage_periods (tbls c)"
  using usage_frame.run_account_op [OF assms, where us = "usage_periods (tbls c)"] by simp

definition usage_le :: "int \<times> int \<times> int \<Rightarrow> int \<times> int \<times> int \<Rightarrow> bool" where
  "usage_le u v = (case (u, v) of ((r, a, b), (r', a', b')) \<Rightarrow> r \<le> r' \<and> a \<le> a' \<and> b \<le> b')"

lemma usage_le_add: "usage_le u (add_usage u d)"
  by (cases u) (simp add: usage_le_def add_usage_def)

lemma usage_le_refl: "usage_le u u"
  by (cases u) (simp add: usage_le_def)

text \<open>A writer of usage adds its delta, or fails and changes nothing.\<close>

lemma writer_usage:
  assumes "\<And>snap c'. m c = (Ok snap, c') \<Longrightarrow> counters_ok (tbls c')
      \<and> usage_of (tbls c') = (usage_of (tbls c))(k0 := add_usage (usage_of (tbls c) k0) d)"
    and "atomic (\<lambda>_. True) m" "counters_ok (tbls c)"
  shows "counters_ok (tbls (snd (m c))) \<and> usage_le (usage_of (tbls c) k) (usage_of (tbls (snd (m c))) k)"
proof (cases "m c")
  case (Pair r c')
  show ?thesis
  proof (cases r)
    case (Inl e)
    then have "tbls c' = tbls c" using atomicD [OF assms(2)] Pair by blast
    then show ?thesis using Pair assms(3) by (simp add: usage_le_refl)
  next
    case (Inr snap)
    then show ?thesis using assms(1) [of snap c'] Pair by (simp add: usage_le_refl usage_le_add)
  qed
qed

definition one_request :: UsageDelta where
  "one_request = \<lparr>delta_requests = 1, delta_bytes_to_tor = 0, delta_bytes_from_tor = 0\<rparr>"

lemma admit_request_eq: "db_admit_request i ps = db_record_usage_if_allowed i ps one_request"
proof -
  have "UsageDelta_new 1 0 0 = Ok one_request"
    by (simp add: UsageDelta_new_def checked_database_counter_def i64_try_from_u64_def i64_max_def
        checked_add_def one_request_def)
  then show ?thesis
    by (simp add: db_admit_request_def db_bind_def db_lift_def fun_eq_iff)
qed

text \<open>No operation lowers a counter.\<close>

lemma run_op_usage:
  assumes ok: "counters_ok (tbls c)"
  shows "counters_ok (tbls (snd (run_op enc h p c)))
    \<and> usage_le (usage_of (tbls c) k) (usage_of (tbls (snd (run_op enc h p c))) k)"
proof (cases "is_usage_op p")
  case False
  then have "usage_periods (tbls (snd (run_op enc h p c))) = usage_periods (tbls c)"
    by (rule admin_op_usage)
  then show ?thesis
    using assms by (simp add: counters_ok_def usage_of_def usage_le_refl)
next
  case True
  then consider i ps d where "p = Op_RecordUsage i ps d"
    | i ps d where "p = Op_RecordUsageIfAllowed i ps d" | i ps where "p = Op_AdmitRequest i ps"
    by (cases p) auto
  then show ?thesis
  proof cases
    case 1
    with writer_usage [OF _ atomic_record_usage ok, of i ps d "scope_key i ps" d k]
      record_usage_Ok [OF _ ok] show ?thesis by auto
  next
    case 2
    with writer_usage [OF _ atomic_record_usage_if_allowed ok, of i ps d "scope_key i ps" d k]
      record_if_allowed_Ok [OF _ ok] show ?thesis by auto
  next
    case 3
    with writer_usage [OF _ atomic_record_usage_if_allowed ok, of i ps one_request
        "scope_key i ps" one_request k]
      record_if_allowed_Ok [OF _ ok] show ?thesis by (auto simp: admit_request_eq)
  qed
qed

text \<open>The requests admitted in one scope and period, along a history.\<close>

fun admits :: "int \<times> int \<times> int \<Rightarrow> db_op \<Rightarrow> bool" where
  "admits k (Op_AdmitRequest i ps) \<longleftrightarrow> scope_key i ps = k"
| "admits k _ \<longleftrightarrow> False"

primrec admitted ::
    "(string \<Rightarrow> string) \<Rightarrow> (string \<Rightarrow> string) \<Rightarrow> int \<times> int \<times> int \<Rightarrow> db_op list \<Rightarrow> connection \<Rightarrow> nat" where
  "admitted enc h k [] c = 0"
| "admitted enc h k (p # ps) c = (if admits k p \<and> fst (run_op enc h p c) then 1 else 0)
     + admitted enc h k ps (snd (run_op enc h p c))"

definition admits_under :: "int \<times> int \<times> int \<Rightarrow> u64 \<Rightarrow> db_op \<Rightarrow> bool" where
  "admits_under k limit p \<longleftrightarrow> (case p of
       Op_AdmitRequest i ps \<Rightarrow> scope_key i ps = k \<longrightarrow> period_request_limit (identity_limits i) = Some limit
     | _ \<Rightarrow> True)"

lemma admit_step:
  assumes ok: "counters_ok (tbls c)" and under: "admits_under k limit p"
    and adm: "admits k p" "fst (run_op enc h p c)"
  shows "fst (usage_of (tbls (snd (run_op enc h p c))) k) = fst (usage_of (tbls c) k) + 1"
    and "fst (usage_of (tbls (snd (run_op enc h p c))) k) \<le> uint limit"
proof -
  from adm(1) obtain i ps where p: "p = Op_AdmitRequest i ps" and k: "k = scope_key i ps"
    by (cases p) auto
  obtain snap c' where r: "db_record_usage_if_allowed i ps one_request c = (Ok snap, c')"
    using adm(2) p by (cases "db_record_usage_if_allowed i ps one_request c"; cases "fst (db_record_usage_if_allowed i ps one_request c)")
      (auto simp: admit_request_eq)
  note res = record_if_allowed_Ok [OF r ok]
  obtain x y z where u: "usage_of (tbls c) k = (x, y, z)" by (cases "usage_of (tbls c) k")
  have new: "usage_of (tbls c') k = (x + 1, y, z)"
    using res(2,3) u k by (simp add: add_usage_def one_request_def)
  show "fst (usage_of (tbls (snd (run_op enc h p c))) k) = fst (usage_of (tbls c) k) + 1"
    using p r u new by (simp add: admit_request_eq)
  have "within_limit (Some limit) (nat (x + 1))"
    using res(4) res(2) under p k u
    by (simp add: within_quota_def add_usage_def one_request_def admits_under_def)
  then show "fst (usage_of (tbls (snd (run_op enc h p c))) k) \<le> uint limit"
    using p r new by (simp add: admit_request_eq within_limit_def nat_le_iff)
qed

lemma admitted_le:
  assumes "counters_ok (tbls c)" "\<forall>p\<in>set ps. admits_under k limit p"
  shows "int (admitted enc h k ps c) \<le> max 0 (uint limit - fst (usage_of (tbls c) k))"
  using assms
proof (induction ps arbitrary: c)
  case (Cons p ps)
  let ?c = "snd (run_op enc h p c)"
  have next_c: "counters_ok (tbls ?c)" "fst (usage_of (tbls c) k) \<le> fst (usage_of (tbls ?c) k)"
    using run_op_usage [OF Cons.prems(1), of enc h p k] by (auto simp: usage_le_def split: prod.splits)
  have IH: "int (admitted enc h k ps ?c) \<le> max 0 (uint limit - fst (usage_of (tbls ?c) k))"
    using Cons.IH [OF next_c(1)] Cons.prems(2) by simp
  show ?case
  proof (cases "admits k p \<and> fst (run_op enc h p c)")
    case True
    with admit_step [OF Cons.prems(1), of k limit p enc h] Cons.prems(2) IH show ?thesis by simp
  next
    case False
    with IH next_c(2) show ?thesis by auto
  qed
qed simp

text \<open>
  Property C9. No history of operations, failures included, admits more requests in one usage
  period of a workspace than the period limit the requests were admitted under leaves, whatever
  other usage is recorded in between.
\<close>

theorem admitted_requests_bounded:
  assumes "counters_ok (tbls c)" "\<forall>p\<in>set ps. admits_under k limit p"
  shows "admitted enc h k ps c \<le> nat (uint limit - fst (usage_of (tbls c) k))"
  using admitted_le [OF assms, of enc h] by simp

lemma demo_counters_ok: "counters_ok demo_tables" "usage_of demo_tables k = (0, 0, 0)"
  by (simp_all add: counters_ok_def usage_of_def demo_tables_def)

theorem admitted_requests_bounded_witness:
  "admitted id id (1, 1, 0) (replicate 3 (Op_AdmitRequest demo_identity (UnixTimestamp 0)))
     demo_connection \<le> 2"
  using admitted_requests_bounded [of demo_connection
      "replicate 3 (Op_AdmitRequest demo_identity (UnixTimestamp 0))" "(1, 1, 0)" 2 id id]
  by (simp add: demo_counters_ok admits_under_def demo_identity_def demo_limits_def)

section \<open>When a request is admitted\<close>

lemma request_allowance:
  assumes "uint r \<le> i64_max" "uint a \<le> i64_max" "uint b \<le> i64_max"
  shows "check_usage_allowance identity (usage_snapshot identity ps r a b) one_request = Ok () \<longleftrightarrow>
    below_limit (period_request_limit (identity_limits identity)) (unat r)
    \<and> below_limit (period_byte_limit (identity_limits identity)) (unat a + unat b)"
proof -
  have fit: "unat r + 1 < 2 ^ 64" "unat a + unat b < 2 ^ 64"
    using assms by (simp_all add: i64_max_def flip: nat_uint_eq)
  have one: "unat (r + 1) = unat r + 1" and sum: "unat (a + b) = unat a + unat b"
    using unat_add_no_wrap [of r 1] unat_add_no_wrap [of a b] fit by simp_all
  have adds: "checked_add r 1 = Some (r + 1)" "checked_add a b = Some (a + b)"
      "checked_add 0 (0::u64) = Some 0" "checked_add (a + b) 0 = Some (a + b)"
    using fit sum unat_u64_lt [of "a + b"] by (simp_all add: checked_add_def)
  show ?thesis
    using one sum
    by (auto simp: check_usage_allowance_def usage_snapshot_def one_request_def adds below_limit_def
        word_less_nat_alt word_le_nat_alt not_less not_le split: option.splits)
qed

lemma workspace_account_exists:
  assumes "schema_wf t" "workspace_scope_exists t w a"
  shows "account_exists t a"
proof -
  from assms(2) obtain v where "v \<in> set (workspaces t)" "w_account_id v = a"
    by (auto simp: workspace_scope_exists_def list_ex_iff)
  then have "a \<in> account_ids t"
    using assms(1) by (auto simp: schema_wf_def workspaces_wf_def refs_in_def)
  then show ?thesis by (auto simp: account_ids_def account_exists_def list_ex_iff)
qed

definition no_faults :: "connection \<Rightarrow> bool" where
  "no_faults c \<longleftrightarrow> \<not> poisoned c \<and> faults c = (\<lambda>_. None)"

lemma admit_request_condition:
  assumes wf: "schema_wf (tbls c)" "counters_ok (tbls c)" and nf: "no_faults c"
    and ps: "0 \<le> timestamp_as_i64 ps"
    and scope: "workspace_scope_exists (tbls c) (workspace_id_as_i64 (identity_workspace_id i))
      (account_id_as_i64 (identity_account_id i))"
    and used: "usage_of (tbls c) (scope_key i ps) = (r, a, b)" "r < i64_max"
  shows "(\<exists>snap. fst (db_admit_request i ps c) = Ok snap) \<longleftrightarrow>
    below_limit (period_request_limit (identity_limits i)) (nat r)
    \<and> below_limit (period_byte_limit (identity_limits i)) (nat (a + b))"
proof -
  note bounds = usage_of_bounds [OF wf(2) used(1)]
  define r' a' b' :: u64 where "r' = word_of_int r" and "a' = word_of_int a" and "b' = word_of_int b"
  have u: "uint r' = r" "uint a' = a" "uint b' = b"
    using bounds by (simp_all add: r'_def a'_def b'_def uint_of_int_i64)
  let ?c = "after (tbls c) (after (tbls c) c)"
  have "select_usage (account_id_as_i64 (identity_account_id i))
      (workspace_id_as_i64 (identity_workspace_id i)) (timestamp_as_i64 ps) (tbls c)
      \<in> {Some (r, a, b), if (r, a, b) = (0, 0, 0) then None else Some (r, a, b)}"
    using used(1) by (auto simp: select_usage_def usage_of_def scope_key_def split: option.splits)
  then have "usage_counters_from_row (select_usage (account_id_as_i64 (identity_account_id i))
      (workspace_id_as_i64 (identity_workspace_id i)) (timestamp_as_i64 ps) (tbls c)) = Ok (r', a', b')"
    using bounds by (auto simp: usage_counters_from_row_def nonnegative_u64_from_database_def
        u64_try_from_i64_def r'_def a'_def b'_def split: if_splits)
  then have vals: "usage_values i ps ?c = (Ok x, c') \<longleftrightarrow> x = (r', a', b') \<and> c' = after (tbls c) ?c" for x c'
    using nf by (auto simp: usage_values_def dbm_simps no_faults_def)
  have "account_exists (tbls c) (account_id_as_i64 (identity_account_id i))"
    using workspace_account_exists [OF wf(1) scope] .
  then have ups: "\<exists>t. upsert_usage (usage_row i ps (r + 1) a b) (tbls c) = Ok ((), t)"
    using scope ps bounds by (simp add: upsert_usage_def usage_row_def usage_row_check_def)
  have "checked_usage_add r' 1 = Ok (r' + 1)" "checked_usage_add a' 0 = Ok a'" "checked_usage_add b' 0 = Ok b'"
      and plus: "uint (r' + 1) = r + 1"
    using u used(2) bounds u64_add_fits [of r' 1] uint_add_no_wrap [of r' 1]
    by (simp_all add: checked_usage_add_Ok)
  then have writes: "\<exists>snap c2. write_usage i ps one_request (r', a', b') (after (tbls c) ?c) = (Ok snap, c2)
      \<and> faults c2 = (\<lambda>_. None)"
    using u plus bounds used(2) ups nf
    by (auto simp: write_usage_def one_request_def dbm_simps checked_database_counter_Ok no_faults_def)
  have "(\<exists>snap. fst (db_admit_request i ps c) = Ok snap) \<longleftrightarrow>
      (\<exists>snap c'. db_record_usage_if_allowed i ps one_request c = (Ok snap, c'))"
    by (metis admit_request_eq fst_conv prod.collapse)
  also have "\<dots> \<longleftrightarrow> check_usage_allowance i (usage_snapshot i ps r' a' b') one_request = Ok ()"
    using nf scope writes
    by (auto simp: db_record_usage_if_allowed_def require_workspace_scope_def dbm_simps no_faults_def vals)
  also have "\<dots> \<longleftrightarrow> below_limit (period_request_limit (identity_limits i)) (nat r)
    \<and> below_limit (period_byte_limit (identity_limits i)) (nat (a + b))"
    using request_allowance [of r' a' b'] bounds u by (simp add: nat_add_distrib flip: nat_uint_eq)
  finally show ?thesis .
qed

text \<open>
  Without faults, a request of a registered scope is admitted exactly when its
  period has used fewer requests than the request limit and fewer bytes than the byte limit.
\<close>

lemma admit_request_iff:
  assumes wf: "schema_wf (tbls c)" "counters_ok (tbls c)" and nf: "no_faults c"
    and ps: "0 \<le> timestamp_as_i64 ps"
    and scope: "workspace_scope_exists (tbls c) (workspace_id_as_i64 (identity_workspace_id i))
      (account_id_as_i64 (identity_account_id i))"
    and used: "usage_of (tbls c) (scope_key i ps) = (r, a, b)" "r < i64_max"
  shows "(\<exists>snap. fst (db_admit_request i ps c) = Ok snap) \<longleftrightarrow>
    below_limit (period_request_limit (identity_limits i)) (nat r)
    \<and> below_limit (period_byte_limit (identity_limits i)) (nat (a + b))"
  using admit_request_condition [OF assms] .

text \<open>
  A delta that \<open>record_usage_if_allowed\<close> accepts is added to the stored counters
  of its scope and period, without wrap-around, no other scope or period changes, and the
  counters stay within the request limit and the byte limit of the identity.
\<close>

lemma record_usage_if_allowed_exact:
  assumes "db_record_usage_if_allowed identity ps d c = (Ok snap, c')" "counters_ok (tbls c)"
  shows "snapshot_values snap = add_usage (usage_of (tbls c) (scope_key identity ps)) d
    \<and> usage_of (tbls c') = (usage_of (tbls c))(scope_key identity ps := snapshot_values snap)
    \<and> within_quota identity (snapshot_values snap) \<and> counters_ok (tbls c')"
  using record_if_allowed_Ok [OF assms] by blast

section \<open>The limit of an account with several workspaces\<close>

text \<open>The example store with a second workspace; the first one has used its two requests.\<close>

definition two_workspaces :: tables where
  "two_workspaces = demo_tables\<lparr>
     workspaces := workspaces demo_tables @ [\<lparr>w_id = 2, w_account_id = 1, w_name = ''second'',
       w_status = ''active'', w_created_at = 15, w_updated_at = 15\<rparr>],
     seq_workspaces := 2,
     usage_periods := [\<lparr>u_account_id = 1, u_workspace_id = 1, u_period_start = 0,
       u_requests_used = 2, u_bytes_to_tor = 0, u_bytes_from_tor = 0\<rparr>]\<rparr>"

definition two_workspaces_connection :: connection where
  "two_workspaces_connection = demo_connection\<lparr>tbls := two_workspaces\<rparr>"

lemma two_workspaces_wf: "schema_wf two_workspaces" "counters_ok two_workspaces"
  using demo_schema_wf
  by (auto simp: two_workspaces_def schema_wf_def demo_tables_def workspaces_wf_def keys_wf_def
      devices_wf_def usage_wf_def ids_wf_def refs_in_def account_ids_def workspace_scopes_def
      workspace_row_check_def usage_row_check_def counters_ok_def i64_max_def)

text \<open>
  The period limits are stored per account, but they are counted per workspace:
  with both requests of the account's limit of two used in one workspace, the store refuses a
  further request there and admits one in another workspace of the same account.
\<close>

lemma period_limit_counted_per_workspace:
  "(\<nexists>snap. fst (db_admit_request demo_identity (UnixTimestamp 0) two_workspaces_connection) = Ok snap)
   \<and> (\<exists>snap. fst (db_admit_request (demo_identity\<lparr>identity_workspace_id := WorkspaceId 2\<rparr>)
        (UnixTimestamp 0) two_workspaces_connection) = Ok snap)"
proof -
  have nf: "no_faults two_workspaces_connection"
    by (simp add: no_faults_def two_workspaces_connection_def demo_connection_def)
  have t: "tbls two_workspaces_connection = two_workspaces"
    by (simp add: two_workspaces_connection_def)
  have scopes: "workspace_scope_exists two_workspaces 1 1" "workspace_scope_exists two_workspaces 2 1"
    by (simp_all add: workspace_scope_exists_def two_workspaces_def demo_tables_def)
  have used: "usage_of two_workspaces (1, 1, 0) = (2, 0, 0)" "usage_of two_workspaces (1, 2, 0) = (0, 0, 0)"
    by (simp_all add: usage_of_def two_workspaces_def usage_key_def)
  note iff = admit_request_condition [of two_workspaces_connection "UnixTimestamp 0", unfolded t,
      OF two_workspaces_wf nf]
  show ?thesis
    using iff [of demo_identity 2 0 0] iff [of "demo_identity\<lparr>identity_workspace_id := WorkspaceId 2\<rparr>" 0 0 0]
      scopes used
    by (simp add: demo_identity_def demo_limits_def below_limit_def scope_key_def i64_max_def)
qed

end
