(* ===== verification/Account_Admission.thy ===== *)
theory Account_Admission
  imports Account_Types "HOL-Library.Multiset"
begin

text \<open>
  Request and tunnel admission of \<open>src/src/account_management.rs\<close>
  (\<open>AccountAdmissionController\<close>, \<open>AccountAdmissionState\<close>, \<open>AccountTunnelGuard\<close>).

  The controller shares one \<open>Arc<AccountAdmissionState>\<close> per account between threads, so the
  model has a heap of states, the references the cache and the running calls hold, and a step
  relation whose steps are the atomic actions of the code: a critical section of the
  controller's mutex, one load, one read of the limits, one compare-exchange, one drop of a
  guard. The rate limiter is the \<open>governor\<close> crate's: its construction and its check are
  parameters.
\<close>

section \<open>State\<close>

datatype AdmissionError =
    RateLimited nat
  | TunnelLimitReached u32
  | StateCapacityReached
  | AdmissionStatePoisoned

record 'l AccountAdmissionState =
  adm_limits :: AccountLimits
  adm_limiter :: 'l
  adm_active :: u32
  adm_last_used :: u64
  adm_poisoned :: bool

text \<open>
  A running call and the reference it holds. \<open>AtLoad\<close>, \<open>AtLimit\<close> and \<open>AtCas\<close> are the three
  points of the loop of \<open>try_acquire_tunnel\<close>; \<open>AtRate\<close> is \<open>check_request_rate\<close> before it asks
  the limiter.
\<close>

datatype call =
    AtLoad (call_account: AccountId) (call_ref: nat)
  | AtLimit (call_account: AccountId) (call_ref: nat) u32
  | AtCas (call_account: AccountId) (call_ref: nat) u32
  | AtRate (call_account: AccountId) (call_ref: nat)

record 'l admission =
  states :: "(AccountId, nat) hashmap"
  max_cached_accounts :: nat
  sequence :: u64
  states_poisoned :: bool
  heap :: "nat \<Rightarrow> 'l AccountAdmissionState"
  fresh_ref :: nat
  calls :: "call multiset"
  guards :: "(AccountId \<times> nat) multiset"

section \<open>Operations\<close>

definition AccountAdmissionState_new ::
    "(AccountLimits \<Rightarrow> 'l) \<Rightarrow> AccountLimits \<Rightarrow> u64 \<Rightarrow> 'l AccountAdmissionState" where
  "AccountAdmissionState_new request_limiter limits last_used =
     \<lparr>adm_limits = limits, adm_limiter = request_limiter limits, adm_active = 0,
      adm_last_used = last_used, adm_poisoned = False\<rparr>"

definition update_limits ::
    "(AccountLimits \<Rightarrow> 'l) \<Rightarrow> AccountLimits \<Rightarrow> 'l AccountAdmissionState
      \<Rightarrow> ('l AccountAdmissionState, AdmissionError) result" where
  "update_limits request_limiter limits s =
     (if adm_poisoned s then Err AdmissionStatePoisoned
      else if adm_limits s = limits then Ok s
      else Ok (s\<lparr>adm_limiter := request_limiter limits, adm_limits := limits\<rparr>))"

definition AccountAdmissionController_new ::
    "(nat \<Rightarrow> 'l AccountAdmissionState) \<Rightarrow> nat \<Rightarrow> ('l admission, AccountManagementError) result" where
  "AccountAdmissionController_new memory max_cached =
     (if max_cached = 0 then Err (InvalidInput ''admission cache capacity must be non-zero'')
      else Ok \<lparr>states = [], max_cached_accounts = max_cached, sequence = 1,
                states_poisoned = False, heap = memory, fresh_ref = 0, calls = {#}, guards = {#}\<rparr>)"

text \<open>\<open>Arc::strong_count\<close>: the references of the cache, of running calls and of guards.\<close>

definition strong_count :: "'l admission \<Rightarrow> nat \<Rightarrow> nat" where
  "strong_count c r = length (filter (\<lambda>e. snd e = r) (states c))
     + size (filter_mset (\<lambda>p. call_ref p = r) (calls c))
     + size (filter_mset (\<lambda>g. snd g = r) (guards c))"

definition eviction_candidate :: "'l admission \<Rightarrow> AccountId option" where
  "eviction_candidate c =
     map_option fst (min_by_key (\<lambda>e. adm_last_used (heap c (snd e)))
       (filter (\<lambda>e. adm_active (heap c (snd e)) = 0 \<and> strong_count c (snd e) = 1) (states c)))"

definition insert_state ::
    "(AccountLimits \<Rightarrow> 'l) \<Rightarrow> AccountId \<Rightarrow> AccountLimits \<Rightarrow> u64 \<Rightarrow> (AccountId, nat) hashmap
      \<Rightarrow> 'l admission \<Rightarrow> (nat, AdmissionError) result \<times> 'l admission" where
  "insert_state request_limiter account_id limits seq cached c =
     (Ok (fresh_ref c),
      c\<lparr>states := hm_insert account_id (fresh_ref c) cached,
        heap := (heap c)(fresh_ref c := AccountAdmissionState_new request_limiter limits seq),
        fresh_ref := Suc (fresh_ref c)\<rparr>)"

text \<open>\<open>state_for\<close>: the sequence number is drawn before the lock is taken.\<close>

definition state_for_locked ::
    "(AccountLimits \<Rightarrow> 'l) \<Rightarrow> AccountId \<Rightarrow> AccountLimits \<Rightarrow> u64 \<Rightarrow> 'l admission
      \<Rightarrow> (nat, AdmissionError) result \<times> 'l admission" where
  "state_for_locked request_limiter account_id limits seq c =
     (if states_poisoned c then (Err AdmissionStatePoisoned, c)
      else case hm_get (states c) account_id of
        Some r \<Rightarrow>
          (case update_limits request_limiter limits (heap c r) of
             Inl e \<Rightarrow> (Err e, c)
           | Inr s \<Rightarrow> (Ok r, c\<lparr>heap := (heap c)(r := s\<lparr>adm_last_used := seq\<rparr>)\<rparr>))
      | None \<Rightarrow>
          if length (states c) \<ge> max_cached_accounts c
          then (case eviction_candidate c of
                  Some victim \<Rightarrow>
                    insert_state request_limiter account_id limits seq (hm_remove victim (states c)) c
                | None \<Rightarrow> (Err StateCapacityReached, c))
          else insert_state request_limiter account_id limits seq (states c) c)"

definition state_for ::
    "(AccountLimits \<Rightarrow> 'l) \<Rightarrow> AccountId \<Rightarrow> AccountLimits \<Rightarrow> 'l admission
      \<Rightarrow> (nat, AdmissionError) result \<times> 'l admission" where
  "state_for request_limiter account_id limits c =
     state_for_locked request_limiter account_id limits (sequence c) (c\<lparr>sequence := sequence c + 1\<rparr>)"

definition current_limits :: "'l AccountAdmissionState \<Rightarrow> (AccountLimits, AdmissionError) result" where
  "current_limits s = (if adm_poisoned s then Err AdmissionStatePoisoned else Ok (adm_limits s))"

definition state_request_limiter :: "'l AccountAdmissionState \<Rightarrow> ('l, AdmissionError) result" where
  "state_request_limiter s = (if adm_poisoned s then Err AdmissionStatePoisoned else Ok (adm_limiter s))"

text \<open>
  The methods of the controller, run without interference: \<open>limiter_check\<close> is the rate
  limiter's \<open>check\<close> with the waiting time of a refusal. \<open>admission_step\<close> below has their
  interleavings.
\<close>

definition check_request_rate ::
    "(AccountLimits \<Rightarrow> 'l) \<Rightarrow> ('l \<Rightarrow> nat option \<times> 'l) \<Rightarrow> IngressIdentity \<Rightarrow> 'l admission
      \<Rightarrow> (unit, AdmissionError) result \<times> 'l admission" where
  "check_request_rate request_limiter limiter_check identity c =
     (case state_for request_limiter (identity_account_id identity) (identity_limits identity) c of
        (Inl e, c') \<Rightarrow> (Err e, c')
      | (Inr r, c') \<Rightarrow>
          (case state_request_limiter (heap c' r) of
             Inl e \<Rightarrow> (Err e, c')
           | Inr limiter \<Rightarrow>
               (case limiter_check limiter of
                  (None, l) \<Rightarrow> (Ok (), c'\<lparr>heap := (heap c')(r := (heap c' r)\<lparr>adm_limiter := l\<rparr>)\<rparr>)
                | (Some retry_after, l) \<Rightarrow>
                    (Err (RateLimited retry_after),
                     c'\<lparr>heap := (heap c')(r := (heap c' r)\<lparr>adm_limiter := l\<rparr>)\<rparr>))))"

definition try_acquire_tunnel ::
    "(AccountLimits \<Rightarrow> 'l) \<Rightarrow> IngressIdentity \<Rightarrow> 'l admission \<Rightarrow> (nat, AdmissionError) result \<times> 'l admission" where
  "try_acquire_tunnel request_limiter identity c =
     (case state_for request_limiter (identity_account_id identity) (identity_limits identity) c of
        (Inl e, c') \<Rightarrow> (Err e, c')
      | (Inr r, c') \<Rightarrow>
          (case current_limits (heap c' r) of
             Inl e \<Rightarrow> (Err e, c')
           | Inr limits \<Rightarrow>
               if adm_active (heap c' r) \<ge> max_concurrent_tunnels limits
               then (Err (TunnelLimitReached (max_concurrent_tunnels limits)), c')
               else (Ok r, c'\<lparr>heap := (heap c')(r := (heap c' r)\<lparr>adm_active := adm_active (heap c' r) + 1\<rparr>),
                       guards := add_mset (identity_account_id identity, r) (guards c')\<rparr>)))"

definition active_tunnels ::
    "(AccountLimits \<Rightarrow> 'l) \<Rightarrow> IngressIdentity \<Rightarrow> 'l admission \<Rightarrow> (u32, AdmissionError) result \<times> 'l admission" where
  "active_tunnels request_limiter identity c =
     (case state_for request_limiter (identity_account_id identity) (identity_limits identity) c of
        (Inl e, c') \<Rightarrow> (Err e, c')
      | (Inr r, c') \<Rightarrow> (Ok (adm_active (heap c' r)), c'))"

definition cached_account_states :: "'l admission \<Rightarrow> (nat, AdmissionError) result" where
  "cached_account_states c = (if states_poisoned c then Err AdmissionStatePoisoned else Ok (length (states c)))"

text \<open>\<open>Drop for AccountTunnelGuard\<close>: \<open>fetch_update\<close> with \<open>checked_sub(1)\<close>.\<close>

definition drop_tunnel :: "'l AccountAdmissionState \<Rightarrow> 'l AccountAdmissionState" where
  "drop_tunnel s = (case checked_sub (adm_active s) 1 of Some n \<Rightarrow> s\<lparr>adm_active := n\<rparr> | None \<Rightarrow> s)"

text \<open>
  The steps. \<open>bound a\<close> is an upper bound of the tunnel limits the callers present for account
  \<open>a\<close>; \<open>check\<close> is the rate limiter's check.
\<close>

inductive admission_step ::
    "(AccountLimits \<Rightarrow> 'l) \<Rightarrow> ('l \<Rightarrow> 'l) \<Rightarrow> (AccountId \<Rightarrow> u32) \<Rightarrow> 'l admission \<Rightarrow> 'l admission \<Rightarrow> bool"
  for request_limiter check bound where
  call_tunnel: "state_for request_limiter a limits c = (Ok r, c') \<Longrightarrow> max_concurrent_tunnels limits \<le> bound a
    \<Longrightarrow> admission_step request_limiter check bound c (c'\<lparr>calls := add_mset (AtLoad a r) (calls c')\<rparr>)"
| call_rate: "state_for request_limiter a limits c = (Ok r, c') \<Longrightarrow> max_concurrent_tunnels limits \<le> bound a
    \<Longrightarrow> admission_step request_limiter check bound c (c'\<lparr>calls := add_mset (AtRate a r) (calls c')\<rparr>)"
| call_fails: "state_for request_limiter a limits c = (Err e, c')
    \<Longrightarrow> admission_step request_limiter check bound c c'"
| load: "calls c = add_mset (AtLoad a r) P
    \<Longrightarrow> admission_step request_limiter check bound c
          (c\<lparr>calls := add_mset (AtLimit a r (adm_active (heap c r))) P\<rparr>)"
| below_limit: "calls c = add_mset (AtLimit a r current) P
    \<Longrightarrow> current < max_concurrent_tunnels (adm_limits (heap c r)) \<Longrightarrow> \<not> adm_poisoned (heap c r)
    \<Longrightarrow> admission_step request_limiter check bound c (c\<lparr>calls := add_mset (AtCas a r current) P\<rparr>)"
| limit_reached: "calls c = add_mset (AtLimit a r current) P
    \<Longrightarrow> current \<ge> max_concurrent_tunnels (adm_limits (heap c r)) \<or> adm_poisoned (heap c r)
    \<Longrightarrow> admission_step request_limiter check bound c (c\<lparr>calls := P\<rparr>)"
| cas_succeeds: "calls c = add_mset (AtCas a r current) P \<Longrightarrow> adm_active (heap c r) = current
    \<Longrightarrow> admission_step request_limiter check bound c
          (c\<lparr>heap := (heap c)(r := (heap c r)\<lparr>adm_active := current + 1\<rparr>),
             guards := add_mset (a, r) (guards c), calls := P\<rparr>)"
| cas_fails: "calls c = add_mset (AtCas a r current) P
    \<Longrightarrow> admission_step request_limiter check bound c (c\<lparr>calls := add_mset (AtLoad a r) P\<rparr>)"
| rate_checked: "calls c = add_mset (AtRate a r) P
    \<Longrightarrow> admission_step request_limiter check bound c
          (c\<lparr>heap := (heap c)(r := (heap c r)\<lparr>adm_limiter := check (adm_limiter (heap c r))\<rparr>), calls := P\<rparr>)"
| drop_guard: "guards c = add_mset (a, r) G
    \<Longrightarrow> admission_step request_limiter check bound c
          (c\<lparr>heap := (heap c)(r := drop_tunnel (heap c r)), guards := G\<rparr>)"

inductive admission_reachable ::
    "(AccountLimits \<Rightarrow> 'l) \<Rightarrow> ('l \<Rightarrow> 'l) \<Rightarrow> (AccountId \<Rightarrow> u32) \<Rightarrow> nat \<Rightarrow> 'l admission \<Rightarrow> bool"
  for request_limiter check bound capacity where
  start: "AccountAdmissionController_new memory capacity = Ok c
    \<Longrightarrow> admission_reachable request_limiter check bound capacity c"
| step: "admission_reachable request_limiter check bound capacity c
    \<Longrightarrow> admission_step request_limiter check bound c c'
    \<Longrightarrow> admission_reachable request_limiter check bound capacity c'"

section \<open>Invariant\<close>

definition tunnels_of :: "'l admission \<Rightarrow> nat \<Rightarrow> nat" where
  "tunnels_of c r = size (filter_mset (\<lambda>g. snd g = r) (guards c))"

text \<open>
  Every reference a call or a guard holds is the one the cache has for its account: a state
  that is in use is never evicted, so two guards of an account always count on the same
  counter.
\<close>

definition cache_wf :: "'l admission \<Rightarrow> bool" where
  "cache_wf c \<longleftrightarrow> hm_wf (states c) \<and> length (states c) \<le> max_cached_accounts c
     \<and> 0 < max_cached_accounts c
     \<and> (\<forall>a r. hm_get (states c) a = Some r \<longrightarrow> r < fresh_ref c)
     \<and> (\<forall>a b r. hm_get (states c) a = Some r \<and> hm_get (states c) b = Some r \<longrightarrow> a = b)"

definition holders_cached :: "'l admission \<Rightarrow> bool" where
  "holders_cached c \<longleftrightarrow> (\<forall>p. p \<in># calls c \<longrightarrow> hm_get (states c) (call_account p) = Some (call_ref p))
     \<and> (\<forall>a r. (a, r) \<in># guards c \<longrightarrow> hm_get (states c) a = Some r)"

definition state_ok :: "(AccountId \<Rightarrow> u32) \<Rightarrow> AccountId \<Rightarrow> nat \<Rightarrow> 'l AccountAdmissionState \<Rightarrow> bool" where
  "state_ok bound a tunnels s \<longleftrightarrow> unat (adm_active s) = tunnels
     \<and> max_concurrent_tunnels (adm_limits s) \<le> bound a \<and> adm_active s \<le> bound a"

definition counters_exact :: "(AccountId \<Rightarrow> u32) \<Rightarrow> 'l admission \<Rightarrow> bool" where
  "counters_exact bound c \<longleftrightarrow>
     (\<forall>a r. hm_get (states c) a = Some r \<longrightarrow> state_ok bound a (tunnels_of c r) (heap c r))
     \<and> (\<forall>a r current. AtCas a r current \<in># calls c \<longrightarrow> current < bound a)"

definition admission_inv :: "(AccountId \<Rightarrow> u32) \<Rightarrow> 'l admission \<Rightarrow> bool" where
  "admission_inv bound c \<longleftrightarrow> cache_wf c \<and> holders_cached c \<and> counters_exact bound c"

section \<open>The critical section of the controller\<close>

lemma eviction_candidate_idle:
  assumes "cache_wf c" "eviction_candidate c = Some victim"
  shows "\<exists>r. hm_get (states c) victim = Some r \<and> (\<forall>p\<in>#calls c. call_ref p \<noteq> r)
    \<and> (\<forall>g\<in>#guards c. snd g \<noteq> r)"
proof -
  from assms(2) obtain r where "(victim, r) \<in> set (filter (\<lambda>e. adm_active (heap c (snd e)) = 0
      \<and> strong_count c (snd e) = 1) (states c))"
    by (auto simp: eviction_candidate_def dest!: min_by_key_in)
  then have r: "(victim, r) \<in> set (states c)" "strong_count c r = 1" by auto
  then have "filter (\<lambda>e. snd e = r) (states c) \<noteq> []"
    by (force simp: filter_empty_conv)
  then have "1 \<le> length (filter (\<lambda>e. snd e = r) (states c))"
    by (simp add: Suc_le_eq)
  then have "size (filter_mset (\<lambda>p. call_ref p = r) (calls c)) = 0"
      "size (filter_mset (\<lambda>g. snd g = r) (guards c)) = 0"
    using r(2) unfolding strong_count_def by linarith+
  moreover have "hm_get (states c) victim = Some r"
    using assms(1) r(1) by (simp add: cache_wf_def)
  ultimately show ?thesis by force
qed

lemma tunnels_of_unused: "(\<And>a. (a, r) \<notin># guards c) \<Longrightarrow> tunnels_of c r = 0"
  by (auto simp: tunnels_of_def)

text \<open>A new state, entered into a cache from which only idle entries were removed.\<close>

lemma insert_state_inv:
  assumes inv: "admission_inv bound c" and bnd: "max_concurrent_tunnels limits \<le> bound a"
    and sub: "\<And>k r. hm_get cached k = Some r \<Longrightarrow> hm_get (states c) k = Some r"
    and wf: "hm_wf cached" "length cached < max_cached_accounts c" "hm_get cached a = None"
    and held: "\<And>p. p \<in># calls c \<Longrightarrow> hm_get cached (call_account p) = Some (call_ref p)"
      "\<And>b r. (b, r) \<in># guards c \<Longrightarrow> hm_get cached b = Some r"
    and ins: "insert_state request_limiter a limits seq cached c = (res, c')"
  shows "admission_inv bound c' \<and> res = Ok (fresh_ref c) \<and> hm_get (states c') a = Some (fresh_ref c)"
proof -
  have c': "c' = c\<lparr>states := hm_insert a (fresh_ref c) cached,
        heap := (heap c)(fresh_ref c := AccountAdmissionState_new request_limiter limits seq),
        fresh_ref := Suc (fresh_ref c)\<rparr>" and res: "res = Ok (fresh_ref c)"
    using ins by (simp_all add: insert_state_def)
  have old: "cache_wf c" "counters_exact bound c" using inv by (simp_all add: admission_inv_def)
  have lt: "r < fresh_ref c" if "hm_get cached k = Some r" for k r
    using old(1) sub [OF that] by (auto simp: cache_wf_def)
  have inj: "k = k'" if "hm_get cached k = Some r" "hm_get cached k' = Some r" for k k' r
    using old(1) sub [OF that(1)] sub [OF that(2)] unfolding cache_wf_def by blast
  have "cache_wf c'"
    using old(1) wf lt inj unfolding c' cache_wf_def
    by (auto simp: length_hm_insert less_Suc_eq simp del: map_of_eq_Some_iff split: if_splits)
  moreover have "holders_cached c'"
    using held wf(3) unfolding c' holders_cached_def by auto
  moreover have "tunnels_of c (fresh_ref c) = 0"
    using held(2) lt by (intro tunnels_of_unused) blast
  then have "state_ok bound b (tunnels_of c' r) (heap c' r)" if "hm_get (states c') b = Some r" for b r
  proof (cases "b = a")
    case True
    with that bnd \<open>tunnels_of c (fresh_ref c) = 0\<close> show ?thesis
      by (simp add: c' state_ok_def AccountAdmissionState_new_def tunnels_of_def)
  next
    case False
    with that have "hm_get cached b = Some r" by (simp add: c')
    with old(2) sub lt have "state_ok bound b (tunnels_of c r) (heap c r)" "r \<noteq> fresh_ref c"
      unfolding counters_exact_def by blast+
    then show ?thesis by (simp add: c' tunnels_of_def)
  qed
  then have "counters_exact bound c'"
    using old(2) by (simp add: counters_exact_def c')
  ultimately show ?thesis using res c' by (simp add: admission_inv_def)
qed

lemma update_limits_ok:
  assumes "update_limits request_limiter limits s = Ok s'" "state_ok bound a n s"
    and "max_concurrent_tunnels limits \<le> bound a"
  shows "state_ok bound a n (s'\<lparr>adm_last_used := seq\<rparr>)"
  using assms by (auto simp: update_limits_def state_ok_def split: if_splits)

text \<open>An update of one cached state that keeps the guards.\<close>

lemma heap_update_inv:
  assumes inv: "admission_inv bound c" and a: "hm_get (states c) a = Some r"
    and ok: "state_ok bound a (tunnels_of c r) s"
  shows "admission_inv bound (c\<lparr>heap := (heap c)(r := s)\<rparr>)"
proof -
  have "b = a" if "hm_get (states c) b = Some r" for b
    using inv a that unfolding admission_inv_def cache_wf_def by blast
  then show ?thesis
    using inv ok unfolding admission_inv_def cache_wf_def holders_cached_def counters_exact_def
    by (auto simp: tunnels_of_def simp del: map_of_eq_Some_iff)
qed

lemma admission_inv_sequence: "admission_inv bound c \<Longrightarrow> admission_inv bound (c\<lparr>sequence := n\<rparr>)"
  by (simp add: admission_inv_def cache_wf_def holders_cached_def counters_exact_def tunnels_of_def)

lemma insert_evicting_inv:
  assumes inv: "admission_inv bound c" and bnd: "max_concurrent_tunnels limits \<le> bound a"
    and new: "hm_get (states c) a = None" and ev: "eviction_candidate c = Some victim"
    and ins: "insert_state request_limiter a limits seq (hm_remove victim (states c)) c = (res, c')"
  shows "admission_inv bound c' \<and> res = Ok (fresh_ref c) \<and> hm_get (states c') a = Some (fresh_ref c)"
proof (rule insert_state_inv [OF inv bnd _ _ _ _ _ _ ins])
  have wf: "cache_wf c" and held: "holders_cached c" using inv by (simp_all add: admission_inv_def)
  from eviction_candidate_idle [OF wf ev] obtain r where
    r: "hm_get (states c) victim = Some r" "\<forall>p\<in>#calls c. call_ref p \<noteq> r"
      "\<forall>g\<in>#guards c. snd g \<noteq> r" by blast
  show "hm_get (states c) k = Some q" if "hm_get (hm_remove victim (states c)) k = Some q" for k q
    using that by (simp add: hm_get_remove split: if_splits)
  show "hm_wf (hm_remove victim (states c))" "hm_get (hm_remove victim (states c)) a = None"
    using wf new by (simp_all add: cache_wf_def hm_get_remove)
  have "hm_wf (states c)" "length (states c) \<le> max_cached_accounts c" "length (states c) > 0"
    using wf r(1) unfolding cache_wf_def by (blast, blast, auto)
  then show "length (hm_remove victim (states c)) < max_cached_accounts c"
    using r(1) length_hm_remove [of "states c" victim] by (simp del: map_of_eq_Some_iff length_greater_0_conv)
  show "hm_get (hm_remove victim (states c)) (call_account p) = Some (call_ref p)" if "p \<in># calls c" for p
    using held that r by (cases "call_account p = victim") (auto simp: holders_cached_def hm_get_remove
        simp del: map_of_eq_Some_iff)
  show "hm_get (hm_remove victim (states c)) b = Some q" if "(b, q) \<in># guards c" for b q
    using held that r by (cases "b = victim") (force simp: holders_cached_def hm_get_remove
        simp del: map_of_eq_Some_iff)+
qed

lemma state_for_locked_cases:
  assumes "state_for_locked request_limiter a limits seq c = (res, c')"
  obtains (same) e where "res = Err e" "c' = c"
    | (cached) r s where "hm_get (states c) a = Some r" "res = Ok r"
        "update_limits request_limiter limits (heap c r) = Ok s"
        "c' = c\<lparr>heap := (heap c)(r := s\<lparr>adm_last_used := seq\<rparr>)\<rparr>"
    | (evict) victim where "hm_get (states c) a = None" "eviction_candidate c = Some victim"
        "insert_state request_limiter a limits seq (hm_remove victim (states c)) c = (res, c')"
    | (insert) "hm_get (states c) a = None" "length (states c) < max_cached_accounts c"
        "insert_state request_limiter a limits seq (states c) c = (res, c')"
proof (cases "states_poisoned c")
  case True
  with assms same show ?thesis by (auto simp: state_for_locked_def)
next
  case False
  show ?thesis
  proof (cases "hm_get (states c) a")
    case None
    note unfolded = assms [unfolded state_for_locked_def] False None
    show ?thesis
    proof (cases "max_cached_accounts c \<le> length (states c)")
      case True
      with unfolded show ?thesis
        by (cases "eviction_candidate c") (auto intro: same evict)
    next
      case False
      with unfolded show ?thesis by (intro insert) simp_all
    qed
  next
    case (Some r)
    show ?thesis
    proof (cases "update_limits request_limiter limits (heap c r)")
      case (Inl e)
      with False assms Some show ?thesis by (intro same [of e]) (simp_all add: state_for_locked_def)
    next
      case (Inr s)
      with False assms Some show ?thesis by (intro cached [of r s]) (auto simp: state_for_locked_def)
    qed
  qed
qed

lemma state_for_locked_inv:
  assumes inv: "admission_inv bound c" and bnd: "max_concurrent_tunnels limits \<le> bound a"
    and st: "state_for_locked request_limiter a limits seq c = (res, c')"
  shows "admission_inv bound c' \<and> (\<forall>r. res = Ok r \<longrightarrow> hm_get (states c') a = Some r)"
proof -
  have wf: "cache_wf c" and held: "holders_cached c" using inv by (simp_all add: admission_inv_def)
  show ?thesis
    using st
  proof (cases rule: state_for_locked_cases)
    case (cached r s)
    have "state_ok bound a (tunnels_of c r) (heap c r)"
      using inv cached(1) by (simp add: admission_inv_def counters_exact_def)
    with cached bnd show ?thesis
      by (simp add: heap_update_inv [OF inv] update_limits_ok)
  next
    case (evict victim)
    from insert_evicting_inv [OF inv bnd this] show ?thesis by simp
  next
    case insert
    from insert_state_inv [OF inv bnd _ _ insert(2,1) _ _ insert(3)] wf held
    show ?thesis by (simp add: cache_wf_def holders_cached_def)
  qed (use inv in simp)
qed

lemma state_for_inv:
  assumes "admission_inv bound c" "max_concurrent_tunnels limits \<le> bound a"
    and "state_for request_limiter a limits c = (res, c')"
  shows "admission_inv bound c'" and "res = Ok r \<Longrightarrow> hm_get (states c') a = Some r"
  using state_for_locked_inv [OF admission_inv_sequence [OF assms(1)] assms(2)
      assms(3) [unfolded state_for_def]] by simp_all

text \<open>A refused call changes nothing but the sequence number.\<close>

lemma state_for_Err:
  assumes "state_for request_limiter a limits c = (Err e, c')"
  shows "c' = c\<lparr>sequence := sequence c + 1\<rparr>"
  using assms unfolding state_for_def
  by (cases rule: state_for_locked_cases) (simp_all add: insert_state_def)

section \<open>The invariant holds in every interleaving\<close>

lemma replace_call_inv:
  assumes inv: "admission_inv bound c" and c: "calls c = add_mset p P"
    and "call_account q = call_account p" "call_ref q = call_ref p"
    and "\<And>a r n. q = AtCas a r n \<Longrightarrow> n < bound a"
  shows "admission_inv bound (c\<lparr>calls := add_mset q P\<rparr>)"
  using inv c assms(3-) unfolding admission_inv_def cache_wf_def holders_cached_def counters_exact_def
  by (auto simp: tunnels_of_def simp del: map_of_eq_Some_iff)

lemma finish_call_inv:
  "admission_inv bound c \<Longrightarrow> calls c = add_mset p P \<Longrightarrow> admission_inv bound (c\<lparr>calls := P\<rparr>)"
  unfolding admission_inv_def cache_wf_def holders_cached_def counters_exact_def
  by (auto simp: tunnels_of_def simp del: map_of_eq_Some_iff)

lemma new_call_inv:
  "admission_inv bound c \<Longrightarrow> hm_get (states c) a = Some r \<Longrightarrow> q = AtLoad a r \<or> q = AtRate a r
    \<Longrightarrow> admission_inv bound (c\<lparr>calls := add_mset q (calls c)\<rparr>)"
  unfolding admission_inv_def cache_wf_def holders_cached_def counters_exact_def
  by (auto simp: tunnels_of_def simp del: map_of_eq_Some_iff)

text \<open>A change of the guards of one state together with its counter.\<close>

lemma guards_update_inv:
  assumes inv: "admission_inv bound c" and a: "hm_get (states c) a = Some r"
    and ok: "state_ok bound a (size (filter_mset (\<lambda>g. snd g = r) G)) s"
    and others: "\<And>q. q \<noteq> r \<Longrightarrow> filter_mset (\<lambda>g. snd g = q) G = filter_mset (\<lambda>g. snd g = q) (guards c)"
    and held: "\<And>b q. (b, q) \<in># G \<Longrightarrow> hm_get (states c) b = Some q"
  shows "admission_inv bound (c\<lparr>heap := (heap c)(r := s), guards := G\<rparr>)"
proof -
  have "b = a" if "hm_get (states c) b = Some r" for b
    using inv a that unfolding admission_inv_def cache_wf_def by blast
  then show ?thesis
    using inv ok held others unfolding admission_inv_def cache_wf_def holders_cached_def counters_exact_def
    by (auto simp: tunnels_of_def simp del: map_of_eq_Some_iff)
qed

lemma cas_inv:
  assumes inv: "admission_inv bound c" and p: "calls c = add_mset (AtCas a r current) P"
    and act: "adm_active (heap c r) = current"
  shows "admission_inv bound (c\<lparr>heap := (heap c)(r := (heap c r)\<lparr>adm_active := current + 1\<rparr>),
    guards := add_mset (a, r) (guards c), calls := P\<rparr>)"
proof -
  have a: "hm_get (states c) a = Some r" and lt: "current < bound a"
    using inv p by (auto simp: admission_inv_def holders_cached_def counters_exact_def)
  have ok: "state_ok bound a (tunnels_of c r) (heap c r)"
    using inv a by (simp add: admission_inv_def counters_exact_def)
  have one: "unat (current + 1) = unat current + 1"
    using lt unat_add_no_wrap [of current 1] unsigned_less [of "bound a", where 'a = nat]
    by (simp add: word_less_nat_alt)
  then have "current + 1 \<le> bound a"
    using lt by (simp add: word_le_nat_alt word_less_nat_alt)
  with ok one act have "state_ok bound a (size (filter_mset (\<lambda>g. snd g = r) (add_mset (a, r) (guards c))))
      ((heap c r)\<lparr>adm_active := current + 1\<rparr>)"
    by (simp add: state_ok_def tunnels_of_def)
  moreover have "hm_get (states c) b = Some q" if "(b, q) \<in># add_mset (a, r) (guards c)" for b q
    using that a inv by (auto simp: admission_inv_def holders_cached_def simp del: map_of_eq_Some_iff)
  ultimately have "admission_inv bound (c\<lparr>heap := (heap c)(r := (heap c r)\<lparr>adm_active := current + 1\<rparr>),
      guards := add_mset (a, r) (guards c)\<rparr>)"
    by (intro guards_update_inv [OF inv a]) auto
  from finish_call_inv [OF this, of "AtCas a r current" P] p show ?thesis by simp
qed

lemma drop_guard_inv:
  assumes inv: "admission_inv bound c" and g: "guards c = add_mset (a, r) G"
  shows "admission_inv bound (c\<lparr>heap := (heap c)(r := drop_tunnel (heap c r)), guards := G\<rparr>)"
proof -
  have held: "hm_get (states c) b = Some q" if "(b, q) \<in># guards c" for b q
    using that inv by (simp add: admission_inv_def holders_cached_def)
  then have a: "hm_get (states c) a = Some r" using g by simp
  have ok: "state_ok bound a (tunnels_of c r) (heap c r)"
    using inv a by (simp add: admission_inv_def counters_exact_def)
  then have pos: "unat (adm_active (heap c r)) = Suc (size (filter_mset (\<lambda>g. snd g = r) G))"
    using g by (simp add: state_ok_def tunnels_of_def)
  then have ge: "1 \<le> adm_active (heap c r)" by (simp add: word_le_nat_alt)
  have "unat (adm_active (heap c r) - 1) = size (filter_mset (\<lambda>g. snd g = r) G)"
    using pos unat_sub_no_wrap [OF ge] by simp
  moreover from this have "adm_active (heap c r) - 1 \<le> bound a"
    using ok pos by (simp add: state_ok_def word_le_nat_alt)
  ultimately have "state_ok bound a (size (filter_mset (\<lambda>g. snd g = r) G)) (drop_tunnel (heap c r))"
    using ok ge by (simp add: drop_tunnel_def checked_sub_def state_ok_def)
  then show ?thesis
    using g held by (intro guards_update_inv [OF inv a]) auto
qed

lemma admission_step_inv:
  assumes "admission_step request_limiter check bound c c'" "admission_inv bound c"
  shows "admission_inv bound c'"
  using assms
proof (induction rule: admission_step.induct)
  case (call_tunnel a limits c r c')
  then show ?case using state_for_inv [OF call_tunnel.prems call_tunnel.hyps(2,1)]
    by (intro new_call_inv) auto
next
  case (call_rate a limits c r c')
  then show ?case using state_for_inv [OF call_rate.prems call_rate.hyps(2,1)]
    by (intro new_call_inv) auto
next
  case (load c a r P)
  then show ?case by (intro replace_call_inv) auto
next
  case (below_limit c a r current P)
  have "hm_get (states c) a = Some r"
    using below_limit by (simp add: admission_inv_def holders_cached_def)
  with below_limit have "max_concurrent_tunnels (adm_limits (heap c r)) \<le> bound a"
    by (simp add: admission_inv_def counters_exact_def state_ok_def)
  with below_limit show ?case by (intro replace_call_inv) auto
next
  case (limit_reached c a r current P)
  then show ?case by (intro finish_call_inv) auto
next
  case (cas_succeeds c a r current P)
  then show ?case by (intro cas_inv) auto
next
  case (cas_fails c a r current P)
  then show ?case by (intro replace_call_inv) auto
next
  case (rate_checked c a r P)
  have a: "hm_get (states c) a = Some r"
    using rate_checked by (simp add: admission_inv_def holders_cached_def)
  then have "state_ok bound a (tunnels_of c r) ((heap c r)\<lparr>adm_limiter := check (adm_limiter (heap c r))\<rparr>)"
    using rate_checked by (simp add: admission_inv_def counters_exact_def state_ok_def)
  from finish_call_inv [OF heap_update_inv [OF rate_checked.prems a this], of "AtRate a r" P]
  show ?case using rate_checked by simp
next
  case (drop_guard c a r G)
  then show ?case by (intro drop_guard_inv) auto
next
  case (call_fails a limits c e c')
  then show ?case using state_for_Err admission_inv_sequence by metis
qed

lemma state_for_capacity:
  "state_for request_limiter a limits c = (res, c') \<Longrightarrow> max_cached_accounts c' = max_cached_accounts c"
  unfolding state_for_def
  by (erule state_for_locked_cases) (auto simp: insert_state_def)

lemma admission_reachable_inv:
  assumes "admission_reachable request_limiter check bound capacity c"
  shows "admission_inv bound c \<and> max_cached_accounts c = capacity"
  using assms
proof (induction rule: admission_reachable.induct)
  case (start memory c)
  then show ?case
    by (auto simp: AccountAdmissionController_new_def admission_inv_def cache_wf_def
        holders_cached_def counters_exact_def split: if_splits)
next
  case (step c c')
  have "max_cached_accounts c' = max_cached_accounts c"
    using step.hyps(2) by (cases rule: admission_step.cases) (auto dest: state_for_capacity)
  with step admission_step_inv show ?case by metis
qed

section \<open>Properties\<close>

lemma guards_of_account:
  assumes "admission_inv bound c" "hm_get (states c) a = Some r"
  shows "filter_mset (\<lambda>g. fst g = a) (guards c) = filter_mset (\<lambda>g. snd g = r) (guards c)"
proof (rule filter_mset_cong)
  fix g assume "g \<in># guards c"
  then have "hm_get (states c) (fst g) = Some (snd g)"
    using assms(1) by (cases g) (simp add: admission_inv_def holders_cached_def)
  then show "fst g = a \<longleftrightarrow> snd g = r"
    using assms unfolding admission_inv_def cache_wf_def by (metis option.inject)
qed simp

text \<open>
  Property C15. The tunnel limit holds under every interleaving: however threads acquire and
  drop tunnels, refresh limits, check rates and evict cached accounts, the live tunnels of an
  account never exceed the largest tunnel limit presented for it, the atomic counter of its
  cached state is exactly their number, and the cache holds at most its capacity of accounts.
\<close>

theorem account_tunnels_bounded:
  assumes "admission_reachable request_limiter check bound capacity c"
  shows "size (filter_mset (\<lambda>g. fst g = a) (guards c)) \<le> unat (bound a)
    \<and> length (states c) \<le> capacity
    \<and> (\<forall>r. hm_get (states c) a = Some r \<longrightarrow>
         unat (adm_active (heap c r)) = size (filter_mset (\<lambda>g. fst g = a) (guards c)))"
proof -
  have inv: "admission_inv bound c" and cap: "max_cached_accounts c = capacity"
    using admission_reachable_inv [OF assms] by simp_all
  have exact: "unat (adm_active (heap c r)) = size (filter_mset (\<lambda>g. fst g = a) (guards c))
      \<and> adm_active (heap c r) \<le> bound a" if "hm_get (states c) a = Some r" for r
    using guards_of_account [OF inv that] inv that
    by (simp add: admission_inv_def counters_exact_def state_ok_def tunnels_of_def)
  have "size (filter_mset (\<lambda>g. fst g = a) (guards c)) \<le> unat (bound a)"
  proof (cases "hm_get (states c) a")
    case None
    then have "filter_mset (\<lambda>g. fst g = a) (guards c) = {#}"
      using inv by (force simp: admission_inv_def holders_cached_def)
    then show ?thesis by (simp only: size_empty)
  next
    case (Some r)
    then show ?thesis using exact by (simp add: word_le_nat_alt)
  qed
  moreover have "length (states c) \<le> capacity"
    using inv cap by (simp add: admission_inv_def cache_wf_def)
  ultimately show ?thesis using exact by blast
qed

text \<open>A run: one account, limit two, acquires its first tunnel.\<close>

definition example_limits :: AccountLimits where
  "example_limits = \<lparr>requests_per_second = 5, request_burst = 5, max_concurrent_tunnels = 2,
     period_request_limit = None, period_byte_limit = None\<rparr>"

definition example_admission :: "u32 \<Rightarrow> call multiset \<Rightarrow> (AccountId \<times> nat) multiset \<Rightarrow> unit admission" where
  "example_admission n cs gs =
     \<lparr>states = [(AccountId 1, 0)], max_cached_accounts = 1, sequence = 2, states_poisoned = False,
      heap = (\<lambda>_. \<lparr>adm_limits = example_limits, adm_limiter = (), adm_active = 0,
               adm_last_used = 1, adm_poisoned = False\<rparr>)
        (0 := \<lparr>adm_limits = example_limits, adm_limiter = (), adm_active = n,
               adm_last_used = 1, adm_poisoned = False\<rparr>),
      fresh_ref = 1, calls = cs, guards = gs\<rparr>"

lemma example_reachable:
  "admission_reachable (\<lambda>_. ()) id (\<lambda>_. 2) 1 (example_admission 1 {#} {#(AccountId 1, 0)#})"
proof -
  let ?R = "admission_reachable (\<lambda>_. ()) id (\<lambda>_. 2) 1"
  let ?memory = "\<lambda>_. \<lparr>adm_limits = example_limits, adm_limiter = (), adm_active = 0,
               adm_last_used = 1, adm_poisoned = False\<rparr>"
  let ?c0 = "\<lparr>states = [], max_cached_accounts = 1, sequence = 1, states_poisoned = False,
      heap = ?memory, fresh_ref = 0, calls = {#}, guards = {#}\<rparr>"
  have "?R ?c0"
    by (rule admission_reachable.start [of ?memory]) (simp add: AccountAdmissionController_new_def)
  moreover have "state_for (\<lambda>_. ()) (AccountId 1) example_limits ?c0 = (Ok 0, example_admission 0 {#} {#})"
    by (simp add: state_for_def state_for_locked_def insert_state_def AccountAdmissionState_new_def
        example_admission_def)
  ultimately have "?R (example_admission 0 {#AtLoad (AccountId 1) 0#} {#})"
    using admission_reachable.step [OF _ admission_step.call_tunnel]
    by (force simp: example_limits_def example_admission_def)
  from admission_reachable.step [OF this admission_step.load, of "AccountId 1" 0 "{#}"]
  have "?R (example_admission 0 {#AtLimit (AccountId 1) 0 0#} {#})"
    by (simp add: example_admission_def)
  from admission_reachable.step [OF this admission_step.below_limit, of "AccountId 1" 0 0 "{#}"]
  have "?R (example_admission 0 {#AtCas (AccountId 1) 0 0#} {#})"
    by (simp add: example_admission_def example_limits_def)
  from admission_reachable.step [OF this admission_step.cas_succeeds, of "AccountId 1" 0 0 "{#}"]
  show ?thesis by (simp add: example_admission_def)
qed

theorem account_tunnels_bounded_witness:
  "size (filter_mset (\<lambda>g. fst g = AccountId 1) (guards (example_admission 1 {#} {#(AccountId 1, 0)#}))) = 1
   \<and> size (filter_mset (\<lambda>g. fst g = AccountId 1) (guards (example_admission 1 {#} {#(AccountId 1, 0)#})))
      \<le> unat (2 :: u32)"
  using account_tunnels_bounded [OF example_reachable, of "AccountId 1"]
  by (simp add: example_admission_def)

section \<open>Acquisition without interference\<close>

lemma state_for_Ok_heap:
  assumes "state_for request_limiter a limits c = (Ok r, c')"
  shows "adm_limits (heap c' r) = limits \<and> guards c' = guards c \<and> calls c' = calls c"
  using assms unfolding state_for_def state_for_locked_def
  by (auto simp: insert_state_def AccountAdmissionState_new_def update_limits_def
      split: if_splits option.splits sum.splits)

lemma state_for_new_active:
  assumes "state_for request_limiter a limits c = (Ok r, c')" "hm_get (states c) a = None"
  shows "adm_active (heap c' r) = 0 \<and> \<not> adm_poisoned (heap c' r)"
  using assms unfolding state_for_def state_for_locked_def
  by (auto simp: insert_state_def AccountAdmissionState_new_def split: if_splits option.splits)

lemma state_for_cached:
  assumes "state_for request_limiter a limits c = (Ok r, c')" "hm_get (states c) a = Some q"
  shows "r = q \<and> adm_active (heap c' r) = adm_active (heap c q) \<and> \<not> adm_poisoned (heap c' r)"
  using assms unfolding state_for_def state_for_locked_def
  by (auto simp: update_limits_def simp del: map_of_eq_Some_iff split: if_splits sum.splits)

lemma state_for_usable:
  assumes "state_for request_limiter a limits c = (Ok r, c')"
  shows "\<not> adm_poisoned (heap c' r)"
  using state_for_cached [OF assms] state_for_new_active [OF assms]
  by (cases "hm_get (states c) a") (simp_all del: map_of_eq_Some_iff)

lemma state_for_error:
  assumes "state_for request_limiter a limits c = (Err e, c')"
  shows "e = AdmissionStatePoisoned \<or> e = StateCapacityReached \<and> hm_get (states c) a = None
    \<and> max_cached_accounts c \<le> length (states c) \<and> eviction_candidate c = None"
proof -
  have "eviction_candidate (c\<lparr>sequence := n\<rparr>) = eviction_candidate c" for n
    by (simp add: eviction_candidate_def strong_count_def)
  then show ?thesis
    using assms unfolding state_for_def state_for_locked_def
    by (auto simp: insert_state_def update_limits_def simp del: map_of_eq_Some_iff
        split: if_splits option.splits sum.splits)
qed

lemma eviction_candidate_None:
  "eviction_candidate c = None \<longleftrightarrow>
     (\<forall>(b, r)\<in>set (states c). adm_active (heap c r) \<noteq> 0 \<or> strong_count c r \<noteq> 1)"
  by (auto simp: eviction_candidate_def filter_empty_conv)

lemma state_for_live:
  assumes "admission_inv bound c" "max_concurrent_tunnels limits \<le> bound a"
    and "state_for request_limiter a limits c = (Ok r, c')"
  shows "unat (adm_active (heap c' r)) = size (filter_mset (\<lambda>g. fst g = a) (guards c))"
proof -
  note inv = state_for_inv(1) [OF assms] and cached = state_for_inv(2) [OF assms refl]
  from guards_of_account [OF inv cached] inv cached state_for_Ok_heap [OF assms(3)] show ?thesis
    by (simp add: admission_inv_def counters_exact_def state_ok_def tunnels_of_def)
qed

text \<open>
  Every outcome of an acquisition that nobody interferes with, in a reachable
  controller: the tunnel is granted exactly when the account has fewer live tunnels than the
  limit presented with the request (a limit lowered meanwhile applies at once), the limit error
  names that limit, and the cache refuses an account only when it is full of accounts in use.
\<close>

lemma try_acquire_tunnel_outcome:
  assumes "admission_reachable request_limiter check bound capacity c"
    and "max_concurrent_tunnels (identity_limits i) \<le> bound (identity_account_id i)"
    and "try_acquire_tunnel request_limiter i c = (res, c')"
  shows "case res of
      Inr r \<Rightarrow> size (filter_mset (\<lambda>g. fst g = identity_account_id i) (guards c))
          < unat (max_concurrent_tunnels (identity_limits i))
        \<and> guards c' = add_mset (identity_account_id i, r) (guards c)
    | Inl (TunnelLimitReached n) \<Rightarrow> n = max_concurrent_tunnels (identity_limits i) \<and> guards c' = guards c
        \<and> unat n \<le> size (filter_mset (\<lambda>g. fst g = identity_account_id i) (guards c))
    | Inl StateCapacityReached \<Rightarrow> hm_get (states c) (identity_account_id i) = None
        \<and> capacity \<le> length (states c) \<and> guards c' = guards c
        \<and> (\<forall>(b, r)\<in>set (states c). adm_active (heap c r) \<noteq> 0 \<or> strong_count c r \<noteq> 1)
    | Inl AdmissionStatePoisoned \<Rightarrow> guards c' = guards c
    | Inl (RateLimited t) \<Rightarrow> False"
proof -
  have inv: "admission_inv bound c" and cap: "max_cached_accounts c = capacity"
    using admission_reachable_inv [OF assms(1)] by simp_all
  obtain q d where st: "state_for request_limiter (identity_account_id i) (identity_limits i) c = (q, d)"
    by fastforce
  show ?thesis
  proof (cases q)
    case (Inl e)
    with st assms(3) have "res = Err e" "c' = d" by (simp_all add: try_acquire_tunnel_def)
    with state_for_error [OF st [unfolded Inl]] state_for_Err [OF st [unfolded Inl]] cap show ?thesis
      by (auto simp: eviction_candidate_None simp del: map_of_eq_Some_iff)
  next
    case (Inr r)
    note st = st [unfolded Inr]
    note live = state_for_live [OF inv assms(2) st] and d = state_for_Ok_heap [OF st]
    with assms(3) st state_for_usable [OF st] show ?thesis
      by (auto simp: try_acquire_tunnel_def current_limits_def word_le_nat_alt word_less_nat_alt
          split: if_splits)
  qed
qed

definition example_identity :: IngressIdentity where
  "example_identity = \<lparr>identity_account_id = AccountId 1, identity_workspace_id = WorkspaceId 1,
     identity_api_key_id = ApiKeyId 1, identity_device_credential_id = DeviceCredentialId 1,
     identity_limits = example_limits\<lparr>max_concurrent_tunnels := 1\<rparr>\<rparr>"

end
