(* ===== verification/Isolation.thy ===== *)
theory Isolation
  imports Account_Types
begin

text \<open>
  Session isolation of \<open>src/src/main.rs\<close>: the store that maps an isolation identity to an Arti
  token and a connection-pool group (\<open>IsolationStore\<close>), the validation of caller-supplied
  identities, and the resolution of an identity in development mode (\<open>resolve_isolation\<close>).

  Arti's \<open>IsolationToken::new\<close> is the parameter \<open>new_token\<close>: \<open>new_token k\<close> is the result of its
  \<open>k\<close>-th call in the process. That tokens are pairwise distinct, as its documentation
  promises, is the hypothesis \<open>inj new_token\<close>. The process-wide counter
  \<open>ISOLATION_GROUP_COUNTER\<close> is a field of the store; time is a natural number.
\<close>

section \<open>Data\<close>

record IsolationRequest =
  request_identity :: "string option"
  request_strict :: bool

record ResolvedIsolation =
  resolved_identity :: string
  resolved_strict :: bool

record 't IsolationMaterial =
  iso_token :: 't
  group_key :: u64

record 't IsolationEntry =
  iso_material :: "'t IsolationMaterial"
  last_used :: nat
  expires_at :: nat

record 't IsolationStore =
  iso_entries :: "(string, 't IsolationEntry) hashmap"
  iso_capacity :: nat
  iso_ttl :: nat
  tokens_drawn :: nat
  group_counter :: u64

section \<open>The store\<close>

text \<open>\<open>IsolationStore::new\<close> panics on a capacity of zero.\<close>

definition IsolationStore_new :: "nat \<Rightarrow> nat \<Rightarrow> 't IsolationStore option" where
  "IsolationStore_new cap t =
     (if cap > 0 then Some \<lparr>iso_entries = [], iso_capacity = cap, iso_ttl = t, tokens_drawn = 0, group_counter = 1\<rparr>
      else None)"

definition retain_live :: "nat \<Rightarrow> 't IsolationStore \<Rightarrow> 't IsolationStore" where
  "retain_live now st = st\<lparr>iso_entries := hm_retain (\<lambda>e. expires_at e > now) (iso_entries st)\<rparr>"

definition evict_oldest :: "'t IsolationStore \<Rightarrow> 't IsolationStore" where
  "evict_oldest st = (if length (iso_entries st) \<ge> iso_capacity st
     then st\<lparr>iso_entries := hm_evict_min last_used (iso_entries st)\<rparr> else st)"

definition draw_material :: "(nat \<Rightarrow> 't) \<Rightarrow> 't IsolationStore \<Rightarrow> 't IsolationMaterial \<times> 't IsolationStore" where
  "draw_material new_token st =
     (\<lparr>iso_token = new_token (tokens_drawn st), group_key = group_counter st\<rparr>,
      st\<lparr>tokens_drawn := Suc (tokens_drawn st), group_counter := group_counter st + 1\<rparr>)"

definition put_entry ::
    "string \<Rightarrow> 't IsolationMaterial \<Rightarrow> nat \<Rightarrow> nat \<Rightarrow> 't IsolationStore \<Rightarrow> 't IsolationStore" where
  "put_entry identity m now lifetime st =
     st\<lparr>iso_entries := hm_insert identity \<lparr>iso_material = m, last_used = now, expires_at = now + lifetime\<rparr>
          (iso_entries st)\<rparr>"

definition material_for_at ::
    "(nat \<Rightarrow> 't) \<Rightarrow> string \<Rightarrow> nat \<Rightarrow> 't IsolationStore \<Rightarrow> 't IsolationMaterial \<times> 't IsolationStore" where
  "material_for_at new_token identity now st0 =
     (let st = retain_live now st0 in
      case hm_get (iso_entries st) identity of
        Some entry \<Rightarrow> (iso_material entry, put_entry identity (iso_material entry) now (iso_ttl st) st)
      | None \<Rightarrow>
          (case draw_material new_token (evict_oldest st) of
             (m, st') \<Rightarrow> (m, put_entry identity m now (iso_ttl st') st')))"

definition put_token ::
    "string \<Rightarrow> 't \<Rightarrow> nat option \<Rightarrow> nat \<Rightarrow> 't IsolationStore \<Rightarrow> 't IsolationStore" where
  "put_token identity t lifetime now st0 =
     (let st1 = retain_live now st0;
          st = (if \<not> hm_contains_key (iso_entries st1) identity then evict_oldest st1 else st1);
          l = (case lifetime of Some d \<Rightarrow> d | None \<Rightarrow> iso_ttl st)
      in case hm_get (iso_entries st) identity of
           Some entry \<Rightarrow> put_entry identity \<lparr>iso_token = t, group_key = group_key (iso_material entry)\<rparr> now l st
         | None \<Rightarrow> put_entry identity \<lparr>iso_token = t, group_key = group_counter st\<rparr> now l
             (st\<lparr>group_counter := group_counter st + 1\<rparr>))"

definition rotate_identity ::
    "(nat \<Rightarrow> 't) \<Rightarrow> string \<Rightarrow> nat \<Rightarrow> 't IsolationStore \<Rightarrow> 't IsolationMaterial \<times> 't IsolationStore" where
  "rotate_identity new_token identity now st0 =
     (case draw_material new_token st0 of
        (m, st1) \<Rightarrow> (m, put_entry identity m now (iso_ttl st1) (retain_live now st1)))"

definition store_len :: "nat \<Rightarrow> 't IsolationStore \<Rightarrow> nat \<times> 't IsolationStore" where
  "store_len now st = (let st' = retain_live now st in (length (iso_entries st'), st'))"

section \<open>Identities\<close>

text \<open>An \<open>anyhow::Error\<close> is its message.\<close>

type_synonym anyhow_error = string

definition MAX_ISOLATION_ID_BYTES :: nat where
  "MAX_ISOLATION_ID_BYTES = 64"

definition isolation_identity_byte :: "char \<Rightarrow> bool" where
  "isolation_identity_byte c \<longleftrightarrow> is_ascii_alphanumeric c \<or> c \<in> set ''._~-''"

definition validate_isolation_identity :: "string \<Rightarrow> (string, anyhow_error) result" where
  "validate_isolation_identity value =
     (if value = [] \<or> length value > MAX_ISOLATION_ID_BYTES
      then Err ''isolation identity must contain 1-64 bytes''
      else if \<not> list_all isolation_identity_byte value
      then Err ''isolation identity contains unsupported characters''
      else if from_utf8_ok value then Ok value else Err ''invalid utf-8 sequence'')"

definition parse_isolation_mode :: "string \<Rightarrow> (bool, anyhow_error) result" where
  "parse_isolation_mode value =
     (if eq_ignore_ascii_case value ''session'' then Ok False
      else if eq_ignore_ascii_case value ''strict'' then Ok True
      else Err ''isolation mode must be session or strict'')"

text \<open>The counter is \<open>ISOLATION_ID_COUNTER\<close>.\<close>

definition resolve_isolation :: "IsolationRequest \<Rightarrow> u64 \<Rightarrow> ResolvedIsolation \<times> u64" where
  "resolve_isolation request counter =
     (let (identity, counter') =
        (if request_strict request then (''strict-'' @ show_nat (unat counter), counter + 1)
         else case request_identity request of
                Some i \<Rightarrow> (i, counter)
              | None \<Rightarrow> (''anonymous-'' @ show_nat (unat counter), counter + 1))
      in (\<lparr>resolved_identity = identity, resolved_strict = request_strict request\<rparr>, counter'))"

lemma validate_isolation_identity_Ok:
  "validate_isolation_identity v = Ok i \<longleftrightarrow>
     i = v \<and> v \<noteq> [] \<and> length v \<le> 64 \<and> list_all isolation_identity_byte v"
proof -
  have "from_utf8_ok v" if "list_all isolation_identity_byte v"
    using that by (intro from_utf8_ok_ascii)
      (auto simp: list_all_iff isolation_identity_byte_def ascii_defs is_ascii_byte_def byte_def)
  then show ?thesis
    by (auto simp: validate_isolation_identity_def MAX_ISOLATION_ID_BYTES_def)
qed

section \<open>Lemmas on the store\<close>

lemma store_sel [simp]:
  "iso_capacity (retain_live n st) = iso_capacity st" "iso_ttl (retain_live n st) = iso_ttl st"
  "tokens_drawn (retain_live n st) = tokens_drawn st" "group_counter (retain_live n st) = group_counter st"
  "iso_capacity (evict_oldest st) = iso_capacity st" "iso_ttl (evict_oldest st) = iso_ttl st"
  "tokens_drawn (evict_oldest st) = tokens_drawn st" "group_counter (evict_oldest st) = group_counter st"
  "iso_capacity (put_entry i m n l st) = iso_capacity st" "iso_ttl (put_entry i m n l st) = iso_ttl st"
  "tokens_drawn (put_entry i m n l st) = tokens_drawn st"
  "group_counter (put_entry i m n l st) = group_counter st"
  by (simp_all add: retain_live_def evict_oldest_def put_entry_def)

lemma hm_get_retain_live:
  "hm_wf (iso_entries st) \<Longrightarrow> hm_get (iso_entries (retain_live now st)) i =
     (case hm_get (iso_entries st) i of None \<Rightarrow> None | Some e \<Rightarrow> if expires_at e > now then Some e else None)"
  by (simp add: retain_live_def hm_get_retain del: map_of_eq_Some_iff)

lemma hm_get_evict_oldest:
  "hm_get (iso_entries (evict_oldest st)) i = Some e \<Longrightarrow> hm_get (iso_entries st) i = Some e"
  by (auto simp: evict_oldest_def simp del: map_of_eq_Some_iff split: if_splits dest: hm_get_evict_min)

lemma hm_get_put_entry [simp]:
  "hm_get (iso_entries (put_entry i m now l st)) j =
     (if j = i then Some \<lparr>iso_material = m, last_used = now, expires_at = now + l\<rparr> else hm_get (iso_entries st) j)"
  by (simp add: put_entry_def)

lemma isolation_store_wf [simp]:
  "hm_wf (iso_entries st) \<Longrightarrow> hm_wf (iso_entries (retain_live now st))"
  "hm_wf (iso_entries st) \<Longrightarrow> hm_wf (iso_entries (evict_oldest st))"
  "hm_wf (iso_entries st) \<Longrightarrow> hm_wf (iso_entries (put_entry i m now l st))"
  by (simp_all add: retain_live_def evict_oldest_def put_entry_def)

text \<open>The two ways a lookup ends.\<close>

lemma material_for_at_cases:
  assumes "material_for_at new_token i now st = (m, st')"
  obtains (hit) e where "hm_get (iso_entries (retain_live now st)) i = Some e" "m = iso_material e"
      "st' = put_entry i m now (iso_ttl st) (retain_live now st)"
    | (miss) "hm_get (iso_entries (retain_live now st)) i = None"
      "m = \<lparr>iso_token = new_token (tokens_drawn st), group_key = group_counter st\<rparr>"
      "st' = put_entry i m now (iso_ttl st) ((evict_oldest (retain_live now st))
         \<lparr>tokens_drawn := Suc (tokens_drawn st), group_counter := group_counter st + 1\<rparr>)"
  using assms
  by (cases "hm_get (iso_entries (retain_live now st)) i")
    (auto simp: material_for_at_def draw_material_def Let_def simp del: map_of_eq_Some_iff)

section \<open>Histories\<close>

datatype iso_op = MaterialFor string nat | Rotate string nat | Len nat

fun iso_step ::
    "(nat \<Rightarrow> 't) \<Rightarrow> iso_op \<Rightarrow> 't IsolationStore \<Rightarrow> (string \<times> 't IsolationMaterial) list \<times> 't IsolationStore" where
  "iso_step new_token (MaterialFor i now) st =
     (case material_for_at new_token i now st of (m, st') \<Rightarrow> ([(i, m)], st'))"
| "iso_step new_token (Rotate i now) st =
     (case rotate_identity new_token i now st of (m, st') \<Rightarrow> ([(i, m)], st'))"
| "iso_step new_token (Len now) st = ([], snd (store_len now st))"

text \<open>The material handed out, with the identity it was handed out for.\<close>

primrec iso_run ::
    "(nat \<Rightarrow> 't) \<Rightarrow> iso_op list \<Rightarrow> 't IsolationStore \<Rightarrow> (string \<times> 't IsolationMaterial) list \<times> 't IsolationStore" where
  "iso_run new_token [] st = ([], st)"
| "iso_run new_token (p # ps) st =
     (case iso_step new_token p st of (l, st') \<Rightarrow>
      case iso_run new_token ps st' of (l', st'') \<Rightarrow> (l @ l', st''))"

text \<open>The \<open>k\<close>-th material drawn, and the identity that owns each drawn index.\<close>

definition drawn :: "(nat \<Rightarrow> 't) \<Rightarrow> nat \<Rightarrow> 't IsolationMaterial" where
  "drawn new_token k = \<lparr>iso_token = new_token k, group_key = 1 + of_nat k\<rparr>"

definition owned ::
    "(nat \<Rightarrow> 't) \<Rightarrow> (nat \<Rightarrow> string) \<Rightarrow> nat \<Rightarrow> string \<Rightarrow> 't IsolationMaterial \<Rightarrow> bool" where
  "owned new_token owner n i m \<longleftrightarrow> (\<exists>k<n. owner k = i \<and> m = drawn new_token k)"

definition iso_inv :: "(nat \<Rightarrow> 't) \<Rightarrow> (nat \<Rightarrow> string) \<Rightarrow> 't IsolationStore \<Rightarrow> bool" where
  "iso_inv new_token owner st \<longleftrightarrow> hm_wf (iso_entries st) \<and> group_counter st = 1 + of_nat (tokens_drawn st)
     \<and> (\<forall>i e. hm_get (iso_entries st) i = Some e \<longrightarrow> owned new_token owner (tokens_drawn st) i (iso_material e))"

lemma owned_mono:
  assumes "owned new_token owner n i m" "n \<le> n'"
  shows "owned new_token owner n' i m"
proof -
  from assms(1) obtain k where "k < n" "owner k = i" "m = drawn new_token k"
    by (auto simp: owned_def)
  with assms(2) show ?thesis unfolding owned_def by (intro exI [of _ k]) simp
qed

lemma owned_update: "owned new_token owner n i m \<Longrightarrow> owned new_token (owner(n := j)) (Suc n) i m"
  unfolding owned_def by (metis fun_upd_other less_SucI nat_neq_iff)

lemma owned_new: "owned new_token (owner(n := i)) (Suc n) i (drawn new_token n)"
  by (auto simp: owned_def)

lemma retain_live_inv: "iso_inv new_token owner st \<Longrightarrow> iso_inv new_token owner (retain_live now st)"
  by (auto simp: iso_inv_def hm_get_retain_live simp del: map_of_eq_Some_iff split: option.splits)

lemma evict_oldest_inv: "iso_inv new_token owner st \<Longrightarrow> iso_inv new_token owner (evict_oldest st)"
  by (auto simp: iso_inv_def simp del: map_of_eq_Some_iff dest: hm_get_evict_oldest)

text \<open>Entering newly drawn material extends the ownership by one index.\<close>

lemma enter_drawn_inv:
  assumes "iso_inv new_token owner st"
  shows "iso_inv new_token (owner(tokens_drawn st := i))
    (put_entry i (drawn new_token (tokens_drawn st)) now l
      (st\<lparr>tokens_drawn := Suc (tokens_drawn st), group_counter := group_counter st + 1\<rparr>))"
proof -
  have wf: "hm_wf (iso_entries st)" and gc: "group_counter st = 1 + of_nat (tokens_drawn st)"
    and own: "\<And>j e. hm_get (iso_entries st) j = Some e \<Longrightarrow> owned new_token owner (tokens_drawn st) j (iso_material e)"
    using assms by (auto simp: iso_inv_def simp del: map_of_eq_Some_iff)
  show ?thesis
    using wf gc own [THEN owned_update, of _ _ i] owned_new [of new_token owner "tokens_drawn st" i]
    by (auto simp: iso_inv_def put_entry_def simp del: map_of_eq_Some_iff)
qed

lemma enter_known_inv:
  assumes "iso_inv new_token owner st" "owned new_token owner (tokens_drawn st) i m"
  shows "iso_inv new_token owner (put_entry i m now l st)"
  using assms by (auto simp: iso_inv_def simp del: map_of_eq_Some_iff)

lemma retain_live_draw:
  "retain_live now (st\<lparr>tokens_drawn := n, group_counter := g\<rparr>)
     = (retain_live now st)\<lparr>tokens_drawn := n, group_counter := g\<rparr>"
  by (cases st) (simp add: retain_live_def)

lemma iso_step_cases:
  assumes "iso_step new_token p st = (l, st')"
  obtains (known) i e now where "hm_get (iso_entries (retain_live now st)) i = Some e" "l = [(i, iso_material e)]"
      "st' = put_entry i (iso_material e) now (iso_ttl st) (retain_live now st)"
    | (drew) i now st1 where "st1 = retain_live now st \<or> st1 = evict_oldest (retain_live now st)"
      "l = [(i, \<lparr>iso_token = new_token (tokens_drawn st), group_key = group_counter st\<rparr>)]"
      "st' = put_entry i \<lparr>iso_token = new_token (tokens_drawn st), group_key = group_counter st\<rparr> now (iso_ttl st)
         (st1\<lparr>tokens_drawn := Suc (tokens_drawn st), group_counter := group_counter st + 1\<rparr>)"
    | (length) now where "l = []" "st' = retain_live now st"
proof (cases p)
  case (MaterialFor i now)
  obtain m st1 where r: "material_for_at new_token i now st = (m, st1)" by fastforce
  then show ?thesis
    using assms MaterialFor
    by (cases rule: material_for_at_cases [OF r]) (auto simp del: map_of_eq_Some_iff intro: known drew)
next
  case (Rotate i now)
  then show ?thesis
    using assms by (intro drew [of "retain_live now st" now i])
      (auto simp: rotate_identity_def draw_material_def retain_live_draw)
next
  case (Len now)
  then show ?thesis
    using assms by (intro length [of now]) (auto simp: store_len_def Let_def)
qed

lemma iso_step_inv:
  assumes inv: "iso_inv new_token owner st" and st: "iso_step new_token p st = (l, st')"
  shows "\<exists>owner'. iso_inv new_token owner' st' \<and> tokens_drawn st \<le> tokens_drawn st'
    \<and> tokens_drawn st' \<le> Suc (tokens_drawn st)
    \<and> (\<forall>k<tokens_drawn st. owner' k = owner k)
    \<and> (\<forall>(i, m)\<in>set l. owned new_token owner' (tokens_drawn st') i m)"
  using st
proof (cases rule: iso_step_cases)
  case (known i e now)
  have live: "iso_inv new_token owner (retain_live now st)" by (rule retain_live_inv [OF inv])
  with known(1) have "owned new_token owner (tokens_drawn st) i (iso_material e)"
    by (auto simp: iso_inv_def simp del: map_of_eq_Some_iff)
  with enter_known_inv [OF live] known(2,3) show ?thesis by (intro exI [of _ owner]) auto
next
  case (drew i now st1)
  have inv1: "iso_inv new_token owner st1"
    using drew(1) retain_live_inv [OF inv] evict_oldest_inv by blast
  have same: "tokens_drawn st1 = tokens_drawn st" "group_counter st1 = group_counter st"
    using drew(1) by auto
  have m: "\<lparr>iso_token = new_token (tokens_drawn st), group_key = group_counter st\<rparr> = drawn new_token (tokens_drawn st)"
    using inv by (simp add: iso_inv_def drawn_def)
  show ?thesis
    using enter_drawn_inv [OF inv1, of i now "iso_ttl st"] drew(2,3) owned_new [of new_token owner "tokens_drawn st" i]
    unfolding m same by (intro exI [of _ "owner(tokens_drawn st := i)"]) auto
next
  case (length now)
  then show ?thesis using retain_live_inv [OF inv] by auto
qed

lemma iso_run_inv:
  assumes "iso_inv new_token owner st" "iso_run new_token ps st = (l, st')"
  shows "\<exists>owner'. iso_inv new_token owner' st' \<and> tokens_drawn st' \<le> tokens_drawn st + length ps
    \<and> (\<forall>k<tokens_drawn st. owner' k = owner k) \<and> tokens_drawn st \<le> tokens_drawn st'
    \<and> (\<forall>(i, m)\<in>set l. owned new_token owner' (tokens_drawn st') i m)"
  using assms
proof (induction ps arbitrary: owner st l)
  case Nil
  then show ?case by auto
next
  case (Cons p ps)
  from Cons.prems(2) obtain l1 st1 l2 where s1: "iso_step new_token p st = (l1, st1)"
    and s2: "iso_run new_token ps st1 = (l2, st')" and l: "l = l1 @ l2"
    by (auto split: prod.splits)
  from iso_step_inv [OF Cons.prems(1) s1] obtain o1 where o1: "iso_inv new_token o1 st1"
      "tokens_drawn st \<le> tokens_drawn st1" "tokens_drawn st1 \<le> Suc (tokens_drawn st)"
      "\<forall>k<tokens_drawn st. o1 k = owner k" "\<forall>(i, m)\<in>set l1. owned new_token o1 (tokens_drawn st1) i m"
    by blast
  from Cons.IH [OF o1(1) s2] obtain o2 where o2: "iso_inv new_token o2 st'"
      "tokens_drawn st' \<le> tokens_drawn st1 + length ps" "\<forall>k<tokens_drawn st1. o2 k = o1 k"
      "tokens_drawn st1 \<le> tokens_drawn st'" "\<forall>(i, m)\<in>set l2. owned new_token o2 (tokens_drawn st') i m"
    by blast
  have "owned new_token o2 (tokens_drawn st') i m" if "owned new_token o1 (tokens_drawn st1) i m" for i m
    using that o2(3,4) unfolding owned_def by (metis order_less_le_trans)
  with o1 o2 l show ?case by (intro exI [of _ o2]) auto
qed

lemma drawn_distinct:
  assumes "inj new_token" "k \<noteq> k'" "k < 2 ^ 64" "k' < 2 ^ 64"
  shows "iso_token (drawn new_token k) \<noteq> iso_token (drawn new_token k')"
    and "group_key (drawn new_token k) \<noteq> group_key (drawn new_token k')"
proof -
  have "of_nat k \<noteq> (of_nat k' :: u64)"
    using assms(2-) by (auto simp: word_of_nat_eq_iff take_bit_eq_mod)
  then show "group_key (drawn new_token k) \<noteq> group_key (drawn new_token k')"
    by (simp add: drawn_def)
  show "iso_token (drawn new_token k) \<noteq> iso_token (drawn new_token k')"
    using assms(1,2) by (simp add: drawn_def inj_def) blast
qed

section \<open>Separation\<close>

lemma new_store_inv:
  "IsolationStore_new cap t = Some st \<Longrightarrow> iso_inv new_token owner st \<and> tokens_drawn st = 0"
  by (auto simp: IsolationStore_new_def iso_inv_def split: if_splits)

lemma owned_separate:
  assumes "inj new_token" "n \<le> 2 ^ 64" "owned new_token owner n i m" "owned new_token owner n j m'" "i \<noteq> j"
  shows "iso_token m \<noteq> iso_token m' \<and> group_key m \<noteq> group_key m'"
proof -
  from assms(3,4) obtain k k' where "k < n" "owner k = i" "m = drawn new_token k"
    and "k' < n" "owner k' = j" "m' = drawn new_token k'"
    by (auto simp: owned_def)
  with assms(2,5) have "k \<noteq> k'" "k < 2 ^ 64" "k' < 2 ^ 64" by auto
  from drawn_distinct [OF assms(1) this] show ?thesis
    using \<open>m = _\<close> \<open>m' = _\<close> by simp
qed

text \<open>
  Property C10. Isolation separates: along any history of lookups, rotations, expiries and
  evictions, material handed out for two different identities never shares an Arti isolation
  token nor a connection-pool group, for fewer than \<open>2 ^ 64\<close> operations in the process.
\<close>

theorem isolation_separates_identities:
  assumes "inj new_token" and "IsolationStore_new cap lifetime = Some st"
    and "iso_run new_token ps st = (log, st')" and "length ps \<le> 2 ^ 64"
    and "(i, m) \<in> set log" "(j, m') \<in> set log" "i \<noteq> j"
  shows "iso_token m \<noteq> iso_token m' \<and> group_key m \<noteq> group_key m'"
proof -
  have new: "iso_inv new_token (\<lambda>_. []) st" "tokens_drawn st = 0"
    using new_store_inv [OF assms(2)] by auto
  from iso_run_inv [OF new(1) assms(3)] new(2) obtain owner where
      "tokens_drawn st' \<le> length ps" "\<forall>(i, m)\<in>set log. owned new_token owner (tokens_drawn st') i m"
    by auto
  with assms(4-6) have "tokens_drawn st' \<le> 2 ^ 64" "owned new_token owner (tokens_drawn st') i m"
      "owned new_token owner (tokens_drawn st') j m'"
    by auto
  from owned_separate [OF assms(1) this assms(7)] show ?thesis .
qed

definition example_store :: "nat IsolationStore" where
  "example_store = \<lparr>iso_entries = [], iso_capacity = 2, iso_ttl = 10, tokens_drawn = 0, group_counter = 1\<rparr>"

definition example_ops :: "iso_op list" where
  "example_ops = [MaterialFor ''a'' 0, MaterialFor ''b'' 1, Rotate ''a'' 2]"

lemma example_store_new: "IsolationStore_new 2 10 = Some example_store"
  by (simp add: IsolationStore_new_def example_store_def)

lemma example_run:
  "iso_run id example_ops example_store =
     ([(''a'', \<lparr>iso_token = 0, group_key = 1\<rparr>), (''b'', \<lparr>iso_token = 1, group_key = 2\<rparr>),
       (''a'', \<lparr>iso_token = 2, group_key = 3\<rparr>)], snd (iso_run id example_ops example_store))"
  by (simp add: example_ops_def example_store_def material_for_at_def rotate_identity_def
      draw_material_def retain_live_def hm_retain_def evict_oldest_def put_entry_def)

theorem isolation_separates_identities_witness:
  "iso_token \<lparr>iso_token = 1 :: nat, group_key = 2\<rparr> \<noteq> iso_token \<lparr>iso_token = 2, group_key = 3\<rparr>
   \<and> group_key \<lparr>iso_token = 1 :: nat, group_key = 2\<rparr> \<noteq> group_key \<lparr>iso_token = 2 :: nat, group_key = 3\<rparr>"
  by (rule isolation_separates_identities [OF _ example_store_new example_run, of "''b''" _ "''a''"])
    (simp_all add: example_ops_def)

lemma iso_step_ttl: "iso_step new_token p st = (l, st') \<Longrightarrow> iso_ttl st' = iso_ttl st \<and> iso_capacity st' = iso_capacity st"
  by (erule iso_step_cases) auto

lemma iso_run_ttl: "iso_run new_token ps st = (l, st') \<Longrightarrow> iso_ttl st' = iso_ttl st"
proof (induction ps arbitrary: st l)
  case (Cons p ps)
  then obtain l1 st1 l2 where "iso_step new_token p st = (l1, st1)" "iso_run new_token ps st1 = (l2, st')"
    by (auto split: prod.splits)
  with Cons.IH iso_step_ttl show ?case by metis
qed simp

text \<open>
  Rotation is fresh: the material \<open>rotate\<close> enters for an identity differs, in
  token and in group, from everything the store handed out before, and it is what the next
  lookup of that identity returns.
\<close>

lemma rotation_is_fresh:
  assumes "inj new_token" and "IsolationStore_new cap lifetime = Some st"
    and "iso_run new_token ps st = (log, st')" and "length ps < 2 ^ 64"
    and "rotate_identity new_token i now st' = (m, st'')" and "(j, m') \<in> set log"
    and "later < now + lifetime"
  shows "iso_token m \<noteq> iso_token m' \<and> group_key m \<noteq> group_key m'
    \<and> fst (material_for_at new_token i later st'') = m"
proof -
  have new: "iso_inv new_token (\<lambda>_. []) st" "tokens_drawn st = 0"
    using new_store_inv [OF assms(2)] by auto
  from iso_run_inv [OF new(1) assms(3)] new(2) obtain owner where
      inv: "iso_inv new_token owner st'" and le: "tokens_drawn st' \<le> length ps"
    and own: "owned new_token owner (tokens_drawn st') j m'"
    using assms(6) by auto
  from own obtain k where k: "k < tokens_drawn st'" "m' = drawn new_token k"
    by (auto simp: owned_def)
  have m: "m = drawn new_token (tokens_drawn st')"
    using assms(5) inv by (auto simp: rotate_identity_def draw_material_def drawn_def iso_inv_def)
  have wf'': "hm_wf (iso_entries st'')"
    using assms(5) inv by (auto simp: rotate_identity_def draw_material_def iso_inv_def)
  have "iso_ttl st' = lifetime"
    using iso_run_ttl [OF assms(3)] assms(2) by (auto simp: IsolationStore_new_def split: if_splits)
  then have "hm_get (iso_entries st'') i = Some \<lparr>iso_material = m, last_used = now, expires_at = now + lifetime\<rparr>"
    using assms(5) by (auto simp: rotate_identity_def draw_material_def simp del: map_of_eq_Some_iff)
  then have "hm_get (iso_entries (retain_live later st'')) i
      = Some \<lparr>iso_material = m, last_used = now, expires_at = now + lifetime\<rparr>"
    using assms(7) by (simp add: hm_get_retain_live [OF wf''] del: map_of_eq_Some_iff)
  then have "fst (material_for_at new_token i later st'') = m"
    unfolding material_for_at_def Let_def by simp
  moreover have "tokens_drawn st' \<noteq> k" "tokens_drawn st' < 2 ^ 64" "k < 2 ^ 64"
    using k(1) le assms(4) by auto
  ultimately show ?thesis
    using drawn_distinct [OF assms(1), of "tokens_drawn st'" k] unfolding m k(2) by simp
qed

section \<open>Capacity\<close>

lemma length_retain_live: "length (iso_entries (retain_live now st)) \<le> length (iso_entries st)"
  by (simp add: retain_live_def length_hm_retain)

lemma length_evict_oldest:
  "hm_wf (iso_entries st) \<Longrightarrow> length (iso_entries st) \<le> iso_capacity st \<Longrightarrow> 0 < iso_capacity st
    \<Longrightarrow> length (iso_entries (evict_oldest st)) < iso_capacity st"
  by (auto simp: evict_oldest_def length_hm_evict_min)

lemma length_put_entry:
  "length (iso_entries (put_entry i m now l st)) =
     (if hm_get (iso_entries st) i = None then Suc (length (iso_entries st)) else length (iso_entries st))"
  by (simp add: put_entry_def length_hm_insert)

text \<open>
  A lookup, and the entry of a given token, keep the store within its capacity:
  expired entries go first, and a full store gives up its least recently used entry.
\<close>

lemma lookups_keep_capacity:
  assumes "hm_wf (iso_entries st)" "length (iso_entries st) \<le> iso_capacity st" "0 < iso_capacity st"
  shows "length (iso_entries (snd (material_for_at new_token i now st))) \<le> iso_capacity st
    \<and> length (iso_entries (put_token i t lifetime now st)) \<le> iso_capacity st"
proof
  let ?r = "retain_live now st"
  have live: "hm_wf (iso_entries ?r)" "length (iso_entries ?r) \<le> iso_capacity ?r" "0 < iso_capacity ?r"
    using assms length_retain_live [of now st] by simp_all
  note evicted = length_evict_oldest [OF live, simplified]
  obtain m st' where r: "material_for_at new_token i now st = (m, st')" by fastforce
  then show "length (iso_entries (snd (material_for_at new_token i now st))) \<le> iso_capacity st"
  proof (cases rule: material_for_at_cases)
    case (hit e)
    then show ?thesis using live(2) r by (simp add: length_put_entry del: map_of_eq_Some_iff)
  next
    case miss
    then show ?thesis using evicted r
      by (simp add: put_entry_def length_hm_insert Suc_le_eq less_imp_le)
  qed
  have "length (iso_entries (put_entry i m' now l s)) \<le> iso_capacity st"
    if "length (iso_entries s) < iso_capacity st \<or> (hm_get (iso_entries s) i \<noteq> None \<and> length (iso_entries s) \<le> iso_capacity st)"
    for m' l and s :: "'a IsolationStore"
    using that by (auto simp: length_put_entry simp del: map_of_eq_Some_iff)
  moreover have "length (iso_entries (if \<not> hm_contains_key (iso_entries ?r) i then evict_oldest ?r else ?r)) < iso_capacity st
      \<or> (hm_get (iso_entries (if \<not> hm_contains_key (iso_entries ?r) i then evict_oldest ?r else ?r)) i \<noteq> None
         \<and> length (iso_entries (if \<not> hm_contains_key (iso_entries ?r) i then evict_oldest ?r else ?r)) \<le> iso_capacity st)"
    using evicted live(2) by (auto simp: hm_contains_key_def simp del: map_of_eq_Some_iff)
  ultimately show "length (iso_entries (put_token i t lifetime now st)) \<le> iso_capacity st"
    unfolding put_token_def Let_def
    by (auto simp: put_entry_def length_hm_insert simp del: map_of_eq_Some_iff split: option.splits)
qed

text \<open>
  A rotation is not held to the capacity: rotating an identity that a full store
  of live entries does not hold (it may have expired or been evicted since it was looked up)
  leaves the store with one entry more than its capacity.
\<close>

lemma rotation_exceeds_capacity:
  assumes "hm_wf (iso_entries st)" "length (iso_entries st) = iso_capacity st" "hm_get (iso_entries st) i = None"
    and "\<forall>(j, e)\<in>set (iso_entries st). expires_at e > now"
  shows "length (iso_entries (snd (rotate_identity new_token i now st))) = Suc (iso_capacity st)"
proof -
  have "hm_retain (\<lambda>e. expires_at e > now) (iso_entries st) = iso_entries st"
    using assms(4) by (auto simp: hm_retain_def intro!: filter_True)
  with assms(2,3) show ?thesis
    by (simp add: rotate_identity_def draw_material_def length_put_entry retain_live_def)
qed

section \<open>Identities in development mode\<close>

lemma numbered_identity_valid:
  assumes "length p \<le> 40" "list_all isolation_identity_byte p"
  shows "validate_isolation_identity (p @ show_nat (unat (c :: u64))) = Ok (p @ show_nat (unat c))"
proof -
  have "unat c < 10 ^ 20" using unat_u64_lt [of c] by simp
  then have "length (show_nat (unat c)) \<le> 20" by (intro length_show_nat) simp_all
  moreover have "list_all isolation_identity_byte (show_nat (unat c))"
    using show_nat_digits [of "unat c"]
    by (auto simp: list_all_iff isolation_identity_byte_def is_ascii_alphanumeric_def)
  ultimately show ?thesis
    using assms by (simp add: validate_isolation_identity_Ok)
qed

text \<open>
  In development mode the generated identities are not reserved: the identity a
  strict request, or a request without identity, is given is one that a caller may also supply
  in the isolation header and that a session request then resolves to.
\<close>

lemma generated_identities_not_reserved:
  "\<exists>i. validate_isolation_identity i = Ok i
      \<and> resolved_identity (fst (resolve_isolation \<lparr>request_identity = r, request_strict = True\<rparr> c)) = i
      \<and> fst (resolve_isolation \<lparr>request_identity = Some i, request_strict = False\<rparr> c')
        = \<lparr>resolved_identity = i, resolved_strict = False\<rparr>"
proof (intro exI [of _ "''strict-'' @ show_nat (unat c)"] conjI)
  show "validate_isolation_identity (''strict-'' @ show_nat (unat c)) = Ok (''strict-'' @ show_nat (unat c))"
    by (rule numbered_identity_valid) (simp_all add: isolation_identity_byte_def ascii_defs byte_def)
qed (simp_all add: resolve_isolation_def)

end
