(* ===== verification/Tenant_Isolation.thy ===== *)
theory Tenant_Isolation
  imports Isolation
begin

text \<open>
  \<open>TenantIsolationHasher\<close> of \<open>src/src/main.rs\<close>: the byte strings fed to keyed BLAKE3 for an
  isolation identity (\<open>resolve\<close>) and for a cache scope (\<open>cache_scope\<close>). The bytes are those
  Rust's \<open>Hash\<close> implementations write into \<open>Blake3HashAdapter\<close>: an \<open>i64\<close> or \<open>u64\<close> as eight
  little-endian bytes, a \<open>str\<close> as its bytes and \<open>0xFF\<close>, an \<open>Option\<close> as its discriminant and its
  value.

  The keyed hash with its hexadecimal form is the parameter \<open>hash_hex\<close>. The theorems show that
  the encodings are injective: two different tenants, destinations, sub-identities or strict
  requests share an identity only if the hash itself collides.
\<close>

section \<open>Encodings\<close>

primrec le_bytes :: "nat \<Rightarrow> nat \<Rightarrow> string" where
  "le_bytes 0 n = []"
| "le_bytes (Suc k) n = char_of (n mod 256) # le_bytes k (n div 256)"

definition write_u64 :: "u64 \<Rightarrow> string" where
  "write_u64 v = le_bytes 8 (unat v)"

definition write_i64 :: "int \<Rightarrow> string" where
  "write_i64 v = write_u64 (word_of_int v)"

definition write_str :: "string \<Rightarrow> string" where
  "write_str s = s @ [CHR 0xFF]"

definition write_option :: "('a \<Rightarrow> string) \<Rightarrow> 'a option \<Rightarrow> string" where
  "write_option f v = (case v of None \<Rightarrow> write_u64 0 | Some x \<Rightarrow> write_u64 1 @ f x)"

definition tenant_domain :: string where
  "tenant_domain = ''proxy-tenant-isolation-v1'' @ [CHR 0x00]"

definition cache_domain :: string where
  "cache_domain = ''proxy-http-cache-scope-v2'' @ [CHR 0x00]"

definition tenant_message ::
    "AccountId \<Rightarrow> WorkspaceId \<Rightarrow> string \<Rightarrow> string option \<Rightarrow> u64 option \<Rightarrow> string" where
  "tenant_message account_id workspace_id destination identity strict_nonce =
     tenant_domain @ write_i64 (account_id_as_i64 account_id)
     @ write_i64 (workspace_id_as_i64 workspace_id) @ write_str destination
     @ write_option write_str identity @ write_option write_u64 strict_nonce"

definition cache_message :: "AccountId \<Rightarrow> WorkspaceId \<Rightarrow> string \<Rightarrow> u64 \<Rightarrow> string" where
  "cache_message account_id workspace_id resolved isolation_group =
     cache_domain @ write_i64 (account_id_as_i64 account_id)
     @ write_i64 (workspace_id_as_i64 workspace_id) @ write_str resolved @ write_u64 isolation_group"

section \<open>Operations\<close>

definition TenantIsolationHasher_resolve ::
    "(string \<Rightarrow> string) \<Rightarrow> IngressIdentity \<Rightarrow> string \<Rightarrow> IsolationRequest \<Rightarrow> u64
      \<Rightarrow> ResolvedIsolation \<times> u64" where
  "TenantIsolationHasher_resolve hash_hex identity destination request counter =
     (let (strict_nonce, counter') =
        (if request_strict request then (Some counter, counter + 1) else (None, counter))
      in (\<lparr>resolved_identity = hash_hex (tenant_message (identity_account_id identity)
             (identity_workspace_id identity) destination (request_identity request) strict_nonce),
           resolved_strict = request_strict request\<rparr>, counter'))"

definition TenantIsolationHasher_cache_scope ::
    "(string \<Rightarrow> string) \<Rightarrow> IngressIdentity \<Rightarrow> string \<Rightarrow> u64 \<Rightarrow> string" where
  "TenantIsolationHasher_cache_scope hash_hex identity resolved isolation_group =
     hash_hex (cache_message (identity_account_id identity) (identity_workspace_id identity)
       resolved isolation_group)"

text \<open>\<open>Hasher::finish\<close> of the adapter: the first eight bytes of the digest.\<close>

definition bytes_value :: "string \<Rightarrow> nat" where
  "bytes_value s = foldr (\<lambda>c n. byte c + 256 * n) s 0"

definition Blake3HashAdapter_finish :: "(string \<Rightarrow> string) \<Rightarrow> string \<Rightarrow> u64" where
  "Blake3HashAdapter_finish finalize written = of_nat (bytes_value (take 8 (finalize written)))"

section \<open>Injectivity\<close>

lemma length_le_bytes [simp]: "length (le_bytes k n) = k"
  by (induction k arbitrary: n) simp_all

lemma le_bytes_inject:
  "n < 256 ^ k \<Longrightarrow> m < 256 ^ k \<Longrightarrow> le_bytes k n = le_bytes k m \<Longrightarrow> n = m"
proof (induction k arbitrary: n m)
  case (Suc k)
  have "n div 256 < 256 ^ k" "m div 256 < 256 ^ k"
    using Suc.prems(1,2) by (simp_all add: less_mult_imp_div_less mult.commute)
  with Suc have "n div 256 = m div 256" by simp
  moreover have "n mod 256 = m mod 256"
  proof -
    have "char_of (n mod 256) = (char_of (m mod 256) :: char)" using Suc.prems(3) by simp
    then show ?thesis by (metis byte_char_of mod_less_divisor zero_less_numeral)
  qed
  ultimately show ?case by (metis div_mult_mod_eq)
qed simp

lemma bytes_value_le_bytes: "n < 256 ^ k \<Longrightarrow> bytes_value (le_bytes k n) = n"
proof (induction k arbitrary: n)
  case (Suc k)
  then have "n div 256 < 256 ^ k" by (simp add: less_mult_imp_div_less mult.commute)
  moreover have "byte (char_of (n mod 256)) = n mod 256" by (rule byte_char_of) simp
  ultimately show ?case using Suc.IH [of "n div 256"]
    by (simp only: le_bytes.simps bytes_value_def foldr.simps comp_apply) simp
qed (simp add: bytes_value_def)

lemma write_u64_inject [simp]: "write_u64 a = write_u64 b \<longleftrightarrow> a = b"
  using le_bytes_inject [of "unat a" 8 "unat b"] unat_u64_lt [of a] unat_u64_lt [of b]
  by (auto simp: write_u64_def word_unat_eq_iff)

lemma length_write_u64 [simp]: "length (write_u64 a) = 8" "length (write_i64 i) = 8"
  by (simp_all add: write_u64_def write_i64_def)

definition is_i64 :: "int \<Rightarrow> bool" where
  "is_i64 v \<longleftrightarrow> - (2 ^ 63) \<le> v \<and> v < 2 ^ 63"

lemma write_i64_inject:
  assumes "is_i64 a" "is_i64 b"
  shows "write_i64 a = write_i64 b \<longleftrightarrow> a = b"
proof -
  have "a = b" if "word_of_int a = (word_of_int b :: u64)"
  proof -
    have "sint (word_of_int a :: u64) = a" "sint (word_of_int b :: u64) = b"
      using assms by (simp_all add: is_i64_def sint_sbintrunc' signed_take_bit_int_eq_self)
    with that show ?thesis by metis
  qed
  then show ?thesis by (auto simp: write_i64_def)
qed

text \<open>A string with its terminator can be cut off the front, since UTF-8 has no \<open>0xFF\<close>.\<close>

lemma write_str_append_inject:
  assumes "CHR 0xFF \<notin> set s" "CHR 0xFF \<notin> set s'"
  shows "write_str s @ r = write_str s' @ r' \<longleftrightarrow> s = s' \<and> r = r'"
  using assms
proof (induction s arbitrary: s')
  case Nil
  then show ?case by (cases s') (auto simp: write_str_def)
next
  case (Cons c s)
  then show ?case by (cases s') (auto simp: write_str_def)
qed

lemma write_option_str_inject:
  assumes "pred_option from_utf8_ok v" "pred_option from_utf8_ok v'"
  shows "write_option write_str v @ r = write_option write_str v' @ r' \<longleftrightarrow> v = v' \<and> r = r'"
  using assms from_utf8_ok_no_ff
  by (cases v; cases v') (auto simp: write_option_def write_str_append_inject)

lemma write_option_u64_inject: "write_option write_u64 v = write_option write_u64 v' \<longleftrightarrow> v = v'"
  by (cases v; cases v') (auto simp: write_option_def dest: arg_cong [of _ _ length])

lemma tenant_message_inject:
  assumes "is_i64 (account_id_as_i64 a)" "is_i64 (account_id_as_i64 a')"
    and "is_i64 (workspace_id_as_i64 w)" "is_i64 (workspace_id_as_i64 w')"
    and "from_utf8_ok d" "from_utf8_ok d'" "pred_option from_utf8_ok i" "pred_option from_utf8_ok i'"
  shows "tenant_message a w d i n = tenant_message a' w' d' i' n' \<longleftrightarrow>
    a = a' \<and> w = w' \<and> d = d' \<and> i = i' \<and> n = n'"
proof -
  have "CHR 0xFF \<notin> set d" "CHR 0xFF \<notin> set d'"
    using assms(5,6) by (auto dest: from_utf8_ok_no_ff)
  then show ?thesis
    using assms by (auto simp: tenant_message_def write_i64_inject write_str_append_inject
        write_option_str_inject write_option_u64_inject AccountId.expand WorkspaceId.expand)
qed

lemma cache_message_inject:
  assumes "is_i64 (account_id_as_i64 a)" "is_i64 (account_id_as_i64 a')"
    and "is_i64 (workspace_id_as_i64 w)" "is_i64 (workspace_id_as_i64 w')"
    and "from_utf8_ok d" "from_utf8_ok d'"
  shows "cache_message a w d g = cache_message a' w' d' g' \<longleftrightarrow> a = a' \<and> w = w' \<and> d = d' \<and> g = g'"
proof -
  have "CHR 0xFF \<notin> set d" "CHR 0xFF \<notin> set d'"
    using assms(5,6) by (auto dest: from_utf8_ok_no_ff)
  then show ?thesis
    using assms write_str_append_inject [of d d' "write_u64 g" "write_u64 g'"]
    by (auto simp: cache_message_def write_i64_inject AccountId.expand WorkspaceId.expand)
qed

lemma domains_separate: "tenant_message a w d i n \<noteq> cache_message a' w' d' g"
  by (simp add: tenant_message_def cache_message_def tenant_domain_def cache_domain_def)

section \<open>Separation of tenants\<close>

definition resolve_message :: "IngressIdentity \<Rightarrow> string \<Rightarrow> IsolationRequest \<Rightarrow> u64 \<Rightarrow> string" where
  "resolve_message identity destination request counter =
     tenant_message (identity_account_id identity) (identity_workspace_id identity) destination
       (request_identity request) (if request_strict request then Some counter else None)"

definition scope_message :: "IngressIdentity \<Rightarrow> string \<Rightarrow> u64 \<Rightarrow> string" where
  "scope_message identity resolved isolation_group =
     cache_message (identity_account_id identity) (identity_workspace_id identity) resolved
       isolation_group"

definition same_tenant :: "IngressIdentity \<Rightarrow> IngressIdentity \<Rightarrow> bool" where
  "same_tenant x y \<longleftrightarrow> identity_account_id x = identity_account_id y
     \<and> identity_workspace_id x = identity_workspace_id y"

definition i64_identity :: "IngressIdentity \<Rightarrow> bool" where
  "i64_identity x \<longleftrightarrow> is_i64 (account_id_as_i64 (identity_account_id x))
     \<and> is_i64 (workspace_id_as_i64 (identity_workspace_id x))"

lemma resolve_simps:
  "resolved_identity (fst (TenantIsolationHasher_resolve hash_hex x d r c)) = hash_hex (resolve_message x d r c)"
  "resolved_strict (fst (TenantIsolationHasher_resolve hash_hex x d r c)) = request_strict r"
  "snd (TenantIsolationHasher_resolve hash_hex x d r c) = (if request_strict r then c + 1 else c)"
  by (simp_all add: TenantIsolationHasher_resolve_def resolve_message_def split: prod.splits)

lemma resolve_message_inject:
  assumes "i64_identity x" "i64_identity y" "from_utf8_ok d" "from_utf8_ok d'"
    and "pred_option from_utf8_ok (request_identity r)" "pred_option from_utf8_ok (request_identity r')"
  shows "resolve_message x d r c = resolve_message y d' r' c' \<longleftrightarrow>
    same_tenant x y \<and> d = d' \<and> r = r' \<and> (request_strict r \<longrightarrow> c = c')"
proof -
  have "r = r' \<longleftrightarrow> request_identity r = request_identity r' \<and> request_strict r = request_strict r'"
    by (cases r; cases r') simp
  moreover have "(if request_strict r then Some c else None) = (if request_strict r' then Some c' else None)
      \<longleftrightarrow> request_strict r = request_strict r' \<and> (request_strict r \<longrightarrow> c = c')"
    by simp
  moreover note tenant_message_inject [of "identity_account_id x" "identity_account_id y"
      "identity_workspace_id x" "identity_workspace_id y" d d' "request_identity r" "request_identity r'"]
  ultimately show ?thesis
    using assms unfolding resolve_message_def i64_identity_def same_tenant_def by blast
qed

lemma scope_message_inject:
  assumes "i64_identity x" "i64_identity y" "from_utf8_ok s" "from_utf8_ok s'"
  shows "scope_message x s g = scope_message y s' g' \<longleftrightarrow> same_tenant x y \<and> s = s' \<and> g = g'"
  using assms cache_message_inject [of "identity_account_id x" "identity_account_id y"
      "identity_workspace_id x" "identity_workspace_id y" s s' g g']
  unfolding scope_message_def i64_identity_def same_tenant_def by blast

text \<open>
  Property C11. Tenant isolation separates: as long as the keyed hash does not collide on the two
  messages, two requests resolve to the same isolation identity exactly when they come from the
  same account and workspace, go to the same destination, name the same sub-identity and are not
  two different strict operations.
\<close>

theorem tenant_isolation_separates:
  assumes "i64_identity x" "i64_identity y" "from_utf8_ok d" "from_utf8_ok d'"
    and "pred_option from_utf8_ok (request_identity r)" "pred_option from_utf8_ok (request_identity r')"
    and "inj_on hash_hex {resolve_message x d r c, resolve_message y d' r' c'}"
  shows "resolved_identity (fst (TenantIsolationHasher_resolve hash_hex x d r c))
      = resolved_identity (fst (TenantIsolationHasher_resolve hash_hex y d' r' c'))
    \<longleftrightarrow> same_tenant x y \<and> d = d' \<and> r = r' \<and> (request_strict r \<longrightarrow> c = c')"
proof -
  have "hash_hex (resolve_message x d r c) = hash_hex (resolve_message y d' r' c')
      \<longleftrightarrow> resolve_message x d r c = resolve_message y d' r' c'"
    by (rule inj_on_eq_iff [OF assms(7)]) simp_all
  also have "\<dots> \<longleftrightarrow> same_tenant x y \<and> d = d' \<and> r = r' \<and> (request_strict r \<longrightarrow> c = c')"
    using assms(1-6) by (rule resolve_message_inject)
  finally show ?thesis by (simp only: resolve_simps)
qed

definition tenant_demo :: "int \<Rightarrow> IngressIdentity" where
  "tenant_demo a = \<lparr>identity_account_id = AccountId a, identity_workspace_id = WorkspaceId 1,
     identity_api_key_id = ApiKeyId 1, identity_device_credential_id = DeviceCredentialId 1,
     identity_limits = \<lparr>requests_per_second = 1, request_burst = 1, max_concurrent_tunnels = 1,
       period_request_limit = None, period_byte_limit = None\<rparr>\<rparr>"

lemma i64_tenant_demo [simp]: "i64_identity (tenant_demo 1)" "i64_identity (tenant_demo 2)"
  by (simp_all add: i64_identity_def tenant_demo_def is_i64_def)

theorem tenant_isolation_separates_witness:
  "resolved_identity (fst (TenantIsolationHasher_resolve id (tenant_demo 1) ''a.com:443''
       \<lparr>request_identity = Some ''s'', request_strict = True\<rparr> 7))
   \<noteq> resolved_identity (fst (TenantIsolationHasher_resolve id (tenant_demo 2) ''a.com:443''
       \<lparr>request_identity = Some ''s'', request_strict = True\<rparr> 7))"
proof -
  have "from_utf8_ok ''a.com:443''" "from_utf8_ok ''s''"
    by (rule from_utf8_ok_ascii; simp add: is_ascii_byte_def byte_def)+
  then show ?thesis
    by (subst tenant_isolation_separates) (simp, simp, simp_all add: same_tenant_def tenant_demo_def)
qed

text \<open>
  Property C37. Cache scopes separate: as long as the keyed hash does not collide on the messages,
  two requests share a cache scope exactly when account, workspace, resolved isolation identity
  and isolation group agree, and no cache scope is an isolation identity.
\<close>

theorem cache_scope_separates:
  assumes "i64_identity x" "i64_identity y" "from_utf8_ok s" "from_utf8_ok s'"
    and "inj_on hash_hex {scope_message x s g, scope_message y s' g', resolve_message z d r c}"
  shows "(TenantIsolationHasher_cache_scope hash_hex x s g = TenantIsolationHasher_cache_scope hash_hex y s' g'
      \<longleftrightarrow> same_tenant x y \<and> s = s' \<and> g = g')
    \<and> TenantIsolationHasher_cache_scope hash_hex x s g
      \<noteq> resolved_identity (fst (TenantIsolationHasher_resolve hash_hex z d r c))"
proof -
  have "hash_hex (scope_message x s g) = hash_hex (scope_message y s' g')
      \<longleftrightarrow> scope_message x s g = scope_message y s' g'"
    by (rule inj_on_eq_iff [OF assms(5)]) simp_all
  also have "\<dots> \<longleftrightarrow> same_tenant x y \<and> s = s' \<and> g = g'"
    using assms(1-4) by (rule scope_message_inject)
  finally have scopes: "hash_hex (scope_message x s g) = hash_hex (scope_message y s' g')
      \<longleftrightarrow> same_tenant x y \<and> s = s' \<and> g = g'" .
  have "hash_hex (scope_message x s g) \<noteq> hash_hex (resolve_message z d r c)"
  proof
    assume "hash_hex (scope_message x s g) = hash_hex (resolve_message z d r c)"
    then have "scope_message x s g = resolve_message z d r c"
      by (rule inj_onD [OF assms(5)]) simp_all
    then show False
      using domains_separate unfolding scope_message_def resolve_message_def by metis
  qed
  with scopes show ?thesis
    by (simp add: TenantIsolationHasher_cache_scope_def resolve_simps flip: scope_message_def)
qed

theorem cache_scope_separates_witness:
  "(TenantIsolationHasher_cache_scope id (tenant_demo 1) ''k'' 1
      = TenantIsolationHasher_cache_scope id (tenant_demo 1) ''k'' 2) = False
    \<and> TenantIsolationHasher_cache_scope id (tenant_demo 1) ''k'' 1
      \<noteq> resolved_identity (fst (TenantIsolationHasher_resolve id (tenant_demo 2) ''k''
          \<lparr>request_identity = None, request_strict = False\<rparr> 0))"
proof -
  have "from_utf8_ok ''k''" by (rule from_utf8_ok_ascii) (simp add: is_ascii_byte_def byte_def)
  then show ?thesis
    using cache_scope_separates [of "tenant_demo 1" "tenant_demo 1" "''k''" "''k''" id 1 2
        "tenant_demo 2" "''k''" "\<lparr>request_identity = None, request_strict = False\<rparr>" 0]
    by simp
qed

end
