(* ===== verification/Keyed_Store.thy ===== *)
theory Keyed_Store
  imports Prelude
begin

text \<open>
  The interface of a store whose operations each concern one key: what the operation answers and
  what it does to its key is given by a small state machine per key, and the other keys are left
  alone. A client of such a store sees, for every key, the state machine run on the operations
  of that key only, however the operations of different keys are mixed.
\<close>

text \<open>A run collects the answers of the operations.\<close>

primrec run_all :: "('op \<Rightarrow> 's \<Rightarrow> 'r \<times> 's) \<Rightarrow> 'op list \<Rightarrow> 's \<Rightarrow> ('op \<times> 'r) list \<times> 's" where
  "run_all step [] s = ([], s)"
| "run_all step (p # ps) s =
     (case step p s of (r, s1) \<Rightarrow> case run_all step ps s1 of (rs, s2) \<Rightarrow> ((p, r) # rs, s2))"

lemma run_all_append:
  "run_all step (ps @ qs) s =
     (case run_all step ps s of (rs, s1) \<Rightarrow> case run_all step qs s1 of (rs', s2) \<Rightarrow> (rs @ rs', s2))"
  by (induction ps arbitrary: s) (simp_all split: prod.splits)

locale keyed_store =
  fixes step :: "'op \<Rightarrow> 's \<Rightarrow> 'r \<times> 's"
    and key :: "'op \<Rightarrow> 'k"
    and view :: "'s \<Rightarrow> 'k \<Rightarrow> 'a"
    and machine :: "'op \<Rightarrow> 'a \<Rightarrow> 'r \<times> 'a"
    and inv :: "'s \<Rightarrow> bool"
    and admissible :: "'op \<Rightarrow> bool"
  assumes step_inv: "inv s \<Longrightarrow> admissible p \<Longrightarrow> inv (snd (step p s))"
    and step_own: "inv s \<Longrightarrow> admissible p \<Longrightarrow>
      (fst (step p s), view (snd (step p s)) (key p)) = machine p (view s (key p))"
    and step_other: "inv s \<Longrightarrow> admissible p \<Longrightarrow> k \<noteq> key p \<Longrightarrow> view (snd (step p s)) k = view s k"
begin

lemma run_inv: "inv s \<Longrightarrow> list_all admissible ps \<Longrightarrow> inv (snd (run_all step ps s))"
proof (induction ps arbitrary: s)
  case (Cons p ps)
  then have "inv (snd (run_all step ps (snd (step p s))))" by (simp add: step_inv)
  then show ?case by (simp add: case_prod_unfold)
qed simp

text \<open>The projection of a run to a key is a run of the key's state machine.\<close>

lemma run_projects:
  assumes "inv s" "list_all admissible ps"
  shows "run_all machine (filter (\<lambda>p. key p = k) ps) (view s k) =
    (filter (\<lambda>(p, r). key p = k) (fst (run_all step ps s)), view (snd (run_all step ps s)) k)"
  using assms
proof (induction ps arbitrary: s)
  case Nil
  then show ?case by simp
next
  case (Cons p ps)
  obtain r s1 where s1: "step p s = (r, s1)" by fastforce
  with Cons.prems step_inv [of s p] have "inv s1" by simp
  note IH = Cons.IH [OF this]
  have own: "machine p (view s (key p)) = (r, view s1 (key p))"
    using step_own [of s p] Cons.prems s1 by simp
  have other: "k \<noteq> key p \<Longrightarrow> view s1 k = view s k"
    using step_other [of s p k] Cons.prems s1 by simp
  show ?case
  proof (cases "key p = k")
    case True
    with own have "machine p (view s k) = (r, view s1 k)" by simp
    with True s1 IH Cons.prems show ?thesis by (simp split: prod.splits)
  next
    case False
    with other have "view s1 k = view s k" by simp
    with False s1 IH Cons.prems show ?thesis by (simp split: prod.splits)
  qed
qed

end

end
