(* ===== verification/Circuit_Breaker.thy ===== *)
theory Circuit_Breaker
  imports Keyed_Store
begin

text \<open>
  The per-destination circuit breaker of \<open>src/src/main.rs\<close>. The breaker is one mutex-protected
  map, so its operations run one after the other; \<open>usize\<close> is a 64-bit word and time a natural
  number. \<open>breaker_machine\<close> is the abstract specification: a destination is closed with a number
  of failures or open until some time. As long as the destinations in use fit the capacity, the
  breaker refines it; beyond that, the least recently used destination is forgotten.
\<close>

section \<open>The code\<close>

record BreakerEntry =
  be_failures :: u64
  be_open_until :: "nat option"
  be_last_used :: nat

record CircuitBreaker =
  cb_entries :: "(string, BreakerEntry) hashmap"
  cb_capacity :: nat
  cb_failure_threshold :: u64
  cb_cooldown :: nat

text \<open>\<open>CircuitBreaker::new\<close> panics on a zero capacity or threshold.\<close>

definition CircuitBreaker_new :: "nat \<Rightarrow> u64 \<Rightarrow> nat \<Rightarrow> CircuitBreaker option" where
  "CircuitBreaker_new capacity failure_threshold cooldown =
     (if capacity > 0 \<and> failure_threshold > 0
      then Some \<lparr>cb_entries = [], cb_capacity = capacity, cb_failure_threshold = failure_threshold,
                  cb_cooldown = cooldown\<rparr>
      else None)"

definition allow_at :: "string \<Rightarrow> nat \<Rightarrow> CircuitBreaker \<Rightarrow> bool \<times> CircuitBreaker" where
  "allow_at destination now b =
     (case hm_get (cb_entries b) destination of
        None \<Rightarrow> (True, b)
      | Some entry0 \<Rightarrow>
          let entry = entry0\<lparr>be_last_used := now\<rparr>;
              store = (\<lambda>e. b\<lparr>cb_entries := hm_insert destination e (cb_entries b)\<rparr>)
          in case be_open_until entry of
               Some open_until \<Rightarrow>
                 if open_until > now then (False, store entry)
                 else (True, store (entry\<lparr>be_open_until := None,
                        be_failures := saturating_sub (cb_failure_threshold b) 1\<rparr>))
             | None \<Rightarrow> (True, store entry))"

definition evict_destination :: "string \<Rightarrow> CircuitBreaker \<Rightarrow> CircuitBreaker" where
  "evict_destination destination b =
     (if \<not> hm_contains_key (cb_entries b) destination \<and> length (cb_entries b) \<ge> cb_capacity b
      then b\<lparr>cb_entries := hm_evict_min be_last_used (cb_entries b)\<rparr> else b)"

definition count_failure :: "u64 \<Rightarrow> nat \<Rightarrow> nat \<Rightarrow> BreakerEntry option \<Rightarrow> BreakerEntry" where
  "count_failure threshold cooldown now found =
     (let entry0 = (case found of Some e \<Rightarrow> e
             | None \<Rightarrow> \<lparr>be_failures = 0, be_open_until = None, be_last_used = now\<rparr>);
          entry = entry0\<lparr>be_failures := saturating_add (be_failures entry0) 1, be_last_used := now\<rparr>
      in if be_failures entry \<ge> threshold then entry\<lparr>be_open_until := Some (now + cooldown)\<rparr> else entry)"

definition record_failure_at :: "string \<Rightarrow> nat \<Rightarrow> CircuitBreaker \<Rightarrow> CircuitBreaker" where
  "record_failure_at destination now b0 =
     (let b = evict_destination destination b0 in
      b\<lparr>cb_entries := hm_insert destination
          (count_failure (cb_failure_threshold b) (cb_cooldown b) now
             (hm_get (cb_entries b) destination)) (cb_entries b)\<rparr>)"

definition record_success :: "string \<Rightarrow> CircuitBreaker \<Rightarrow> CircuitBreaker" where
  "record_success destination b = b\<lparr>cb_entries := hm_remove destination (cb_entries b)\<rparr>"

definition breaker_len :: "CircuitBreaker \<Rightarrow> nat" where
  "breaker_len b = length (cb_entries b)"

section \<open>The specification\<close>

datatype breaker_op = Allow string nat | Failure string nat | Success string

primrec destination_of :: "breaker_op \<Rightarrow> string" where
  "destination_of (Allow d now) = d"
| "destination_of (Failure d now) = d"
| "destination_of (Success d) = d"

primrec breaker_step :: "breaker_op \<Rightarrow> CircuitBreaker \<Rightarrow> bool \<times> CircuitBreaker" where
  "breaker_step (Allow d now) b = allow_at d now b"
| "breaker_step (Failure d now) b = (True, record_failure_at d now b)"
| "breaker_step (Success d) b = (True, record_success d b)"

datatype breaker_state = Closed nat | Open_until nat

primrec breaker_machine :: "nat \<Rightarrow> nat \<Rightarrow> breaker_op \<Rightarrow> breaker_state \<Rightarrow> bool \<times> breaker_state" where
  "breaker_machine threshold cooldown (Allow d now) s =
     (case s of Closed n \<Rightarrow> (True, s)
      | Open_until t \<Rightarrow> if t > now then (False, s) else (True, Closed (threshold - 1)))"
| "breaker_machine threshold cooldown (Failure d now) s =
     (True, case s of Open_until t \<Rightarrow> Open_until (now + cooldown)
      | Closed n \<Rightarrow> if n + 1 \<ge> threshold then Open_until (now + cooldown) else Closed (n + 1))"
| "breaker_machine threshold cooldown (Success d) s = (True, Closed 0)"

fun entry_state :: "BreakerEntry option \<Rightarrow> breaker_state" where
  "entry_state None = Closed 0"
| "entry_state (Some e) =
     (case be_open_until e of Some t \<Rightarrow> Open_until t | None \<Rightarrow> Closed (unat (be_failures e)))"

definition breaker_view :: "CircuitBreaker \<Rightarrow> string \<Rightarrow> breaker_state" where
  "breaker_view b d = entry_state (hm_get (cb_entries b) d)"

section \<open>Invariant and refinement\<close>

definition entry_wf :: "u64 \<Rightarrow> BreakerEntry \<Rightarrow> bool" where
  "entry_wf threshold e \<longleftrightarrow> (be_open_until e \<noteq> None \<longleftrightarrow> threshold \<le> be_failures e)"

definition breaker_wf :: "CircuitBreaker \<Rightarrow> bool" where
  "breaker_wf b \<longleftrightarrow> hm_wf (cb_entries b) \<and> length (cb_entries b) \<le> cb_capacity b
     \<and> 0 < cb_capacity b \<and> 0 < cb_failure_threshold b
     \<and> (\<forall>d e. hm_get (cb_entries b) d = Some e \<longrightarrow> entry_wf (cb_failure_threshold b) e)"

definition breaker_within :: "string set \<Rightarrow> u64 \<Rightarrow> nat \<Rightarrow> CircuitBreaker \<Rightarrow> bool" where
  "breaker_within D threshold cooldown b \<longleftrightarrow> breaker_wf b \<and> fst ` set (cb_entries b) \<subseteq> D
     \<and> finite D \<and> card D \<le> cb_capacity b
     \<and> cb_failure_threshold b = threshold \<and> cb_cooldown b = cooldown"

lemma unat_saturating_sub_1: "0 < (t :: u64) \<Longrightarrow> unat (saturating_sub t 1) < unat t"
  by (simp add: unat_saturating_sub word_less_nat_alt)

lemma entry_wf_half_open:
  "0 < t \<Longrightarrow> entry_wf t (e\<lparr>be_last_used := now, be_open_until := None, be_failures := saturating_sub t 1\<rparr>)"
  using unat_saturating_sub_1 [of t] by (simp add: entry_wf_def word_le_nat_alt)

lemma entry_wf_count_failure:
  assumes "0 < t" "\<And>e. found = Some e \<Longrightarrow> entry_wf t e"
  shows "entry_wf t (count_failure t c now found)"
  using assms unsigned_less [of t, where 'a = nat]
  by (auto simp: count_failure_def entry_wf_def Let_def word_le_nat_alt word_less_nat_alt
      unat_saturating_add split: option.splits)

lemma count_failure_state:
  assumes "0 < t" "\<And>e. found = Some e \<Longrightarrow> entry_wf t e"
  shows "entry_state (Some (count_failure t c now found)) =
    snd (breaker_machine (unat t) c (Failure d now) (entry_state found))"
  using assms unsigned_less [of t, where 'a = nat]
  by (auto simp: count_failure_def entry_wf_def Let_def word_le_nat_alt word_less_nat_alt
      unat_saturating_add split: option.splits)


lemma breaker_wf_insert:
  assumes "breaker_wf b" "entry_wf (cb_failure_threshold b) e"
    and "hm_get (cb_entries b) d = None \<Longrightarrow> length (cb_entries b) < cb_capacity b"
  shows "breaker_wf (b\<lparr>cb_entries := hm_insert d e (cb_entries b)\<rparr>)"
  using assms by (auto simp: breaker_wf_def length_hm_insert Suc_le_eq simp del: map_of_eq_Some_iff)

lemma breaker_wf_evict: "breaker_wf b \<Longrightarrow> breaker_wf (evict_destination d b)"
  by (auto simp: breaker_wf_def evict_destination_def length_hm_evict_min simp del: map_of_eq_Some_iff
      dest: hm_get_evict_min)

lemma evict_destination_room:
  assumes "breaker_wf b" "hm_get (cb_entries (evict_destination d b)) d = None"
  shows "length (cb_entries (evict_destination d b)) < cb_capacity b"
  using assms by (auto simp: breaker_wf_def evict_destination_def length_hm_evict_min hm_contains_key_def
      simp del: map_of_eq_Some_iff)

lemma breaker_wf_allow:
  assumes wf: "breaker_wf b"
  shows "breaker_wf (snd (allow_at d now b))"
proof (cases "hm_get (cb_entries b) d")
  case None
  then show ?thesis using wf by (simp add: allow_at_def)
next
  case (Some e)
  let ?t = "cb_failure_threshold b"
  have e: "entry_wf ?t e" and t: "0 < ?t" using wf Some unfolding breaker_wf_def by blast+
  have ins: "breaker_wf (b\<lparr>cb_entries := hm_insert d x (cb_entries b)\<rparr>)" if "entry_wf ?t x" for x
    using Some by (intro breaker_wf_insert [OF wf that]) (simp del: map_of_eq_Some_iff)
  have "entry_wf ?t (e\<lparr>be_last_used := now\<rparr>)" using e by (simp add: entry_wf_def)
  from ins [OF this] ins [OF entry_wf_half_open [OF t]] Some show ?thesis
    by (simp add: allow_at_def Let_def del: map_of_eq_Some_iff split: option.splits)
qed

lemma breaker_wf_failure: "breaker_wf b \<Longrightarrow> breaker_wf (record_failure_at d now b)"
  unfolding record_failure_at_def Let_def
proof (rule breaker_wf_insert)
  assume wf: "breaker_wf b"
  let ?b = "evict_destination d b"
  show wf': "breaker_wf ?b" by (rule breaker_wf_evict [OF wf])
  show "entry_wf (cb_failure_threshold ?b) (count_failure (cb_failure_threshold ?b) (cb_cooldown ?b) now
      (hm_get (cb_entries ?b) d))"
    using wf' by (intro entry_wf_count_failure) (auto simp: breaker_wf_def simp del: map_of_eq_Some_iff)
  show "length (cb_entries ?b) < cb_capacity ?b" if "hm_get (cb_entries ?b) d = None"
  proof -
    have "cb_capacity ?b = cb_capacity b" by (simp add: evict_destination_def)
    with evict_destination_room [OF wf that] show ?thesis by simp
  qed
qed

lemma breaker_wf_success: "breaker_wf b \<Longrightarrow> breaker_wf (record_success d b)"
  by (auto simp: breaker_wf_def record_success_def hm_get_remove length_hm_remove
      simp del: map_of_eq_Some_iff split: if_splits)

lemma breaker_wf_step: "breaker_wf b \<Longrightarrow> breaker_wf (snd (breaker_step p b))"
  by (cases p) (simp_all add: breaker_wf_allow breaker_wf_failure breaker_wf_success)

lemma breaker_wf_run: "breaker_wf b \<Longrightarrow> breaker_wf (snd (run_all breaker_step ps b))"
proof (induction ps arbitrary: b)
  case (Cons p ps)
  then have "breaker_wf (snd (run_all breaker_step ps (snd (breaker_step p b))))"
    by (simp add: breaker_wf_step)
  then show ?case by (simp add: case_prod_unfold)
qed simp

text \<open>Destinations that fit the capacity are never evicted.\<close>

lemma evict_destination_within:
  assumes "breaker_within D t c b" "d \<in> D"
  shows "evict_destination d b = b"
proof (rule ccontr)
  assume "evict_destination d b \<noteq> b"
  then have new: "d \<notin> fst ` set (cb_entries b)" and full: "length (cb_entries b) \<ge> cb_capacity b"
    by (auto simp: evict_destination_def hm_contains_key_def map_of_eq_None_iff split: if_splits)
  have "distinct (map fst (cb_entries b))" using assms(1) by (simp add: breaker_within_def breaker_wf_def)
  then have "length (cb_entries b) = card (fst ` set (cb_entries b))"
    by (metis distinct_card length_map set_map)
  also have "\<dots> < card D"
    using assms new by (intro psubset_card_mono) (auto simp: breaker_within_def)
  finally show False using full assms(1) by (simp add: breaker_within_def)
qed

lemma breaker_parameters:
  "cb_failure_threshold (snd (breaker_step p b)) = cb_failure_threshold b"
  "cb_cooldown (snd (breaker_step p b)) = cb_cooldown b"
  "cb_capacity (snd (breaker_step p b)) = cb_capacity b"
  by (cases p; auto simp: allow_at_def record_failure_at_def record_success_def evict_destination_def
      Let_def split: option.splits)+

lemma breaker_keys:
  assumes "breaker_within D t c b" "destination_of p \<in> D"
  shows "fst ` set (cb_entries (snd (breaker_step p b))) \<subseteq> D"
proof -
  have old: "fst ` set (cb_entries b) \<subseteq> D" using assms(1) by (simp add: breaker_within_def)
  have ins: "fst ` set (hm_insert d e (cb_entries b)) \<subseteq> D" if "d \<in> D" for d e
    using old that by (simp add: dom_update)
  have del: "fst ` set (hm_remove d (cb_entries b)) \<subseteq> D" for d
    using old dom_delete_subset [of d "cb_entries b"] by blast
  show ?thesis
    using assms(2) old ins del evict_destination_within [OF assms(1)]
    by (cases p) (auto simp: allow_at_def record_failure_at_def record_success_def Let_def
        simp del: map_of_eq_Some_iff split: option.splits)
qed

interpretation breaker: keyed_store breaker_step destination_of breaker_view
  "breaker_machine (unat threshold) cooldown" "breaker_within D threshold cooldown" "\<lambda>p. destination_of p \<in> D"
  for D threshold cooldown
proof unfold_locales
  fix b p
  assume b: "breaker_within D threshold cooldown b" and p: "destination_of p \<in> D"
  then have wf: "breaker_wf b" by (simp add: breaker_within_def)
  show "breaker_within D threshold cooldown (snd (breaker_step p b))"
    using b breaker_keys [OF b p] breaker_wf_step [OF wf]
    unfolding breaker_within_def breaker_parameters by blast
  note same = evict_destination_within [OF b p]
  show "breaker_view (snd (breaker_step p b)) k = breaker_view b k" if "k \<noteq> destination_of p" for k
    using that same
    by (cases p) (auto simp: breaker_view_def allow_at_def record_failure_at_def record_success_def
        Let_def hm_get_remove simp del: map_of_eq_Some_iff split: option.splits)
  show "(fst (breaker_step p b), breaker_view (snd (breaker_step p b)) (destination_of p)) =
      breaker_machine (unat threshold) cooldown p (breaker_view b (destination_of p))"
  proof (cases p)
    case (Allow d now)
    have "0 < threshold" "cb_failure_threshold b = threshold"
      using wf b by (auto simp: breaker_wf_def breaker_within_def)
    with Allow show ?thesis
      by (auto simp: allow_at_def breaker_view_def Let_def unat_saturating_sub
          simp del: map_of_eq_Some_iff split: option.splits)
  next
    case (Failure d now)
    have "0 < threshold" "cb_failure_threshold b = threshold" "cb_cooldown b = cooldown"
        "\<And>e. hm_get (cb_entries b) d = Some e \<Longrightarrow> entry_wf threshold e"
      using wf b by (auto simp: breaker_wf_def breaker_within_def simp del: map_of_eq_Some_iff)
    with Failure same count_failure_state [of threshold "hm_get (cb_entries b) d" cooldown now d] show ?thesis
      by (simp add: record_failure_at_def breaker_view_def Let_def del: entry_state.simps)
  next
    case (Success d)
    then show ?thesis by (simp add: record_success_def breaker_view_def hm_get_remove)
  qed
qed

section \<open>Properties\<close>

lemma new_breaker_within:
  assumes "CircuitBreaker_new cap threshold cooldown = Some b" "finite D" "card D \<le> cap"
  shows "breaker_within D threshold cooldown b \<and> breaker_view b d = Closed 0"
  using assms by (auto simp: CircuitBreaker_new_def breaker_within_def breaker_wf_def breaker_view_def
      split: if_splits)

lemma breaker_projects:
  assumes "CircuitBreaker_new cap threshold cooldown = Some b"
    and "card (destination_of ` set ps) \<le> cap"
  shows "filter (\<lambda>(p, r). destination_of p = d) (fst (run_all breaker_step ps b))
    = fst (run_all (breaker_machine (unat threshold) cooldown)
             (filter (\<lambda>p. destination_of p = d) ps) (Closed 0))"
proof -
  let ?D = "destination_of ` set ps"
  have "breaker_within ?D threshold cooldown b" "breaker_view b d = Closed 0"
    using new_breaker_within [OF assms(1) _ assms(2)] by simp_all
  with breaker.run_projects [of ?D threshold cooldown b ps d] show ?thesis
    by (simp add: list_all_iff)
qed

text \<open>
  Property C14. The breaker refines one state machine per destination: while the destinations in
  use fit its capacity, the answers for a destination are those its own machine, run on the
  operations of that destination only, gives; traffic to other destinations never changes them.
\<close>

theorem breaker_refines_machine:
  assumes "CircuitBreaker_new cap threshold cooldown = Some b"
    and "card (destination_of ` set ps) \<le> cap"
  shows "filter (\<lambda>(p, r). destination_of p = d) (fst (run_all breaker_step ps b))
    = fst (run_all (breaker_machine (unat threshold) cooldown)
             (filter (\<lambda>p. destination_of p = d) ps) (Closed 0))"
  using assms by (rule breaker_projects)

definition breaker_demo :: CircuitBreaker where
  "breaker_demo = \<lparr>cb_entries = [], cb_capacity = 2, cb_failure_threshold = 2, cb_cooldown = 30\<rparr>"

definition breaker_history :: "breaker_op list" where
  "breaker_history = [Failure ''a'' 0, Failure ''b'' 1, Failure ''a'' 2, Allow ''a'' 3, Allow ''b'' 4, Allow ''a'' 32]"

lemma breaker_demo_new: "CircuitBreaker_new 2 2 30 = Some breaker_demo"
  by (simp add: CircuitBreaker_new_def breaker_demo_def)

theorem breaker_refines_machine_witness:
  "filter (\<lambda>(p, r). destination_of p = ''a'') (fst (run_all breaker_step breaker_history breaker_demo))
   = [(Failure ''a'' 0, True), (Failure ''a'' 2, True), (Allow ''a'' 3, False), (Allow ''a'' 32, True)]"
proof -
  have "card (destination_of ` set breaker_history) \<le> 2" by (simp add: breaker_history_def insert_commute)
  from breaker_refines_machine [OF breaker_demo_new this, of "''a''"] show ?thesis
    by (simp add: breaker_history_def)
qed

lemma machine_failures:
  "ts \<noteq> [] \<Longrightarrow> snd (run_all (breaker_machine threshold cooldown) (map (Failure d) ts) s) =
     (case s of Open_until t \<Rightarrow> Open_until (last ts + cooldown)
      | Closed n \<Rightarrow> if n + length ts \<ge> threshold then Open_until (last ts + cooldown) else Closed (n + length ts))"
proof (induction ts rule: rev_induct)
  case (snoc t ts)
  then show ?case
    by (cases "ts = []") (auto simp: run_all_append split: prod.splits breaker_state.splits if_splits)
qed simp

text \<open>
  The breaker opens and recovers: after as many failures in a row for a destination
  as the threshold, whatever happened before and at other destinations, the next attempt is
  refused until the cool-down after the last failure is over, and admitted from then on.
\<close>

lemma breaker_opens_and_recovers:
  assumes "CircuitBreaker_new cap threshold cooldown = Some b"
    and "card (destination_of ` set ps) \<le> cap"
    and "filter (\<lambda>p. destination_of p = d) ps = qs @ map (Failure d) ts @ [Allow d now]"
    and "unat threshold \<le> length ts"
  shows "last (filter (\<lambda>(p, r). destination_of p = d) (fst (run_all breaker_step ps b)))
    = (Allow d now, last ts + cooldown \<le> now)"
proof -
  let ?m = "breaker_machine (unat threshold) cooldown"
  have "0 < unat threshold"
    using assms(1) by (auto simp: CircuitBreaker_new_def word_less_nat_alt split: if_splits)
  then have ts: "ts \<noteq> []" using assms(4) by auto
  obtain rs s where s: "run_all ?m qs (Closed 0) = (rs, s)" by fastforce
  obtain rs' s' where s': "run_all ?m (map (Failure d) ts) s = (rs', s')" by fastforce
  have "s' = Open_until (last ts + cooldown)"
    using machine_failures [OF ts, of "unat threshold" cooldown d s] s' assms(4)
    by (auto split: breaker_state.splits if_splits)
  then show ?thesis
    unfolding breaker_projects [OF assms(1,2)] assms(3)
    by (simp add: run_all_append s s' not_less)
qed

end
