(* ===== verification/Ingress_Stores.thy ===== *)
theory Ingress_Stores
  imports Isolation
begin

text \<open>
  The two stores of \<open>src/src/main.rs\<close> that carry an authenticated identity across a local hop:
  \<open>AuthenticatedDownstreamStore\<close>, which remembers by socket address who opened the connection to
  the internal proxy, and \<open>BridgeIdentityRegistry\<close>, which leases a random token for a request's
  scope to the bridge. Guards and leases are values; dropping one is an operation. A
  \<open>SocketAddr\<close> is a type parameter, \<open>getrandom\<close> a stateful source \<open>fill\<close>, base64 the
  parameter \<open>encode\<close>.
\<close>

section \<open>Authenticated downstream connections\<close>

record AccountRequestScope =
  scope_identity :: IngressIdentity
  scope_period_start :: UnixTimestamp

record AuthenticatedRequestContext =
  context_scope :: AccountRequestScope
  context_isolation :: IsolationRequest

record DownstreamContextEntry =
  entry_generation :: u64
  entry_context :: AuthenticatedRequestContext

record 'addr AuthenticatedDownstreamStore =
  ds_entries :: "('addr, DownstreamContextEntry) hashmap"
  ds_capacity :: nat
  ds_sequence :: u64
  ds_poisoned :: bool

record 'addr AuthenticatedDownstreamGuard =
  guard_address :: 'addr
  guard_generation :: u64

definition AuthenticatedDownstreamStore_new :: "nat \<Rightarrow> 'addr AuthenticatedDownstreamStore option" where
  "AuthenticatedDownstreamStore_new capacity =
     (if capacity > 0
      then Some \<lparr>ds_entries = [], ds_capacity = capacity, ds_sequence = 1, ds_poisoned = False\<rparr>
      else None)"

definition downstream_register ::
    "'addr \<Rightarrow> AuthenticatedRequestContext \<Rightarrow> 'addr AuthenticatedDownstreamStore
      \<Rightarrow> ('addr AuthenticatedDownstreamGuard, anyhow_error) result \<times> 'addr AuthenticatedDownstreamStore" where
  "downstream_register address context st0 =
     (let generation = ds_sequence st0;
          st = st0\<lparr>ds_sequence := generation + 1\<rparr>
      in if ds_poisoned st then (Err ''authenticated downstream store is unavailable'', st)
         else if length (ds_entries st) \<ge> ds_capacity st \<and> \<not> hm_contains_key (ds_entries st) address
         then (Err ''authenticated downstream store capacity reached'', st)
         else
           let st' = st\<lparr>ds_entries := hm_insert address
                 \<lparr>entry_generation = generation, entry_context = context\<rparr> (ds_entries st)\<rparr>
           in case hm_get (ds_entries st) address of
                Some _ \<Rightarrow> (Err ''duplicate authenticated downstream address'', st')
              | None \<Rightarrow> (Ok \<lparr>guard_address = address, guard_generation = generation\<rparr>, st'))"

definition downstream_context ::
    "'addr AuthenticatedDownstreamStore \<Rightarrow> 'addr \<Rightarrow> AuthenticatedRequestContext option" where
  "downstream_context st address = map_option entry_context (hm_get (ds_entries st) address)"

definition downstream_remove ::
    "'addr \<Rightarrow> u64 \<Rightarrow> 'addr AuthenticatedDownstreamStore \<Rightarrow> 'addr AuthenticatedDownstreamStore" where
  "downstream_remove address generation st =
     (case hm_get (ds_entries st) address of
        Some entry \<Rightarrow>
          if entry_generation entry = generation
          then st\<lparr>ds_entries := hm_remove address (ds_entries st)\<rparr> else st
      | None \<Rightarrow> st)"

definition drop_downstream_guard ::
    "'addr AuthenticatedDownstreamGuard \<Rightarrow> 'addr AuthenticatedDownstreamStore \<Rightarrow> 'addr AuthenticatedDownstreamStore" where
  "drop_downstream_guard g st = downstream_remove (guard_address g) (guard_generation g) st"

text \<open>
  Every history of a store, with the number of calls of \<open>register\<close> so far, the guards that are alive with the context
  each was created with, and the contexts that refused duplicates left behind: such a call has replaced the entry
  of its address, and no guard exists for it.
\<close>

inductive downstream_reachable ::
    "nat \<Rightarrow> nat \<Rightarrow> 'addr AuthenticatedDownstreamStore
      \<Rightarrow> ('addr AuthenticatedDownstreamGuard \<times> AuthenticatedRequestContext) set
      \<Rightarrow> ('addr \<Rightarrow> AuthenticatedRequestContext option) \<Rightarrow> bool"
  for capacity where
  start: "AuthenticatedDownstreamStore_new capacity = Some st \<Longrightarrow> downstream_reachable capacity 0 st {} Map.empty"
| register: "downstream_reachable capacity k st live orphans
    \<Longrightarrow> downstream_register address context st = (Ok g, st')
    \<Longrightarrow> downstream_reachable capacity (Suc k) st' (insert (g, context) live) orphans"
| duplicate: "downstream_reachable capacity k st live orphans
    \<Longrightarrow> downstream_register address context st = (Err ''duplicate authenticated downstream address'', st')
    \<Longrightarrow> downstream_reachable capacity (Suc k) st' live (orphans(address \<mapsto> context))"
| refused: "downstream_reachable capacity k st live orphans
    \<Longrightarrow> downstream_register address context st = (Err e, st') \<Longrightarrow> e \<noteq> ''duplicate authenticated downstream address''
    \<Longrightarrow> downstream_reachable capacity (Suc k) st' live orphans"
| drop: "downstream_reachable capacity k st live orphans \<Longrightarrow> (g, context) \<in> live
    \<Longrightarrow> downstream_reachable capacity k (drop_downstream_guard g st) (live - {(g, context)}) orphans"

text \<open>
  The entry of an address is that of its live guard, or, once a duplicate was refused, one whose generation no
  live guard has.
\<close>

definition entry_ok ::
    "('addr AuthenticatedDownstreamGuard \<times> AuthenticatedRequestContext) set \<Rightarrow> AuthenticatedRequestContext option
      \<Rightarrow> 'addr \<Rightarrow> DownstreamContextEntry option \<Rightarrow> bool" where
  "entry_ok live orphan a entry \<longleftrightarrow>
     (case orphan of
        None \<Rightarrow> (\<forall>n c. (\<lparr>guard_address = a, guard_generation = n\<rparr>, c) \<in> live \<longleftrightarrow> entry = Some \<lparr>entry_generation = n, entry_context = c\<rparr>)
      | Some ctx \<Rightarrow> (\<exists>n. entry = Some \<lparr>entry_generation = n, entry_context = ctx\<rparr>
          \<and> (\<forall>c. (\<lparr>guard_address = a, guard_generation = n\<rparr>, c) \<notin> live)))"

definition downstream_inv ::
    "nat \<Rightarrow> nat \<Rightarrow> 'addr AuthenticatedDownstreamStore
      \<Rightarrow> ('addr AuthenticatedDownstreamGuard \<times> AuthenticatedRequestContext) set
      \<Rightarrow> ('addr \<Rightarrow> AuthenticatedRequestContext option) \<Rightarrow> bool" where
  "downstream_inv capacity k st live orphans \<longleftrightarrow> hm_wf (ds_entries st) \<and> length (ds_entries st) \<le> capacity
     \<and> ds_capacity st = capacity \<and> ds_sequence st = of_nat (Suc k)
     \<and> (\<forall>(g, c) \<in> live. unat (guard_generation g) \<le> k)
     \<and> (\<forall>a. entry_ok live (orphans a) a (hm_get (ds_entries st) a))"

lemma downstream_register_cases:
  assumes "downstream_register a ctx st = (res, st')"
  obtains (refused) e where "res = Err e" "e \<noteq> ''duplicate authenticated downstream address''" "st' = st\<lparr>ds_sequence := ds_sequence st + 1\<rparr>"
        "hm_get (ds_entries st) a = None \<or> ds_poisoned st"
    | (duplicate) e where "hm_get (ds_entries st) a = Some e"
        "res = Err ''duplicate authenticated downstream address''"
        "st' = st\<lparr>ds_sequence := ds_sequence st + 1, ds_entries := hm_insert a
           \<lparr>entry_generation = ds_sequence st, entry_context = ctx\<rparr> (ds_entries st)\<rparr>"
    | (registered) "hm_get (ds_entries st) a = None" "length (ds_entries st) < ds_capacity st"
        "res = Ok \<lparr>guard_address = a, guard_generation = ds_sequence st\<rparr>"
        "st' = st\<lparr>ds_sequence := ds_sequence st + 1, ds_entries := hm_insert a
           \<lparr>entry_generation = ds_sequence st, entry_context = ctx\<rparr> (ds_entries st)\<rparr>"
  using assms unfolding downstream_register_def Let_def hm_contains_key_def
  by (auto simp del: map_of_eq_Some_iff split: if_splits option.splits)

lemma entry_ok_cong:
  assumes "\<And>n c. (\<lparr>guard_address = b, guard_generation = n\<rparr>, c) \<in> live' \<longleftrightarrow> (\<lparr>guard_address = b, guard_generation = n\<rparr>, c) \<in> live"
  shows "entry_ok live' x b e \<longleftrightarrow> entry_ok live x b e"
  by (simp add: entry_ok_def assms cong: option.case_cong)

text \<open>A new generation is none of the live ones, as long as the counter has not wrapped.\<close>

lemma generation_fresh:
  assumes "downstream_inv capacity k st live orphans" "Suc k < 2 ^ 64"
  shows "(\<lparr>guard_address = a, guard_generation = ds_sequence st\<rparr>, c) \<notin> live"
proof -
  have "unat (ds_sequence st) = Suc k"
    using assms by (simp add: downstream_inv_def unat_of_nat del: of_nat_Suc)
  with assms(1) show ?thesis by (auto simp: downstream_inv_def)
qed

lemma entry_replaced:
  assumes inv: "downstream_inv capacity k st live orphans" and k: "Suc k < 2 ^ 64"
    and st': "st' = st\<lparr>ds_sequence := ds_sequence st + 1, ds_entries := hm_insert a
      \<lparr>entry_generation = ds_sequence st, entry_context = ctx\<rparr> (ds_entries st)\<rparr>"
    and ok: "entry_ok live' orphan a (Some \<lparr>entry_generation = ds_sequence st, entry_context = ctx\<rparr>)"
    and live: "live \<subseteq> live'" "\<And>g c. (g, c) \<in> live' - live \<Longrightarrow> guard_address g = a \<and> guard_generation g = ds_sequence st"
    and len: "length (ds_entries st) < capacity \<or> hm_contains_key (ds_entries st) a"
  shows "downstream_inv capacity (Suc k) st' live' (orphans(a := orphan))"
proof -
  have seq: "unat (ds_sequence st) = Suc k"
    using inv k by (simp add: downstream_inv_def unat_of_nat del: of_nat_Suc)
  have other: "entry_ok live' x b e \<longleftrightarrow> entry_ok live x b e" if "b \<noteq> a" for b x e
    using live that by (intro entry_ok_cong) fastforce
  have "length (ds_entries st') \<le> capacity"
    using inv len by (auto simp: st' downstream_inv_def length_hm_insert hm_contains_key_def split: if_splits)
  moreover have "\<forall>(g, c) \<in> live'. unat (guard_generation g) \<le> Suc k"
    using inv live(2) seq by (fastforce simp: downstream_inv_def)
  moreover have "entry_ok live' ((orphans(a := orphan)) b) b (hm_get (ds_entries st') b)" for b
    using inv ok other [of b] by (cases "b = a") (simp_all add: st' downstream_inv_def)
  moreover have "hm_wf (ds_entries st') \<and> ds_capacity st' = capacity \<and> ds_sequence st' = of_nat (Suc (Suc k))"
    using inv by (simp add: downstream_inv_def st' add.commute)
  ultimately show ?thesis unfolding downstream_inv_def by blast
qed

lemma downstream_reachable_inv:
  "downstream_reachable capacity k st live orphans \<Longrightarrow> k < 2 ^ 64 \<Longrightarrow> downstream_inv capacity k st live orphans"
proof (induction rule: downstream_reachable.induct)
  case (start st)
  then show ?case by (auto simp: AuthenticatedDownstreamStore_new_def downstream_inv_def entry_ok_def split: if_splits)
next
  case (register k st live orphans a ctx g st')
  then have inv: "downstream_inv capacity k st live orphans" by simp
  from register.hyps(2) show ?case
  proof (cases rule: downstream_register_cases)
    case registered
    have "entry_ok live (orphans a) a None" using inv registered(1) unfolding downstream_inv_def by metis
    then have free: "orphans a = None" "\<And>n c. (\<lparr>guard_address = a, guard_generation = n\<rparr>, c) \<notin> live"
      by (auto simp: entry_ok_def split: option.splits)
    have "downstream_inv capacity (Suc k) st' (insert (g, ctx) live) (orphans(a := None))"
      using registered free inv register.prems
      by (intro entry_replaced [OF inv]) (auto simp: entry_ok_def downstream_inv_def)
    then show ?thesis using free(1) by (simp add: fun_upd_idem)
  qed simp_all
next
  case (duplicate k st live orphans a ctx st')
  then have inv: "downstream_inv capacity k st live orphans" by simp
  from duplicate.hyps(2) show ?case
  proof (cases rule: downstream_register_cases)
    case (duplicate e)
    with duplicate.prems show ?thesis
      using generation_fresh [OF inv] by (intro entry_replaced [OF inv]) (auto simp: entry_ok_def hm_contains_key_def)
  qed simp_all
next
  case (refused k st live orphans a ctx e st')
  then have inv: "downstream_inv capacity k st live orphans" by simp
  from refused.hyps(2) show ?case
  proof (cases rule: downstream_register_cases)
    case (refused e)
    then show ?thesis using inv by (auto simp: downstream_inv_def add.commute)
  qed (use refused.hyps(3) in simp_all)
next
  case (drop k st live orphans g ctx)
  then have inv: "downstream_inv capacity k st live orphans" by simp
  obtain a n where g: "g = \<lparr>guard_address = a, guard_generation = n\<rparr>" by (cases g)
  have a: "entry_ok live (orphans a) a (hm_get (ds_entries st) a)" using inv by (simp add: downstream_inv_def)
  have other: "entry_ok (live - {(g, ctx)}) (orphans b) b (hm_get (ds_entries st) b)" if "b \<noteq> a" for b
    using inv that entry_ok_cong [of b "live - {(g, ctx)}" live "orphans b"] by (simp add: downstream_inv_def g)
  have wf: "length (hm_remove a (ds_entries st)) \<le> capacity" "hm_wf (hm_remove a (ds_entries st))"
    using inv by (auto simp: downstream_inv_def length_hm_remove hashmap_simps)
  show ?case
  proof (cases "orphans a")
    case None
    with a drop.hyps(2) have e: "hm_get (ds_entries st) a = Some \<lparr>entry_generation = n, entry_context = ctx\<rparr>"
        "\<And>n' c. (\<lparr>guard_address = a, guard_generation = n'\<rparr>, c) \<in> live \<Longrightarrow> n' = n \<and> c = ctx"
      by (auto simp: entry_ok_def g simp del: map_of_eq_Some_iff)
    then have st': "drop_downstream_guard g st = st\<lparr>ds_entries := hm_remove a (ds_entries st)\<rparr>"
      by (simp add: drop_downstream_guard_def downstream_remove_def g del: map_of_eq_Some_iff)
    have "entry_ok (live - {(g, ctx)}) (orphans b) b (hm_get (hm_remove a (ds_entries st)) b)" for b
      using other [of b] e(2) None inv
      by (cases "b = a") (auto simp: hm_get_remove entry_ok_def g downstream_inv_def simp del: map_of_eq_Some_iff)
    with inv wf show ?thesis unfolding downstream_inv_def st' by auto
  next
    case (Some ctx')
    with a drop.hyps(2) obtain n' where e: "hm_get (ds_entries st) a = Some \<lparr>entry_generation = n', entry_context = ctx'\<rparr>" "n' \<noteq> n"
        "\<And>c. (\<lparr>guard_address = a, guard_generation = n'\<rparr>, c) \<notin> live"
      by (auto simp: entry_ok_def g simp del: map_of_eq_Some_iff)
    then have st': "drop_downstream_guard g st = st"
      by (simp add: drop_downstream_guard_def downstream_remove_def g del: map_of_eq_Some_iff)
    have "entry_ok (live - {(g, ctx)}) (orphans b) b (hm_get (ds_entries st) b)" for b
      using other [of b] e Some by (cases "b = a") (auto simp: entry_ok_def simp del: map_of_eq_Some_iff)
    with inv show ?thesis unfolding downstream_inv_def st' by auto
  qed
qed

text \<open>
  Property C32. Whatever is registered, refused and dropped, in fewer than \<open>2\<^sup>6\<^sup>4\<close> registrations, the store answers exactly: an
  address for which no duplicate was refused is given the context of its live guard, and none without one; an
  address for which a duplicate was refused is given the context of the last such call from then on. The
  store stays within its capacity.
\<close>

theorem downstream_context_exact:
  assumes "downstream_reachable capacity k st live orphans" "k < 2 ^ 64"
  shows "(downstream_context st a = Some ctx \<longleftrightarrow>
      (case orphans a of
         None \<Rightarrow> \<exists>n. (\<lparr>guard_address = a, guard_generation = n\<rparr>, ctx) \<in> live
       | Some left \<Rightarrow> ctx = left))
    \<and> length (ds_entries st) \<le> capacity"
proof
  have inv: "downstream_inv capacity k st live orphans" by (rule downstream_reachable_inv [OF assms])
  then show "length (ds_entries st) \<le> capacity" by (simp add: downstream_inv_def)
  have "downstream_context st a = Some ctx \<longleftrightarrow>
      (\<exists>n. hm_get (ds_entries st) a = Some \<lparr>entry_generation = n, entry_context = ctx\<rparr>)"
    unfolding downstream_context_def map_option_eq_Some
    by (metis (full_types) DownstreamContextEntry.cases DownstreamContextEntry.select_convs(2))
  moreover have "entry_ok live (orphans a) a (hm_get (ds_entries st) a)" using inv by (simp add: downstream_inv_def)
  ultimately show "downstream_context st a = Some ctx \<longleftrightarrow>
      (case orphans a of None \<Rightarrow> \<exists>n. (\<lparr>guard_address = a, guard_generation = n\<rparr>, ctx) \<in> live | Some left \<Rightarrow> ctx = left)"
    by (auto simp: entry_ok_def simp del: map_of_eq_Some_iff split: option.splits)
qed

definition demo_scope :: "int \<Rightarrow> AccountRequestScope" where
  "demo_scope a = \<lparr>scope_identity = \<lparr>identity_account_id = AccountId a, identity_workspace_id = WorkspaceId 1,
     identity_api_key_id = ApiKeyId 1, identity_device_credential_id = DeviceCredentialId 1,
     identity_limits = \<lparr>requests_per_second = 1, request_burst = 1, max_concurrent_tunnels = 1,
       period_request_limit = None, period_byte_limit = None\<rparr>\<rparr>, scope_period_start = UnixTimestamp 0\<rparr>"

definition demo_context :: "int \<Rightarrow> AuthenticatedRequestContext" where
  "demo_context a = \<lparr>context_scope = demo_scope a,
     context_isolation = \<lparr>request_identity = None, request_strict = False\<rparr>\<rparr>"

definition demo_store :: "nat AuthenticatedDownstreamStore" where
  "demo_store = \<lparr>ds_entries = [(4000, \<lparr>entry_generation = 1, entry_context = demo_context 1\<rparr>)],
     ds_capacity = 2, ds_sequence = 2, ds_poisoned = False\<rparr>"

lemma demo_store_reachable:
  "downstream_reachable 2 1 demo_store {(\<lparr>guard_address = 4000, guard_generation = 1\<rparr>, demo_context 1)} Map.empty"
proof -
  let ?new = "\<lparr>ds_entries = [], ds_capacity = 2, ds_sequence = 1, ds_poisoned = False\<rparr>"
  have "downstream_reachable 2 0 ?new {} Map.empty"
    by (rule downstream_reachable.start) (simp add: AuthenticatedDownstreamStore_new_def)
  from downstream_reachable.register [OF this, of 4000 "demo_context 1"] show ?thesis
    by (simp add: downstream_register_def demo_store_def hm_contains_key_def Let_def)
qed

theorem downstream_context_exact_witness:
  "downstream_context demo_store 4000 = Some (demo_context 1)
   \<and> downstream_context (snd (downstream_register 4000 (demo_context 2) demo_store)) 4000 = Some (demo_context 2)"
proof -
  have r: "downstream_register 4000 (demo_context 2) demo_store
      = (Err ''duplicate authenticated downstream address'', snd (downstream_register 4000 (demo_context 2) demo_store))"
    by (simp add: downstream_register_def demo_store_def hm_contains_key_def Let_def)
  from downstream_context_exact [OF demo_store_reachable, of 4000 "demo_context 1"]
    downstream_context_exact [OF downstream_reachable.duplicate [OF demo_store_reachable r], of 4000 "demo_context 2"]
  show ?thesis by simp
qed

text \<open>
  Property C40. A registration that fails as a duplicate has already replaced the entry: the
  connection that owns the address is answered with the other connection's context from then on,
  and dropping its guard no longer removes the entry.
\<close>

theorem duplicate_registration_replaces_context:
  assumes "downstream_register a ctx st = (Ok g, st1)"
    and "downstream_register a ctx' st1 = (res, st2)" and "\<not> ds_poisoned st1"
  shows "res = Err ''duplicate authenticated downstream address''
    \<and> downstream_context st2 a = Some ctx'
    \<and> downstream_context (drop_downstream_guard g st2) a = Some ctx'"
  using assms(1)
proof (cases rule: downstream_register_cases)
  case registered
  let ?e = "\<lparr>entry_generation = ds_sequence st, entry_context = ctx\<rparr>"
  have held: "hm_get (ds_entries st1) a = Some ?e" using registered by simp
  from assms(2) show ?thesis
  proof (cases rule: downstream_register_cases)
    case (refused e)
    with assms(3) held show ?thesis by (simp del: map_of_eq_Some_iff)
  next
    case (duplicate e)
    have "ds_sequence st1 = ds_sequence st + 1" using registered by simp
    moreover have "ds_sequence st + 1 \<noteq> ds_sequence st" by simp
    ultimately show ?thesis
      using duplicate registered
      by (simp add: downstream_context_def drop_downstream_guard_def downstream_remove_def)
  qed (use held in \<open>simp del: map_of_eq_Some_iff\<close>)
qed simp_all

theorem duplicate_registration_replaces_context_witness:
  "downstream_context (drop_downstream_guard \<lparr>guard_address = 5000, guard_generation = 2\<rparr>
     (snd (downstream_register 5000 (demo_context 2)
        (snd (downstream_register 5000 (demo_context 1) demo_store))))) 5000 = Some (demo_context 2)"
proof -
  have r1: "downstream_register 5000 (demo_context 1) demo_store =
      (Ok \<lparr>guard_address = 5000, guard_generation = 2\<rparr>, snd (downstream_register 5000 (demo_context 1) demo_store))"
    and "\<not> ds_poisoned (snd (downstream_register 5000 (demo_context 1) demo_store))"
    by (simp_all add: downstream_register_def demo_store_def Let_def hm_contains_key_def)
  then show ?thesis
    using duplicate_registration_replaces_context [OF r1 surjective_pairing] by blast
qed

section \<open>Bridge identity leases\<close>

record BridgeIdentityRegistry =
  reg_entries :: "(string, AccountRequestScope) hashmap"
  reg_capacity :: nat
  reg_poisoned :: bool

definition BridgeIdentityRegistry_new :: "nat \<Rightarrow> BridgeIdentityRegistry option" where
  "BridgeIdentityRegistry_new capacity =
     (if capacity > 0 then Some \<lparr>reg_entries = [], reg_capacity = capacity, reg_poisoned = False\<rparr> else None)"

text \<open>The loop of \<open>issue\<close> with the attempts that are left; a lease is its token.\<close>

primrec issue_lease ::
    "nat \<Rightarrow> ('r \<Rightarrow> (string, string) result \<times> 'r) \<Rightarrow> (string \<Rightarrow> string) \<Rightarrow> AccountRequestScope \<Rightarrow> 'r
      \<Rightarrow> BridgeIdentityRegistry \<Rightarrow> (string, anyhow_error) result \<times> 'r \<times> BridgeIdentityRegistry" where
  "issue_lease 0 fill encode scope rng reg =
     (Err ''failed to allocate a unique bridge identity lease'', rng, reg)"
| "issue_lease (Suc n) fill encode scope rng reg =
     (case fill rng of
        (Inl error, rng') \<Rightarrow> (Err (''failed to create bridge identity lease: '' @ error), rng', reg)
      | (Inr bytes, rng') \<Rightarrow>
          let token = encode bytes in
          if reg_poisoned reg then (Err ''bridge identity registry is unavailable'', rng', reg)
          else if length (reg_entries reg) \<ge> reg_capacity reg
          then (Err ''bridge identity registry capacity reached'', rng', reg)
          else
            let reg' = reg\<lparr>reg_entries := hm_insert token scope (reg_entries reg)\<rparr> in
            (case hm_get (reg_entries reg) token of
               None \<Rightarrow> (Ok token, rng', reg')
             | Some _ \<Rightarrow> issue_lease n fill encode scope rng' reg'))"

definition BridgeIdentityRegistry_issue ::
    "('r \<Rightarrow> (string, string) result \<times> 'r) \<Rightarrow> (string \<Rightarrow> string) \<Rightarrow> AccountRequestScope \<Rightarrow> 'r
      \<Rightarrow> BridgeIdentityRegistry \<Rightarrow> (string, anyhow_error) result \<times> 'r \<times> BridgeIdentityRegistry" where
  "BridgeIdentityRegistry_issue fill encode scope rng reg = issue_lease 4 fill encode scope rng reg"

definition BridgeIdentityRegistry_resolve :: "BridgeIdentityRegistry \<Rightarrow> string \<Rightarrow> AccountRequestScope option" where
  "BridgeIdentityRegistry_resolve reg token = hm_get (reg_entries reg) token"

definition BridgeIdentityRegistry_remove :: "string \<Rightarrow> BridgeIdentityRegistry \<Rightarrow> BridgeIdentityRegistry" where
  "BridgeIdentityRegistry_remove token reg = reg\<lparr>reg_entries := hm_remove token (reg_entries reg)\<rparr>"

text \<open>
  The histories of a registry; in \<open>issue\<close> the source's next token is not one that is leased.
\<close>

inductive leases_reachable ::
    "('r \<Rightarrow> (string, string) result \<times> 'r) \<Rightarrow> (string \<Rightarrow> string) \<Rightarrow> nat \<Rightarrow> BridgeIdentityRegistry
      \<Rightarrow> (string \<times> AccountRequestScope) set \<Rightarrow> bool"
  for fill encode capacity where
  start: "BridgeIdentityRegistry_new capacity = Some reg \<Longrightarrow> leases_reachable fill encode capacity reg {}"
| issue: "leases_reachable fill encode capacity reg live
    \<Longrightarrow> BridgeIdentityRegistry_issue fill encode scope rng reg = (Ok token, rng', reg')
    \<Longrightarrow> \<forall>bytes. fst (fill rng) = Ok bytes \<longrightarrow> encode bytes \<notin> fst ` live
    \<Longrightarrow> leases_reachable fill encode capacity reg' (insert (token, scope) live)"
| refused: "leases_reachable fill encode capacity reg live
    \<Longrightarrow> BridgeIdentityRegistry_issue fill encode scope rng reg = (Err e, rng', reg')
    \<Longrightarrow> \<forall>bytes. fst (fill rng) = Ok bytes \<longrightarrow> encode bytes \<notin> fst ` live
    \<Longrightarrow> leases_reachable fill encode capacity reg' live"
| drop_lease: "leases_reachable fill encode capacity reg live \<Longrightarrow> (token, scope) \<in> live
    \<Longrightarrow> leases_reachable fill encode capacity (BridgeIdentityRegistry_remove token reg) (live - {(token, scope)})"

definition leases_inv :: "nat \<Rightarrow> BridgeIdentityRegistry \<Rightarrow> (string \<times> AccountRequestScope) set \<Rightarrow> bool" where
  "leases_inv capacity reg live \<longleftrightarrow> hm_wf (reg_entries reg) \<and> length (reg_entries reg) \<le> capacity
     \<and> reg_capacity reg = capacity
     \<and> (\<forall>t scope. hm_get (reg_entries reg) t = Some scope \<longleftrightarrow> (t, scope) \<in> live)"

lemma issue_first_free:
  assumes "BridgeIdentityRegistry_issue fill encode scope rng reg = (res, rng', reg')"
    and "\<forall>bytes. fst (fill rng) = Ok bytes \<longrightarrow> hm_get (reg_entries reg) (encode bytes) = None"
  shows "case res of Inl e \<Rightarrow> reg' = reg
    | Inr token \<Rightarrow> hm_get (reg_entries reg) token = None \<and> length (reg_entries reg) < reg_capacity reg
        \<and> reg' = reg\<lparr>reg_entries := hm_insert token scope (reg_entries reg)\<rparr>"
proof -
  obtain f s where "fill rng = (f, s)" by fastforce
  with assms show ?thesis
    unfolding BridgeIdentityRegistry_issue_def
    by (auto simp: eval_nat_numeral Let_def simp del: map_of_eq_Some_iff split: sum.splits if_splits)
qed

lemma leases_reachable_inv: "leases_reachable fill encode capacity reg live \<Longrightarrow> leases_inv capacity reg live"
proof (induction rule: leases_reachable.induct)
  case (start reg)
  then show ?case by (auto simp: BridgeIdentityRegistry_new_def leases_inv_def split: if_splits)
next
  case (issue reg live scope rng token rng' reg')
  have "\<forall>bytes. fst (fill rng) = Ok bytes \<longrightarrow> hm_get (reg_entries reg) (encode bytes) = None"
    using issue.hyps(3) issue.IH unfolding leases_inv_def by (metis fst_conv imageI option.exhaust)
  from issue_first_free [OF issue.hyps(2) this] have
    new: "hm_get (reg_entries reg) token = None" "length (reg_entries reg) < reg_capacity reg"
      "reg' = reg\<lparr>reg_entries := hm_insert token scope (reg_entries reg)\<rparr>" by simp_all
  then have "\<And>c. (token, c) \<notin> live" using issue.IH unfolding leases_inv_def by (metis option.simps(3))
  with new issue.IH show ?case
    unfolding leases_inv_def by (auto simp: length_hm_insert simp del: map_of_eq_Some_iff)
next
  case (refused reg live scope rng e rng' reg')
  have "\<forall>bytes. fst (fill rng) = Ok bytes \<longrightarrow> hm_get (reg_entries reg) (encode bytes) = None"
    using refused.hyps(3) refused.IH unfolding leases_inv_def by (metis fst_conv imageI option.exhaust)
  from issue_first_free [OF refused.hyps(2) this] refused.IH show ?case by simp
next
  case (drop_lease reg live token scope)
  then have "\<And>c. (token, c) \<in> live \<Longrightarrow> c = scope" unfolding leases_inv_def by (metis option.inject)
  with drop_lease.IH show ?case
    unfolding leases_inv_def BridgeIdentityRegistry_remove_def
    by (auto simp: hm_get_remove length_hm_remove simp del: map_of_eq_Some_iff)
qed

text \<open>
  Property C33. As long as the random source does not repeat a leased token, a token resolves to a
  scope exactly while a lease issued for that scope is alive, and the registry stays within its
  capacity.
\<close>

theorem leases_resolve_exact:
  assumes "leases_reachable fill encode capacity reg live"
  shows "(BridgeIdentityRegistry_resolve reg token = Some scope \<longleftrightarrow> (token, scope) \<in> live)
    \<and> length (reg_entries reg) \<le> capacity"
  using leases_reachable_inv [OF assms]
  by (simp add: leases_inv_def BridgeIdentityRegistry_resolve_def del: map_of_eq_Some_iff)

definition counting_fill :: "nat \<Rightarrow> (string, string) result \<times> nat" where
  "counting_fill n = (Ok (replicate n CHR ''A''), n + 1)"

definition demo_registry :: BridgeIdentityRegistry where
  "demo_registry = \<lparr>reg_entries = [(''A'', demo_scope 1)], reg_capacity = 2, reg_poisoned = False\<rparr>"

lemma demo_registry_reachable: "leases_reachable counting_fill id 2 demo_registry {(''A'', demo_scope 1)}"
proof -
  let ?new = "\<lparr>reg_entries = [], reg_capacity = 2, reg_poisoned = False\<rparr>"
  have "leases_reachable counting_fill id 2 ?new {}"
    by (rule leases_reachable.start) (simp add: BridgeIdentityRegistry_new_def)
  then show ?thesis
    by (rule leases_reachable.issue [where rng = 1 and rng' = 2])
      (simp_all add: BridgeIdentityRegistry_issue_def counting_fill_def eval_nat_numeral demo_registry_def Let_def)
qed

theorem leases_resolve_exact_witness:
  "BridgeIdentityRegistry_resolve demo_registry ''A'' = Some (demo_scope 1)
   \<and> length (reg_entries demo_registry) \<le> 2"
  using leases_resolve_exact [OF demo_registry_reachable, of "''A''" "demo_scope 1"] by simp

text \<open>
  A token the random source repeats is not skipped but overwritten: when the first
  token drawn is leased and the second is not, \<open>issue\<close> succeeds with the second, and the first,
  still held by the other lease, now resolves to the new request's scope.
\<close>

lemma repeated_token_overwrites_lease:
  assumes "fill rng = (Ok b1, rng1)" "fill rng1 = (Ok b2, rng2)"
    and "BridgeIdentityRegistry_resolve reg (encode b1) = Some old"
    and "BridgeIdentityRegistry_resolve reg (encode b2) = None"
    and "\<not> reg_poisoned reg" "length (reg_entries reg) < reg_capacity reg"
  shows "\<exists>reg'. BridgeIdentityRegistry_issue fill encode scope rng reg = (Ok (encode b2), rng2, reg')
    \<and> BridgeIdentityRegistry_resolve reg' (encode b1) = Some scope
    \<and> BridgeIdentityRegistry_resolve reg' (encode b2) = Some scope"
  using assms
  by (auto simp: BridgeIdentityRegistry_issue_def BridgeIdentityRegistry_resolve_def eval_nat_numeral
      length_hm_insert Let_def split: option.splits simp del: map_of_eq_Some_iff)

end
