(* ===== verification/Data_Limit.thy ===== *)
theory Data_Limit
  imports Account_Quota "HOL-Library.Multiset"
begin

text \<open>
  The customer data limit of \<open>src/src/main.rs\<close>: the single-tier policy read from the environment
  (\<open>SingleTierPolicy\<close>), the byte counter of one account and period that concurrent tunnels share
  (\<open>CustomerPeriodUsage\<close>), the bounded cache of these counters (\<open>CustomerDataLimiter\<close>) and the
  session of one tunnel with its checkpoints to the account database (\<open>CustomerDataSession\<close>).

  The compare-exchange loop of \<open>allow\<close> is modelled twice: \<open>period_allow\<close> is the loop without
  interference, \<open>allow_step\<close> its atomic actions interleaved with those of other calls. The cache
  shares counters by \<open>Arc\<close>: the model has a heap, references and the multiset of their holders.
\<close>

section \<open>Policy\<close>

record SingleTierPolicy =
  policy_period_byte_limit :: u64

definition SINGLE_TIER_PERIOD_BYTE_LIMIT_ENV :: string where
  "SINGLE_TIER_PERIOD_BYTE_LIMIT_ENV = ''PROXY_SINGLE_TIER_PERIOD_BYTE_LIMIT''"

definition SingleTierPolicy_parse :: "string option \<Rightarrow> (SingleTierPolicy, string) result" where
  "SingleTierPolicy_parse value =
     and_then (ok_or (SINGLE_TIER_PERIOD_BYTE_LIMIT_ENV @ '' is required in production mode'')
       (map_option str_trim value)) (\<lambda>value.
     and_then (ok_or (SINGLE_TIER_PERIOD_BYTE_LIMIT_ENV @ '' must be a positive integer number of bytes'')
       (parse_u64 value)) (\<lambda>parsed.
     if parsed = 0
     then Err (SINGLE_TIER_PERIOD_BYTE_LIMIT_ENV @ '' must be a positive integer number of bytes'')
     else if uint parsed > i64_max
     then Err (SINGLE_TIER_PERIOD_BYTE_LIMIT_ENV @ '' exceeds the account database counter range'')
     else Ok \<lparr>policy_period_byte_limit = parsed\<rparr>))"

definition SingleTierPolicy_from_environment :: "env_var \<Rightarrow> (SingleTierPolicy, string) result" where
  "SingleTierPolicy_from_environment var =
     (case var of
        Env_Value value \<Rightarrow> SingleTierPolicy_parse (Some value)
      | Env_NotPresent \<Rightarrow> Err (SINGLE_TIER_PERIOD_BYTE_LIMIT_ENV @ '' is required in production mode'')
      | Env_NotUnicode \<Rightarrow> Err (SINGLE_TIER_PERIOD_BYTE_LIMIT_ENV @ '' must be valid UTF-8''))"

text \<open>An accepted policy is a limit the account database can store.\<close>

lemma policy_fits_database:
  assumes "SingleTierPolicy_from_environment var = Ok p"
  shows "0 < policy_period_byte_limit p \<and> uint (policy_period_byte_limit p) \<le> i64_max"
  using assms
  by (auto simp: SingleTierPolicy_from_environment_def SingleTierPolicy_parse_def word_gt_0 split: env_var.splits if_splits)

section \<open>The shared counter\<close>

datatype CustomerDataAdmissionError =
    DataLimitReached u64
  | TierConfigurationMismatch u64 "u64 option"
  | DataStateCapacityReached
  | DataStatePoisoned
  | DataCounterOverflow
  | DataStorage AccountManagementError

record CustomerDataAllowance =
  allowance_bytes :: u64
  allowance_exhausted :: bool

record CustomerPeriodUsage =
  used_bytes :: u64
  pu_last_used :: u64

definition CustomerPeriodUsage_new :: "u64 \<Rightarrow> u64 \<Rightarrow> CustomerPeriodUsage" where
  "CustomerPeriodUsage_new used sequence_number = \<lparr>used_bytes = used, pu_last_used = sequence_number\<rparr>"

definition period_ensure_available ::
    "u64 \<Rightarrow> CustomerPeriodUsage \<Rightarrow> (unit, CustomerDataAdmissionError) result" where
  "period_ensure_available limit usage =
     (if used_bytes usage \<ge> limit then Err (DataLimitReached limit) else Ok ())"

text \<open>One pass of the loop of \<open>allow\<close>, from the loaded value: the bytes and the projected counter.\<close>

definition allow_projection :: "u64 \<Rightarrow> u64 \<Rightarrow> u64 \<Rightarrow> (u64 \<times> u64, CustomerDataAdmissionError) result" where
  "allow_projection requested limit current =
     (if current \<ge> limit then Err (DataLimitReached limit)
      else let remaining = limit - current;
               allowed = min requested remaining
           in and_then (ok_or DataCounterOverflow (checked_add current allowed)) (\<lambda>projected.
              Ok (allowed, projected)))"

definition period_allow ::
    "u64 \<Rightarrow> u64 \<Rightarrow> CustomerPeriodUsage \<Rightarrow> (CustomerDataAllowance, CustomerDataAdmissionError) result \<times> CustomerPeriodUsage" where
  "period_allow requested limit usage =
     (case allow_projection requested limit (used_bytes usage) of
        Inl e \<Rightarrow> (Err e, usage)
      | Inr (allowed, projected) \<Rightarrow>
          (Ok \<lparr>allowance_bytes = allowed, allowance_exhausted = (projected = limit)\<rparr>,
           usage\<lparr>used_bytes := projected\<rparr>))"

lemma allowed_le: "current < limit \<Longrightarrow> unat (min requested (limit - current)) \<le> unat limit - unat current"
  for current limit :: u64
  by (metis min.cobounded2 order_less_imp_le unat_sub word_le_nat_alt)

lemma allow_projection_cases:
  "allow_projection requested limit current =
     (if limit \<le> current then Err (DataLimitReached limit)
      else Ok (min requested (limit - current), current + min requested (limit - current)))"
  and allow_projection_sum: "current < limit \<Longrightarrow>
     unat (current + min requested (limit - current)) = unat current + unat (min requested (limit - current))"
proof -
  have fits: "unat current + unat (min requested (limit - current)) < 2 ^ 64" if "current < limit"
    using allowed_le [OF that, of requested] that unat_u64_lt [of limit] by (simp add: word_less_nat_alt)
  then show "current < limit \<Longrightarrow>
     unat (current + min requested (limit - current)) = unat current + unat (min requested (limit - current))"
    by (simp add: unat_add_no_wrap)
  show "allow_projection requested limit current =
     (if limit \<le> current then Err (DataLimitReached limit)
      else Ok (min requested (limit - current), current + min requested (limit - current)))"
    using fits by (auto simp: allow_projection_def Let_def checked_add_def)
qed

text \<open>Calls of \<open>allow\<close> on one counter, interleaved.\<close>

datatype allow_call = Loading u64 | Exchanging u64 u64

record allow_state =
  as_used :: u64
  as_calls :: "allow_call multiset"
  as_granted :: "u64 list"

inductive allow_step :: "u64 \<Rightarrow> allow_state \<Rightarrow> allow_state \<Rightarrow> bool" for limit where
  begin_call: "allow_step limit s (s\<lparr>as_calls := add_mset (Loading requested) (as_calls s)\<rparr>)"
| load_refused: "as_calls s = add_mset (Loading requested) P
    \<Longrightarrow> allow_projection requested limit (as_used s) = Err e \<Longrightarrow> allow_step limit s (s\<lparr>as_calls := P\<rparr>)"
| load_allowed: "as_calls s = add_mset (Loading requested) P
    \<Longrightarrow> allow_projection requested limit (as_used s) = Ok v
    \<Longrightarrow> allow_step limit s (s\<lparr>as_calls := add_mset (Exchanging requested (as_used s)) P\<rparr>)"
| exchange: "as_calls s = add_mset (Exchanging requested current) P \<Longrightarrow> as_used s = current
    \<Longrightarrow> allow_projection requested limit current = Ok (allowed, projected)
    \<Longrightarrow> allow_step limit s (s\<lparr>as_used := projected, as_calls := P, as_granted := allowed # as_granted s\<rparr>)"
| retry: "as_calls s = add_mset (Exchanging requested current) P
    \<Longrightarrow> allow_step limit s (s\<lparr>as_calls := add_mset (Loading requested) P\<rparr>)"

inductive allow_reachable :: "u64 \<Rightarrow> u64 \<Rightarrow> allow_state \<Rightarrow> bool" for limit initial where
  start: "allow_reachable limit initial \<lparr>as_used = initial, as_calls = {#}, as_granted = []\<rparr>"
| step: "allow_reachable limit initial s \<Longrightarrow> allow_step limit s s' \<Longrightarrow> allow_reachable limit initial s'"

lemma allow_reachable_inv:
  assumes "allow_reachable limit initial s" "initial < limit"
  shows "unat (as_used s) = unat initial + sum_list (map unat (as_granted s)) \<and> as_used s \<le> limit"
  using assms
proof (induction rule: allow_reachable.induct)
  case (step s s')
  from step.hyps(2) step.IH [OF step.prems] show ?case
  proof (cases rule: allow_step.cases)
    case (exchange requested current P allowed projected)
    then have "current < limit" "allowed = min requested (limit - current)" "projected = current + allowed"
      by (auto simp: allow_projection_cases split: if_splits)
    moreover from this have "unat allowed \<le> unat limit - unat current" using allowed_le by blast
    ultimately have "unat projected = unat current + unat allowed" "unat projected \<le> unat limit"
      using allow_projection_sum [of current limit requested] by (auto simp: word_less_nat_alt)
    with exchange step.IH [OF step.prems] show ?thesis by (simp add: word_le_nat_alt)
  qed auto
qed (simp add: order.strict_implies_order)

text \<open>
  Property C18. The data limit holds under every interleaving of the tunnels that share a counter:
  the counter is exactly what was used before plus the bytes granted to all calls, never wraps,
  and never passes the limit.
\<close>

theorem granted_bytes_bounded:
  assumes "allow_reachable limit initial s" "initial < limit"
  shows "unat (as_used s) = unat initial + sum_list (map unat (as_granted s))
    \<and> unat initial + sum_list (map unat (as_granted s)) \<le> unat limit"
  using allow_reachable_inv [OF assms] by (simp add: word_le_nat_alt)

theorem granted_bytes_bounded_witness:
  "unat (10 :: u64) = unat (4 :: u64) + sum_list (map unat [6 :: u64])
   \<and> unat (4 :: u64) + sum_list (map unat [6 :: u64]) \<le> unat (10 :: u64)"
proof -
  let ?s = "\<lambda>u c g. \<lparr>as_used = u, as_calls = c, as_granted = g\<rparr>"
  have p: "allow_projection 16 10 4 = Ok (6, 10)" by (simp add: allow_projection_cases)
  have "allow_reachable 10 4 (?s 4 {#} [])" by (rule allow_reachable.start)
  from allow_reachable.step [OF this allow_step.begin_call, of 16]
  have "allow_reachable 10 4 (?s 4 {#Loading 16#} [])" by simp
  from allow_reachable.step [OF this allow_step.load_allowed, of 16 "{#}"] p
  have "allow_reachable 10 4 (?s 4 {#Exchanging 16 4#} [])" by simp
  from allow_reachable.step [OF this allow_step.exchange, of 16 4 "{#}"] p
  have "allow_reachable 10 4 (?s 10 {#} [6])" by simp
  from granted_bytes_bounded [OF this] show ?thesis by simp
qed

end
