(* ===== verification/Data_Session.thy ===== *)
theory Data_Session
  imports Data_Limit
begin

text \<open>
  The cache of period counters and the sessions of tunnels (\<open>CustomerDataLimiter\<close>,
  \<open>CustomerDataSession\<close> of \<open>src/src/main.rs\<close>). A counter is created from the bytes the account
  database has for all workspaces of the account; a session adds what it transfers to two counters
  of its own and from time to time records the difference to the database.
\<close>

section \<open>The cache of counters\<close>

type_synonym period_key = "AccountId \<times> UnixTimestamp"

record data_limiter =
  dl_policy :: SingleTierPolicy
  dl_states :: "(period_key, nat) hashmap"
  dl_max_cached_periods :: nat
  dl_sequence :: u64
  dl_poisoned :: bool
  dl_heap :: "nat \<Rightarrow> CustomerPeriodUsage"
  dl_fresh :: nat
  dl_holders :: "(period_key \<times> nat) multiset"

definition CustomerDataLimiter_new ::
    "(nat \<Rightarrow> CustomerPeriodUsage) \<Rightarrow> SingleTierPolicy \<Rightarrow> nat \<Rightarrow> (data_limiter, string) result" where
  "CustomerDataLimiter_new memory policy max_cached_periods =
     (if max_cached_periods = 0 then Err ''customer data-limit cache capacity must be positive''
      else Ok \<lparr>dl_policy = policy, dl_states = [], dl_max_cached_periods = max_cached_periods,
                dl_sequence = 1, dl_poisoned = False, dl_heap = memory, dl_fresh = 0, dl_holders = {#}\<rparr>)"

definition period_strong_count :: "data_limiter \<Rightarrow> nat \<Rightarrow> nat" where
  "period_strong_count l r = length (filter (\<lambda>e. snd e = r) (dl_states l))
     + size (filter_mset (\<lambda>h. snd h = r) (dl_holders l))"

definition eviction_key :: "data_limiter \<Rightarrow> period_key option" where
  "eviction_key l = map_option fst (min_by_key (\<lambda>e. pu_last_used (dl_heap l (snd e)))
     (filter (\<lambda>e. period_strong_count l (snd e) = 1) (dl_states l)))"

definition evict_period :: "data_limiter \<Rightarrow> data_limiter" where
  "evict_period l =
     (if length (dl_states l) \<ge> dl_max_cached_periods l
      then case eviction_key l of
             Some k \<Rightarrow> l\<lparr>dl_states := hm_remove k (dl_states l)\<rparr>
           | None \<Rightarrow> l
      else l)"

text \<open>The bytes recorded for the period in all workspaces of the account.\<close>

primrec sum_workspace_usage ::
    "AccountId \<Rightarrow> UnixTimestamp \<Rightarrow> WorkspaceRecord list \<Rightarrow> u64 \<Rightarrow> (u64, AccountManagementError) dbm" where
  "sum_workspace_usage account_id period_start [] acc = db_return acc"
| "sum_workspace_usage account_id period_start (w # ws) acc =
     db_bind (db_usage_for_scope account_id (workspace_record_id w) period_start) (\<lambda>snapshot.
     db_bind (db_lift (UsageSnapshot_total_bytes snapshot)) (\<lambda>bytes.
     db_bind (db_lift (ok_or CounterOverflow (checked_add acc bytes))) (\<lambda>acc'.
     sum_workspace_usage account_id period_start ws acc')))"

definition persisted_bytes :: "AccountId \<Rightarrow> UnixTimestamp \<Rightarrow> (u64, AccountManagementError) dbm" where
  "persisted_bytes account_id period_start =
     db_bind (db_list_workspaces account_id) (\<lambda>ws. sum_workspace_usage account_id period_start ws 0)"

definition insert_period :: "period_key \<Rightarrow> u64 \<Rightarrow> u64 \<Rightarrow> data_limiter \<Rightarrow> data_limiter" where
  "insert_period key used seq l =
     l\<lparr>dl_states := hm_insert key (dl_fresh l) (dl_states l),
       dl_heap := (dl_heap l)(dl_fresh l := CustomerPeriodUsage_new used seq),
       dl_fresh := Suc (dl_fresh l)\<rparr>"

definition period_state_for ::
    "IngressIdentity \<Rightarrow> UnixTimestamp \<Rightarrow> data_limiter \<Rightarrow> connection
      \<Rightarrow> (nat, CustomerDataAdmissionError) result \<times> data_limiter \<times> connection" where
  "period_state_for identity period_start l0 c =
     (let configured_limit = policy_period_byte_limit (dl_policy l0);
          stored_limit = period_byte_limit (identity_limits identity)
      in if stored_limit \<noteq> Some configured_limit
         then (Err (TierConfigurationMismatch configured_limit stored_limit), l0, c)
         else
           let key = (identity_account_id identity, period_start);
               seq = dl_sequence l0;
               l1 = l0\<lparr>dl_sequence := seq + 1\<rparr>
           in if dl_poisoned l1 then (Err DataStatePoisoned, l1, c)
              else case hm_get (dl_states l1) key of
                Some r \<Rightarrow>
                  (Ok r, l1\<lparr>dl_heap := (dl_heap l1)(r := (dl_heap l1 r)\<lparr>pu_last_used := seq\<rparr>)\<rparr>, c)
              | None \<Rightarrow>
                  let l2 = evict_period l1 in
                  if length (dl_states l2) \<ge> dl_max_cached_periods l2
                  then (Err DataStateCapacityReached, l2, c)
                  else (case persisted_bytes (identity_account_id identity) period_start c of
                          (Inl e, c') \<Rightarrow> (Err (DataStorage e), l2, c')
                        | (Inr used, c') \<Rightarrow>
                            if used \<ge> configured_limit
                            then (Err (DataLimitReached configured_limit), l2, c')
                            else (Ok (dl_fresh l2), insert_period key used seq l2, c')))"

section \<open>Sessions\<close>

datatype CustomerDataDirection = ToTor | FromTor

record CustomerDataSession =
  ses_identity :: IngressIdentity
  ses_period_start :: UnixTimestamp
  ses_limit :: u64
  ses_state :: nat
  ses_bytes_to_tor :: u64
  ses_bytes_from_tor :: u64
  ses_persisted_to_tor :: u64
  ses_persisted_from_tor :: u64

definition limiter_ensure_available ::
    "IngressIdentity \<Rightarrow> UnixTimestamp \<Rightarrow> data_limiter \<Rightarrow> connection
      \<Rightarrow> (unit, CustomerDataAdmissionError) result \<times> data_limiter \<times> connection" where
  "limiter_ensure_available identity period_start l c =
     (case period_state_for identity period_start l c of
        (Inl e, l', c') \<Rightarrow> (Err e, l', c')
      | (Inr r, l', c') \<Rightarrow>
          (period_ensure_available (policy_period_byte_limit (dl_policy l')) (dl_heap l' r), l', c'))"

definition CustomerDataSession_new ::
    "IngressIdentity \<Rightarrow> UnixTimestamp \<Rightarrow> u64 \<Rightarrow> nat \<Rightarrow> CustomerDataSession" where
  "CustomerDataSession_new identity period_start limit r =
     \<lparr>ses_identity = identity, ses_period_start = period_start, ses_limit = limit, ses_state = r,
      ses_bytes_to_tor = 0, ses_bytes_from_tor = 0, ses_persisted_to_tor = 0, ses_persisted_from_tor = 0\<rparr>"

text \<open>An opened session keeps its reference to the counter; a refused one drops it.\<close>

definition limiter_open_session ::
    "IngressIdentity \<Rightarrow> UnixTimestamp \<Rightarrow> data_limiter \<Rightarrow> connection
      \<Rightarrow> (CustomerDataSession, CustomerDataAdmissionError) result \<times> data_limiter \<times> connection" where
  "limiter_open_session identity period_start l c =
     (case period_state_for identity period_start l c of
        (Inl e, l', c') \<Rightarrow> (Err e, l', c')
      | (Inr r, l', c') \<Rightarrow>
          (case period_ensure_available (policy_period_byte_limit (dl_policy l')) (dl_heap l' r) of
             Inl e \<Rightarrow> (Err e, l', c')
           | Inr _ \<Rightarrow>
               (Ok (CustomerDataSession_new identity period_start
                      (policy_period_byte_limit (dl_policy l')) r),
                l'\<lparr>dl_holders := add_mset ((identity_account_id identity, period_start), r) (dl_holders l')\<rparr>,
                c')))"

definition session_allow ::
    "u64 \<Rightarrow> CustomerDataSession \<Rightarrow> data_limiter
      \<Rightarrow> (CustomerDataAllowance, CustomerDataAdmissionError) result \<times> data_limiter" where
  "session_allow requested s l =
     (case period_allow requested (ses_limit s) (dl_heap l (ses_state s)) of
        (res, usage) \<Rightarrow> (res, l\<lparr>dl_heap := (dl_heap l)(ses_state s := usage)\<rparr>))"

definition record_transferred :: "CustomerDataDirection \<Rightarrow> u64 \<Rightarrow> CustomerDataSession \<Rightarrow> CustomerDataSession" where
  "record_transferred direction bytes s =
     (case direction of
        ToTor \<Rightarrow> s\<lparr>ses_bytes_to_tor := ses_bytes_to_tor s + bytes\<rparr>
      | FromTor \<Rightarrow> s\<lparr>ses_bytes_from_tor := ses_bytes_from_tor s + bytes\<rparr>)"

definition ACCOUNT_USAGE_CHECKPOINT_BYTES :: u64 where
  "ACCOUNT_USAGE_CHECKPOINT_BYTES = 1024 * 1024"

definition checkpoint_due :: "CustomerDataSession \<Rightarrow> bool" where
  "checkpoint_due s \<longleftrightarrow>
     saturating_add (saturating_sub (ses_bytes_to_tor s) (ses_persisted_to_tor s))
       (saturating_sub (ses_bytes_from_tor s) (ses_persisted_from_tor s)) \<ge> ACCOUNT_USAGE_CHECKPOINT_BYTES"

text \<open>
  The errors of a checkpoint: a counter that moved backwards, the account store, a blocking worker
  that was not run. \<open>worker\<close> is \<open>Some message\<close> when the runtime does not run the task.
\<close>

datatype checkpoint_error =
    Checkpoint_Backwards string
  | Checkpoint_Storage AccountManagementError
  | Checkpoint_Worker string

definition record_account_bytes ::
    "string option \<Rightarrow> IngressIdentity \<Rightarrow> UnixTimestamp \<Rightarrow> u64 \<Rightarrow> u64 \<Rightarrow> (unit, checkpoint_error) dbm" where
  "record_account_bytes worker identity period_start bytes_to_tor bytes_from_tor =
     db_bind (db_lift (map_err Checkpoint_Storage (UsageDelta_new 0 bytes_to_tor bytes_from_tor))) (\<lambda>delta.
     case worker of
       Some error \<Rightarrow> db_lift (Err (Checkpoint_Worker (''account usage worker failed: '' @ error)))
     | None \<Rightarrow> db_bind (db_map_err Checkpoint_Storage (db_record_usage identity period_start delta))
                 (\<lambda>_. db_return ()))"

definition session_checkpoint ::
    "string option \<Rightarrow> CustomerDataSession \<Rightarrow> connection
      \<Rightarrow> (unit, checkpoint_error) result \<times> CustomerDataSession \<times> connection" where
  "session_checkpoint worker s c =
     (case checked_sub (ses_bytes_to_tor s) (ses_persisted_to_tor s) of
        None \<Rightarrow> (Err (Checkpoint_Backwards ''account upload checkpoint moved backwards''), s, c)
      | Some delta_to_tor \<Rightarrow>
     (case checked_sub (ses_bytes_from_tor s) (ses_persisted_from_tor s) of
        None \<Rightarrow> (Err (Checkpoint_Backwards ''account download checkpoint moved backwards''), s, c)
      | Some delta_from_tor \<Rightarrow>
          if delta_to_tor = 0 \<and> delta_from_tor = 0 then (Ok (), s, c)
          else (case record_account_bytes worker (ses_identity s) (ses_period_start s)
                       delta_to_tor delta_from_tor c of
                  (Inl e, c') \<Rightarrow> (Err e, s, c')
                | (Inr _, c') \<Rightarrow>
                    (Ok (), s\<lparr>ses_persisted_to_tor := ses_bytes_to_tor s,
                              ses_persisted_from_tor := ses_bytes_from_tor s\<rparr>, c'))))"

section \<open>What a checkpoint records\<close>

datatype session_op = Transfer CustomerDataDirection u64 | Checkpoint "string option"

primrec session_step ::
    "session_op \<Rightarrow> CustomerDataSession \<times> connection \<Rightarrow> CustomerDataSession \<times> connection" where
  "session_step (Transfer direction bytes) sc = (record_transferred direction bytes (fst sc), snd sc)"
| "session_step (Checkpoint worker) sc = snd (session_checkpoint worker (fst sc) (snd sc))"

definition session_run :: "session_op list \<Rightarrow> CustomerDataSession \<times> connection \<Rightarrow> CustomerDataSession \<times> connection" where
  "session_run ops sc = foldl (\<lambda>sc p. session_step p sc) sc ops"

primrec transferred :: "CustomerDataDirection \<Rightarrow> session_op list \<Rightarrow> nat" where
  "transferred d [] = 0"
| "transferred d (p # ps) = (case p of Transfer d' n \<Rightarrow> if d' = d then unat n else 0 | Checkpoint w \<Rightarrow> 0)
     + transferred d ps"

lemma record_account_bytes_Err:
  assumes "record_account_bytes worker i ps a b c = (Err e, c')"
  shows "tbls c' = tbls c"
  using assms atomicD [OF atomic_record_usage]
  by (auto simp: record_account_bytes_def dbm_simps split: option.splits)

lemma record_account_bytes_Ok:
  assumes "record_account_bytes worker i ps a b c = (Ok u, c')" "counters_ok (tbls c)"
  shows "counters_ok (tbls c') \<and> usage_of (tbls c') = (usage_of (tbls c))(scope_key i ps :=
    add_usage (usage_of (tbls c) (scope_key i ps)) \<lparr>delta_requests = 0, delta_bytes_to_tor = a, delta_bytes_from_tor = b\<rparr>)"
proof -
  from assms(1) obtain snap where
    "db_record_usage i ps \<lparr>delta_requests = 0, delta_bytes_to_tor = a, delta_bytes_from_tor = b\<rparr> c = (Ok snap, c')"
    by (auto simp: record_account_bytes_def UsageDelta_new_def dbm_simps split: option.splits)
  from record_usage_Ok [OF this assms(2)] show ?thesis by simp
qed

definition recorded :: "u64 \<Rightarrow> u64 \<Rightarrow> UsageDelta" where
  "recorded a b = \<lparr>delta_requests = 0, delta_bytes_to_tor = a, delta_bytes_from_tor = b\<rparr>"

text \<open>
  The state of a session relative to the tables at its opening: the database has what the session
  marked as persisted, and the counters are the bytes transferred.
\<close>

definition session_inv ::
    "(int \<times> int \<times> int \<Rightarrow> int \<times> int \<times> int) \<Rightarrow> nat \<Rightarrow> nat \<Rightarrow> CustomerDataSession \<times> connection \<Rightarrow> bool" where
  "session_inv u0 n m sc \<longleftrightarrow> (case sc of (s, c) \<Rightarrow>
     (let k = scope_key (ses_identity s) (ses_period_start s) in
      counters_ok (tbls c)
      \<and> usage_of (tbls c) = u0(k := add_usage (u0 k) (recorded (ses_persisted_to_tor s) (ses_persisted_from_tor s)))
      \<and> unat (ses_bytes_to_tor s) = n \<and> unat (ses_bytes_from_tor s) = m
      \<and> ses_persisted_to_tor s \<le> ses_bytes_to_tor s \<and> ses_persisted_from_tor s \<le> ses_bytes_from_tor s))"

lemma session_checkpoint_cases:
  assumes "session_inv u0 n m (s, c)"
  obtains (idle) "session_checkpoint worker s c = (Ok (), s, c)"
      "ses_persisted_to_tor s = ses_bytes_to_tor s" "ses_persisted_from_tor s = ses_bytes_from_tor s"
    | (failed) e c' where "session_checkpoint worker s c = (Err e, s, c')" "tbls c' = tbls c"
    | (written) c' where "session_checkpoint worker s c =
          (Ok (), s\<lparr>ses_persisted_to_tor := ses_bytes_to_tor s, ses_persisted_from_tor := ses_bytes_from_tor s\<rparr>, c')"
        "record_account_bytes worker (ses_identity s) (ses_period_start s)
           (ses_bytes_to_tor s - ses_persisted_to_tor s) (ses_bytes_from_tor s - ses_persisted_from_tor s) c = (Ok (), c')"
proof -
  let ?a = "ses_bytes_to_tor s - ses_persisted_to_tor s" and ?b = "ses_bytes_from_tor s - ses_persisted_from_tor s"
  have subs: "checked_sub (ses_bytes_to_tor s) (ses_persisted_to_tor s) = Some ?a"
      "checked_sub (ses_bytes_from_tor s) (ses_persisted_from_tor s) = Some ?b"
    using assms by (auto simp: session_inv_def Let_def checked_sub_def)
  obtain r c' where rec: "record_account_bytes worker (ses_identity s) (ses_period_start s) ?a ?b c = (r, c')"
    by fastforce
  have chk: "session_checkpoint worker s c = (if ?a = 0 \<and> ?b = 0 then (Ok (), s, c)
      else case r of Inl e \<Rightarrow> (Err e, s, c') | Inr _ \<Rightarrow>
        (Ok (), s\<lparr>ses_persisted_to_tor := ses_bytes_to_tor s, ses_persisted_from_tor := ses_bytes_from_tor s\<rparr>, c'))"
    by (simp only: session_checkpoint_def subs rec option.case prod.case)
  show thesis
  proof (cases "?a = 0 \<and> ?b = 0")
    case True
    then show thesis using chk by (intro idle) simp_all
  next
    case False
    show thesis
    proof (cases r)
      case (Inl e)
      with False chk have "session_checkpoint worker s c = (Err e, s, c')" by (simp only: if_False sum.case)
      then show thesis by (rule failed [OF _ record_account_bytes_Err [OF rec [unfolded Inl]]])
    next
      case (Inr u)
      then have "r = Ok ()" by simp
      with False chk rec show thesis by (intro written [of c']) (simp_all only: if_False sum.case)
    qed
  qed
qed

lemma add_usage_difference:
  assumes "p \<le> a" "q \<le> b"
  shows "add_usage (add_usage u (recorded p q)) (recorded (a - p) (b - q)) = add_usage u (recorded a b)"
  using assms by (cases u) (simp add: add_usage_def recorded_def uint_minus_simple_alt word_le_def)

lemma session_checkpoint_inv:
  assumes inv: "session_inv u0 n m (s, c)" and "session_checkpoint worker s c = (res, s', c')"
  shows "session_inv u0 n m (s', c')"
    and "res = Ok () \<Longrightarrow> ses_persisted_to_tor s' = ses_bytes_to_tor s \<and> ses_persisted_from_tor s' = ses_bytes_from_tor s
      \<and> ses_identity s' = ses_identity s \<and> ses_period_start s' = ses_period_start s"
    and "res = Err e \<Longrightarrow> s' = s \<and> tbls c' = tbls c"
proof -
  show "session_inv u0 n m (s', c')"
    using inv
  proof (cases rule: session_checkpoint_cases [of _ _ _ _ _ worker])
    case (written c1)
    let ?k = "scope_key (ses_identity s) (ses_period_start s)"
    have old: "counters_ok (tbls c)" "usage_of (tbls c) = u0(?k := add_usage (u0 ?k)
        (recorded (ses_persisted_to_tor s) (ses_persisted_from_tor s)))"
        "ses_persisted_to_tor s \<le> ses_bytes_to_tor s" "ses_persisted_from_tor s \<le> ses_bytes_from_tor s"
      using inv by (simp_all add: session_inv_def Let_def)
    from record_account_bytes_Ok [OF written(2) old(1)] old(2)
    have "counters_ok (tbls c1)" "usage_of (tbls c1) = u0(?k := add_usage (u0 ?k)
        (recorded (ses_bytes_to_tor s) (ses_bytes_from_tor s)))"
      using add_usage_difference [OF old(3,4)] by (simp_all flip: recorded_def)
    with written(1) assms(2) inv show ?thesis by (simp add: session_inv_def Let_def)
  qed (use assms(2) inv in \<open>auto simp: session_inv_def Let_def\<close>)
  show "res = Ok () \<Longrightarrow> ses_persisted_to_tor s' = ses_bytes_to_tor s \<and> ses_persisted_from_tor s' = ses_bytes_from_tor s
      \<and> ses_identity s' = ses_identity s \<and> ses_period_start s' = ses_period_start s"
    and "res = Err e \<Longrightarrow> s' = s \<and> tbls c' = tbls c"
    using assms(2) by (cases rule: session_checkpoint_cases [OF inv, of worker]; auto)+
qed

lemma session_run_inv:
  assumes "session_inv u0 n m sc"
    and "n + transferred ToTor ops < 2 ^ 64" "m + transferred FromTor ops < 2 ^ 64"
  shows "session_inv u0 (n + transferred ToTor ops) (m + transferred FromTor ops) (session_run ops sc)
    \<and> ses_identity (fst (session_run ops sc)) = ses_identity (fst sc)
    \<and> ses_period_start (fst (session_run ops sc)) = ses_period_start (fst sc)"
  using assms
proof (induction ops arbitrary: n m sc)
  case Nil
  then show ?case by (simp add: session_run_def)
next
  case (Cons p ops)
  obtain s c where sc: "sc = (s, c)" by fastforce
  show ?case
  proof (cases p)
    case (Transfer d x)
    let ?n = "n + (if d = ToTor then unat x else 0)" and ?m = "m + (if d = FromTor then unat x else 0)"
    have wrap: "\<And>y :: u64. unat y + unat x < 2 ^ 64 \<Longrightarrow> unat (y + x) = unat y + unat x \<and> y \<le> y + x"
      by (simp add: unat_add_no_wrap word_le_nat_alt)
    have "unat (ses_bytes_to_tor s) = n" "unat (ses_bytes_from_tor s) = m"
      using Cons.prems(1) sc by (simp_all add: session_inv_def Let_def)
    then have "d = ToTor \<Longrightarrow> unat (ses_bytes_to_tor s) + unat x < 2 ^ 64"
        "d = FromTor \<Longrightarrow> unat (ses_bytes_from_tor s) + unat x < 2 ^ 64"
      using Cons.prems(2,3) Transfer by auto
    then have "session_inv u0 ?n ?m (session_step p sc)"
      using Cons.prems(1) sc Transfer wrap [of "ses_bytes_to_tor s"] wrap [of "ses_bytes_from_tor s"]
      by (cases d) (auto simp: session_inv_def Let_def record_transferred_def intro: order_trans)
    moreover have "ses_identity (fst (session_step p sc)) = ses_identity (fst sc)"
        "ses_period_start (fst (session_step p sc)) = ses_period_start (fst sc)"
      using Transfer by (auto simp: record_transferred_def split: CustomerDataDirection.splits)
    ultimately show ?thesis
      using Cons.IH [of ?n ?m "session_step p sc"] Cons.prems(2,3) Transfer
      by (simp add: session_run_def add.assoc)
  next
    case (Checkpoint worker)
    obtain res s' c' where r: "session_checkpoint worker s c = (res, s', c')" by (metis prod_cases3)
    note inv = Cons.prems(1) [unfolded sc]
    have "session_inv u0 n m (session_step p sc)"
      using session_checkpoint_inv(1) [OF inv r] r sc Checkpoint by simp
    moreover have "ses_identity s' = ses_identity s \<and> ses_period_start s' = ses_period_start s"
      using session_checkpoint_inv(2,3) [OF inv r] by (cases res) auto
    ultimately show ?thesis
      using Cons.IH [of n m "session_step p sc"] Cons.prems(2,3) Checkpoint r sc
      by (simp add: session_run_def)
  qed
qed

lemma word_of_nat_unat: "of_nat (unat w) = (w :: 'a::len word)"
  by simp

lemma new_session_inv:
  "counters_ok (tbls c) \<Longrightarrow> session_inv (usage_of (tbls c)) 0 0 (CustomerDataSession_new i ps limit r, c)"
  by (auto simp: session_inv_def CustomerDataSession_new_def recorded_def add_usage_def Let_def split: prod.splits)

text \<open>
  Property C19. Bytes are recorded exactly once: whatever transfers, checkpoints, failures of the
  store and of the worker a session went through, the database has for its scope and period what
  it had at the opening plus what the session marked as persisted, nothing else changed, and the
  next checkpoint either brings it to all bytes transferred so far or changes nothing.
\<close>

theorem checkpoints_record_exactly_once:
  assumes "counters_ok (tbls c)"
    and "transferred ToTor ops < 2 ^ 64" "transferred FromTor ops < 2 ^ 64"
    and "session_run ops (CustomerDataSession_new i ps limit r, c) = (s, c1)"
    and "session_checkpoint worker s c1 = (res, s', c2)"
  defines "k \<equiv> scope_key i ps" and "u0 \<equiv> usage_of (tbls c)"
  shows "usage_of (tbls c1) = u0(k := add_usage (u0 k) (recorded (ses_persisted_to_tor s) (ses_persisted_from_tor s)))
    \<and> unat (ses_persisted_to_tor s) \<le> transferred ToTor ops
    \<and> unat (ses_persisted_from_tor s) \<le> transferred FromTor ops
    \<and> (case res of
         Inr _ \<Rightarrow> usage_of (tbls c2) = u0(k := add_usage (u0 k)
           (recorded (of_nat (transferred ToTor ops)) (of_nat (transferred FromTor ops))))
       | Inl e \<Rightarrow> s' = s \<and> tbls c2 = tbls c1)"
proof -
  have run: "session_inv u0 (transferred ToTor ops) (transferred FromTor ops) (s, c1)"
      and ids: "ses_identity s = i" "ses_period_start s = ps"
    using session_run_inv [OF new_session_inv [OF assms(1)], of ops i ps limit r] assms(2-4) u0_def
    by (simp_all add: CustomerDataSession_new_def)
  have inv2: "session_inv u0 (transferred ToTor ops) (transferred FromTor ops) (s', c2)"
    by (rule session_checkpoint_inv(1) [OF run assms(5)])
  have n: "ses_bytes_to_tor s = of_nat (transferred ToTor ops)" "ses_bytes_from_tor s = of_nat (transferred FromTor ops)"
    using run word_of_nat_unat [of "ses_bytes_to_tor s"] word_of_nat_unat [of "ses_bytes_from_tor s"]
    by (simp_all add: session_inv_def Let_def)
  show ?thesis
    using run inv2 ids n session_checkpoint_inv(2,3) [OF run assms(5)]
    unfolding k_def by (cases res) (simp_all add: session_inv_def Let_def word_le_nat_alt)
qed

definition demo_session :: CustomerDataSession where
  "demo_session = CustomerDataSession_new demo_identity (UnixTimestamp 0) 100 0"

theorem checkpoints_record_exactly_once_witness:
  "unat (ses_persisted_to_tor (fst (session_run [Transfer ToTor 5, Checkpoint (Some ''gone'')]
      (demo_session, demo_connection)))) \<le> 5
   \<and> usage_of (tbls (snd (session_run [Transfer ToTor 5, Checkpoint (Some ''gone'')] (demo_session, demo_connection))))
     = (usage_of (tbls demo_connection))(scope_key demo_identity (UnixTimestamp 0) :=
         add_usage (usage_of (tbls demo_connection) (scope_key demo_identity (UnixTimestamp 0)))
           (recorded (ses_persisted_to_tor (fst (session_run [Transfer ToTor 5, Checkpoint (Some ''gone'')]
               (demo_session, demo_connection))))
             (ses_persisted_from_tor (fst (session_run [Transfer ToTor 5, Checkpoint (Some ''gone'')]
               (demo_session, demo_connection))))))"
proof -
  let ?ops = "[Transfer ToTor 5, Checkpoint (Some ''gone'')]"
  obtain s c1 where run: "session_run ?ops (demo_session, demo_connection) = (s, c1)" by fastforce
  obtain res s' c2 where chk: "session_checkpoint None s c1 = (res, s', c2)" by (metis prod_cases3)
  have ok: "counters_ok (tbls demo_connection)" by (simp add: demo_counters_ok demo_connection_simps)
  from checkpoints_record_exactly_once [OF ok _ _ run [unfolded demo_session_def] chk] show ?thesis
    unfolding run by simp
qed

section \<open>What a new counter starts from\<close>

definition usage_bytes :: "tables \<Rightarrow> int \<times> int \<times> int \<Rightarrow> int" where
  "usage_bytes t k = (case usage_of t k of (r, a, b) \<Rightarrow> a + b)"

lemma usage_counters_Ok:
  assumes "usage_counters_from_row (select_usage a w p t) = Ok (x, y, z)" "counters_ok t"
  shows "usage_of t (a, w, p) = (uint x, uint y, uint z)"
proof -
  obtain r' a' b' where u: "usage_of t (a, w, p) = (r', a', b')" by (cases "usage_of t (a, w, p)")
  have "usage_counters_from_row (Some (r', a', b')) = Ok (x, y, z)"
    using assms(1) u by (auto simp: select_usage_def usage_of_def usage_counters_from_row_def split: option.splits)
  then show ?thesis
    using usage_of_bounds [OF assms(2) u] u
    by (auto simp: usage_counters_from_row_def nonnegative_u64_from_database_def
        u64_try_from_i64_def uint_of_int_i64 split: if_splits)
qed

lemma usage_for_scope_Ok:
  assumes "db_usage_for_scope a w p c = (Ok snap, c')" "counters_ok (tbls c)"
    and "UsageSnapshot_total_bytes snap = Ok n"
  shows "tbls c' = tbls c \<and> uint n = usage_bytes (tbls c) (account_id_as_i64 a, workspace_id_as_i64 w, timestamp_as_i64 p)"
proof -
  from assms(1) obtain x y z where
    v: "usage_counters_from_row (select_usage (account_id_as_i64 a) (workspace_id_as_i64 w) (timestamp_as_i64 p) (tbls c)) = Ok (x, y, z)"
    and snap: "snapshot_bytes_to_tor snap = y" "snapshot_bytes_from_tor snap = z" and t: "tbls c' = tbls c"
    by (auto simp: db_usage_for_scope_def require_workspace_scope_def dbm_simps split: if_splits)
  from assms(3) snap have "n = y + z" "unat y + unat z < 2 ^ 64"
    by (auto simp: UsageSnapshot_total_bytes_def u64_simps)
  then have "uint n = uint y + uint z" using uint_add_no_wrap [of y z] by simp
  with usage_counters_Ok [OF v assms(2)] t show ?thesis by (simp add: usage_bytes_def)
qed

lemma sum_workspace_usage_Ok:
  assumes "sum_workspace_usage a p ws acc c = (Ok n, c')" "counters_ok (tbls c)"
  shows "tbls c' = tbls c \<and> uint n = uint acc + sum_list (map (\<lambda>w. usage_bytes (tbls c)
    (account_id_as_i64 a, workspace_id_as_i64 (workspace_record_id w), timestamp_as_i64 p)) ws)"
  using assms
proof (induction ws arbitrary: acc c)
  case (Cons w ws)
  from Cons.prems(1) obtain snap c1 bytes acc1 where
      1: "db_usage_for_scope a (workspace_record_id w) p c = (Ok snap, c1)"
    and 2: "UsageSnapshot_total_bytes snap = Ok bytes"
    and 3: "acc1 = acc + bytes" "unat acc + unat bytes < 2 ^ 64"
    and 4: "sum_workspace_usage a p ws acc1 c1 = (Ok n, c')"
    by (auto simp: dbm_simps u64_simps)
  note one = usage_for_scope_Ok [OF 1 Cons.prems(2) 2]
  have "uint acc1 = uint acc + uint bytes" using 3 uint_add_no_wrap [of acc bytes] by simp
  with Cons.IH [OF 4] one Cons.prems(2) show ?case by simp
qed (simp add: dbm_simps)

lemma workspaces_listed:
  assumes "db_list_workspaces a c = (Ok ws, c')"
  shows "tbls c' = tbls c \<and> map (workspace_id_as_i64 \<circ> workspace_record_id) ws =
    map w_id (sort_key w_id (filter (\<lambda>r. w_account_id r = account_id_as_i64 a) (workspaces (tbls c))))"
proof -
  let ?rows = "sort_key w_id (filter (\<lambda>r. w_account_id r = account_id_as_i64 a) (workspaces (tbls c)))"
  have t: "tbls c' = tbls c" and "list_all2 (\<lambda>row w.
      and_then (WorkspaceId_from_database (w_id row)) (\<lambda>i.
      and_then (WorkspaceStatus_from_database (w_status row)) (\<lambda>s.
      Ok \<lparr>workspace_record_id = i, workspace_record_account_id = a,
          workspace_record_name = w_name row, workspace_record_status = s\<rparr>)) = Ok w) ?rows ws"
    using assms by (auto simp: db_list_workspaces_def record_exists_def dbm_simps try_map_eq_Ok split: if_splits)
  then have "list_all2 (\<lambda>row w. WorkspaceId_from_database (w_id row) = Ok (workspace_record_id w)) ?rows ws"
    by (elim list_all2_mono) auto
  then have "list_all2 (\<lambda>row w. w_id row = workspace_id_as_i64 (workspace_record_id w)) ?rows ws"
    by (elim list_all2_mono) (metis WorkspaceId.sel WorkspaceId_from_database_def sum.distinct(1) sum.inject(2))
  then have "map w_id ?rows = map (workspace_id_as_i64 \<circ> workspace_record_id) ws"
    by (simp add: list_all2_map1 list_all2_map2 flip: list.rel_eq)
  with t show ?thesis by simp
qed

lemma persisted_bytes_Ok:
  assumes "persisted_bytes a p c = (Ok n, c')" "counters_ok (tbls c)"
  shows "tbls c' = tbls c \<and> uint n = sum_list (map (\<lambda>w. usage_bytes (tbls c)
    (account_id_as_i64 a, w_id w, timestamp_as_i64 p))
    (filter (\<lambda>r. w_account_id r = account_id_as_i64 a) (workspaces (tbls c))))"
proof -
  let ?f = "\<lambda>w. usage_bytes (tbls c) (account_id_as_i64 a, w, timestamp_as_i64 p)"
  let ?rows = "filter (\<lambda>r. w_account_id r = account_id_as_i64 a) (workspaces (tbls c))"
  from assms(1) obtain ws c1 where 1: "db_list_workspaces a c = (Ok ws, c1)"
    and 2: "sum_workspace_usage a p ws 0 c1 = (Ok n, c')"
    by (auto simp: persisted_bytes_def dbm_simps)
  note l = workspaces_listed [OF 1]
  have "tbls c' = tbls c" "uint n = sum_list (map ?f (map (workspace_id_as_i64 \<circ> workspace_record_id) ws))"
    using sum_workspace_usage_Ok [OF 2] conjunct1 [OF l] assms(2) by (simp_all add: comp_def)
  moreover have "sum_list (map ?f (map (workspace_id_as_i64 \<circ> workspace_record_id) ws)) = sum_list (map ?f (map w_id ?rows))"
  proof -
    have "mset (map ?f (map w_id (sort_key w_id ?rows))) = mset (map ?f (map w_id ?rows))"
      by (simp only: mset_map mset_sort)
    then show ?thesis unfolding conjunct2 [OF l] by (simp only: flip: sum_mset_sum_list)
  qed
  ultimately show ?thesis by (simp add: comp_def)
qed

definition account_usage_bytes :: "tables \<Rightarrow> AccountId \<Rightarrow> UnixTimestamp \<Rightarrow> int" where
  "account_usage_bytes t a p = sum_list (map (\<lambda>w. usage_bytes t (account_id_as_i64 a, w_id w, timestamp_as_i64 p))
     (filter (\<lambda>r. w_account_id r = account_id_as_i64 a) (workspaces t)))"

lemma evict_period_sel [simp]:
  "dl_policy (evict_period l) = dl_policy l" "dl_max_cached_periods (evict_period l) = dl_max_cached_periods l"
  "dl_heap (evict_period l) = dl_heap l" "dl_fresh (evict_period l) = dl_fresh l"
  "dl_holders (evict_period l) = dl_holders l" "dl_poisoned (evict_period l) = dl_poisoned l"
  by (simp_all add: evict_period_def split: option.splits)

lemma period_state_for_cases:
  assumes "period_state_for i ps l c = (res, l', c')"
  obtains (mismatch) e where "res = Err e" "l' = l"
    | (refused) e where "res = Err e" "l' = l\<lparr>dl_sequence := dl_sequence l + 1\<rparr>"
    | (evicted) e where "res = Err e" "l' = evict_period (l\<lparr>dl_sequence := dl_sequence l + 1\<rparr>)"
    | (cached) r where "hm_get (dl_states l) (identity_account_id i, ps) = Some r" "res = Ok r"
        "l' = l\<lparr>dl_sequence := dl_sequence l + 1,
               dl_heap := (dl_heap l)(r := (dl_heap l r)\<lparr>pu_last_used := dl_sequence l\<rparr>)\<rparr>"
    | (created) used where "hm_get (dl_states l) (identity_account_id i, ps) = None"
        "length (dl_states (evict_period (l\<lparr>dl_sequence := dl_sequence l + 1\<rparr>))) < dl_max_cached_periods l"
        "persisted_bytes (identity_account_id i) ps c = (Ok used, c')"
        "used < policy_period_byte_limit (dl_policy l)" "res = Ok (dl_fresh l)"
        "l' = insert_period (identity_account_id i, ps) used (dl_sequence l)
           (evict_period (l\<lparr>dl_sequence := dl_sequence l + 1\<rparr>))"
proof -
  let ?l = "evict_period (l\<lparr>dl_sequence := dl_sequence l + 1\<rparr>)"
  note def = period_state_for_def [of i ps l c] Let_def
  show thesis
  proof (cases "period_byte_limit (identity_limits i) = Some (policy_period_byte_limit (dl_policy l)) \<and> \<not> dl_poisoned l")
    case False
    then show thesis using assms mismatch refused by (auto simp: def split: if_splits)
  next
    case tier: True
    show thesis
    proof (cases "hm_get (dl_states l) (identity_account_id i, ps)")
      case (Some r)
      with tier assms show thesis by (intro cached [OF Some]) (auto simp: def)
    next
      case None
      obtain p c1 where pb: "persisted_bytes (identity_account_id i) ps c = (p, c1)" by fastforce
      consider "dl_max_cached_periods l \<le> length (dl_states ?l)"
        | e where "length (dl_states ?l) < dl_max_cached_periods l" "p = Err e"
        | used where "length (dl_states ?l) < dl_max_cached_periods l" "p = Ok used"
        by (cases p) (auto simp: not_le [symmetric])
      then show thesis
      proof cases
        case (3 used)
        with tier None pb assms evicted show thesis
          by (cases "policy_period_byte_limit (dl_policy l) \<le> used")
            (auto intro: created [of used] simp: def not_le)
      qed (use tier None pb assms evicted in \<open>auto simp: def\<close>)
    qed
  qed
qed

text \<open>
  A counter starts from the whole account: when the cache has no counter for an
  account and period, the one it creates holds the sum of the bytes, in both directions, that the
  database has for the period in every workspace of the account, and that sum is below the limit.
\<close>

lemma new_counter_starts_at_account_usage:
  assumes "period_state_for i ps l c = (Ok r, l', c')" "counters_ok (tbls c)"
    and "hm_get (dl_states l) (identity_account_id i, ps) = None"
  shows "uint (used_bytes (dl_heap l' r)) = account_usage_bytes (tbls c) (identity_account_id i) ps
    \<and> used_bytes (dl_heap l' r) < policy_period_byte_limit (dl_policy l)"
  using assms(1)
proof (cases rule: period_state_for_cases)
  case (created used)
  with persisted_bytes_Ok [OF created(3) assms(2)] show ?thesis
    by (simp add: insert_period_def CustomerPeriodUsage_new_def account_usage_bytes_def)
qed (use assms(3) in \<open>simp_all del: map_of_eq_Some_iff\<close>)

section \<open>Sessions of an account share its counter\<close>

inductive limiter_step :: "data_limiter \<Rightarrow> data_limiter \<Rightarrow> bool" where
  acquire: "period_state_for i ps l c = (Ok r, l', c')
    \<Longrightarrow> limiter_step l (l'\<lparr>dl_holders := add_mset ((identity_account_id i, ps), r) (dl_holders l')\<rparr>)"
| refuse: "period_state_for i ps l c = (Err e, l', c') \<Longrightarrow> limiter_step l l'"
| use: "(k, r) \<in># dl_holders l
    \<Longrightarrow> period_allow requested (policy_period_byte_limit (dl_policy l)) (dl_heap l r) = (res, usage)
    \<Longrightarrow> limiter_step l (l\<lparr>dl_heap := (dl_heap l)(r := usage)\<rparr>)"
| release: "dl_holders l = add_mset h H \<Longrightarrow> limiter_step l (l\<lparr>dl_holders := H\<rparr>)"

inductive limiter_reachable :: "SingleTierPolicy \<Rightarrow> nat \<Rightarrow> data_limiter \<Rightarrow> bool" for policy cap where
  start: "CustomerDataLimiter_new memory policy cap = Ok l \<Longrightarrow> limiter_reachable policy cap l"
| step: "limiter_reachable policy cap l \<Longrightarrow> limiter_step l l' \<Longrightarrow> limiter_reachable policy cap l'"

definition limiter_cache_wf :: "data_limiter \<Rightarrow> bool" where
  "limiter_cache_wf l \<longleftrightarrow> hm_wf (dl_states l) \<and> length (dl_states l) \<le> dl_max_cached_periods l
     \<and> (\<forall>k r. hm_get (dl_states l) k = Some r \<longrightarrow> r < dl_fresh l)
     \<and> (\<forall>k k' r. hm_get (dl_states l) k = Some r \<and> hm_get (dl_states l) k' = Some r \<longrightarrow> k = k')
     \<and> (\<forall>k r. (k, r) \<in># dl_holders l \<longrightarrow> hm_get (dl_states l) k = Some r)"

definition counters_within :: "data_limiter \<Rightarrow> bool" where
  "counters_within l \<longleftrightarrow> (\<forall>k r. hm_get (dl_states l) k = Some r
     \<longrightarrow> used_bytes (dl_heap l r) \<le> policy_period_byte_limit (dl_policy l))"

definition limiter_inv :: "SingleTierPolicy \<Rightarrow> nat \<Rightarrow> data_limiter \<Rightarrow> bool" where
  "limiter_inv policy cap l \<longleftrightarrow> limiter_cache_wf l \<and> counters_within l \<and> dl_policy l = policy
     \<and> dl_max_cached_periods l = cap"

text \<open>An evicted counter is held by nobody.\<close>

lemma eviction_key_idle:
  assumes "eviction_key l = Some k" "hm_wf (dl_states l)"
  shows "\<exists>r. hm_get (dl_states l) k = Some r \<and> (\<forall>h\<in>#dl_holders l. snd h \<noteq> r)"
proof -
  from assms(1) obtain r where r: "(k, r) \<in> set (dl_states l)" "period_strong_count l r = 1"
    by (auto simp: eviction_key_def dest!: min_by_key_in)
  then have "filter (\<lambda>e. snd e = r) (dl_states l) \<noteq> []" by (force simp: filter_empty_conv)
  then have "1 \<le> length (filter (\<lambda>e. snd e = r) (dl_states l))" by (simp add: Suc_le_eq)
  then have "size (filter_mset (\<lambda>h. snd h = r) (dl_holders l)) = 0"
    using r(2) unfolding period_strong_count_def by linarith
  with r(1) assms(2) show ?thesis by force
qed

lemma evict_period_inv:
  assumes "limiter_inv policy cap l"
  shows "limiter_inv policy cap (evict_period l)"
proof (cases "dl_states (evict_period l) = dl_states l")
  case True
  then show ?thesis
    using assms unfolding limiter_inv_def limiter_cache_wf_def counters_within_def evict_period_sel True by blast
next
  case False
  then obtain k where k: "eviction_key l = Some k" "dl_states (evict_period l) = hm_remove k (dl_states l)"
    by (auto simp: evict_period_def split: if_splits option.splits)
  have wf: "hm_wf (dl_states l)" using assms by (simp add: limiter_inv_def limiter_cache_wf_def)
  from eviction_key_idle [OF k(1) wf] obtain r where
    r: "hm_get (dl_states l) k = Some r" "\<forall>h\<in>#dl_holders l. snd h \<noteq> r" by blast
  have held: "k' \<noteq> k" if "(k', r') \<in># dl_holders l" for k' r'
    using that assms r unfolding limiter_inv_def limiter_cache_wf_def by force
  show ?thesis
    using assms held unfolding limiter_inv_def limiter_cache_wf_def counters_within_def evict_period_sel k(2)
    by (auto simp: hm_get_remove length_hm_remove simp del: map_of_eq_Some_iff split: if_splits)
qed

lemma limiter_inv_sequence: "limiter_inv policy cap (l\<lparr>dl_sequence := n\<rparr>) \<longleftrightarrow> limiter_inv policy cap l"
  by (simp add: limiter_inv_def limiter_cache_wf_def counters_within_def)

lemma limiter_inv_heap:
  assumes "limiter_inv policy cap l" "used_bytes u \<le> policy_period_byte_limit policy"
  shows "limiter_inv policy cap (l\<lparr>dl_heap := (dl_heap l)(r := u)\<rparr>)"
  using assms unfolding limiter_inv_def limiter_cache_wf_def counters_within_def by auto

lemma insert_period_inv:
  assumes inv: "limiter_inv policy cap l" and new: "hm_get (dl_states l) k = None"
    and "length (dl_states l) < cap" "used \<le> policy_period_byte_limit policy"
  shows "limiter_inv policy cap (insert_period k used seq l)"
proof -
  have lt: "r < dl_fresh l" if "hm_get (dl_states l) j = Some r" for j r
    using inv that unfolding limiter_inv_def limiter_cache_wf_def by blast
  have held: "j \<noteq> k" if "(j, r) \<in># dl_holders l" for j r
    using inv new that unfolding limiter_inv_def limiter_cache_wf_def by force
  have "limiter_cache_wf (insert_period k used seq l)"
    using inv assms(3) new held unfolding limiter_inv_def limiter_cache_wf_def insert_period_def
    by (auto simp: length_hm_insert less_Suc_eq simp del: map_of_eq_Some_iff dest: lt split: if_splits)
  moreover have "counters_within (insert_period k used seq l)"
    using inv assms(4) unfolding limiter_inv_def counters_within_def insert_period_def
    by (auto simp: CustomerPeriodUsage_new_def simp del: map_of_eq_Some_iff dest: lt split: if_splits)
  ultimately show ?thesis using inv by (simp add: limiter_inv_def insert_period_def)
qed

lemma period_state_for_inv:
  assumes inv: "limiter_inv policy cap l" and st: "period_state_for i ps l c = (res, l', c')"
  shows "limiter_inv policy cap l' \<and> (\<forall>r. res = Ok r \<longrightarrow> hm_get (dl_states l') (identity_account_id i, ps) = Some r)"
proof -
  let ?l = "l\<lparr>dl_sequence := dl_sequence l + 1\<rparr>"
  have inv1: "limiter_inv policy cap ?l" using inv by (simp add: limiter_inv_sequence)
  note inv2 = evict_period_inv [OF inv1]
  from st show ?thesis
  proof (cases rule: period_state_for_cases)
    case (cached r)
    then have "used_bytes (dl_heap l r) \<le> policy_period_byte_limit policy"
      using inv unfolding limiter_inv_def counters_within_def by blast
    with cached limiter_inv_heap [OF inv1, of "(dl_heap l r)\<lparr>pu_last_used := dl_sequence l\<rparr>" r] show ?thesis
      by (simp del: map_of_eq_Some_iff)
  next
    case (created used)
    have "hm_get (dl_states (evict_period ?l)) (identity_account_id i, ps) = None"
      using created(1) by (auto simp: evict_period_def hm_get_remove split: option.splits)
    with created inv insert_period_inv [OF inv2, of "(identity_account_id i, ps)" used "dl_sequence l"] show ?thesis
      by (simp add: limiter_inv_def insert_period_def)
  qed (use inv inv1 inv2 in simp_all)
qed

lemma period_allow_within:
  "period_allow requested limit u = (res, u') \<Longrightarrow> used_bytes u \<le> limit \<Longrightarrow> used_bytes u' \<le> limit"
  using allowed_le [of "used_bytes u" limit requested] allow_projection_sum [of "used_bytes u" limit requested]
  by (auto simp: period_allow_def allow_projection_cases word_le_nat_alt word_less_nat_alt not_le split: if_splits)

lemma limiter_reachable_inv: "limiter_reachable policy cap l \<Longrightarrow> limiter_inv policy cap l"
proof (induction rule: limiter_reachable.induct)
  case (start memory l)
  then show ?case
    by (auto simp: CustomerDataLimiter_new_def limiter_inv_def limiter_cache_wf_def counters_within_def split: if_splits)
next
  case (step l l')
  from step.hyps(2) show ?case
  proof (cases rule: limiter_step.cases)
    case (acquire i ps c r l1 c')
    from period_state_for_inv [OF step.IH acquire(2)] acquire(1) show ?thesis
      by (auto simp: limiter_inv_def limiter_cache_wf_def counters_within_def simp del: map_of_eq_Some_iff)
  next
    case (refuse i ps c e c')
    from period_state_for_inv [OF step.IH refuse] show ?thesis by simp
  next
    case (use k r requested res usage)
    then have "used_bytes (dl_heap l r) \<le> policy_period_byte_limit policy"
      using step.IH unfolding limiter_inv_def limiter_cache_wf_def counters_within_def by blast
    moreover have "dl_policy l = policy" using step.IH by (simp add: limiter_inv_def)
    ultimately show ?thesis
      using use limiter_inv_heap [OF step.IH] period_allow_within by blast
  next
    case (release h H)
    with step.IH show ?thesis
      by (auto simp: limiter_inv_def limiter_cache_wf_def counters_within_def simp del: map_of_eq_Some_iff)
  qed
qed

text \<open>
  Property C20. Sessions of an account and period share one counter: under every interleaving of
  opening, refusing, using and closing sessions, two live holders of the same account and period
  have the same counter, holders of different ones have different counters, no counter passes the
  policy's limit, and the cache stays within its capacity.
\<close>

theorem sessions_share_counter:
  assumes "limiter_reachable policy cap l" "(k, r) \<in># dl_holders l" "(k', r') \<in># dl_holders l"
  shows "(r = r' \<longleftrightarrow> k = k') \<and> used_bytes (dl_heap l r) \<le> policy_period_byte_limit policy
    \<and> length (dl_states l) \<le> cap"
proof -
  have inv: "limiter_inv policy cap l" by (rule limiter_reachable_inv [OF assms(1)])
  have "hm_get (dl_states l) k = Some r" "hm_get (dl_states l) k' = Some r'"
    using inv assms(2,3) unfolding limiter_inv_def limiter_cache_wf_def by blast+
  with inv show ?thesis
    unfolding limiter_inv_def limiter_cache_wf_def counters_within_def by (metis option.inject)
qed

text \<open>The demonstration account opens a session in an empty limiter with its limit.\<close>

definition demo_limiter :: data_limiter where
  "demo_limiter = \<lparr>dl_policy = \<lparr>policy_period_byte_limit = 1000\<rparr>, dl_states = [], dl_max_cached_periods = 1,
     dl_sequence = 1, dl_poisoned = False, dl_heap = (\<lambda>_. \<lparr>used_bytes = 0, pu_last_used = 0\<rparr>),
     dl_fresh = 0, dl_holders = {#}\<rparr>"

lemma demo_persisted: "\<exists>c'. persisted_bytes (AccountId 1) (UnixTimestamp 0) demo_connection = (Ok 0, c')"
proof -
  have "usage_counters_from_row None = Ok (0, 0, 0)"
    by (simp add: usage_counters_from_row_def nonnegative_u64_from_database_def u64_try_from_i64_def)
  then show ?thesis
    by (auto simp: persisted_bytes_def db_list_workspaces_def db_usage_for_scope_def record_exists_def
        require_workspace_scope_def workspace_scope_exists_def account_exists_def select_usage_def
        demo_tables_def dbm_simps WorkspaceId_from_database_def WorkspaceStatus_from_database_def
        UsageSnapshot_total_bytes_def checked_add_def)
qed

lemma demo_acquire:
  "\<exists>l' c'. period_state_for demo_identity (UnixTimestamp 0) demo_limiter demo_connection = (Ok 0, l', c')"
proof -
  obtain c' where "persisted_bytes (AccountId 1) (UnixTimestamp 0) demo_connection = (Ok 0, c')"
    using demo_persisted by blast
  then show ?thesis
    by (simp add: period_state_for_def demo_limiter_def demo_identity_def demo_limits_def evict_period_def)
qed

theorem sessions_share_counter_witness:
  "\<exists>l :: data_limiter. ((AccountId 1, UnixTimestamp 0), 0) \<in># dl_holders l \<and> used_bytes (dl_heap l 0) \<le> 1000 \<and> length (dl_states l) \<le> 1"
proof -
  obtain l' c' where r: "period_state_for demo_identity (UnixTimestamp 0) demo_limiter demo_connection = (Ok 0, l', c')"
    using demo_acquire by blast
  let ?l = "l'\<lparr>dl_holders := add_mset ((AccountId 1, UnixTimestamp 0), 0) (dl_holders l')\<rparr>"
  have "limiter_reachable \<lparr>policy_period_byte_limit = 1000\<rparr> 1 demo_limiter"
    by (rule limiter_reachable.start [of "\<lambda>_. \<lparr>used_bytes = 0, pu_last_used = 0\<rparr>"])
      (simp add: CustomerDataLimiter_new_def demo_limiter_def)
  from limiter_reachable.step [OF this limiter_step.acquire [OF r]]
  have "limiter_reachable \<lparr>policy_period_byte_limit = 1000\<rparr> 1 ?l" by (simp add: demo_identity_def)
  from sessions_share_counter [OF this, of "(AccountId 1, UnixTimestamp 0)" 0 "(AccountId 1, UnixTimestamp 0)" 0]
  have "used_bytes (dl_heap ?l 0) \<le> 1000 \<and> length (dl_states ?l) \<le> 1" by simp
  moreover have "((AccountId 1, UnixTimestamp 0), 0) \<in># dl_holders ?l" by simp
  ultimately show ?thesis by blast
qed

end
