(* ===== verification/Ip_Addr.thy ===== *)
theory Ip_Addr
  imports Rust_Strings
begin

unbundle bit_operations_syntax

text \<open>
  IP addresses as Rust's standard library has them: \<open>Ipv4Addr\<close> as four octets, \<open>Ipv6Addr\<close> as eight
  16-bit segments, the parser behind \<open>str::parse::<IpAddr>\<close>, printing of IPv4 addresses, and the
  range predicates the destination policy uses. A reader takes the input and returns the value and
  the rest of the input; \<open>None\<close> leaves the input where it was.
\<close>

section \<open>Addresses\<close>

datatype Ipv4Addr = Ipv4Addr u8 u8 u8 u8

datatype Ipv6Addr = Ipv6Addr (segments: "u16 list")

datatype IpAddr = V4 Ipv4Addr | V6 Ipv6Addr

fun v4_is_private :: "Ipv4Addr \<Rightarrow> bool" where
  "v4_is_private (Ipv4Addr a b c d) \<longleftrightarrow> a = 10 \<or> (a = 172 \<and> 16 \<le> b \<and> b \<le> 31) \<or> (a = 192 \<and> b = 168)"

fun v4_is_loopback :: "Ipv4Addr \<Rightarrow> bool" where
  "v4_is_loopback (Ipv4Addr a b c d) \<longleftrightarrow> a = 127"

fun v4_is_link_local :: "Ipv4Addr \<Rightarrow> bool" where
  "v4_is_link_local (Ipv4Addr a b c d) \<longleftrightarrow> a = 169 \<and> b = 254"

fun v4_is_broadcast :: "Ipv4Addr \<Rightarrow> bool" where
  "v4_is_broadcast (Ipv4Addr a b c d) \<longleftrightarrow> a = 255 \<and> b = 255 \<and> c = 255 \<and> d = 255"

fun v4_is_unspecified :: "Ipv4Addr \<Rightarrow> bool" where
  "v4_is_unspecified (Ipv4Addr a b c d) \<longleftrightarrow> a = 0 \<and> b = 0 \<and> c = 0 \<and> d = 0"

fun v4_is_multicast :: "Ipv4Addr \<Rightarrow> bool" where
  "v4_is_multicast (Ipv4Addr a b c d) \<longleftrightarrow> 224 \<le> a \<and> a \<le> 239"

definition segment :: "Ipv6Addr \<Rightarrow> nat \<Rightarrow> u16" where
  "segment a i = segments a ! i"

definition v6_is_loopback :: "Ipv6Addr \<Rightarrow> bool" where
  "v6_is_loopback a \<longleftrightarrow> segments a = [0, 0, 0, 0, 0, 0, 0, 1]"

definition v6_is_unspecified :: "Ipv6Addr \<Rightarrow> bool" where
  "v6_is_unspecified a \<longleftrightarrow> segments a = [0, 0, 0, 0, 0, 0, 0, 0]"

definition v6_is_multicast :: "Ipv6Addr \<Rightarrow> bool" where
  "v6_is_multicast a \<longleftrightarrow> segment a 0 AND 0xff00 = 0xff00"

definition v6_is_unique_local :: "Ipv6Addr \<Rightarrow> bool" where
  "v6_is_unique_local a \<longleftrightarrow> segment a 0 AND 0xfe00 = 0xfc00"

definition v6_is_unicast_link_local :: "Ipv6Addr \<Rightarrow> bool" where
  "v6_is_unicast_link_local a \<longleftrightarrow> segment a 0 AND 0xffc0 = 0xfe80"

text \<open>\<open>to_ipv4\<close>: IPv4-compatible and IPv4-mapped addresses.\<close>

fun v6_to_ipv4 :: "Ipv6Addr \<Rightarrow> Ipv4Addr option" where
  "v6_to_ipv4 (Ipv6Addr s) =
     (if length s = 8 \<and> take 5 s = [0, 0, 0, 0, 0] \<and> (s ! 5 = 0 \<or> s ! 5 = 0xffff)
      then Some (Ipv4Addr (ucast (drop_bit 8 (s ! 6))) (ucast (s ! 6))
                          (ucast (drop_bit 8 (s ! 7))) (ucast (s ! 7)))
      else None)"

section \<open>Parsing\<close>

definition hex_digit :: "nat \<Rightarrow> char \<Rightarrow> nat option" where
  "hex_digit radix c =
     (let b = byte c;
          v = (if 48 \<le> b \<and> b \<le> 57 then Some (b - 48)
               else if 97 \<le> b \<and> b \<le> 102 then Some (b - 87)
               else if 65 \<le> b \<and> b \<le> 70 then Some (b - 55) else None)
      in case v of Some d \<Rightarrow> if d < radix then Some d else None | None \<Rightarrow> None)"

text \<open>The digits at the front of the input: their number, value and the rest.\<close>

fun read_digits :: "nat \<Rightarrow> nat \<Rightarrow> nat \<Rightarrow> string \<Rightarrow> nat \<times> nat \<times> string" where
  "read_digits radix n v [] = (n, v, [])"
| "read_digits radix n v (c # cs) =
     (case hex_digit radix c of
        Some d \<Rightarrow> read_digits radix (Suc n) (v * radix + d) cs
      | None \<Rightarrow> (n, v, c # cs))"

definition read_number :: "nat \<Rightarrow> nat \<Rightarrow> nat \<Rightarrow> bool \<Rightarrow> string \<Rightarrow> (nat \<times> string) option" where
  "read_number radix max_digits max_value allow_zero_prefix s =
     (case read_digits radix 0 0 s of (n, v, rest) \<Rightarrow>
        if n > max_digits \<or> v > max_value \<or> n = 0
           \<or> (\<not> allow_zero_prefix \<and> take 1 s = ''0'' \<and> n > 1)
        then None else Some (v, rest))"

definition read_given_char :: "char \<Rightarrow> string \<Rightarrow> string option" where
  "read_given_char c s = (case s of [] \<Rightarrow> None | x # xs \<Rightarrow> if x = c then Some xs else None)"

text \<open>\<open>read_separator\<close>: the separator is read before every part but the first.\<close>

definition read_separator :: "char \<Rightarrow> nat \<Rightarrow> (string \<Rightarrow> ('a \<times> string) option) \<Rightarrow> string \<Rightarrow> ('a \<times> string) option" where
  "read_separator sep i inner s =
     (if i > 0 then Option.bind (read_given_char sep s) inner else inner s)"

definition read_octet :: "nat \<Rightarrow> string \<Rightarrow> (u8 \<times> string) option" where
  "read_octet i s = read_separator CHR ''.'' i
     (\<lambda>s. map_option (\<lambda>(v, r). (of_nat v, r)) (read_number 10 3 255 False s)) s"

definition read_ipv4_addr :: "string \<Rightarrow> (Ipv4Addr \<times> string) option" where
  "read_ipv4_addr s =
     Option.bind (read_octet 0 s) (\<lambda>(a, s).
     Option.bind (read_octet 1 s) (\<lambda>(b, s).
     Option.bind (read_octet 2 s) (\<lambda>(c, s).
     Option.bind (read_octet 3 s) (\<lambda>(d, s). Some (Ipv4Addr a b c d, s)))))"

text \<open>
  \<open>read_groups\<close> with the groups read so far: the groups, whether the last two came from an
  embedded IPv4 address, and the rest. \<open>n\<close> groups are still wanted.
\<close>

fun read_groups :: "nat \<Rightarrow> nat \<Rightarrow> u16 list \<Rightarrow> string \<Rightarrow> u16 list \<times> bool \<times> string" where
  "read_groups 0 i gs s = (gs, False, s)"
| "read_groups (Suc n) i gs s =
     (case (if n > 0 then read_separator CHR '':'' i read_ipv4_addr s else None) of
        Some (Ipv4Addr a b c d, rest) \<Rightarrow>
          (gs @ [of_nat (unat a * 256 + unat b), of_nat (unat c * 256 + unat d)], True, rest)
      | None \<Rightarrow>
          (case read_separator CHR '':'' i (read_number 16 4 65535 True) s of
             Some (g, rest) \<Rightarrow> read_groups n (Suc i) (gs @ [of_nat g]) rest
           | None \<Rightarrow> (gs, False, s)))"

definition read_ipv6_addr :: "string \<Rightarrow> (Ipv6Addr \<times> string) option" where
  "read_ipv6_addr s =
     (case read_groups 8 0 [] s of (head, head_ipv4, rest) \<Rightarrow>
        if length head = 8 then Some (Ipv6Addr head, rest)
        else if head_ipv4 then None
        else Option.bind (read_given_char CHR '':'' rest) (\<lambda>rest.
             Option.bind (read_given_char CHR '':'' rest) (\<lambda>rest.
             case read_groups (8 - (length head + 1)) 0 [] rest of (tail, _, rest) \<Rightarrow>
               Some (Ipv6Addr (head @ replicate (8 - length head - length tail) 0 @ tail), rest))))"

definition parse_ip_addr :: "string \<Rightarrow> IpAddr option" where
  "parse_ip_addr s =
     (case (case read_ipv4_addr s of
              Some (a, rest) \<Rightarrow> Some (V4 a, rest)
            | None \<Rightarrow> map_option (\<lambda>(a, rest). (V6 a, rest)) (read_ipv6_addr s)) of
        Some (a, []) \<Rightarrow> Some a
      | _ \<Rightarrow> None)"

section \<open>Printing IPv4 addresses\<close>

fun show_ipv4 :: "Ipv4Addr \<Rightarrow> string" where
  "show_ipv4 (Ipv4Addr a b c d) =
     show_nat (unat a) @ ''.'' @ show_nat (unat b) @ ''.'' @ show_nat (unat c) @ ''.'' @ show_nat (unat d)"

lemma hex_digit_decimal: "is_ascii_digit c \<Longrightarrow> hex_digit 10 c = Some (byte c - 48)"
  by (auto simp: hex_digit_def is_ascii_digit_def Let_def)

lemma read_digits_decimal:
  assumes "list_all is_ascii_digit ds" "rest = [] \<or> hex_digit 10 (hd rest) = None"
  shows "read_digits 10 n v (ds @ rest) = (n + length ds, foldl (\<lambda>acc c. 10 * acc + (byte c - 48)) v ds, rest)"
  using assms
proof (induction ds arbitrary: n v)
  case Nil
  then show ?case by (cases rest) auto
next
  case (Cons c ds)
  then show ?case by (simp add: hex_digit_decimal mult.commute)
qed

text \<open>A printed number has no leading zero unless it is zero.\<close>

lemma show_nat_leading: "take 1 (show_nat n) = ''0'' \<Longrightarrow> length (show_nat n) = 1"
proof (induction n rule: show_nat.induct)
  case (1 n)
  show ?case
  proof (cases "n < 10")
    case True
    then show ?thesis by (subst show_nat.simps) simp
  next
    case False
    have "show_nat n = show_nat (n div 10) @ [digit_char (n mod 10)]"
      using False by (subst show_nat.simps) simp
    moreover have "show_nat (n div 10) \<noteq> []" by simp
    ultimately have "take 1 (show_nat (n div 10)) = ''0''" using 1(2) by (cases "show_nat (n div 10)") auto
    with 1(1) False have "length (show_nat (n div 10)) = 1" by blast
    with \<open>take 1 (show_nat (n div 10)) = ''0''\<close> have "show_nat (n div 10) = ''0''"
      by (cases "show_nat (n div 10)") auto
    then have "digits_value (show_nat (n div 10)) = digits_value ''0''" by (simp only:)
    then have "n div 10 = 0" by (simp only: digits_value_show_nat) (simp add: digits_value_def byte_def)
    with False show ?thesis by simp
  qed
qed

lemma read_number_show:
  assumes "n \<le> 255" "rest = [] \<or> hex_digit 10 (hd rest) = None"
  shows "read_number 10 3 255 z (show_nat n @ rest) = Some (n, rest)"
proof -
  have len: "length (show_nat n) \<le> 3" "length (show_nat n) \<noteq> 0"
    using length_show_nat [of n 3] assms(1) by simp_all
  have "take 1 (show_nat n @ rest) = take 1 (show_nat n)" by (cases "show_nat n") auto
  then have lead: "(take 1 (show_nat n @ rest) = ''0'' \<and> length (show_nat n) > 1) = False"
    using show_nat_leading [of n] by auto
  have "read_digits 10 0 0 (show_nat n @ rest) = (length (show_nat n), n, rest)"
    using read_digits_decimal [OF show_nat_digits [of n] assms(2), of 0 0] by (simp flip: digits_value_def)
  moreover have "\<not> length (show_nat n) > 3" "\<not> n > 255" using len assms(1) by simp_all
  ultimately show ?thesis
    unfolding read_number_def using len(2) lead by (simp only: prod.case lead simp_thms if_False)
qed

lemma read_octet_show:
  assumes "rest = [] \<or> hd rest = CHR ''.''"
  shows "read_octet 0 (show_nat (unat a) @ rest) = Some (a, rest)"
    and "0 < i \<Longrightarrow> read_octet i (CHR ''.'' # show_nat (unat a) @ rest) = Some (a, rest)"
proof -
  have "unat a < 2 ^ 8" using unsigned_less [of a, where 'a = nat] by simp
  moreover have "hex_digit 10 CHR ''.'' = None" by (simp add: hex_digit_def byte_def)
  ultimately have "read_number 10 3 255 False (show_nat (unat a) @ rest) = Some (unat a, rest)"
    using assms by (intro read_number_show) auto
  then show "read_octet 0 (show_nat (unat a) @ rest) = Some (a, rest)"
    "0 < i \<Longrightarrow> read_octet i (CHR ''.'' # show_nat (unat a) @ rest) = Some (a, rest)"
    by (simp_all add: read_octet_def read_separator_def read_given_char_def)
qed

lemma parse_show_ipv4: "parse_ip_addr (show_ipv4 a) = Some (V4 a)"
  by (cases a) (simp add: parse_ip_addr_def read_ipv4_addr_def read_octet_show read_octet_show(1) [of "[]", simplified]
      read_octet_show(2) [of "[]", simplified])

end
