(* ===== verification/Destination_Policy.thy ===== *)
theory Destination_Policy
  imports Ip_Addr
begin

text \<open>
  Which destinations the proxy opens and caches (\<open>src/src/main.rs\<close>): the normal form of a host, the
  policy for CONNECT destinations (\<open>connect_destination_allowed\<close>), the stricter policy for cached
  origins (\<open>cache_origin_host_allowed\<close>), and canonical destination keys. \<open>http::uri::Authority\<close> and
  \<open>arti_client::TorAddr\<close> are third-party: their parsers are the parameters \<open>parse_authority\<close> and
  \<open>tor_addr_from\<close>, an authority is what its accessors \<open>host\<close> and \<open>port_u16\<close> return.
\<close>

section \<open>Hosts\<close>

record Authority =
  auth_host :: string
  auth_port :: "u16 option"

datatype connect_error =
    InvalidAuthority string
  | NonZeroPortRequired
  | HostRequired
  | InvalidTorAddr string

definition normalized_host :: "string \<Rightarrow> string" where
  "normalized_host h =
     to_ascii_lowercase (trim_end_matches CHR ''.'' (trim_end_matches CHR '']'' (trim_start_matches CHR ''['' h)))"

definition local_name :: "string \<Rightarrow> bool" where
  "local_name host \<longleftrightarrow> host = ''localhost'' \<or> ends_with host ''.localhost'' \<or> ends_with host ''.local''
     \<or> ends_with host ''.internal'' \<or> ends_with host ''.home'' \<or> ends_with host ''.lan''"

section \<open>CONNECT destinations\<close>

definition connect_host_allowed :: "string \<Rightarrow> bool" where
  "connect_host_allowed host =
     (if local_name host then False
      else case parse_ip_addr host of
        None \<Rightarrow> True
      | Some (V4 a) \<Rightarrow>
          \<not> v4_is_private a \<and> \<not> v4_is_loopback a \<and> \<not> v4_is_link_local a
          \<and> \<not> v4_is_broadcast a \<and> \<not> v4_is_unspecified a \<and> \<not> v4_is_multicast a
      | Some (V6 a) \<Rightarrow>
          \<not> v6_is_loopback a \<and> \<not> v6_is_unspecified a \<and> \<not> v6_is_multicast a
          \<and> \<not> v6_is_unique_local a \<and> \<not> v6_is_unicast_link_local a)"

definition connect_destination_allowed ::
    "(string \<Rightarrow> (Authority, string) result) \<Rightarrow> string \<Rightarrow> (bool, connect_error) result" where
  "connect_destination_allowed parse_authority destination =
     and_then (map_err InvalidAuthority (parse_authority destination)) (\<lambda>authority.
     Ok (connect_host_allowed (normalized_host (auth_host authority))))"

definition nonzero_port :: "Authority \<Rightarrow> (u16, connect_error) result" where
  "nonzero_port authority =
     (case auth_port authority of
        Some port \<Rightarrow> if port \<noteq> 0 then Ok port else Err NonZeroPortRequired
      | None \<Rightarrow> Err NonZeroPortRequired)"

definition parse_connect_destination ::
    "(string \<Rightarrow> (Authority, string) result) \<Rightarrow> (string \<Rightarrow> ('t, string) result) \<Rightarrow> string \<Rightarrow> ('t, connect_error) result" where
  "parse_connect_destination parse_authority tor_addr_from destination =
     and_then (map_err InvalidAuthority (parse_authority destination)) (\<lambda>authority.
     and_then (nonzero_port authority) (\<lambda>_.
     if auth_host authority = [] then Err HostRequired
     else map_err InvalidTorAddr (tor_addr_from destination)))"

definition host_and_port :: "string \<Rightarrow> u16 \<Rightarrow> string" where
  "host_and_port host port =
     (if CHR '':'' \<in> set host then ''['' @ host @ '']:'' @ show_nat (unat port)
      else host @ '':'' @ show_nat (unat port))"

definition canonical_connect_destination_key ::
    "(string \<Rightarrow> (Authority, string) result) \<Rightarrow> string \<Rightarrow> (string, connect_error) result" where
  "canonical_connect_destination_key parse_authority destination =
     and_then (map_err InvalidAuthority (parse_authority destination)) (\<lambda>authority.
     and_then (nonzero_port authority) (\<lambda>port.
     Ok (host_and_port (normalized_host (auth_host authority)) port)))"

section \<open>Cached origins\<close>

definition dns_label :: "string \<Rightarrow> bool" where
  "dns_label label \<longleftrightarrow> label \<noteq> [] \<and> length label \<le> 63
     \<and> is_ascii_alphanumeric (hd label) \<and> is_ascii_alphanumeric (last label)
     \<and> list_all (\<lambda>c. is_ascii_alphanumeric c \<or> c = CHR ''-'') label"

fun v4_cacheable :: "Ipv4Addr \<Rightarrow> bool" where
  "v4_cacheable (Ipv4Addr a b c d) \<longleftrightarrow>
     \<not> (a = 0 \<or> a = 10 \<or> a = 127
        \<or> (a = 100 \<and> 64 \<le> b \<and> b \<le> 127)
        \<or> (a = 169 \<and> b = 254)
        \<or> (a = 172 \<and> 16 \<le> b \<and> b \<le> 31)
        \<or> (a = 192 \<and> b = 0 \<and> c = 0)
        \<or> (a = 192 \<and> b = 0 \<and> c = 2)
        \<or> (a = 192 \<and> b = 168)
        \<or> (a = 198 \<and> (b = 18 \<or> b = 19))
        \<or> (a = 198 \<and> b = 51 \<and> c = 100)
        \<or> (a = 203 \<and> b = 0 \<and> c = 113)
        \<or> a \<ge> 224)"

definition v6_cacheable :: "Ipv6Addr \<Rightarrow> bool" where
  "v6_cacheable a \<longleftrightarrow>
     v6_to_ipv4 a = None \<and> \<not> v6_is_loopback a \<and> \<not> v6_is_unspecified a \<and> \<not> v6_is_multicast a
     \<and> \<not> v6_is_unique_local a \<and> \<not> v6_is_unicast_link_local a
     \<and> segment a 0 AND 0xe000 = 0x2000 \<and> \<not> (segment a 0 = 0x2001 \<and> segment a 1 = 0x0db8)"

definition cache_origin_host_allowed :: "string \<Rightarrow> bool" where
  "cache_origin_host_allowed host =
     (if local_name host then False
      else case parse_ip_addr host of
        None \<Rightarrow>
          if list_all (\<lambda>c. is_ascii_digit c \<or> c = CHR ''.'') host then False
          else length host \<le> 253 \<and> list_all dns_label (str_split CHR ''.'' host)
      | Some (V4 a) \<Rightarrow> v4_cacheable a
      | Some (V6 a) \<Rightarrow> v6_cacheable a)"

section \<open>Normal forms\<close>

lemma trim_end_matches_id: "s = [] \<or> last s \<noteq> d \<Longrightarrow> trim_end_matches d s = s"
  by (cases s rule: rev_cases) (auto simp: trim_end_matches_def)

lemma trim_end_matches_dots: "s = [] \<or> last s \<noteq> d \<Longrightarrow> trim_end_matches d (s @ replicate n d) = s"
  by (cases s rule: rev_cases) (auto simp: trim_end_matches_def dropWhile_append3)

lemma last_trim_end_matches: "trim_end_matches d s = [] \<or> last (trim_end_matches d s) \<noteq> d"
proof -
  have "dropWhile (\<lambda>c. c = d) (rev s) = [] \<or> hd (dropWhile (\<lambda>c. c = d) (rev s)) \<noteq> d"
    using hd_dropWhile [of "\<lambda>c. c = d" "rev s"] by blast
  then show ?thesis by (auto simp: trim_end_matches_def last_rev)
qed

lemma ascii_lower_fixed: "\<not> is_ascii_uppercase c \<Longrightarrow> ascii_lower c = c"
  by (simp add: ascii_lower_def)

lemma to_ascii_lowercase_id: "list_all (\<lambda>c. \<not> is_ascii_uppercase c) s \<Longrightarrow> to_ascii_lowercase s = s"
  by (induction s) (simp_all add: to_ascii_lowercase_def ascii_lower_fixed)

definition ipv4_char :: "char \<Rightarrow> bool" where
  "ipv4_char c \<longleftrightarrow> is_ascii_digit c \<or> c = CHR ''.''"

lemma show_ipv4_chars: "list_all ipv4_char (show_ipv4 a)"
  using show_nat_digits by (cases a) (auto simp: ipv4_char_def list_all_iff)

lemma show_ipv4_ends: "show_ipv4 a \<noteq> []" "hd (show_ipv4 a) \<noteq> CHR ''[''" "is_ascii_digit (last (show_ipv4 a))"
proof -
  obtain p q r s where a: "a = Ipv4Addr p q r s" by (cases a)
  show "show_ipv4 a \<noteq> []" by (simp add: a)
  then show "hd (show_ipv4 a) \<noteq> CHR ''[''"
    using show_ipv4_chars [of a] by (cases "show_ipv4 a") (auto simp: ipv4_char_def is_ascii_digit_def byte_def)
  show "is_ascii_digit (last (show_ipv4 a))"
    using show_nat_digits [of "unat s"] show_nat_nonempty [of "unat s"] last_in_set [of "show_nat (unat s)"]
    by (simp add: a list_all_iff)
qed

lemma normalized_show_ipv4: "normalized_host (show_ipv4 a @ replicate n CHR ''.'') = show_ipv4 a"
proof -
  have ends: "last (show_ipv4 a) \<noteq> CHR ''.''" "last (show_ipv4 a) \<noteq> CHR '']''"
    using show_ipv4_ends(3) [of a] by (auto simp: is_ascii_digit_def byte_def)
  have "trim_start_matches CHR ''['' (show_ipv4 a @ replicate n CHR ''.'') = show_ipv4 a @ replicate n CHR ''.''"
    using show_ipv4_ends(1,2) [of a] by (cases "show_ipv4 a") (auto simp: trim_start_matches_def)
  moreover have "trim_end_matches CHR '']'' (show_ipv4 a @ replicate n CHR ''.'') = show_ipv4 a @ replicate n CHR ''.''"
    using ends by (intro trim_end_matches_id) (cases n; simp add: last_replicate)
  moreover have "trim_end_matches CHR ''.'' (show_ipv4 a @ replicate n CHR ''.'') = show_ipv4 a"
    using ends by (intro trim_end_matches_dots) simp
  moreover have "to_ascii_lowercase (show_ipv4 a) = show_ipv4 a"
    using show_ipv4_chars [of a] by (intro to_ascii_lowercase_id)
      (auto simp: list_all_iff ipv4_char_def is_ascii_digit_def is_ascii_uppercase_def byte_def)
  ultimately show ?thesis by (simp add: normalized_host_def)
qed

lemma ipv4_not_local: "\<not> local_name (show_ipv4 a)"
proof -
  have "\<not> ends_with (show_ipv4 a) s" if "s \<noteq> []" "\<not> is_ascii_digit (last s)" for s
  proof
    assume "ends_with (show_ipv4 a) s"
    then have len: "length s \<le> length (show_ipv4 a)"
      and drop: "drop (length (show_ipv4 a) - length s) (show_ipv4 a) = s" by (simp_all add: ends_with_def)
    have "length (show_ipv4 a) - length s < length (show_ipv4 a)" using that(1) show_ipv4_ends(1) [of a] by simp
    from last_drop [OF this] drop have "last (show_ipv4 a) = last s" by simp
    with that(2) show_ipv4_ends(3) [of a] show False by simp
  qed
  moreover have "show_ipv4 a \<noteq> ''localhost''"
    using show_ipv4_ends(3) [of a] by (auto simp: is_ascii_digit_def byte_def)
  ultimately show ?thesis by (simp add: local_name_def is_ascii_digit_def byte_def)
qed

section \<open>Properties\<close>

text \<open>
  The CONNECT policy for IPv4 literals is exact: for every IPv4 address, written as
  the authority's host with any number of trailing dots, the destination is refused precisely when
  the address is private, loopback, link-local, broadcast, unspecified or multicast.
\<close>

lemma connect_ipv4_policy:
  assumes "parse_authority destination = Ok authority"
    and "auth_host authority = show_ipv4 a @ replicate n CHR ''.''"
  shows "connect_destination_allowed parse_authority destination =
    Ok (\<not> (v4_is_private a \<or> v4_is_loopback a \<or> v4_is_link_local a
          \<or> v4_is_broadcast a \<or> v4_is_unspecified a \<or> v4_is_multicast a))"
  using assms
  by (simp add: connect_destination_allowed_def connect_host_allowed_def normalized_show_ipv4
      ipv4_not_local parse_show_ipv4)

definition demo_authority :: "string \<Rightarrow> (Authority, string) result" where
  "demo_authority s = (case split_once CHR '':'' s of
     Some (h, p) \<Rightarrow> Ok \<lparr>auth_host = h, auth_port = Some 443\<rparr> | None \<Rightarrow> Err ''no port'')"

lemma show_digits [simp]:
  "digit_char 0 = CHR ''0''" "digit_char (Suc 0) = CHR ''1''" "digit_char 2 = CHR ''2''" "digit_char 4 = CHR ''4''"
  "digit_char 6 = CHR ''6''" "digit_char 7 = CHR ''7''" "digit_char 9 = CHR ''9''"
  by (simp_all add: digit_char_def char_of_eq_iff)

lemma show_ipv4_examples:
  "show_ipv4 (Ipv4Addr 127 0 0 1) = ''127.0.0.1''" "show_ipv4 (Ipv4Addr 100 64 0 1) = ''100.64.0.1''"
  "show_ipv4 (Ipv4Addr 192 0 2 1) = ''192.0.2.1''"
  by (simp_all add: show_nat.simps)

lemma v4_cacheable_reachable:
  "v4_cacheable a \<Longrightarrow> \<not> v4_is_private a \<and> \<not> v4_is_loopback a \<and> \<not> v4_is_link_local a
    \<and> \<not> v4_is_broadcast a \<and> \<not> v4_is_unspecified a \<and> \<not> v4_is_multicast a"
  by (cases a; intro conjI; force)

lemma cacheable_connect: "cache_origin_host_allowed host \<Longrightarrow> connect_host_allowed host"
  using v4_cacheable_reachable
  by (auto simp: cache_origin_host_allowed_def connect_host_allowed_def v6_cacheable_def
      split: if_splits option.splits IpAddr.splits)

text \<open>
  The cache policy is stricter than the CONNECT policy: every host whose responses may
  be cached is one the proxy would also open a connection to.
\<close>

lemma cacheable_hosts_reachable:
  assumes "cache_origin_host_allowed host"
  shows "connect_host_allowed host"
  using assms by (rule cacheable_connect)

lemma read_groups_numeral:
  "read_groups (numeral k) i gs s =
     (case (if pred_numeral k > 0 then read_separator CHR '':'' i read_ipv4_addr s else None) of
        Some (Ipv4Addr a b c d, rest) \<Rightarrow>
          (gs @ [of_nat (unat a * 256 + unat b), of_nat (unat c * 256 + unat d)], True, rest)
      | None \<Rightarrow>
          (case read_separator CHR '':'' i (read_number 16 4 65535 True) s of
             Some (g, rest) \<Rightarrow> read_groups (pred_numeral k) (Suc i) (gs @ [of_nat g]) rest
           | None \<Rightarrow> (gs, False, s)))"
  by (simp only: numeral_eq_Suc read_groups.simps)

lemmas parse_evaluation = parse_ip_addr_def read_ipv4_addr_def read_octet_def read_separator_def
  read_number_def hex_digit_def byte_def read_ipv6_addr_def read_given_char_def read_groups_numeral

lemma parse_name: "parse_ip_addr ''cdn.example'' = None"
  by (simp add: parse_evaluation)

lemma parse_mapped_loopback:
  "parse_ip_addr ''::ffff:127.0.0.1'' = Some (V6 (Ipv6Addr [0, 0, 0, 0, 0, 0xffff, 0x7f00, 1]))"
  by (simp add: parse_evaluation) (simp add: eval_nat_numeral)

text \<open>
  The CONNECT policy lets special-purpose literals through that the cache policy
  refuses: the IPv4-mapped form of the loopback address, a carrier-grade NAT address and a
  documentation address.
\<close>

lemma special_literals_reachable:
  "connect_host_allowed ''::ffff:127.0.0.1'' \<and> \<not> cache_origin_host_allowed ''::ffff:127.0.0.1''
   \<and> connect_host_allowed ''100.64.0.1'' \<and> \<not> cache_origin_host_allowed ''100.64.0.1''
   \<and> connect_host_allowed ''192.0.2.1'' \<and> \<not> cache_origin_host_allowed ''192.0.2.1''"
proof -
  note v4 = parse_show_ipv4 [of "Ipv4Addr 100 64 0 1", unfolded show_ipv4_examples]
    parse_show_ipv4 [of "Ipv4Addr 192 0 2 1", unfolded show_ipv4_examples]
  note names = local_name_def ends_with_def
  have "connect_host_allowed ''::ffff:127.0.0.1'' \<and> \<not> cache_origin_host_allowed ''::ffff:127.0.0.1''"
    by (simp add: connect_host_allowed_def cache_origin_host_allowed_def parse_mapped_loopback names
        v6_is_loopback_def v6_is_unspecified_def v6_is_multicast_def v6_is_unique_local_def
        v6_is_unicast_link_local_def segment_def v6_cacheable_def)
  moreover have "connect_host_allowed ''100.64.0.1'' \<and> \<not> cache_origin_host_allowed ''100.64.0.1''"
      "connect_host_allowed ''192.0.2.1'' \<and> \<not> cache_origin_host_allowed ''192.0.2.1''"
    by (simp_all add: connect_host_allowed_def cache_origin_host_allowed_def v4 names)
  ultimately show ?thesis by blast
qed

end
