(* ===== verification/Cache_Policy.thy ===== *)
theory Cache_Policy
  imports Destination_Policy
begin

text \<open>
  The HTTP cache of \<open>src/src/main.rs\<close>: the configured policy (\<open>CachePolicy\<close>), canonical origins and
  cache keys, which requests may use the cache (\<open>cache_access_decision\<close>) and which responses are
  stored and for how long (\<open>bounded_response_cacheable\<close>).

  A request and a response are what the accessors of \<open>pingora\<close> and \<open>http\<close> return: header maps are
  lists of lower-case names with values in order. The \<open>Cache-Control\<close> parser and the final filter
  \<open>resp_cacheable\<close> of \<open>pingora-cache\<close> are parameters. Durations are seconds, the clock is a
  parameter, \<open>SystemTime::checked_add\<close> overflows beyond \<open>time_max\<close>.
\<close>

section \<open>Requests and responses\<close>

record RequestHeader =
  req_method :: string
  req_headers :: "(string \<times> string) list"
  req_scheme :: "string option"
  req_authority :: "Authority option"
  req_path_and_query :: "string option"

record ResponseHeader =
  resp_status :: nat
  resp_headers :: "(string \<times> string) list"

record CacheControl =
  cc_no_store :: bool
  cc_private :: bool
  cc_public :: bool
  cc_s_maxage :: "(nat option, string) result"
  cc_max_age :: "(nat option, string) result"

definition headers_contain :: "(string \<times> string) list \<Rightarrow> string \<Rightarrow> bool" where
  "headers_contain hs name \<longleftrightarrow> list_ex (\<lambda>(n, _). n = name) hs"

text \<open>\<open>HeaderValue::to_str\<close>: visible ASCII, spaces and tabs only.\<close>

definition header_to_str :: "string \<Rightarrow> string option" where
  "header_to_str v = (if list_all (\<lambda>c. (32 \<le> byte c \<and> byte c < 127) \<or> byte c = 9) v then Some v else None)"

section \<open>Canonical origins\<close>

definition normalized_authority :: "Authority \<Rightarrow> string \<Rightarrow> string \<times> u16" where
  "normalized_authority authority scheme =
     (let default_port = (if eq_ignore_ascii_case scheme ''https'' then 443 else 80) in
      (normalized_host (auth_host authority),
       case auth_port authority of Some p \<Rightarrow> p | None \<Rightarrow> default_port))"

definition format_canonical_origin :: "string \<Rightarrow> string \<Rightarrow> u16 \<Rightarrow> string" where
  "format_canonical_origin scheme host port = scheme @ ''://'' @ host_and_port host port"

definition canonical_configured_http_origin ::
    "(string \<Rightarrow> (Authority, string) result) \<Rightarrow> string \<Rightarrow> (string, string) result" where
  "canonical_configured_http_origin parse_authority origin =
     (if eq_ignore_ascii_case origin ''all'' \<or> origin = ''*'' \<or> CHR ''*'' \<in> set origin
      then Err ''cache origin wildcards are not supported''
      else case split_once_str ''://'' origin of
        None \<Rightarrow> Err ''cache origin must include the http:// scheme''
      | Some (scheme, authority_text) \<Rightarrow>
          if \<not> eq_ignore_ascii_case scheme ''http'' then Err ''cache origin scheme must be http''
          else if authority_text = [] \<or> CHR ''/'' \<in> set authority_text \<or> CHR ''?'' \<in> set authority_text
            \<or> CHR ''#'' \<in> set authority_text \<or> CHR ''@'' \<in> set authority_text
          then Err ''cache origin must be an authority without userinfo, path, query, or fragment''
          else
            and_then (map_err (\<lambda>e. ''invalid cache origin authority: '' @ e) (parse_authority authority_text))
              (\<lambda>authority.
            case normalized_authority authority ''http'' of (host, port) \<Rightarrow>
              if host = [] \<or> port = 0 then Err ''cache origin requires a non-empty host and non-zero port''
              else if \<not> cache_origin_host_allowed host
              then Err ''cache origin host is local, private, special-purpose, or ambiguous''
              else Ok (format_canonical_origin ''http'' host port)))"

definition canonical_cache_key_parts ::
    "(string \<Rightarrow> (Authority, string) result) \<Rightarrow> RequestHeader \<Rightarrow> (string \<times> string, string) result" where
  "canonical_cache_key_parts parse_authority request =
     and_then (ok_or ''request is missing a valid Host header''
       (Option.bind (map_of (req_headers request) ''host'') header_to_str)) (\<lambda>host_header.
     and_then (map_err (\<lambda>e. ''invalid Host authority: '' @ e) (parse_authority host_header)) (\<lambda>host_authority.
     let scheme = to_ascii_lowercase (case req_scheme request of Some s \<Rightarrow> s | None \<Rightarrow> ''http'') in
     if scheme \<noteq> ''http'' \<and> scheme \<noteq> ''https'' then Err ''unsupported URI scheme''
     else case normalized_authority host_authority scheme of (host, port) \<Rightarrow>
       if host = [] \<or> port = 0 then Err ''request authority requires a non-empty host and non-zero port''
       else if (case req_authority request of
                  Some uri_authority \<Rightarrow> normalized_authority uri_authority scheme \<noteq> (host, port)
                | None \<Rightarrow> False)
       then Err ''absolute-form URI authority disagrees with Host header''
       else Ok (format_canonical_origin scheme host port,
                case req_path_and_query request of Some p \<Rightarrow> p | None \<Rightarrow> ''/'')))"

section \<open>Policy\<close>

record CachePolicy =
  allowed_http_origins :: "string set"
  configured_max_ttl :: nat
  absolute_max_ttl :: nat

definition CACHE_DEFAULT_MAX_TTL :: nat where "CACHE_DEFAULT_MAX_TTL = 60"
definition CACHE_ABSOLUTE_MAX_TTL :: nat where "CACHE_ABSOLUTE_MAX_TTL = 300"
definition CACHE_ALLOWED_HTTP_ORIGINS_ENV :: string where
  "CACHE_ALLOWED_HTTP_ORIGINS_ENV = ''PROXY_CACHE_ALLOWED_HTTP_ORIGINS''"
definition CACHE_MAX_TTL_SECONDS_ENV :: string where
  "CACHE_MAX_TTL_SECONDS_ENV = ''PROXY_CACHE_MAX_TTL_SECONDS''"

definition parse_allowed_origins ::
    "(string \<Rightarrow> (Authority, string) result) \<Rightarrow> string option \<Rightarrow> (string set, string) result" where
  "parse_allowed_origins parse_authority allowed_origins =
     (case allowed_origins of
        None \<Rightarrow> Ok {}
      | Some origins \<Rightarrow>
          if str_trim origins = [] then Ok {}
          else try_fold (\<lambda>acc origin.
              let origin = str_trim origin in
              if origin = [] then Err (CACHE_ALLOWED_HTTP_ORIGINS_ENV @ '' contains an empty origin'')
              else and_then (canonical_configured_http_origin parse_authority origin) (\<lambda>o'. Ok (insert o' acc)))
            {} (str_split CHR '','' origins))"

definition parse_max_ttl :: "string option \<Rightarrow> (nat, string) result" where
  "parse_max_ttl configured_ttl_seconds =
     (case configured_ttl_seconds of
        Some value \<Rightarrow>
          and_then (ok_or (CACHE_MAX_TTL_SECONDS_ENV @ '' must be a positive integer'')
            (parse_u64 (str_trim value))) (\<lambda>seconds.
          if seconds = 0 then Err (CACHE_MAX_TTL_SECONDS_ENV @ '' must be positive'')
          else Ok (unat seconds))
      | None \<Rightarrow> Ok CACHE_DEFAULT_MAX_TTL)"

definition CachePolicy_parse ::
    "(string \<Rightarrow> (Authority, string) result) \<Rightarrow> string option \<Rightarrow> string option \<Rightarrow> bool \<Rightarrow> (CachePolicy, string) result" where
  "CachePolicy_parse parse_authority allowed_origins configured_ttl_seconds production =
     and_then (parse_allowed_origins parse_authority allowed_origins) (\<lambda>canonical_origins.
     if production \<and> canonical_origins = {}
     then Err (CACHE_ALLOWED_HTTP_ORIGINS_ENV
            @ '' must contain at least one reviewed origin in production mode'')
     else
     and_then (parse_max_ttl configured_ttl_seconds) (\<lambda>ttl.
     if ttl > CACHE_ABSOLUTE_MAX_TTL
     then Err (CACHE_MAX_TTL_SECONDS_ENV @ '' must not exceed '' @ show_nat CACHE_ABSOLUTE_MAX_TTL @ '' seconds'')
     else Ok \<lparr>allowed_http_origins = canonical_origins, configured_max_ttl = ttl,
               absolute_max_ttl = CACHE_ABSOLUTE_MAX_TTL\<rparr>))"

definition optional_env :: "string \<Rightarrow> env_var \<Rightarrow> (string option, string) result" where
  "optional_env name var = (case var of Env_Value v \<Rightarrow> Ok (Some v) | Env_NotPresent \<Rightarrow> Ok None
     | Env_NotUnicode \<Rightarrow> Err (name @ '' must be valid UTF-8''))"

definition CachePolicy_from_environment ::
    "(string \<Rightarrow> (Authority, string) result) \<Rightarrow> env_var \<Rightarrow> env_var \<Rightarrow> bool \<Rightarrow> (CachePolicy, string) result" where
  "CachePolicy_from_environment parse_authority origins_var ttl_var production =
     and_then (optional_env CACHE_ALLOWED_HTTP_ORIGINS_ENV origins_var) (\<lambda>allowed_origins.
     and_then (optional_env CACHE_MAX_TTL_SECONDS_ENV ttl_var) (\<lambda>configured_ttl.
     CachePolicy_parse parse_authority allowed_origins configured_ttl production))"

definition CachePolicy_allows :: "CachePolicy \<Rightarrow> string \<Rightarrow> bool" where
  "CachePolicy_allows policy origin \<longleftrightarrow> origin \<in> allowed_http_origins policy"

definition effective_max_ttl :: "CachePolicy \<Rightarrow> nat" where
  "effective_max_ttl policy = min (configured_max_ttl policy) (absolute_max_ttl policy)"

section \<open>Requests that may use the cache\<close>

definition request_cache_eligible :: "(RequestHeader \<Rightarrow> CacheControl option) \<Rightarrow> RequestHeader \<Rightarrow> bool" where
  "request_cache_eligible req_cc request =
     (if req_method request \<noteq> ''GET'' \<or> headers_contain (req_headers request) ''authorization''
         \<or> headers_contain (req_headers request) ''cookie''
      then False
      else \<not> (case req_cc request of Some cc \<Rightarrow> cc_no_store cc \<or> cc_private cc | None \<Rightarrow> False))"

datatype CacheAccessDecision =
    Eligible string string
  | BypassStrict
  | BypassUnauthenticated
  | BypassOriginNotAllowed
  | BypassRequestPolicy

text \<open>The two fields of the request context the decision reads are its arguments.\<close>

definition cache_access_decision ::
    "(string \<Rightarrow> (Authority, string) result) \<Rightarrow> (RequestHeader \<Rightarrow> CacheControl option) \<Rightarrow> RequestHeader
      \<Rightarrow> bool \<Rightarrow> string option \<Rightarrow> CachePolicy \<Rightarrow> CacheAccessDecision" where
  "cache_access_decision parse_authority req_cc request strict_isolation cache_scope policy =
     (if strict_isolation then BypassStrict
      else case cache_scope of
        None \<Rightarrow> BypassUnauthenticated
      | Some scope \<Rightarrow>
          (case canonical_cache_key_parts parse_authority request of
             Inl _ \<Rightarrow> BypassRequestPolicy
           | Inr (canonical_origin, _) \<Rightarrow>
               if \<not> CachePolicy_allows policy canonical_origin then BypassOriginNotAllowed
               else if \<not> request_cache_eligible req_cc request then BypassRequestPolicy
               else Eligible scope canonical_origin))"

record CacheKey =
  key_namespace :: string
  key_primary :: string
  key_user_tag :: string

definition CACHE_KEY_NAMESPACE_VERSION :: string where
  "CACHE_KEY_NAMESPACE_VERSION = ''proxy-http-cache-v2'' @ [CHR 0x00]"

definition scoped_cache_key ::
    "(string \<Rightarrow> (Authority, string) result) \<Rightarrow> RequestHeader \<Rightarrow> string \<Rightarrow> (CacheKey, string) result" where
  "scoped_cache_key parse_authority request scope =
     and_then (canonical_cache_key_parts parse_authority request) (\<lambda>(canonical_origin, path_and_query).
     Ok \<lparr>key_namespace = CACHE_KEY_NAMESPACE_VERSION @ canonical_origin,
          key_primary = path_and_query, key_user_tag = scope\<rparr>)"

section \<open>Responses that are stored\<close>

record CacheMeta =
  meta_fresh_until :: nat
  meta_created :: nat
  meta_stale_while_revalidate :: nat
  meta_stale_if_error :: nat
  meta_header :: ResponseHeader

datatype RespCacheable = Cacheable CacheMeta | Uncacheable string

definition positive_freshness :: "CacheControl \<Rightarrow> bool" where
  "positive_freshness cc =
     (let ok = (\<lambda>r. case r of Inr v \<Rightarrow> v | Inl _ \<Rightarrow> None);
          age = (case ok (cc_s_maxage cc) of Some n \<Rightarrow> Some n | None \<Rightarrow> ok (cc_max_age cc))
      in case age of Some seconds \<Rightarrow> seconds > 0 | None \<Rightarrow> False)"

definition conservative_response_cacheable ::
    "(RequestHeader \<Rightarrow> CacheControl option) \<Rightarrow> (ResponseHeader \<Rightarrow> CacheControl option)
      \<Rightarrow> (CacheControl \<Rightarrow> ResponseHeader \<Rightarrow> RespCacheable) \<Rightarrow> RequestHeader \<Rightarrow> ResponseHeader \<Rightarrow> RespCacheable" where
  "conservative_response_cacheable req_cc resp_cc resp_cacheable request response =
     (if \<not> request_cache_eligible req_cc request then Uncacheable ''request-policy''
      else if resp_status response \<noteq> 200 then Uncacheable ''status-policy''
      else if headers_contain (resp_headers response) ''set-cookie'' then Uncacheable ''set-cookie''
      else if headers_contain (resp_headers response) ''vary'' then Uncacheable ''vary-unsupported''
      else case resp_cc response of
        None \<Rightarrow> Uncacheable ''explicit-freshness-required''
      | Some cc \<Rightarrow>
          if \<not> cc_public cc \<or> cc_private cc \<or> cc_no_store cc then Uncacheable ''scoped-cache-policy''
          else if \<not> positive_freshness cc then Uncacheable ''positive-freshness-required''
          else resp_cacheable cc response)"

definition bounded_response_cacheable ::
    "(RequestHeader \<Rightarrow> CacheControl option) \<Rightarrow> (ResponseHeader \<Rightarrow> CacheControl option)
      \<Rightarrow> (CacheControl \<Rightarrow> ResponseHeader \<Rightarrow> RespCacheable) \<Rightarrow> nat \<Rightarrow> nat
      \<Rightarrow> RequestHeader \<Rightarrow> ResponseHeader \<Rightarrow> nat \<Rightarrow> RespCacheable \<times> bool \<times> bool" where
  "bounded_response_cacheable req_cc resp_cc resp_cacheable time_max now request response max_ttl =
     (case conservative_response_cacheable req_cc resp_cc resp_cacheable request response of
        Uncacheable r \<Rightarrow> (Uncacheable r, False, False)
      | Cacheable meta \<Rightarrow>
          let local_deadline = now + min max_ttl CACHE_ABSOLUTE_MAX_TTL in
          if local_deadline > time_max then (Uncacheable ''local-ttl-overflow'', False, True)
          else
            let origin_deadline = meta_fresh_until meta;
                bounded_deadline = min origin_deadline local_deadline
            in if bounded_deadline \<le> now then (Uncacheable ''freshness-expired'', False, False)
               else (Cacheable \<lparr>meta_fresh_until = bounded_deadline, meta_created = now,
                       meta_stale_while_revalidate = 0, meta_stale_if_error = 0,
                       meta_header = meta_header meta\<rparr>, origin_deadline > local_deadline, False))"

definition strip_cache_status_header :: "ResponseHeader \<Rightarrow> ResponseHeader" where
  "strip_cache_status_header response =
     response\<lparr>resp_headers := filter (\<lambda>(n, _). n \<noteq> ''x-proxy-cache'') (resp_headers response)\<rparr>"

datatype CachePhase = Hit | Stale | StaleUpdating | Miss | Expired | Revalidated
  | PhaseDisabled string | Bypass | Uninit | PhaseCacheKey | RevalidatedNoCache string

fun cache_status_header :: "CachePhase \<Rightarrow> string" where
  "cache_status_header Hit = ''HIT''"
| "cache_status_header Stale = ''STALE''"
| "cache_status_header StaleUpdating = ''STALE''"
| "cache_status_header Miss = ''MISS''"
| "cache_status_header Expired = ''MISS''"
| "cache_status_header Revalidated = ''MISS''"
| "cache_status_header (PhaseDisabled r) = ''BYPASS''"
| "cache_status_header Bypass = ''BYPASS''"
| "cache_status_header Uninit = ''BYPASS''"
| "cache_status_header PhaseCacheKey = ''BYPASS''"
| "cache_status_header (RevalidatedNoCache r) = ''BYPASS''"

section \<open>Origins as strings\<close>

lemma last_separator_inject:
  "x \<notin> set p \<Longrightarrow> x \<notin> set q \<Longrightarrow> a @ x # p = b @ x # q \<longleftrightarrow> a = b \<and> p = q"
proof -
  assume "x \<notin> set p" "x \<notin> set q"
  then have "rev p @ x # rev a = rev q @ x # rev b \<longleftrightarrow> rev p = rev q \<and> rev a = rev b"
  proof (induction p arbitrary: q rule: rev_induct)
    case Nil
    then show ?case by (cases "rev q") auto
  next
    case (snoc y p)
    then show ?case by (cases q rule: rev_cases) auto
  qed
  moreover have "a @ x # p = b @ x # q \<longleftrightarrow> rev (a @ x # p) = rev (b @ x # q)" by (simp only: rev_is_rev_conv)
  ultimately show ?thesis by auto
qed

lemma colon_not_in_number: "CHR '':'' \<notin> set (show_nat n)"
  using show_nat_digits [of n] by (auto simp: list_all_iff is_ascii_digit_def byte_def)

definition plain_host :: "string \<Rightarrow> bool" where
  "plain_host h \<longleftrightarrow> h \<noteq> [] \<and> hd h \<noteq> CHR ''[''"

lemma unat_port_inject: "unat p = unat q \<longleftrightarrow> p = q" for p q :: u16
  by (simp add: word_unat_eq_iff)

lemma host_and_port_inject:
  assumes "plain_host h" "plain_host h'"
  shows "host_and_port h p = host_and_port h' p' \<longleftrightarrow> h = h' \<and> p = p'"
proof -
  note sep = last_separator_inject [OF colon_not_in_number colon_not_in_number]
  have b: "''['' @ h @ '']:'' @ show_nat n = ''['' @ h' @ '']:'' @ show_nat m \<longleftrightarrow> h = h' \<and> n = m" for n m
    using sep [of "h @ '']''" n "h' @ '']''" m] by simp
  have c: "h @ '':'' @ show_nat n = h' @ '':'' @ show_nat m \<longleftrightarrow> h = h' \<and> n = m" for n m
    using sep [of h n h' m] by simp
  have "''['' @ x \<noteq> h @ '':'' @ y" "''['' @ x \<noteq> h' @ '':'' @ y" for x y
    using assms by (cases h; cases h'; auto simp: plain_host_def)+
  then show ?thesis
    using b c unat_port_inject [of p p'] unfolding host_and_port_def by (auto; metis)
qed

lemma format_canonical_origin_inject:
  assumes "scheme \<in> {''http'', ''https''}" "scheme' \<in> {''http'', ''https''}" "plain_host h" "plain_host h'"
  shows "format_canonical_origin scheme h p = format_canonical_origin scheme' h' p' \<longleftrightarrow>
    scheme = scheme' \<and> h = h' \<and> p = p'"
  using assms(1,2) host_and_port_inject [OF assms(3,4), of p p'] by (auto simp: format_canonical_origin_def)

lemma ascii_lower_bracket: "ascii_lower c = CHR ''['' \<longleftrightarrow> c = CHR ''[''"
proof -
  have "byte (ascii_lower c) = 91 \<longleftrightarrow> byte c = 91"
    by (auto simp: byte_ascii_lower is_ascii_uppercase_def)
  moreover have "byte CHR ''['' = 91" by (simp add: byte_def)
  ultimately show ?thesis by (metis byte_inject)
qed

lemma hd_trim_end_matches: "trim_end_matches d s \<noteq> [] \<Longrightarrow> hd (trim_end_matches d s) = hd s"
proof -
  obtain k where "trim_end_matches d s = take k s"
    unfolding trim_end_matches_def by (metis dropWhile_eq_drop rev_rev_ident take_rev rev_take rev_drop)
  then show "trim_end_matches d s \<noteq> [] \<Longrightarrow> hd (trim_end_matches d s) = hd s" by (cases k; cases s) auto
qed

lemma trim_end_matches_Nil: "trim_end_matches d [] = []"
  by (simp add: trim_end_matches_def)

lemma normalized_host_plain: "normalized_host h \<noteq> [] \<Longrightarrow> plain_host (normalized_host h)"
proof -
  let ?t = "trim_start_matches CHR ''['' h"
  let ?u = "trim_end_matches CHR '']'' ?t"
  let ?v = "trim_end_matches CHR ''.'' ?u"
  assume "normalized_host h \<noteq> []"
  then have v: "?v \<noteq> []" by (simp add: normalized_host_def to_ascii_lowercase_def)
  then have u: "?u \<noteq> []" using trim_end_matches_Nil by metis
  then have t: "?t \<noteq> []" using trim_end_matches_Nil by metis
  have "hd ?v = hd ?t" using hd_trim_end_matches [OF v] hd_trim_end_matches [OF u] by simp
  moreover have "hd ?t \<noteq> CHR ''[''"
    using t hd_dropWhile [of "\<lambda>c. c = CHR ''[''" h] by (auto simp: trim_start_matches_def)
  ultimately have "hd ?v \<noteq> CHR ''[''" by simp
  then have "hd (map ascii_lower ?v) \<noteq> CHR ''[''" using v by (simp only: hd_map ascii_lower_bracket not_False_eq_True)
  then show ?thesis
    using v by (simp only: plain_host_def normalized_host_def to_ascii_lowercase_def map_is_Nil_conv not_False_eq_True simp_thms)
qed

section \<open>Properties\<close>

text \<open>
  What a request asks for, stated on the request itself: its scheme, the authority of its \<open>Host\<close> header,
  the host of that authority, in lower case and without enclosing brackets and trailing dots, the port it means for
  the scheme, and the path.
\<close>

definition requested_scheme :: "RequestHeader \<Rightarrow> string" where
  "requested_scheme r = to_ascii_lowercase (case req_scheme r of Some s \<Rightarrow> s | None \<Rightarrow> ''http'')"

definition requested_authority :: "(string \<Rightarrow> (Authority, string) result) \<Rightarrow> RequestHeader \<Rightarrow> Authority option" where
  "requested_authority pa r =
     Option.bind (map_of (req_headers r) ''host'') (\<lambda>v. case pa v of Inr a \<Rightarrow> Some a | Inl _ \<Rightarrow> None)"

definition requested_port :: "RequestHeader \<Rightarrow> Authority \<Rightarrow> u16" where
  "requested_port r a = (case auth_port a of Some p \<Rightarrow> p | None \<Rightarrow> if requested_scheme r = ''https'' then 443 else 80)"

definition requested_host :: "Authority \<Rightarrow> string" where
  "requested_host a = to_ascii_lowercase
     (trim_end_matches CHR ''.'' (trim_end_matches CHR '']'' (trim_start_matches CHR ''['' (auth_host a))))"

text \<open>An absolute-form request names the authority a second time.\<close>

definition names_one_authority :: "RequestHeader \<Rightarrow> Authority \<Rightarrow> bool" where
  "names_one_authority r a \<longleftrightarrow>
     (case req_authority r of None \<Rightarrow> True
      | Some u \<Rightarrow> requested_host u = requested_host a \<and> requested_port r u = requested_port r a)"

definition requested_path :: "RequestHeader \<Rightarrow> string" where
  "requested_path r = (case req_path_and_query r of Some p \<Rightarrow> p | None \<Rightarrow> ''/'')"

lemma normalized_authority_requested:
  "requested_scheme r \<in> {''http'', ''https''} \<Longrightarrow>
     normalized_authority a (requested_scheme r) = (requested_host a, requested_port r a)"
  by (auto simp: normalized_authority_def requested_host_def normalized_host_def requested_port_def eq_ignore_ascii_case_def
      to_ascii_lowercase_def ascii_lower_def byte_def ascii_defs split: option.splits)

lemma requested_host_plain: "requested_host a \<noteq> [] \<Longrightarrow> plain_host (requested_host a)"
  using normalized_host_plain [of "auth_host a"] by (simp add: requested_host_def normalized_host_def)

lemma cache_key_target:
  assumes "canonical_cache_key_parts pa r = Ok (origin, path)"
  obtains a where "requested_authority pa r = Some a" "requested_scheme r \<in> {''http'', ''https''}"
    "plain_host (requested_host a)" "names_one_authority r a" "path = requested_path r"
    "origin = format_canonical_origin (requested_scheme r) (requested_host a) (requested_port r a)"
proof -
  from assms obtain v a where v: "map_of (req_headers r) ''host'' = Some v" "pa v = Ok a"
      and s: "requested_scheme r \<in> {''http'', ''https''}"
      and h: "fst (normalized_authority a (requested_scheme r)) \<noteq> []" "path = requested_path r"
      "\<forall>u. req_authority r = Some u \<longrightarrow> normalized_authority u (requested_scheme r) = normalized_authority a (requested_scheme r)"
      "origin = (case normalized_authority a (requested_scheme r) of (host, port) \<Rightarrow>
        format_canonical_origin (requested_scheme r) host port)"
    by (auto simp: canonical_cache_key_parts_def requested_scheme_def requested_path_def header_to_str_def Let_def
        bind_eq_Some_conv split: if_splits prod.splits option.splits)
  note n = normalized_authority_requested [OF s]
  have "requested_authority pa r = Some a" using v by (simp add: requested_authority_def)
  moreover have "names_one_authority r a" using h(3) by (auto simp: n names_one_authority_def split: option.splits)
  ultimately show thesis using that s h requested_host_plain [of a] by (simp add: n)
qed

text \<open>
  Property C21. Cache entries are separated: a request that has a cache key names one target, also where an absolute-form
  request names it twice, and two such requests share their key exactly when their schemes, the
  hosts of their \<open>Host\<close> headers (without regard to case, brackets and a trailing dot), the ports these mean for the
  scheme, their paths and queries, and the opaque tenant scopes all agree.
\<close>

theorem cache_keys_separate:
  assumes "scoped_cache_key pa r scope = Ok key" "scoped_cache_key pa r' scope' = Ok key'"
  shows "\<exists>a a'. requested_authority pa r = Some a \<and> requested_authority pa r' = Some a'
      \<and> names_one_authority r a \<and> names_one_authority r' a'
      \<and> (key = key' \<longleftrightarrow> requested_scheme r = requested_scheme r'
           \<and> requested_host a = requested_host a' \<and> requested_port r a = requested_port r' a'
           \<and> requested_path r = requested_path r' \<and> scope = scope')"
proof -
  obtain origin path where 1: "canonical_cache_key_parts pa r = Ok (origin, path)"
    using assms(1) by (auto simp: scoped_cache_key_def)
  obtain origin' path' where 2: "canonical_cache_key_parts pa r' = Ok (origin', path')"
    using assms(2) by (auto simp: scoped_cache_key_def)
  have key: "key = key' \<longleftrightarrow> origin = origin' \<and> path = path' \<and> scope = scope'"
    using assms by (auto simp: scoped_cache_key_def 1 2)
  from 1 obtain a where a: "requested_authority pa r = Some a" "requested_scheme r \<in> {''http'', ''https''}"
      "plain_host (requested_host a)" "names_one_authority r a" "path = requested_path r"
      "origin = format_canonical_origin (requested_scheme r) (requested_host a) (requested_port r a)"
    by (rule cache_key_target)
  from 2 obtain a' where a': "requested_authority pa r' = Some a'" "requested_scheme r' \<in> {''http'', ''https''}"
      "plain_host (requested_host a')" "names_one_authority r' a'" "path' = requested_path r'"
      "origin' = format_canonical_origin (requested_scheme r') (requested_host a') (requested_port r' a')"
    by (rule cache_key_target)
  from key a a' format_canonical_origin_inject [OF a(2) a'(2) a(3) a'(3)] show ?thesis by auto
qed

definition demo_request :: "string \<Rightarrow> RequestHeader" where
  "demo_request host = \<lparr>req_method = ''GET'', req_headers = [(''host'', host)], req_scheme = None,
     req_authority = None, req_path_and_query = None\<rparr>"

definition host_only :: "string \<Rightarrow> (Authority, string) result" where
  "host_only s = Ok \<lparr>auth_host = s, auth_port = None\<rparr>"

lemma demo_parts:
  "canonical_cache_key_parts host_only (demo_request ''a'') = Ok (format_canonical_origin ''http'' ''a'' 80, ''/'')"
  "canonical_cache_key_parts host_only (demo_request ''b'') = Ok (format_canonical_origin ''http'' ''b'' 80, ''/'')"
  by (simp_all add: canonical_cache_key_parts_def demo_request_def host_only_def header_to_str_def byte_def
      normalized_authority_def normalized_host_def trim_end_matches_def trim_start_matches_def
      to_ascii_lowercase_def ascii_lower_def is_ascii_uppercase_def eq_ignore_ascii_case_def Let_def)

theorem cache_keys_separate_witness:
  "\<exists>key key'. scoped_cache_key host_only (demo_request ''a'') ''t'' = Ok key
     \<and> scoped_cache_key host_only (demo_request ''b'') ''t'' = Ok key' \<and> key \<noteq> key'"
proof -
  obtain key key' where k: "scoped_cache_key host_only (demo_request ''a'') ''t'' = Ok key"
      "scoped_cache_key host_only (demo_request ''b'') ''t'' = Ok key'"
    by (simp add: scoped_cache_key_def demo_parts)
  have "requested_authority host_only (demo_request h) = Some \<lparr>auth_host = h, auth_port = None\<rparr>" for h
    by (simp add: requested_authority_def demo_request_def host_only_def)
  moreover have "requested_host \<lparr>auth_host = ''a'', auth_port = None\<rparr> \<noteq> requested_host \<lparr>auth_host = ''b'', auth_port = None\<rparr>"
    by (simp add: requested_host_def trim_end_matches_def trim_start_matches_def to_ascii_lowercase_def ascii_lower_def
        is_ascii_uppercase_def byte_def)
  ultimately show ?thesis using cache_keys_separate [OF k] k by auto
qed

text \<open>
  Property C23. What is stored is safe and bounded: a response admitted to the cache answers an
  eligible GET request without credentials, has status 200, no cookies and no variants, is
  explicitly public and fresh, and expires no later than the origin said and no later than the
  configured and absolute limits after now; it is never served stale.
\<close>

theorem stored_responses_bounded:
  assumes "bounded_response_cacheable req_cc resp_cc resp_cacheable time_max now request response max_ttl
    = (Cacheable m, capped, overflow)"
  shows "now < meta_fresh_until m \<and> meta_fresh_until m \<le> now + min max_ttl CACHE_ABSOLUTE_MAX_TTL
    \<and> meta_stale_while_revalidate m = 0 \<and> meta_stale_if_error m = 0 \<and> \<not> overflow
    \<and> req_method request = ''GET'' \<and> \<not> headers_contain (req_headers request) ''authorization''
    \<and> \<not> headers_contain (req_headers request) ''cookie''
    \<and> resp_status response = 200 \<and> \<not> headers_contain (resp_headers response) ''set-cookie''
    \<and> \<not> headers_contain (resp_headers response) ''vary''
    \<and> (\<exists>cc meta. resp_cc response = Some cc \<and> cc_public cc \<and> \<not> cc_private cc \<and> \<not> cc_no_store cc
         \<and> positive_freshness cc \<and> resp_cacheable cc response = Cacheable meta
         \<and> meta_fresh_until m \<le> meta_fresh_until meta
         \<and> (capped \<longleftrightarrow> meta_fresh_until m < meta_fresh_until meta))"
proof -
  obtain meta where meta: "conservative_response_cacheable req_cc resp_cc resp_cacheable request response = Cacheable meta"
    using assms by (cases "conservative_response_cacheable req_cc resp_cc resp_cacheable request response")
      (auto simp: bounded_response_cacheable_def)
  then have "request_cache_eligible req_cc request" "resp_status response = 200"
      "\<not> headers_contain (resp_headers response) ''set-cookie''" "\<not> headers_contain (resp_headers response) ''vary''"
      "\<exists>cc. resp_cc response = Some cc \<and> cc_public cc \<and> \<not> cc_private cc \<and> \<not> cc_no_store cc
         \<and> positive_freshness cc \<and> resp_cacheable cc response = Cacheable meta"
    by (auto simp: conservative_response_cacheable_def split: if_splits option.splits)
  moreover have "now < meta_fresh_until m" "meta_fresh_until m = min (meta_fresh_until meta) (now + min max_ttl CACHE_ABSOLUTE_MAX_TTL)"
      "meta_stale_while_revalidate m = 0" "meta_stale_if_error m = 0" "\<not> overflow"
      "capped \<longleftrightarrow> meta_fresh_until meta > now + min max_ttl CACHE_ABSOLUTE_MAX_TTL"
    using assms meta by (auto simp: bounded_response_cacheable_def Let_def split: if_splits)
  moreover have "req_method request = ''GET''" "\<not> headers_contain (req_headers request) ''authorization''"
      "\<not> headers_contain (req_headers request) ''cookie''"
    using calculation(1) by (auto simp: request_cache_eligible_def split: if_splits)
  ultimately show ?thesis by (auto simp: min_def split: if_splits)
qed

definition demo_cc :: CacheControl where
  "demo_cc = \<lparr>cc_no_store = False, cc_private = False, cc_public = True, cc_s_maxage = Ok None, cc_max_age = Ok (Some 900)\<rparr>"

definition demo_response :: ResponseHeader where
  "demo_response = \<lparr>resp_status = 200, resp_headers = [(''cache-control'', ''public, max-age=900'')]\<rparr>"

definition demo_meta :: "nat \<Rightarrow> CacheMeta" where
  "demo_meta t = \<lparr>meta_fresh_until = t, meta_created = 1000, meta_stale_while_revalidate = 0,
     meta_stale_if_error = 0, meta_header = demo_response\<rparr>"

lemma demo_stored:
  "bounded_response_cacheable (\<lambda>_. None) (\<lambda>_. Some demo_cc) (\<lambda>_ _. Cacheable (demo_meta 1900)) 100000 1000
     (demo_request ''a'') demo_response 60 = (Cacheable (demo_meta 1060), True, False)"
  by (simp add: bounded_response_cacheable_def conservative_response_cacheable_def demo_request_def demo_response_def
      request_cache_eligible_def headers_contain_def demo_cc_def positive_freshness_def demo_meta_def CACHE_ABSOLUTE_MAX_TTL_def)

theorem stored_responses_bounded_witness:
  "1000 < meta_fresh_until (demo_meta 1060) \<and> meta_fresh_until (demo_meta 1060) \<le> 1000 + min 60 CACHE_ABSOLUTE_MAX_TTL"
  using stored_responses_bounded [OF demo_stored] by blast

text \<open>
  Access to the cache: a request is eligible exactly when its isolation is not strict,
  it has a tenant scope, its canonical origin is configured, and it is a GET without credentials
  whose own cache directives allow storing.
\<close>

lemma cache_access_iff:
  "cache_access_decision pa req_cc request strict cache_scope policy = Eligible scope origin \<longleftrightarrow>
     \<not> strict \<and> cache_scope = Some scope \<and> origin \<in> allowed_http_origins policy
     \<and> (\<exists>path. canonical_cache_key_parts pa request = Ok (origin, path))
     \<and> req_method request = ''GET'' \<and> \<not> headers_contain (req_headers request) ''authorization''
     \<and> \<not> headers_contain (req_headers request) ''cookie''
     \<and> (case req_cc request of Some cc \<Rightarrow> \<not> cc_no_store cc \<and> \<not> cc_private cc | None \<Rightarrow> True)"
  by (auto simp: cache_access_decision_def CachePolicy_allows_def request_cache_eligible_def
      split: option.splits sum.splits prod.splits if_splits)

lemma configured_origin_Ok:
  assumes "canonical_configured_http_origin pa s = Ok origin"
  shows "\<exists>host port. origin = format_canonical_origin ''http'' host port \<and> port \<noteq> 0 \<and> plain_host host
    \<and> cache_origin_host_allowed host"
proof -
  from assms obtain a where "(case normalized_authority a ''http'' of (host, port) \<Rightarrow>
      if host = [] \<or> port = 0 then Err ''cache origin requires a non-empty host and non-zero port''
      else if \<not> cache_origin_host_allowed host
      then Err ''cache origin host is local, private, special-purpose, or ambiguous''
      else Ok (format_canonical_origin ''http'' host port)) = Ok origin"
    by (auto simp: canonical_configured_http_origin_def simp del: split_paired_All split: if_splits option.splits)
  then obtain host port where "normalized_authority a ''http'' = (host, port)" "host \<noteq> []" "port \<noteq> 0"
      "cache_origin_host_allowed host" "origin = format_canonical_origin ''http'' host port"
    by (cases "normalized_authority a ''http''") (auto split: if_splits)
  moreover from this have "plain_host host" by (auto simp: normalized_authority_def intro: normalized_host_plain)
  ultimately show ?thesis by blast
qed

lemma try_fold_insert_all:
  assumes "try_fold (\<lambda>acc x. and_then (f x) (\<lambda>y. Ok (insert y acc))) A xs = Ok B" "y \<in> B"
  shows "y \<in> A \<or> (\<exists>x\<in>set xs. f x = Ok y)"
  using assms by (induction xs arbitrary: A) force+

lemma parsed_origins:
  assumes "parse_allowed_origins pa o' = Ok origins" "origin \<in> origins"
  shows "\<exists>s. canonical_configured_http_origin pa s = Ok origin"
proof -
  let ?f = "\<lambda>origin. let origin = str_trim origin in
      if origin = [] then Err (CACHE_ALLOWED_HTTP_ORIGINS_ENV @ '' contains an empty origin'')
      else canonical_configured_http_origin pa origin"
  have step: "(let origin = str_trim x in
      if origin = [] then Err (CACHE_ALLOWED_HTTP_ORIGINS_ENV @ '' contains an empty origin'')
      else and_then (canonical_configured_http_origin pa origin) (\<lambda>o'. Ok (insert o' acc)))
      = and_then (?f x) (\<lambda>y. Ok (insert y acc))" for x and acc :: "string set"
    by (simp add: Let_def)
  from assms obtain s where "try_fold (\<lambda>acc x. and_then (?f x) (\<lambda>y. Ok (insert y acc))) {} (str_split CHR '','' s) = Ok origins"
    unfolding parse_allowed_origins_def step by (auto split: option.splits if_splits)
  from try_fold_insert_all [OF this assms(2)] show ?thesis by (auto simp: Let_def split: if_splits)
qed

text \<open>
  A policy that is accepted is safe: every configured origin is a plain HTTP origin with
  a non-zero port whose host is public, so the proxy would connect to it, the lifetime limit is
  positive and at most five minutes, and production has at least one origin.
\<close>

lemma accepted_policy_safe:
  assumes "CachePolicy_from_environment pa origins_var ttl_var production = Ok policy"
  shows "(\<forall>origin\<in>allowed_http_origins policy. \<exists>host port. origin = format_canonical_origin ''http'' host port
        \<and> port \<noteq> 0 \<and> cache_origin_host_allowed host \<and> connect_host_allowed host)
    \<and> 0 < effective_max_ttl policy \<and> effective_max_ttl policy \<le> 300
    \<and> (production \<longrightarrow> allowed_http_origins policy \<noteq> {})"
proof -
  obtain o' t' where p: "CachePolicy_parse pa o' t' production = Ok policy"
    using assms by (auto simp: CachePolicy_from_environment_def)
  then obtain origins ttl where o: "parse_allowed_origins pa o' = Ok origins" and t: "parse_max_ttl t' = Ok ttl"
    and pol: "policy = \<lparr>allowed_http_origins = origins, configured_max_ttl = ttl, absolute_max_ttl = CACHE_ABSOLUTE_MAX_TTL\<rparr>"
    and le: "ttl \<le> CACHE_ABSOLUTE_MAX_TTL" "\<not> (production \<and> origins = {})"
    by (simp add: CachePolicy_parse_def split: if_splits) (metis linorder_not_le)
  have "0 < ttl" using t by (auto simp: parse_max_ttl_def CACHE_DEFAULT_MAX_TTL_def unat_gt_0 split: option.splits if_splits)
  moreover have "\<exists>host port. origin = format_canonical_origin ''http'' host port
      \<and> port \<noteq> 0 \<and> cache_origin_host_allowed host \<and> connect_host_allowed host" if "origin \<in> origins" for origin
    using parsed_origins [OF o that] configured_origin_Ok cacheable_connect by blast
  ultimately show ?thesis using pol le by (simp add: effective_max_ttl_def CACHE_ABSOLUTE_MAX_TTL_def)
qed

end
