(* ===== verification/Request_Parsing.thy ===== *)
theory Request_Parsing
  imports Cache_Policy Isolation
begin

text \<open>
  Parsing and sanitising of proxy requests (\<open>src/src/main.rs\<close>): the four ingress headers, the request
  head of a CONNECT or absolute-form request, its reading from a stream with a bounded buffer, and
  the request head that is passed on without the ingress headers.

  The tokenizer \<open>httparse\<close> is the parameter \<open>http_parse\<close>: for a prefix of a stream it fails, asks for
  more, or returns the length of the head with its method, target, version and headers. A stream is
  a stateful \<open>read\<close> that is given the room that is left.
\<close>

section \<open>Headers\<close>

record HttpHead =
  head_method :: "string option"
  head_path :: "string option"
  head_version :: "nat option"
  head_headers :: "(string \<times> string) list"

datatype parse_status = Partial | Complete nat HttpHead

type_synonym http_parser = "string \<Rightarrow> (parse_status, string) result"

definition MAX_CONNECT_HEADER_BYTES :: nat where "MAX_CONNECT_HEADER_BYTES = 16 * 1024"

definition ISOLATION_HEADER :: string where "ISOLATION_HEADER = ''X-Proxy-Isolation''"
definition ISOLATION_MODE_HEADER :: string where "ISOLATION_MODE_HEADER = ''X-Proxy-Isolation-Mode''"
definition PROXY_AUTHORIZATION_HEADER :: string where "PROXY_AUTHORIZATION_HEADER = ''Proxy-Authorization''"
definition INTERNAL_IDENTITY_HEADER :: string where "INTERNAL_IDENTITY_HEADER = ''X-Proxy-Authenticated-Lease''"

record ParsedIngressHeaders =
  ingress_isolation :: IsolationRequest
  ingress_proxy_authorization :: "string option"
  ingress_internal_identity :: "string option"

text \<open>The loop of \<open>ingress_headers_from_httparse\<close> with its five variables.\<close>

fun ingress_header_loop ::
    "string option \<Rightarrow> bool \<Rightarrow> bool \<Rightarrow> string option \<Rightarrow> string option \<Rightarrow> (string \<times> string) list
      \<Rightarrow> (ParsedIngressHeaders, anyhow_error) result" where
  "ingress_header_loop identity strict mode_seen proxy_authorization internal_identity [] =
     Ok \<lparr>ingress_isolation = \<lparr>request_identity = identity, request_strict = strict\<rparr>,
          ingress_proxy_authorization = proxy_authorization,
          ingress_internal_identity = internal_identity\<rparr>"
| "ingress_header_loop identity strict mode_seen proxy_authorization internal_identity ((name, value) # hs) =
     (if eq_ignore_ascii_case name ISOLATION_HEADER then
        (if identity \<noteq> None then Err ''duplicate isolation identity header''
         else and_then (validate_isolation_identity value) (\<lambda>i.
           ingress_header_loop (Some i) strict mode_seen proxy_authorization internal_identity hs))
      else if eq_ignore_ascii_case name ISOLATION_MODE_HEADER then
        (if mode_seen then Err ''duplicate isolation mode header''
         else and_then (parse_isolation_mode value) (\<lambda>s.
           ingress_header_loop identity s True proxy_authorization internal_identity hs))
      else if eq_ignore_ascii_case name PROXY_AUTHORIZATION_HEADER then
        (if proxy_authorization \<noteq> None then Err ''duplicate proxy authorization header''
         else if \<not> from_utf8_ok value then Err ''proxy authorization is not valid UTF-8''
         else ingress_header_loop identity strict mode_seen (Some value) internal_identity hs)
      else if eq_ignore_ascii_case name INTERNAL_IDENTITY_HEADER then
        (if internal_identity \<noteq> None then Err ''duplicate internal identity header''
         else and_then (validate_isolation_identity value) (\<lambda>i.
           ingress_header_loop identity strict mode_seen proxy_authorization (Some i) hs))
      else ingress_header_loop identity strict mode_seen proxy_authorization internal_identity hs)"

definition ingress_headers_from_httparse ::
    "(string \<times> string) list \<Rightarrow> (ParsedIngressHeaders, anyhow_error) result" where
  "ingress_headers_from_httparse hs = ingress_header_loop None False False None None hs"

text \<open>\<open>take_isolation_request\<close>: the same two headers, from the header map of a parsed request.\<close>

definition get_all :: "(string \<times> string) list \<Rightarrow> string \<Rightarrow> string list" where
  "get_all hs name = map snd (filter (\<lambda>(n, _). n = to_ascii_lowercase name) hs)"

definition remove_header :: "string \<Rightarrow> RequestHeader \<Rightarrow> RequestHeader" where
  "remove_header name request =
     request\<lparr>req_headers := filter (\<lambda>(n, _). n \<noteq> to_ascii_lowercase name) (req_headers request)\<rparr>"

definition single_value ::
    "(string \<Rightarrow> ('a, anyhow_error) result) \<Rightarrow> anyhow_error \<Rightarrow> string list \<Rightarrow> ('a option, anyhow_error) result" where
  "single_value parse duplicate values =
     and_then (transpose_option (case values of [] \<Rightarrow> None | v # _ \<Rightarrow> Some (parse v))) (\<lambda>r.
     if length values > 1 then Err duplicate else Ok r)"

definition take_isolation_request ::
    "RequestHeader \<Rightarrow> (IsolationRequest, anyhow_error) result \<times> RequestHeader" where
  "take_isolation_request request =
     (case and_then (single_value validate_isolation_identity ''duplicate isolation identity header''
               (get_all (req_headers request) ISOLATION_HEADER)) (\<lambda>identity.
           and_then (single_value parse_isolation_mode ''duplicate isolation mode header''
               (get_all (req_headers request) ISOLATION_MODE_HEADER)) (\<lambda>strict.
           Ok \<lparr>request_identity = identity, request_strict = (case strict of Some s \<Rightarrow> s | None \<Rightarrow> False)\<rparr>)) of
        Inl e \<Rightarrow> (Err e, request)
      | Inr r \<Rightarrow>
          (Ok r, remove_header INTERNAL_IDENTITY_HEADER (remove_header PROXY_AUTHORIZATION_HEADER
             (remove_header ISOLATION_MODE_HEADER (remove_header ISOLATION_HEADER request)))))"

section \<open>Request heads\<close>

record ParsedProxyRequest =
  parsed_method :: string
  parsed_destination :: "string option"
  parsed_header_len :: nat
  parsed_isolation :: IsolationRequest
  parsed_proxy_authorization :: "string option"
  parsed_internal_identity :: "string option"

definition nonempty_option :: "string option \<Rightarrow> string option" where
  "nonempty_option v = (case v of Some s \<Rightarrow> if s = [] then None else Some s | None \<Rightarrow> None)"

definition parse_proxy_request ::
    "http_parser \<Rightarrow> string \<Rightarrow> (ParsedProxyRequest option, anyhow_error) result" where
  "parse_proxy_request http_parse buffer =
     and_then (map_err (\<lambda>e. ''malformed HTTP request: '' @ e) (http_parse buffer)) (\<lambda>status.
     case status of
       Partial \<Rightarrow> Ok None
     | Complete header_len head \<Rightarrow>
         if header_len > MAX_CONNECT_HEADER_BYTES
         then Err (''request headers exceed '' @ show_nat MAX_CONNECT_HEADER_BYTES @ '' bytes'')
         else
         and_then (ok_or ''HTTP request is missing a method'' (nonempty_option (head_method head))) (\<lambda>m.
         and_then (if eq_ignore_ascii_case m ''CONNECT''
                   then map_err id (and_then (ok_or ''CONNECT request is missing a destination''
                          (nonempty_option (head_path head))) (\<lambda>d. Ok (Some d)))
                   else Ok None) (\<lambda>destination.
         and_then (ingress_headers_from_httparse (head_headers head)) (\<lambda>ingress.
         Ok (Some \<lparr>parsed_method = m, parsed_destination = destination, parsed_header_len = header_len,
               parsed_isolation = ingress_isolation ingress,
               parsed_proxy_authorization = ingress_proxy_authorization ingress,
               parsed_internal_identity = ingress_internal_identity ingress\<rparr>)))))"

definition is_ingress_header :: "string \<Rightarrow> bool" where
  "is_ingress_header name \<longleftrightarrow> eq_ignore_ascii_case name PROXY_AUTHORIZATION_HEADER
     \<or> eq_ignore_ascii_case name ISOLATION_HEADER \<or> eq_ignore_ascii_case name ISOLATION_MODE_HEADER
     \<or> eq_ignore_ascii_case name INTERNAL_IDENTITY_HEADER"

definition crlf :: string where
  "crlf = [CHR 0x0D, CHR 0x0A]"

text \<open>The loop that copies the headers, and the whole sanitised head.\<close>

fun forwarded_headers :: "(string \<times> string) list \<Rightarrow> string" where
  "forwarded_headers [] = []"
| "forwarded_headers ((name, value) # hs) =
     (if is_ingress_header name then forwarded_headers hs
      else name @ '': '' @ value @ crlf @ forwarded_headers hs)"

definition strip_ingress_headers :: "http_parser \<Rightarrow> string \<Rightarrow> nat \<Rightarrow> (string, anyhow_error) result" where
  "strip_ingress_headers http_parse buffer header_len =
     (if header_len > length buffer then Err ''parsed header length exceeds buffered request''
      else
      and_then (map_err (\<lambda>e. ''malformed HTTP request: '' @ e) (http_parse (take header_len buffer))) (\<lambda>status.
      case status of
        Partial \<Rightarrow> Err ''request header unexpectedly became incomplete''
      | Complete _ head \<Rightarrow>
          and_then (ok_or ''HTTP request is missing a method'' (head_method head)) (\<lambda>m.
          and_then (ok_or ''HTTP request is missing a target'' (head_path head)) (\<lambda>path.
          and_then (ok_or ''HTTP request is missing a version'' (head_version head)) (\<lambda>version.
          Ok (m @ '' '' @ path @ '' HTTP/1.'' @ show_nat version @ crlf
              @ forwarded_headers (head_headers head) @ crlf @ drop header_len buffer))))))"

definition parse_connect_request ::
    "http_parser \<Rightarrow> string \<Rightarrow> ((string \<times> nat) option, anyhow_error) result" where
  "parse_connect_request http_parse buffer =
     and_then (parse_proxy_request http_parse buffer) (\<lambda>r.
     case r of
       None \<Rightarrow> Ok None
     | Some request \<Rightarrow>
         if \<not> eq_ignore_ascii_case (parsed_method request) ''CONNECT'' then Err ''expected CONNECT request''
         else Ok (Some (the (parsed_destination request), parsed_header_len request)))"

section \<open>Reading\<close>

text \<open>
  \<open>read_proxy_request\<close>: at most 1024 bytes are read at a time, and never more than the room that is
  left; a read of no bytes is the end of the stream. The buffer never grows beyond the maximum, so
  the comparison with it is one of equality.
\<close>

function read_proxy_request ::
    "http_parser \<Rightarrow> (nat \<Rightarrow> 's \<Rightarrow> (string, anyhow_error) result \<times> 's) \<Rightarrow> string \<Rightarrow> 's
      \<Rightarrow> (ParsedProxyRequest \<times> string, anyhow_error) result \<times> 's" where
  "read_proxy_request http_parse read buffer s =
     (case parse_proxy_request http_parse buffer of
        Inl e \<Rightarrow> (Err e, s)
      | Inr (Some request) \<Rightarrow> (Ok (request, buffer), s)
      | Inr None \<Rightarrow>
          if length buffer \<ge> MAX_CONNECT_HEADER_BYTES
          then (Err (''request headers exceed '' @ show_nat MAX_CONNECT_HEADER_BYTES @ '' bytes''), s)
          else
            let read_capacity = min (MAX_CONNECT_HEADER_BYTES - length buffer) 1024 in
            (case read read_capacity s of
               (Inl e, s') \<Rightarrow> (Err e, s')
             | (Inr chunk, s') \<Rightarrow>
                 if take read_capacity chunk = []
                 then (Err ''connection closed before a complete HTTP request was received'', s')
                 else read_proxy_request http_parse read (buffer @ take read_capacity chunk) s'))"
  by pat_completeness auto

termination
  by (relation "measure (\<lambda>(_, _, buffer, _). MAX_CONNECT_HEADER_BYTES - length buffer)")
    (auto simp: min_def length_greater_0_conv [symmetric] simp del: length_greater_0_conv split: if_splits)

definition read_connect_request ::
    "http_parser \<Rightarrow> (nat \<Rightarrow> 's \<Rightarrow> (string, anyhow_error) result \<times> 's) \<Rightarrow> 's
      \<Rightarrow> (string \<times> IsolationRequest \<times> string option \<times> string, anyhow_error) result \<times> 's" where
  "read_connect_request http_parse read s =
     (case read_proxy_request http_parse read [] s of
        (Inl e, s') \<Rightarrow> (Err e, s')
      | (Inr (request, buffer), s') \<Rightarrow>
          if \<not> eq_ignore_ascii_case (parsed_method request) ''CONNECT'' then (Err ''expected CONNECT request'', s')
          else (Ok (the (parsed_destination request), parsed_isolation request,
                    parsed_internal_identity request, drop (parsed_header_len request) buffer), s'))"

declare read_proxy_request.simps [simp del]

section \<open>The ingress headers against a reference\<close>

definition values_of :: "string \<Rightarrow> (string \<times> string) list \<Rightarrow> string list" where
  "values_of name hs = map snd (filter (\<lambda>(n, _). eq_ignore_ascii_case n name) hs)"

text \<open>At most one value, and it parses; \<open>acc\<close> is a value seen before.\<close>

definition at_most_one ::
    "(string \<Rightarrow> ('a, anyhow_error) result) \<Rightarrow> 'a option \<Rightarrow> string list \<Rightarrow> 'a option \<Rightarrow> bool" where
  "at_most_one parse acc vs r \<longleftrightarrow>
     (case acc of Some x \<Rightarrow> vs = [] \<and> r = Some x
      | None \<Rightarrow> (case vs of [] \<Rightarrow> r = None | [v] \<Rightarrow> (\<exists>x. parse v = Ok x \<and> r = Some x) | _ \<Rightarrow> False))"

definition parse_authorization_value :: "string \<Rightarrow> (string, anyhow_error) result" where
  "parse_authorization_value v =
     (if from_utf8_ok v then Ok v else Err ''proxy authorization is not valid UTF-8'')"

definition ingress_reference ::
    "string option \<Rightarrow> bool option \<Rightarrow> string option \<Rightarrow> string option \<Rightarrow> (string \<times> string) list \<Rightarrow> ParsedIngressHeaders \<Rightarrow> bool" where
  "ingress_reference i m a l hs p \<longleftrightarrow>
     at_most_one validate_isolation_identity i (values_of ISOLATION_HEADER hs) (request_identity (ingress_isolation p))
     \<and> (\<exists>mode. at_most_one parse_isolation_mode m (values_of ISOLATION_MODE_HEADER hs) mode
          \<and> request_strict (ingress_isolation p) = (case mode of Some s \<Rightarrow> s | None \<Rightarrow> False))
     \<and> at_most_one parse_authorization_value a (values_of PROXY_AUTHORIZATION_HEADER hs) (ingress_proxy_authorization p)
     \<and> at_most_one validate_isolation_identity l (values_of INTERNAL_IDENTITY_HEADER hs) (ingress_internal_identity p)"

lemmas ingress_names = ISOLATION_HEADER_def ISOLATION_MODE_HEADER_def PROXY_AUTHORIZATION_HEADER_def
  INTERNAL_IDENTITY_HEADER_def

lemma ingress_names_lower:
  "to_ascii_lowercase ISOLATION_HEADER = ''x-proxy-isolation''"
  "to_ascii_lowercase ISOLATION_MODE_HEADER = ''x-proxy-isolation-mode''"
  "to_ascii_lowercase PROXY_AUTHORIZATION_HEADER = ''proxy-authorization''"
  "to_ascii_lowercase INTERNAL_IDENTITY_HEADER = ''x-proxy-authenticated-lease''"
  by (simp_all add: ingress_names to_ascii_lowercase_def ascii_lower_def is_ascii_uppercase_def byte_def char_of_eq_iff)

lemma at_most_one_Cons:
  "at_most_one parse acc (v # vs) r \<longleftrightarrow> acc = None \<and> (\<exists>x. parse v = Ok x \<and> at_most_one parse (Some x) vs r)"
  by (auto simp: at_most_one_def split: option.splits list.splits)

lemma at_most_one_Nil: "at_most_one parse acc [] r \<longleftrightarrow> r = acc"
  by (auto simp: at_most_one_def split: option.splits)

definition mode_of :: "bool \<Rightarrow> bool \<Rightarrow> bool option" where
  "mode_of strict mode_seen = (if mode_seen then Some strict else None)"

lemma values_of_Cons: "values_of name ((n, v) # hs) = (if eq_ignore_ascii_case n name then v # values_of name hs else values_of name hs)"
  by (simp add: values_of_def)

lemma ingress_loop_iff:
  "\<not> mode_seen \<longrightarrow> \<not> strict \<Longrightarrow>
    ingress_header_loop i strict mode_seen a l hs = Ok p \<longleftrightarrow> ingress_reference i (mode_of strict mode_seen) a l hs p"
proof (induction hs arbitrary: i strict mode_seen a l)
  case Nil
  then show ?case
    by (cases p; cases "ingress_isolation p")
      (auto simp: ingress_reference_def values_of_def at_most_one_Nil mode_of_def)
next
  case (Cons h hs)
  obtain n v where h: "h = (n, v)" by fastforce
  have off: "\<And>x y. eq_ignore_ascii_case n x \<Longrightarrow> to_ascii_lowercase x \<noteq> to_ascii_lowercase y \<Longrightarrow> \<not> eq_ignore_ascii_case n y"
    by (simp add: eq_ignore_ascii_case_def)
  consider (iso) "eq_ignore_ascii_case n ISOLATION_HEADER" | (mode) "eq_ignore_ascii_case n ISOLATION_MODE_HEADER"
    | (auth) "eq_ignore_ascii_case n PROXY_AUTHORIZATION_HEADER" | (lease) "eq_ignore_ascii_case n INTERNAL_IDENTITY_HEADER"
    | (other) "\<not> is_ingress_header n" by (auto simp: is_ingress_header_def)
  then show ?case
  proof cases
    case iso
    with off [OF iso] show ?thesis
      by (auto simp: h Cons.IH Cons.prems ingress_reference_def values_of_Cons at_most_one_Cons ingress_names_lower)
  next
    case mode
    with off [OF mode] Cons.prems show ?thesis
      by (auto simp: h Cons.IH ingress_reference_def values_of_Cons at_most_one_Cons ingress_names_lower mode_of_def)
  next
    case auth
    with off [OF auth] show ?thesis
      by (auto simp: h Cons.IH Cons.prems ingress_reference_def values_of_Cons at_most_one_Cons ingress_names_lower
          parse_authorization_value_def)
  next
    case lease
    with off [OF lease] show ?thesis
      by (auto simp: h Cons.IH Cons.prems ingress_reference_def values_of_Cons at_most_one_Cons ingress_names_lower)
  next
    case other
    then show ?thesis
      by (simp add: h Cons.IH Cons.prems ingress_reference_def values_of_Cons is_ingress_header_def)
  qed
qed

text \<open>
  The one-pass parser of the ingress headers agrees with the reference that looks at
  each header on its own: it accepts a list of headers exactly when every ingress header occurs at
  most once, in any letter case, with a valid value, and then returns those values.
\<close>

lemma ingress_headers_reference:
  "ingress_headers_from_httparse hs = Ok p \<longleftrightarrow> ingress_reference None None None None hs p"
  using ingress_loop_iff [of False False None None None hs p]
  by (simp add: ingress_headers_from_httparse_def mode_of_def)

lemma ingress_headers_iff:
  "ingress_headers_from_httparse hs = Ok p \<longleftrightarrow> ingress_reference None None None None hs p"
  using ingress_loop_iff [of False False None None None hs p]
  by (simp add: ingress_headers_from_httparse_def mode_of_def)

definition header_map :: "(string \<times> string) list \<Rightarrow> (string \<times> string) list" where
  "header_map hs = map (\<lambda>(n, v). (to_ascii_lowercase n, v)) hs"

lemma get_all_header_map: "get_all (header_map hs) name = values_of name hs"
  by (induction hs) (auto simp: get_all_def header_map_def values_of_def eq_ignore_ascii_case_def)

lemma single_value_at_most_one: "at_most_one parse None vs r \<Longrightarrow> single_value parse d vs = Ok r"
  by (auto simp: at_most_one_def single_value_def split: list.splits)

lemma removed_headers:
  "req_headers (remove_header INTERNAL_IDENTITY_HEADER (remove_header PROXY_AUTHORIZATION_HEADER
      (remove_header ISOLATION_MODE_HEADER (remove_header ISOLATION_HEADER (r\<lparr>req_headers := header_map hs\<rparr>)))))
    = header_map (filter (\<lambda>(n, _). \<not> is_ingress_header n) hs)"
  by (simp add: remove_header_def header_map_def is_ingress_header_def eq_ignore_ascii_case_def filter_map
      case_prod_unfold comp_def conj_ac)

text \<open>
  Property C30. Both ingress paths read a request the same way: for headers the tunnel path accepts,
  the HTTP path resolves to the same isolation request, and what it passes on is exactly the headers
  that are none of the four ingress headers.
\<close>

theorem ingress_paths_agree:
  assumes "ingress_headers_from_httparse hs = Ok p"
  shows "\<exists>r'. take_isolation_request (r\<lparr>req_headers := header_map hs\<rparr>) = (Ok (ingress_isolation p), r')
    \<and> req_headers r' = header_map (filter (\<lambda>(n, _). \<not> is_ingress_header n) hs)"
proof -
  from assms obtain mode where
      i: "at_most_one validate_isolation_identity None (values_of ISOLATION_HEADER hs) (request_identity (ingress_isolation p))"
    and m: "at_most_one parse_isolation_mode None (values_of ISOLATION_MODE_HEADER hs) mode"
    and s: "request_strict (ingress_isolation p) = (case mode of Some s \<Rightarrow> s | None \<Rightarrow> False)"
    unfolding ingress_headers_iff ingress_reference_def by blast
  have "\<lparr>request_identity = request_identity (ingress_isolation p),
      request_strict = (case mode of Some s \<Rightarrow> s | None \<Rightarrow> False)\<rparr> = ingress_isolation p"
    using s by simp
  then show ?thesis
    by (simp add: take_isolation_request_def get_all_header_map single_value_at_most_one [OF i]
        single_value_at_most_one [OF m] removed_headers)
qed

definition sample_headers :: "(string \<times> string) list" where
  "sample_headers = [(''Host'', ''a.example''), (''x-proxy-isolation-MODE'', ''strict''), (''Proxy-Authorization'', ''Basic cHh5'')]"

definition sample_ingress :: ParsedIngressHeaders where
  "sample_ingress = \<lparr>ingress_isolation = \<lparr>request_identity = None, request_strict = True\<rparr>,
     ingress_proxy_authorization = Some ''Basic cHh5'', ingress_internal_identity = None\<rparr>"

lemma sample_lower:
  "to_ascii_lowercase ''Host'' = ''host''"
  "to_ascii_lowercase ''x-proxy-isolation-MODE'' = ''x-proxy-isolation-mode''"
  "to_ascii_lowercase ''Proxy-Authorization'' = ''proxy-authorization''"
  "to_ascii_lowercase ''strict'' = ''strict''" "to_ascii_lowercase ''session'' = ''session''"
  "to_ascii_lowercase ''GET'' = ''get''" "to_ascii_lowercase ''CONNECT'' = ''connect''"
  by (simp_all add: to_ascii_lowercase_def ascii_lower_def is_ascii_uppercase_def byte_def char_of_eq_iff)

lemma sample_parsed: "ingress_headers_from_httparse sample_headers = Ok sample_ingress"
proof -
  have "from_utf8_ok ''Basic cHh5''" by (rule from_utf8_ok_ascii) (simp add: is_ascii_byte_def byte_def)
  then show ?thesis
    by (simp add: ingress_headers_from_httparse_def sample_headers_def sample_ingress_def eq_ignore_ascii_case_def
        ingress_names_lower sample_lower parse_isolation_mode_def)
qed

theorem ingress_paths_agree_witness:
  "\<exists>r'. take_isolation_request ((demo_request ''a'')\<lparr>req_headers := header_map sample_headers\<rparr>)
      = (Ok \<lparr>request_identity = None, request_strict = True\<rparr>, r')"
  using ingress_paths_agree [OF sample_parsed, of "demo_request ''a''"] by (auto simp: sample_ingress_def)

section \<open>Sanitised requests\<close>

lemma values_of_filtered: "is_ingress_header name \<Longrightarrow>
    values_of name (filter (\<lambda>(n, _). \<not> is_ingress_header n) hs) = []"
  by (induction hs) (auto simp: values_of_def is_ingress_header_def eq_ignore_ascii_case_def)

lemma ingress_header_names:
  "is_ingress_header ISOLATION_HEADER" "is_ingress_header ISOLATION_MODE_HEADER"
  "is_ingress_header PROXY_AUTHORIZATION_HEADER" "is_ingress_header INTERNAL_IDENTITY_HEADER"
  by (simp_all add: is_ingress_header_def)

lemma filtered_headers_clean:
  "ingress_headers_from_httparse (filter (\<lambda>(n, _). \<not> is_ingress_header n) hs)
    = Ok \<lparr>ingress_isolation = \<lparr>request_identity = None, request_strict = False\<rparr>,
          ingress_proxy_authorization = None, ingress_internal_identity = None\<rparr>"
  unfolding ingress_headers_iff ingress_reference_def
  by (simp add: values_of_filtered ingress_header_names at_most_one_Nil)

lemma forwarded_headers_filter:
  "forwarded_headers hs = forwarded_headers (filter (\<lambda>(n, _). \<not> is_ingress_header n) hs)"
  by (induction hs rule: forwarded_headers.induct) simp_all

text \<open>
  A reader of HTTP/1 messages, independent of the code: lines end in CR LF, a header line is split at its first colon,
  and an empty line ends the head.
\<close>

fun read_line :: "string \<Rightarrow> (string \<times> string) option" where
  "read_line [] = None"
| "read_line (c # s) =
     (if c = CHR 0x0D \<and> take 1 s = [CHR 0x0A] then Some ([], drop 1 s)
      else map_option (\<lambda>(l, rest). (c # l, rest)) (read_line s))"

lemma read_line_shorter: "read_line s = Some (l, rest) \<Longrightarrow> length rest < length s"
  by (induction s arbitrary: l rest) (auto split: if_splits)

definition read_field :: "string \<Rightarrow> string \<times> string" where
  "read_field l = (takeWhile (\<lambda>c. c \<noteq> CHR '':'') l, drop 2 (dropWhile (\<lambda>c. c \<noteq> CHR '':'') l))"

function read_fields :: "string \<Rightarrow> ((string \<times> string) list \<times> string) option" where
  "read_fields s =
     (case read_line s of
        None \<Rightarrow> None
      | Some (l, rest) \<Rightarrow>
          if l = [] then Some ([], rest) else map_option (\<lambda>(hs, body). (read_field l # hs, body)) (read_fields rest))"
  by auto
termination
  by (relation "measure length") (auto dest: read_line_shorter)

declare read_fields.simps [simp del]

definition read_message :: "string \<Rightarrow> (string \<times> (string \<times> string) list \<times> string) option" where
  "read_message s = Option.bind (read_line s) (\<lambda>(l, rest). map_option (\<lambda>(hs, body). (l, hs, body)) (read_fields rest))"

text \<open>What a tokenizer gives: neither a name nor a value nor a request line contains CR, and a name contains no colon.\<close>

definition no_cr :: "string \<Rightarrow> bool" where
  "no_cr s \<longleftrightarrow> CHR 0x0D \<notin> set s"

definition well_formed_head :: "HttpHead \<Rightarrow> bool" where
  "well_formed_head head \<longleftrightarrow>
     list_all (\<lambda>(name, v). no_cr name \<and> CHR '':'' \<notin> set name \<and> no_cr v) (head_headers head)
     \<and> (\<forall>m. head_method head = Some m \<longrightarrow> no_cr m) \<and> (\<forall>p. head_path head = Some p \<longrightarrow> no_cr p)"

lemma read_line_crlf: "no_cr l \<Longrightarrow> read_line (l @ crlf @ rest) = Some (l, rest)"
  by (induction l) (auto simp: no_cr_def crlf_def)

lemma read_field_written: "CHR '':'' \<notin> set name \<Longrightarrow> read_field (name @ '': '' @ v) = (name, v)"
  by (induction name) (auto simp: read_field_def)

lemma read_forwarded:
  assumes "list_all (\<lambda>(name, v). no_cr name \<and> CHR '':'' \<notin> set name \<and> no_cr v) hs"
  shows "read_fields (forwarded_headers hs @ crlf @ body) = Some (filter (\<lambda>(name, _). \<not> is_ingress_header name) hs, body)"
  using assms
proof (induction hs rule: forwarded_headers.induct)
  case 1
  then show ?case using read_line_crlf [of "[]" body] by (simp add: read_fields.simps no_cr_def)
next
  case (2 name v hs)
  have "read_line ((name @ '': '' @ v) @ crlf @ rest) = Some (name @ '': '' @ v, rest)" for rest
    using 2(3) by (intro read_line_crlf) (auto simp: no_cr_def)
  then show ?case
    using 2 read_field_written [of name v]
    by (cases "is_ingress_header name") (simp_all add: read_fields.simps [of "name @ _"])
qed

lemma no_cr_show_nat [simp]: "no_cr (show_nat n)"
  using show_nat_digits [of n] by (auto simp: no_cr_def list_all_iff is_ascii_digit_def byte_def)

lemma is_ingress_header_names:
  "is_ingress_header name \<longleftrightarrow> to_ascii_lowercase name
     \<in> {''proxy-authorization'', ''x-proxy-isolation'', ''x-proxy-isolation-mode'', ''x-proxy-authenticated-lease''}"
  by (auto simp: is_ingress_header_def eq_ignore_ascii_case_def ingress_names_lower)

text \<open>
  Property C31. Credentials and control headers are not passed on and nothing else is lost: whoever reads the sanitised
  request finds its request line, exactly the headers whose names are, in any case, none of the four ingress names, in
  their order and with their values, and the bytes that followed the head. The next hop finds in those headers no proxy
  credentials, no isolation request and no internal identity.
\<close>

theorem sanitised_request_clean:
  assumes "strip_ingress_headers http_parse buffer n = Ok out"
    and "http_parse (take n buffer) = Ok (Complete n' head)" "well_formed_head head"
  shows "\<exists>m path version.
      head_method head = Some m \<and> head_path head = Some path \<and> head_version head = Some version
    \<and> (let kept = filter (\<lambda>(name, _). to_ascii_lowercase name
            \<notin> {''proxy-authorization'', ''x-proxy-isolation'', ''x-proxy-isolation-mode'', ''x-proxy-authenticated-lease''})
          (head_headers head) in
       read_message out = Some (m @ '' '' @ path @ '' HTTP/1.'' @ show_nat version, kept, drop n buffer)
       \<and> ingress_headers_from_httparse kept
         = Ok \<lparr>ingress_isolation = \<lparr>request_identity = None, request_strict = False\<rparr>,
              ingress_proxy_authorization = None, ingress_internal_identity = None\<rparr>)"
proof -
  obtain m path version where h: "head_method head = Some m" "head_path head = Some path" "head_version head = Some version"
      "out = (m @ '' '' @ path @ '' HTTP/1.'' @ show_nat version) @ crlf @ forwarded_headers (head_headers head) @ crlf @ drop n buffer"
    using assms(1,2) by (auto simp: strip_ingress_headers_def split: if_splits)
  have "no_cr (m @ '' '' @ path @ '' HTTP/1.'' @ show_nat version)"
    using assms(3) h(1,2) no_cr_show_nat [of version] by (auto simp: well_formed_head_def no_cr_def)
  from read_line_crlf [OF this] have "read_message out = Some (m @ '' '' @ path @ '' HTTP/1.'' @ show_nat version,
      filter (\<lambda>(name, _). \<not> is_ingress_header name) (head_headers head), drop n buffer)"
    using assms(3) read_forwarded [of "head_headers head" "drop n buffer"] unfolding h(4) read_message_def
    by (simp add: well_formed_head_def)
  moreover note filtered_headers_clean [of "head_headers head"]
  ultimately show ?thesis using h(1-3) by (simp add: is_ingress_header_names Let_def)
qed

definition sample_head :: "(string \<times> string) list \<Rightarrow> HttpHead" where
  "sample_head hs = \<lparr>head_method = Some ''GET'', head_path = Some ''/'', head_version = Some 1, head_headers = hs\<rparr>"

definition sample_output :: string where
  "sample_output = ''GET / HTTP/1.'' @ show_nat 1 @ crlf @ ''Host: a.example'' @ crlf @ crlf"

definition sample_parser :: http_parser where
  "sample_parser s = (if s = sample_output then Ok (Complete (length s) (sample_head [(''Host'', ''a.example'')]))
     else Ok (Complete (length s) (sample_head sample_headers)))"

lemma sample_filtered: "filter (\<lambda>(name, _). \<not> is_ingress_header name) sample_headers = [(''Host'', ''a.example'')]"
  by (simp add: sample_headers_def is_ingress_header_def eq_ignore_ascii_case_def ingress_names_lower sample_lower)

theorem sanitised_request_clean_witness:
  "read_message sample_output = Some (''GET / HTTP/1.'' @ show_nat 1, [(''Host'', ''a.example'')], [])"
proof -
  have "[] \<noteq> sample_output" by (simp add: sample_output_def)
  then have p: "sample_parser (take 0 []) = Ok (Complete 0 (sample_head sample_headers))" by (simp add: sample_parser_def)
  have "forwarded_headers sample_headers = ''Host: a.example'' @ crlf"
    by (subst forwarded_headers_filter, simp only: sample_filtered) (simp add: is_ingress_header_def
        eq_ignore_ascii_case_def ingress_names_lower sample_lower)
  then have strip: "strip_ingress_headers sample_parser [] 0 = Ok sample_output"
    using p by (simp add: strip_ingress_headers_def sample_head_def sample_output_def)
  have "well_formed_head (sample_head sample_headers)"
    by (simp add: well_formed_head_def sample_head_def sample_headers_def no_cr_def)
  from sanitised_request_clean [OF strip p this] sample_filtered show ?thesis
    by (simp add: sample_head_def is_ingress_header_names Let_def)
qed

section \<open>Reading is bounded\<close>

text \<open>A stream that counts its reads.\<close>

definition counted ::
    "(nat \<Rightarrow> 's \<Rightarrow> (string, anyhow_error) result \<times> 's) \<Rightarrow> nat \<Rightarrow> nat \<times> 's \<Rightarrow> (string, anyhow_error) result \<times> nat \<times> 's" where
  "counted read n ks = (case read n (snd ks) of (r, s') \<Rightarrow> (r, Suc (fst ks), s'))"

lemma read_bounded:
  "length buffer \<le> MAX_CONNECT_HEADER_BYTES \<Longrightarrow>
   read_proxy_request http_parse (counted read) buffer ks = (res, ks') \<Longrightarrow>
   fst ks' \<le> fst ks + (MAX_CONNECT_HEADER_BYTES - length buffer)
   \<and> (\<forall>request out. res = Ok (request, out) \<longrightarrow> length out \<le> MAX_CONNECT_HEADER_BYTES
        \<and> parse_proxy_request http_parse out = Ok (Some request))"
proof (induction http_parse "counted read" buffer ks arbitrary: res ks' rule: read_proxy_request.induct)
  case (1 http_parse buffer ks)
  show ?case
  proof (cases "parse_proxy_request http_parse buffer")
    case (Inl e)
    with "1.prems" show ?thesis by (auto simp: read_proxy_request.simps)
  next
    case (Inr r)
    show ?thesis
    proof (cases r)
      case (Some request)
      with Inr "1.prems" show ?thesis by (auto simp: read_proxy_request.simps)
    next
      case None
      show ?thesis
      proof (cases "length buffer \<ge> MAX_CONNECT_HEADER_BYTES")
        case True
        with Inr None "1.prems" show ?thesis by (auto simp: read_proxy_request.simps)
      next
        case False
        let ?c = "min (MAX_CONNECT_HEADER_BYTES - length buffer) 1024"
        obtain rd s' where rd: "counted read ?c ks = (rd, s')" by (metis surj_pair)
        then have k: "fst s' = Suc (fst ks)" by (auto simp: counted_def split: prod.splits)
        show ?thesis
        proof (cases rd)
          case (Inl e)
          with Inr None False rd k "1.prems" show ?thesis by (auto simp: read_proxy_request.simps Let_def)
        next
          case (Inr chunk)
          show ?thesis
          proof (cases "take ?c chunk = []")
            case True
            with \<open>parse_proxy_request http_parse buffer = Inr r\<close> None False rd Inr k "1.prems" show ?thesis
              by (auto simp: read_proxy_request.simps Let_def)
          next
            case nonempty: False
            let ?b = "buffer @ take ?c chunk"
            have rec: "read_proxy_request http_parse (counted read) ?b s' = (res, ks')"
              using \<open>parse_proxy_request http_parse buffer = Inr r\<close> None False rd Inr nonempty "1.prems"(2)
              by (subst (asm) read_proxy_request.simps) (simp add: Let_def del: take_eq_Nil)
            have len: "length ?b \<le> MAX_CONNECT_HEADER_BYTES" "length buffer < length ?b"
              using False nonempty by auto
            note IH = "1.hyps" [OF \<open>parse_proxy_request http_parse buffer = Inr r\<close> None False refl rd [symmetric] Inr nonempty len(1) rec]
            have "fst ks' \<le> fst ks + (MAX_CONNECT_HEADER_BYTES - length buffer)"
              using conjunct1 [OF IH] len k by linarith
            then show ?thesis using conjunct2 [OF IH] by (rule conjI)
          qed
        qed
      qed
    qed
  qed
qed

text \<open>
  Reading a request always ends: whatever a peer sends, the proxy reads from it at most
  16384 times, keeps at most 16384 bytes, and what it returns is the parse of exactly these bytes.
\<close>

lemma request_reading_bounded:
  assumes "read_proxy_request http_parse (counted read) [] (0, s) = (res, n, s')"
  shows "n \<le> MAX_CONNECT_HEADER_BYTES
    \<and> (case res of Inr (request, buffer) \<Rightarrow> length buffer \<le> MAX_CONNECT_HEADER_BYTES
          \<and> parse_proxy_request http_parse buffer = Ok (Some request)
        | Inl e \<Rightarrow> True)"
  using read_bounded [OF _ assms] by (auto split: sum.splits)

end
