(* ===== verification/Tunnel_Copy.thy ===== *)
theory Tunnel_Copy
  imports Data_Session "HOL-Library.Sublist"
begin

text \<open>
  The copy loops of an established tunnel (\<open>src/src/main.rs\<close>): \<open>copy_one_direction_with_customer_data\<close>,
  \<open>shutdown_copy_writer\<close> and the two bidirectional loops around them.

  An asynchronous function is the state machine of its suspension points: \<open>copy_phase\<close> says which
  operation of the reader or writer a direction waits for, and \<open>copy_step\<close> runs it from the completion of
  that operation to the next suspension. The streams are the peers: their completions are the events.
  The \<open>select!\<close> loops are \<open>select_limited\<close> and \<open>select_idle\<close>, one event per completed branch. An event
  that the machine does not wait for leaves the state unchanged. Other tunnels that share the account's
  counter are the event \<open>Elsewhere\<close>.

  The lemmas show that each peer receives a prefix of what the other sent, all of it on a normal end;
  that no tunnel takes the account's counter past its limit; and that a tunnel that returns has
  recorded every acknowledged byte, unless it reports a failed checkpoint.
\<close>

section \<open>I/O errors\<close>

datatype ErrorKind = NotConnected | ConnectionReset | TimedOut | PermissionDenied | OtherError | UnlistedKind string

datatype error_source = CustomerDataLimitReached | AccountUsageCheckpointFailed | ErrorMessage string

record io_error =
  error_kind :: ErrorKind
  error_source :: "error_source option"

definition customer_data_limit_error :: io_error where
  "customer_data_limit_error = \<lparr>error_kind = PermissionDenied, error_source = Some CustomerDataLimitReached\<rparr>"

definition account_usage_checkpoint_error :: io_error where
  "account_usage_checkpoint_error = \<lparr>error_kind = OtherError, error_source = Some AccountUsageCheckpointFailed\<rparr>"

definition is_customer_data_limit_error :: "io_error \<Rightarrow> bool" where
  "is_customer_data_limit_error e \<longleftrightarrow> error_source e = Some CustomerDataLimitReached"

definition is_account_usage_checkpoint_error :: "io_error \<Rightarrow> bool" where
  "is_account_usage_checkpoint_error e \<longleftrightarrow> error_source e = Some AccountUsageCheckpointFailed"

definition limiter_unavailable_error :: io_error where
  "limiter_unavailable_error =
     \<lparr>error_kind = OtherError, error_source = Some (ErrorMessage ''customer data limiter is unavailable'')\<rparr>"

definition idle_timeout_error :: io_error where
  "idle_timeout_error = \<lparr>error_kind = TimedOut, error_source = Some (ErrorMessage ''tunnel idle timeout'')\<rparr>"

section \<open>One direction\<close>

datatype copy_phase =
    Reading
  | Writing string CustomerDataAllowance
  | Flushing CustomerDataAllowance
  | Closing bool "(u64, io_error) result"
  | Finished "(u64, io_error) result"

text \<open>\<open>cd_read\<close> and \<open>cd_written\<close> are the bytes the reader gave and the writer accepted.\<close>

record copy_dir =
  cd_phase :: copy_phase
  cd_copied :: u64
  cd_counter :: "u64 option"
  cd_secondary :: "u64 option"
  cd_read :: string
  cd_written :: string

record copy_shared =
  cs_session :: "CustomerDataSession option"
  cs_limiter :: data_limiter
  cs_activity :: u64
  cs_changed :: bool

definition copy_dir_new :: "u64 option \<Rightarrow> u64 option \<Rightarrow> copy_dir" where
  "copy_dir_new byte_counter secondary_byte_counter =
     \<lparr>cd_phase = Reading, cd_copied = 0, cd_counter = byte_counter, cd_secondary = secondary_byte_counter,
      cd_read = [], cd_written = []\<rparr>"

datatype copy_event =
    Read_Ready "(string, io_error) result"
  | Write_Ready nat "(unit, io_error) result"
  | Flush_Ready "(unit, io_error) result"
  | Shutdown_Ready "(unit, io_error) result"

definition COPY_BUFFER_BYTES :: nat where "COPY_BUFFER_BYTES = 16 * 1024"

definition shutdown_copy_writer :: "(unit, io_error) result \<Rightarrow> (unit, io_error) result" where
  "shutdown_copy_writer res =
     (case res of
        Inr _ \<Rightarrow> Ok ()
      | Inl e \<Rightarrow> if error_kind e = NotConnected \<or> error_kind e = ConnectionReset then Ok () else Err e)"

definition copy_allowance ::
    "nat \<Rightarrow> copy_shared \<Rightarrow> (CustomerDataAllowance, CustomerDataAdmissionError) result \<times> copy_shared" where
  "copy_allowance n sh =
     (case cs_session sh of
        Some s \<Rightarrow> (case session_allow (of_nat n) s (cs_limiter sh) of (res, l) \<Rightarrow> (res, sh\<lparr>cs_limiter := l\<rparr>))
      | None \<Rightarrow> (Ok \<lparr>allowance_bytes = of_nat n, allowance_exhausted = False\<rparr>, sh))"

definition copy_read :: "string \<Rightarrow> copy_dir \<Rightarrow> copy_shared \<Rightarrow> copy_dir \<times> copy_shared" where
  "copy_read bs x sh =
     (let x1 = x\<lparr>cd_read := cd_read x @ bs\<rparr> in
      if bs = [] then (x1\<lparr>cd_phase := Closing True (Ok (cd_copied x))\<rparr>, sh)
      else (case copy_allowance (length bs) sh of
              (Inr a, sh') \<Rightarrow> (x1\<lparr>cd_phase := Writing bs a\<rparr>, sh')
            | (Inl (DataLimitReached _), sh') \<Rightarrow>
                (x1\<lparr>cd_phase := Closing False (Err customer_data_limit_error)\<rparr>, sh')
            | (Inl _, sh') \<Rightarrow> (x1\<lparr>cd_phase := Closing False (Err limiter_unavailable_error)\<rparr>, sh')))"

text \<open>The code from a completed flush to the next read or to the shutdown.\<close>

definition copy_flushed ::
    "CustomerDataDirection \<Rightarrow> CustomerDataAllowance \<Rightarrow> copy_dir \<Rightarrow> copy_shared \<Rightarrow> copy_dir \<times> copy_shared" where
  "copy_flushed direction a x sh =
     (let n = allowance_bytes a in
      (x\<lparr>cd_copied := saturating_add (cd_copied x) n,
         cd_counter := map_option (\<lambda>c. c + n) (cd_counter x),
         cd_secondary := map_option (\<lambda>c. c + n) (cd_secondary x),
         cd_phase := (if allowance_exhausted a then Closing False (Err customer_data_limit_error) else Reading)\<rparr>,
       sh\<lparr>cs_session := map_option (record_transferred direction n) (cs_session sh),
          cs_activity := cs_activity sh + 1, cs_changed := True\<rparr>))"

fun copy_step ::
    "CustomerDataDirection \<Rightarrow> copy_event \<Rightarrow> copy_dir \<Rightarrow> copy_shared \<Rightarrow> copy_dir \<times> copy_shared" where
  "copy_step direction ev x sh =
     (case (cd_phase x, ev) of
        (Reading, Read_Ready (Inr bs)) \<Rightarrow>
          if length bs \<le> COPY_BUFFER_BYTES then copy_read bs x sh else (x, sh)
      | (Reading, Read_Ready (Inl e)) \<Rightarrow>
          if error_kind e = NotConnected then (x\<lparr>cd_phase := Closing True (Ok (cd_copied x))\<rparr>, sh)
          else (x\<lparr>cd_phase := Finished (Err e)\<rparr>, sh)
      | (Writing bs a, Write_Ready n (Inr _)) \<Rightarrow>
          (x\<lparr>cd_written := cd_written x @ take (unat (allowance_bytes a)) bs, cd_phase := Flushing a\<rparr>, sh)
      | (Writing bs a, Write_Ready n (Inl e)) \<Rightarrow>
          (x\<lparr>cd_written := cd_written x @ take n (take (unat (allowance_bytes a)) bs), cd_phase := Finished (Err e)\<rparr>, sh)
      | (Flushing a, Flush_Ready (Inr _)) \<Rightarrow> copy_flushed direction a x sh
      | (Flushing a, Flush_Ready (Inl e)) \<Rightarrow> (x\<lparr>cd_phase := Finished (Err e)\<rparr>, sh)
      | (Closing propagate res, Shutdown_Ready r) \<Rightarrow>
          (case shutdown_copy_writer r of
             Inr _ \<Rightarrow> (x\<lparr>cd_phase := Finished res\<rparr>, sh)
           | Inl e \<Rightarrow> (x\<lparr>cd_phase := Finished (if propagate then Err e else res)\<rparr>, sh))
      | _ \<Rightarrow> (x, sh))"

section \<open>Both directions\<close>

record tunnel_copy =
  tc_to :: copy_dir
  tc_from :: copy_dir
  tc_shared :: copy_shared
  tc_conn :: connection
  tc_idle_deadline :: nat
  tc_result :: "(u64 \<times> u64, io_error) result option"

definition tunnel_copy_new ::
    "nat \<Rightarrow> nat \<Rightarrow> u64 option \<Rightarrow> u64 option \<Rightarrow> CustomerDataSession option \<Rightarrow> data_limiter \<Rightarrow> connection \<Rightarrow> tunnel_copy" where
  "tunnel_copy_new now idle_timeout bytes_a_to_b bytes_b_to_a data_session l c =
     \<lparr>tc_to = copy_dir_new bytes_a_to_b None, tc_from = copy_dir_new bytes_b_to_a None,
      tc_shared = \<lparr>cs_session = data_session, cs_limiter = l, cs_activity = 0, cs_changed = False\<rparr>,
      tc_conn = c, tc_idle_deadline = now + idle_timeout, tc_result = None\<rparr>"

datatype tunnel_event =
    Copy_Event CustomerDataDirection copy_event "string option"
  | Activity_Event nat "string option"
  | Tick_Event "string option"
  | Idle_Event nat "string option"
  | Elsewhere u64

definition copy_direction :: "CustomerDataDirection \<Rightarrow> copy_event \<Rightarrow> tunnel_copy \<Rightarrow> tunnel_copy" where
  "copy_direction direction ev t =
     (case direction of
        ToTor \<Rightarrow> (case copy_step ToTor ev (tc_to t) (tc_shared t) of (x, sh) \<Rightarrow> t\<lparr>tc_to := x, tc_shared := sh\<rparr>)
      | FromTor \<Rightarrow> (case copy_step FromTor ev (tc_from t) (tc_shared t) of (x, sh) \<Rightarrow> t\<lparr>tc_from := x, tc_shared := sh\<rparr>))"

text \<open>\<open>try_join!\<close>: the first error, or both results.\<close>

definition copy_outcome :: "tunnel_copy \<Rightarrow> (u64 \<times> u64, io_error) result option" where
  "copy_outcome t =
     (case (cd_phase (tc_to t), cd_phase (tc_from t)) of
        (Finished (Inl e), _) \<Rightarrow> Some (Err e)
      | (_, Finished (Inl e)) \<Rightarrow> Some (Err e)
      | (Finished (Inr n), Finished (Inr m)) \<Rightarrow> Some (Ok (n, m))
      | _ \<Rightarrow> None)"

definition checkpoint_customer_data_session ::
    "string option \<Rightarrow> tunnel_copy \<Rightarrow> (unit, io_error) result \<times> tunnel_copy" where
  "checkpoint_customer_data_session worker t =
     (case cs_session (tc_shared t) of
        None \<Rightarrow> (Ok (), t)
      | Some s \<Rightarrow> (case session_checkpoint worker s (tc_conn t) of
          (res, s', c) \<Rightarrow> (map_err (\<lambda>_. account_usage_checkpoint_error) res,
             t\<lparr>tc_shared := (tc_shared t)\<lparr>cs_session := Some s'\<rparr>, tc_conn := c\<rparr>)))"

definition checkpoint_and_continue :: "string option \<Rightarrow> tunnel_copy \<Rightarrow> tunnel_copy" where
  "checkpoint_and_continue worker t =
     (case checkpoint_customer_data_session worker t of
        (Inl e, t') \<Rightarrow> t'\<lparr>tc_result := Some (Err e)\<rparr>
      | (Inr _, t') \<Rightarrow> t')"

definition checkpoint_and_return ::
    "string option \<Rightarrow> (u64 \<times> u64, io_error) result \<Rightarrow> tunnel_copy \<Rightarrow> tunnel_copy" where
  "checkpoint_and_return worker res t =
     (case checkpoint_customer_data_session worker t of
        (Inl e, t') \<Rightarrow> t'\<lparr>tc_result := Some (Err e)\<rparr>
      | (Inr _, t') \<Rightarrow> t'\<lparr>tc_result := Some res\<rparr>)"

definition activity_seen :: "nat \<Rightarrow> tunnel_copy \<Rightarrow> tunnel_copy" where
  "activity_seen deadline t =
     t\<lparr>tc_shared := (tc_shared t)\<lparr>cs_changed := False\<rparr>, tc_idle_deadline := deadline\<rparr>"

definition elsewhere :: "u64 \<Rightarrow> tunnel_copy \<Rightarrow> tunnel_copy" where
  "elsewhere n t =
     (case cs_session (tc_shared t) of
        None \<Rightarrow> t
      | Some s \<Rightarrow> t\<lparr>tc_shared := (tc_shared t)\<lparr>cs_limiter := snd (session_allow n s (cs_limiter (tc_shared t)))\<rparr>\<rparr>)"

text \<open>The loop of \<open>copy_bidirectional_with_customer_data_limit\<close>, one completed branch.\<close>

fun select_limited :: "nat \<Rightarrow> tunnel_event \<Rightarrow> tunnel_copy \<Rightarrow> tunnel_copy" where
  "select_limited idle_timeout ev t =
     (if tc_result t \<noteq> None then t else
      case ev of
        Copy_Event direction e worker \<Rightarrow>
          let t1 = copy_direction direction e t
          in (case copy_outcome t1 of Some res \<Rightarrow> checkpoint_and_return worker res t1 | None \<Rightarrow> t1)
      | Activity_Event now worker \<Rightarrow>
          if \<not> cs_changed (tc_shared t) then t
          else let t1 = activity_seen (now + idle_timeout) t
               in (case cs_session (tc_shared t1) of
                     Some s \<Rightarrow> if checkpoint_due s then checkpoint_and_continue worker t1 else t1
                   | None \<Rightarrow> t1)
      | Tick_Event worker \<Rightarrow> checkpoint_and_continue worker t
      | Idle_Event now worker \<Rightarrow>
          if now < tc_idle_deadline t then t else checkpoint_and_return worker (Err idle_timeout_error) t
      | Elsewhere n \<Rightarrow> elsewhere n t)"

text \<open>The loop of \<open>copy_bidirectional_with_idle_timeout_and_counter_sets\<close>.\<close>

fun select_idle :: "nat \<Rightarrow> tunnel_event \<Rightarrow> tunnel_copy \<Rightarrow> tunnel_copy" where
  "select_idle idle_timeout ev t =
     (if tc_result t \<noteq> None then t else
      case ev of
        Copy_Event direction e worker \<Rightarrow>
          let t1 = copy_direction direction e t
          in (case copy_outcome t1 of Some res \<Rightarrow> t1\<lparr>tc_result := Some res\<rparr> | None \<Rightarrow> t1)
      | Activity_Event now worker \<Rightarrow>
          if \<not> cs_changed (tc_shared t) then t else activity_seen (now + idle_timeout) t
      | Idle_Event now worker \<Rightarrow>
          if now < tc_idle_deadline t then t else t\<lparr>tc_result := Some (Err idle_timeout_error)\<rparr>
      | _ \<Rightarrow> t)"

definition copy_bidirectional_with_customer_data_limit ::
    "nat \<Rightarrow> nat \<Rightarrow> u64 option \<Rightarrow> u64 option \<Rightarrow> CustomerDataSession \<Rightarrow> data_limiter \<Rightarrow> connection
      \<Rightarrow> tunnel_event list \<Rightarrow> tunnel_copy" where
  "copy_bidirectional_with_customer_data_limit now idle_timeout bytes_a_to_b bytes_b_to_a data_session l c evs =
     fold (select_limited idle_timeout) evs
       (tunnel_copy_new now idle_timeout bytes_a_to_b bytes_b_to_a (Some data_session) l c)"

definition copy_bidirectional_with_idle_timeout_and_counters ::
    "nat \<Rightarrow> nat \<Rightarrow> u64 option \<Rightarrow> u64 option \<Rightarrow> data_limiter \<Rightarrow> connection \<Rightarrow> tunnel_event list \<Rightarrow> tunnel_copy" where
  "copy_bidirectional_with_idle_timeout_and_counters now idle_timeout bytes_a_to_b bytes_b_to_a l c evs =
     fold (select_idle idle_timeout) evs
       (tunnel_copy_new now idle_timeout bytes_a_to_b bytes_b_to_a None l c)"

definition copy_bidirectional_with_idle_timeout ::
    "nat \<Rightarrow> nat \<Rightarrow> data_limiter \<Rightarrow> connection \<Rightarrow> tunnel_event list \<Rightarrow> tunnel_copy" where
  "copy_bidirectional_with_idle_timeout now idle_timeout l c evs =
     copy_bidirectional_with_idle_timeout_and_counters now idle_timeout None None l c evs"

section \<open>What a direction keeps\<close>

text \<open>
  \<open>copy_inv g k x\<close>: the limiter has granted \<open>g\<close> bytes to the direction and \<open>k\<close> of them are acknowledged,
  written and flushed.
\<close>

definition copy_inv :: "nat \<Rightarrow> nat \<Rightarrow> copy_dir \<Rightarrow> bool" where
  "copy_inv g k x \<longleftrightarrow>
     unat (cd_copied x) = min k (2 ^ 64 - 1) \<and> k \<le> length (cd_written x) \<and> length (cd_written x) \<le> g
     \<and> g \<le> k + COPY_BUFFER_BYTES \<and> prefix (cd_written x) (cd_read x)
     \<and> (case cd_phase x of
          Reading \<Rightarrow> g = k \<and> cd_written x = cd_read x
        | Writing bs a \<Rightarrow> cd_read x = cd_written x @ bs \<and> k = length (cd_written x)
            \<and> g = k + unat (allowance_bytes a) \<and> unat (allowance_bytes a) \<le> length bs
            \<and> (allowance_exhausted a \<or> unat (allowance_bytes a) = length bs)
        | Flushing a \<Rightarrow> k + unat (allowance_bytes a) = length (cd_written x) \<and> g = length (cd_written x)
            \<and> (allowance_exhausted a \<or> cd_written x = cd_read x)
        | Closing propagate res \<Rightarrow> g = k \<and> k = length (cd_written x)
            \<and> (\<forall>n. res = Ok n \<longrightarrow> cd_written x = cd_read x \<and> n = cd_copied x)
        | Finished res \<Rightarrow> (\<forall>n. res = Ok n \<longrightarrow> g = k \<and> cd_written x = cd_read x \<and> n = cd_copied x))"

lemma copy_inv_bounds:
  assumes "copy_inv g k x"
  shows "k \<le> length (cd_written x)" "length (cd_written x) \<le> g" "g \<le> k + COPY_BUFFER_BYTES"
    "prefix (cd_written x) (cd_read x)"
  using assms by (simp_all add: copy_inv_def)

lemma copy_inv_new: "copy_inv 0 0 (copy_dir_new a b)"
  by (simp add: copy_inv_def copy_dir_new_def)

lemma period_allow_cases:
  assumes "period_allow n limit u = (res, u')"
  obtains (refused) "limit \<le> used_bytes u" "res = Err (DataLimitReached limit)" "u' = u"
    | (allowed) a where "res = Ok a" "allowance_bytes a \<le> n" "allowance_exhausted a \<or> allowance_bytes a = n"
        "unat (used_bytes u') = unat (used_bytes u) + unat (allowance_bytes a)" "used_bytes u' \<le> limit"
proof (cases "limit \<le> used_bytes u")
  case True
  with assms show thesis by (intro refused) (simp_all add: period_allow_def allow_projection_cases)
next
  case False
  let ?m = "min n (limit - used_bytes u)"
  have eq: "res = Ok \<lparr>allowance_bytes = ?m, allowance_exhausted = (used_bytes u + ?m = limit)\<rparr>"
      "u' = u\<lparr>used_bytes := used_bytes u + ?m\<rparr>"
    using assms False by (simp_all add: period_allow_def allow_projection_cases)
  have sum: "unat (used_bytes u + ?m) = unat (used_bytes u) + unat ?m"
    using False by (intro allow_projection_sum) simp
  have "unat ?m \<le> unat limit - unat (used_bytes u)" using False by (intro allowed_le) simp
  with sum False have "used_bytes u + ?m \<le> limit" by (simp add: word_le_nat_alt)
  moreover have "used_bytes u + ?m = limit \<or> ?m = n" by (simp add: min_def)
  ultimately show thesis using eq sum by (intro allowed) auto
qed

lemma session_allow_cases:
  assumes "session_allow n s l = (res, l')"
  obtains (refused) "res = Err (DataLimitReached (ses_limit s))" "l' = l"
    | (allowed) a where "res = Ok a" "allowance_bytes a \<le> n" "allowance_exhausted a \<or> allowance_bytes a = n"
        "unat (used_bytes (dl_heap l' (ses_state s))) = unat (used_bytes (dl_heap l (ses_state s))) + unat (allowance_bytes a)"
        "used_bytes (dl_heap l' (ses_state s)) \<le> ses_limit s"
proof -
  obtain u where u: "period_allow n (ses_limit s) (dl_heap l (ses_state s)) = (res, u)"
      "l' = l\<lparr>dl_heap := (dl_heap l)(ses_state s := u)\<rparr>"
    using assms by (auto simp: session_allow_def split: prod.splits)
  from u(1) show thesis
  proof (cases rule: period_allow_cases)
    case refused
    with u(2) show thesis by (intro that(1)) simp_all
  next
    case (allowed a)
    with u(2) show thesis by (intro that(2) [of a]) simp_all
  qed
qed

text \<open>What a grant does to the shared state: nothing without a session, one call of \<open>allow\<close> with one.\<close>

definition granted :: "copy_shared \<Rightarrow> nat \<Rightarrow> data_limiter \<Rightarrow> bool" where
  "granted sh n l \<longleftrightarrow>
     (case cs_session sh of
        None \<Rightarrow> True
      | Some s \<Rightarrow> used_bytes (dl_heap l (ses_state s)) \<le> ses_limit s
          \<and> unat (used_bytes (dl_heap l (ses_state s))) = unat (used_bytes (dl_heap (cs_limiter sh) (ses_state s))) + n)"

lemma copy_allowance_cases:
  assumes "copy_allowance n sh = (res, sh')" "n \<le> COPY_BUFFER_BYTES"
  obtains (refused) e where "res = Err e" "sh' = sh"
    | (allowed) a l where "res = Ok a" "unat (allowance_bytes a) \<le> n" "allowance_exhausted a \<or> unat (allowance_bytes a) = n"
        "sh' = sh\<lparr>cs_limiter := l\<rparr>" "granted sh (unat (allowance_bytes a)) l"
proof -
  have n: "unat (of_nat n :: u64) = n" using assms(2) by (simp add: COPY_BUFFER_BYTES_def unat_of_nat take_bit_nat_eq_self)
  show thesis
  proof (cases "cs_session sh")
    case None
    with assms n show thesis
      by (intro allowed [of "\<lparr>allowance_bytes = of_nat n, allowance_exhausted = False\<rparr>" "cs_limiter sh"])
        (simp_all add: copy_allowance_def granted_def)
  next
    case (Some s)
    obtain l' where l': "session_allow (of_nat n) s (cs_limiter sh) = (res, l')" "sh' = sh\<lparr>cs_limiter := l'\<rparr>"
      using assms(1) Some by (auto simp: copy_allowance_def split: prod.splits)
    from l'(1) show thesis
    proof (cases rule: session_allow_cases)
      case refused
      with l' show thesis by (intro that(1)) simp_all
    next
      case (allowed a)
      have "unat (allowance_bytes a) \<le> n" using allowed(2) n by (simp add: word_le_nat_alt)
      moreover have "allowance_exhausted a \<or> unat (allowance_bytes a) = n" using allowed(3) n by auto
      ultimately show thesis using allowed l' Some by (intro that(2) [of a l']) (simp_all add: granted_def)
    qed
  qed
qed

text \<open>A step of a direction: nothing shared, a grant, or an acknowledgement.\<close>

definition acknowledge :: "CustomerDataDirection \<Rightarrow> u64 \<Rightarrow> copy_shared \<Rightarrow> copy_shared" where
  "acknowledge d n sh = sh\<lparr>cs_session := map_option (record_transferred d n) (cs_session sh),
     cs_activity := cs_activity sh + 1, cs_changed := True\<rparr>"

definition copy_change :: "CustomerDataDirection \<Rightarrow> nat \<Rightarrow> nat \<Rightarrow> copy_dir \<Rightarrow> copy_shared \<Rightarrow> copy_dir \<Rightarrow> copy_shared \<Rightarrow> bool" where
  "copy_change d g k x sh x' sh' \<longleftrightarrow>
     (copy_inv g k x' \<and> sh' = sh \<and> cd_counter x' = cd_counter x)
   \<or> (\<exists>n l. copy_inv (g + n) k x' \<and> sh' = sh\<lparr>cs_limiter := l\<rparr> \<and> cd_counter x' = cd_counter x \<and> granted sh n l)
   \<or> (\<exists>n. copy_inv g (k + unat n) x' \<and> k + unat n \<le> g \<and> sh' = acknowledge d n sh
        \<and> cd_counter x' = map_option (\<lambda>c. c + n) (cd_counter x))"

lemma copy_change_same: "copy_inv g k x' \<Longrightarrow> sh' = sh \<Longrightarrow> cd_counter x' = cd_counter x \<Longrightarrow> copy_change d g k x sh x' sh'"
  by (simp add: copy_change_def)

declare copy_step.simps [simp del]

lemma copy_step_Reading:
  assumes "cd_phase x = Reading"
  shows "copy_step d ev x sh =
    (case ev of
       Read_Ready (Inr bs) \<Rightarrow> if length bs \<le> COPY_BUFFER_BYTES then copy_read bs x sh else (x, sh)
     | Read_Ready (Inl e) \<Rightarrow>
         (x\<lparr>cd_phase := if error_kind e = NotConnected then Closing True (Ok (cd_copied x)) else Finished (Err e)\<rparr>, sh)
     | _ \<Rightarrow> (x, sh))"
  using assms by (auto simp: copy_step.simps split: copy_event.splits sum.splits)

lemma copy_step_Writing:
  assumes "cd_phase x = Writing bs a"
  shows "copy_step d ev x sh =
    (case ev of
       Write_Ready n r \<Rightarrow>
         (case r of
            Inr _ \<Rightarrow> (x\<lparr>cd_written := cd_written x @ take (unat (allowance_bytes a)) bs, cd_phase := Flushing a\<rparr>, sh)
          | Inl e \<Rightarrow> (x\<lparr>cd_written := cd_written x @ take n (take (unat (allowance_bytes a)) bs), cd_phase := Finished (Err e)\<rparr>, sh))
     | _ \<Rightarrow> (x, sh))"
  using assms by (auto simp: copy_step.simps split: copy_event.splits sum.splits)

lemma copy_step_Flushing:
  assumes "cd_phase x = Flushing a"
  shows "copy_step d ev x sh =
    (case ev of
       Flush_Ready r \<Rightarrow> (case r of Inr _ \<Rightarrow> copy_flushed d a x sh | Inl e \<Rightarrow> (x\<lparr>cd_phase := Finished (Err e)\<rparr>, sh))
     | _ \<Rightarrow> (x, sh))"
  using assms by (auto simp: copy_step.simps split: copy_event.splits sum.splits)

lemma copy_step_Closing:
  assumes "cd_phase x = Closing propagate res"
  shows "copy_step d ev x sh =
    (case ev of
       Shutdown_Ready r \<Rightarrow> (x\<lparr>cd_phase := Finished
         (case shutdown_copy_writer r of Inr _ \<Rightarrow> res | Inl e \<Rightarrow> if propagate then Err e else res)\<rparr>, sh)
     | _ \<Rightarrow> (x, sh))"
  using assms by (auto simp: copy_step.simps split: copy_event.splits sum.splits)

lemma copy_step_Finished: "cd_phase x = Finished res \<Longrightarrow> copy_step d ev x sh = (x, sh)"
  by (auto simp: copy_step.simps split: copy_event.splits sum.splits)

lemma copy_read_change:
  assumes "cd_phase x = Reading" "copy_inv g k x" "copy_read bs x sh = (x', sh')" "length bs \<le> COPY_BUFFER_BYTES"
  shows "copy_change d g k x sh x' sh'"
proof (cases "bs = []")
  case True
  with assms show ?thesis by (intro copy_change_same) (auto simp: copy_read_def copy_inv_def)
next
  case False
  obtain res sh1 where al: "copy_allowance (length bs) sh = (res, sh1)" by fastforce
  from al assms(4) show ?thesis
  proof (cases rule: copy_allowance_cases)
    case (refused e)
    obtain err where x': "x' = x\<lparr>cd_read := cd_read x @ bs, cd_phase := Closing False (Err err)\<rparr>" "sh' = sh"
      using assms(3) False al refused by (auto simp: copy_read_def Let_def split: CustomerDataAdmissionError.splits)
    have "copy_inv g k x'" using assms(1,2) unfolding x' by (auto simp: copy_inv_def)
    then show ?thesis by (rule copy_change_same) (simp_all add: x')
  next
    case (allowed a l)
    then have x': "x' = x\<lparr>cd_read := cd_read x @ bs, cd_phase := Writing bs a\<rparr>" "sh' = sh\<lparr>cs_limiter := l\<rparr>"
      using assms(3) False al by (auto simp: copy_read_def Let_def)
    have "copy_inv (g + unat (allowance_bytes a)) k x'"
      using assms(1,2,4) allowed(2,3) unfolding x' by (auto simp: copy_inv_def)
    moreover have "cd_counter x' = cd_counter x" by (simp add: x')
    ultimately show ?thesis using allowed(5) x'(2) unfolding copy_change_def by blast
  qed
qed

lemma copy_write_inv:
  assumes "cd_phase x = Writing bs a" "copy_inv g k x"
  shows "copy_inv g k (x\<lparr>cd_written := cd_written x @ take (unat (allowance_bytes a)) bs, cd_phase := Flushing a\<rparr>)"
    and "copy_inv g k (x\<lparr>cd_written := cd_written x @ take n (take (unat (allowance_bytes a)) bs), cd_phase := Finished (Err e)\<rparr>)"
  using assms by (auto simp: copy_inv_def take_is_prefix)

lemma copy_flush_inv:
  assumes "cd_phase x = Flushing a" "copy_inv g k x" "copy_flushed d a x sh = (x', sh')"
  shows "copy_change d g k x sh x' sh'"
proof -
  let ?n = "allowance_bytes a"
  have "copy_inv g (k + unat ?n) x'" "k + unat ?n \<le> g"
    using assms by (auto simp: copy_inv_def copy_flushed_def unat_saturating_add Let_def min_def split: if_splits)
  moreover have "sh' = acknowledge d ?n sh" "cd_counter x' = map_option (\<lambda>c. c + ?n) (cd_counter x)"
    using assms(3) by (auto simp: copy_flushed_def acknowledge_def Let_def)
  ultimately show ?thesis unfolding copy_change_def by blast
qed

lemma copy_step_change:
  assumes inv: "copy_inv g k x" and step: "copy_step d ev x sh = (x', sh')"
  shows "copy_change d g k x sh x' sh'"
proof (cases "cd_phase x")
  case Reading
  show ?thesis
  proof (cases "\<exists>bs. ev = Read_Ready (Inr bs) \<and> length bs \<le> COPY_BUFFER_BYTES")
    case True
    then show ?thesis using step Reading copy_read_change [OF Reading inv] by (auto simp: copy_step_Reading)
  next
    case False
    then show ?thesis using step inv Reading
      by (intro copy_change_same)
        (auto simp: copy_step_Reading copy_inv_def split: copy_event.splits sum.splits if_splits)
  qed
next
  case (Writing bs a)
  then show ?thesis using step inv copy_write_inv [OF Writing inv]
    by (intro copy_change_same) (auto simp: copy_step_Writing split: copy_event.splits sum.splits)
next
  case (Flushing a)
  show ?thesis
  proof (cases "\<exists>u. ev = Flush_Ready (Inr u)")
    case True
    then show ?thesis using step Flushing copy_flush_inv [OF Flushing inv] by (auto simp: copy_step_Flushing)
  next
    case False
    then show ?thesis using step inv Flushing
      by (intro copy_change_same) (auto simp: copy_step_Flushing copy_inv_def split: copy_event.splits sum.splits)
  qed
next
  case (Closing p res)
  then show ?thesis using step inv
    by (intro copy_change_same) (auto simp: copy_step_Closing copy_inv_def split: copy_event.splits sum.splits if_splits)
next
  case (Finished res)
  then show ?thesis using step inv by (intro copy_change_same) (auto simp: copy_step_Finished)
qed

section \<open>What a tunnel keeps\<close>

text \<open>
  A tunnel of the session \<open>s0\<close>, opened when the counter stood at \<open>used0\<close>, with \<open>n0\<close> and \<open>m0\<close> bytes
  transferred before the loop, the usage \<open>u0\<close> in the database and the byte counters \<open>ca\<close> and \<open>cb\<close>.
\<close>

record tunnel_start =
  ts_session :: CustomerDataSession
  ts_used :: nat
  ts_to :: nat
  ts_from :: nat
  ts_usage :: "int \<times> int \<times> int \<Rightarrow> int \<times> int \<times> int"
  ts_counter_to :: "u64 option"
  ts_counter_from :: "u64 option"

definition same_session :: "CustomerDataSession \<Rightarrow> CustomerDataSession \<Rightarrow> bool" where
  "same_session s0 s \<longleftrightarrow> ses_limit s = ses_limit s0 \<and> ses_state s = ses_state s0
     \<and> ses_identity s = ses_identity s0 \<and> ses_period_start s = ses_period_start s0"

definition counted_from :: "u64 option \<Rightarrow> nat \<Rightarrow> u64 option \<Rightarrow> bool" where
  "counted_from c0 k c \<longleftrightarrow> c = map_option (\<lambda>x. x + of_nat k) c0"

definition shared_inv :: "tunnel_start \<Rightarrow> CustomerDataSession \<Rightarrow> nat \<Rightarrow> nat \<Rightarrow> nat \<Rightarrow> nat \<Rightarrow> copy_shared \<Rightarrow> connection \<Rightarrow> bool" where
  "shared_inv t0 s gt kt gf kf sh c \<longleftrightarrow>
     cs_session sh = Some s \<and> same_session (ts_session t0) s
     \<and> ts_used t0 + gt + gf \<le> unat (used_bytes (dl_heap (cs_limiter sh) (ses_state s)))
     \<and> used_bytes (dl_heap (cs_limiter sh) (ses_state s)) \<le> ses_limit s
     \<and> session_inv (ts_usage t0) (ts_to t0 + kt) (ts_from t0 + kf) (s, c)"

definition tunnel_at :: "tunnel_start \<Rightarrow> CustomerDataSession \<Rightarrow> nat \<Rightarrow> nat \<Rightarrow> nat \<Rightarrow> nat \<Rightarrow> tunnel_copy \<Rightarrow> bool" where
  "tunnel_at t0 s gt kt gf kf t \<longleftrightarrow>
     copy_inv gt kt (tc_to t) \<and> copy_inv gf kf (tc_from t)
     \<and> counted_from (ts_counter_to t0) kt (cd_counter (tc_to t))
     \<and> counted_from (ts_counter_from t0) kf (cd_counter (tc_from t))
     \<and> shared_inv t0 s gt kt gf kf (tc_shared t) (tc_conn t)"

lemma counted_from_add:
  "counted_from c0 k c \<Longrightarrow> counted_from c0 (k + unat n) (map_option (\<lambda>x. x + n) c)"
  by (cases c0) (auto simp: counted_from_def)

lemma record_transferred_fields [simp]:
  "ses_limit (record_transferred d n s) = ses_limit s" "ses_state (record_transferred d n s) = ses_state s"
  "ses_identity (record_transferred d n s) = ses_identity s"
  "ses_period_start (record_transferred d n s) = ses_period_start s"
  by (simp_all add: record_transferred_def split: CustomerDataDirection.splits)

lemma record_transferred_inv:
  assumes "session_inv u n m (s, c)" "n + (if d = ToTor then unat b else 0) < 2 ^ 64"
    "m + (if d = FromTor then unat b else 0) < 2 ^ 64"
  shows "session_inv u (n + (if d = ToTor then unat b else 0)) (m + (if d = FromTor then unat b else 0))
    (record_transferred d b s, c)"
  using session_run_inv [OF assms(1), of "[Transfer d b]"] assms(2,3)
  by (cases d) (simp_all add: session_run_def)

lemma limit_fits: "a \<le> unat (w :: u64) \<Longrightarrow> a < 2 ^ 64"
  using unat_u64_lt [of w] by simp

lemma shared_acknowledge:
  assumes "shared_inv t0 s gt kt gf kf sh c" "ts_to t0 + ts_from t0 \<le> ts_used t0"
    and "kt + (if d = ToTor then unat n else 0) \<le> gt" "kf + (if d = FromTor then unat n else 0) \<le> gf"
  shows "shared_inv t0 (record_transferred d n s) gt (kt + (if d = ToTor then unat n else 0))
    gf (kf + (if d = FromTor then unat n else 0)) (acknowledge d n sh) c"
proof -
  let ?u = "used_bytes (dl_heap (cs_limiter sh) (ses_state s))"
  have "ts_to t0 + (kt + (if d = ToTor then unat n else 0)) < 2 ^ 64"
      "ts_from t0 + (kf + (if d = FromTor then unat n else 0)) < 2 ^ 64"
    using assms unat_u64_lt [of ?u] by (simp_all add: shared_inv_def split: if_splits)
  with record_transferred_inv [of "ts_usage t0" "ts_to t0 + kt" "ts_from t0 + kf" s c d n] assms(1)
  show ?thesis by (auto simp: shared_inv_def acknowledge_def same_session_def add.assoc)
qed

lemma shared_grant:
  assumes "shared_inv t0 s gt kt gf kf sh c" "granted sh n l"
  shows "shared_inv t0 s (gt + (if d = ToTor then n else 0)) kt (gf + (if d = FromTor then n else 0)) kf (sh\<lparr>cs_limiter := l\<rparr>) c"
  using assms by (cases d) (auto simp: shared_inv_def granted_def)

lemma copy_direction_at:
  assumes "tunnel_at t0 s gt kt gf kf t" "ts_to t0 + ts_from t0 \<le> ts_used t0"
  shows "\<exists>s' gt' kt' gf' kf'. tunnel_at t0 s' gt' kt' gf' kf' (copy_direction d ev t)
    \<and> tc_result (copy_direction d ev t) = tc_result t"
proof (cases d)
  case ToTor
  obtain x sh where st: "copy_step ToTor ev (tc_to t) (tc_shared t) = (x, sh)" by fastforce
  have t': "copy_direction d ev t = t\<lparr>tc_to := x, tc_shared := sh\<rparr>" using ToTor st by (simp add: copy_direction_def)
  then have same: "tc_result (copy_direction d ev t) = tc_result t" by simp
  have at: "copy_inv gt kt (tc_to t)" "shared_inv t0 s gt kt gf kf (tc_shared t) (tc_conn t)"
      "counted_from (ts_counter_to t0) kt (cd_counter (tc_to t))" "kf \<le> gf"
    using assms(1) copy_inv_bounds [of gf kf "tc_from t"] by (auto simp: tunnel_at_def)
  from copy_step_change [OF at(1) st] show ?thesis unfolding copy_change_def
  proof (elim disjE exE conjE)
    fix n assume n: "copy_inv gt (kt + unat n) x" "kt + unat n \<le> gt" "sh = acknowledge ToTor n (tc_shared t)"
      "cd_counter x = map_option (\<lambda>c. c + n) (cd_counter (tc_to t))"
    have "tunnel_at t0 (record_transferred ToTor n s) gt (kt + unat n) gf kf (copy_direction d ev t)"
      using assms n at shared_acknowledge [OF at(2) assms(2), of ToTor n] counted_from_add [OF at(3), of n]
      unfolding t' by (simp add: tunnel_at_def)
    then show ?thesis using same by blast
  next
    fix n l assume n: "copy_inv (gt + n) kt x" "sh = (tc_shared t)\<lparr>cs_limiter := l\<rparr>" "cd_counter x = cd_counter (tc_to t)"
      "granted (tc_shared t) n l"
    have "tunnel_at t0 s (gt + n) kt gf kf (copy_direction d ev t)"
      using assms n at shared_grant [OF at(2) n(4), of ToTor] unfolding t' by (simp add: tunnel_at_def)
    then show ?thesis using same by blast
  qed (use assms(1) t' same in \<open>fastforce simp: tunnel_at_def\<close>)
next
  case FromTor
  obtain x sh where st: "copy_step FromTor ev (tc_from t) (tc_shared t) = (x, sh)" by fastforce
  have t': "copy_direction d ev t = t\<lparr>tc_from := x, tc_shared := sh\<rparr>" using FromTor st by (simp add: copy_direction_def)
  then have same: "tc_result (copy_direction d ev t) = tc_result t" by simp
  have at: "copy_inv gf kf (tc_from t)" "shared_inv t0 s gt kt gf kf (tc_shared t) (tc_conn t)"
      "counted_from (ts_counter_from t0) kf (cd_counter (tc_from t))" "kt \<le> gt"
    using assms(1) copy_inv_bounds [of gt kt "tc_to t"] by (auto simp: tunnel_at_def)
  from copy_step_change [OF at(1) st] show ?thesis unfolding copy_change_def
  proof (elim disjE exE conjE)
    fix n assume n: "copy_inv gf (kf + unat n) x" "kf + unat n \<le> gf" "sh = acknowledge FromTor n (tc_shared t)"
      "cd_counter x = map_option (\<lambda>c. c + n) (cd_counter (tc_from t))"
    have "tunnel_at t0 (record_transferred FromTor n s) gt kt gf (kf + unat n) (copy_direction d ev t)"
      using assms n at shared_acknowledge [OF at(2) assms(2), of FromTor n] counted_from_add [OF at(3), of n]
      unfolding t' by (simp add: tunnel_at_def)
    then show ?thesis using same by blast
  next
    fix n l assume n: "copy_inv (gf + n) kf x" "sh = (tc_shared t)\<lparr>cs_limiter := l\<rparr>" "cd_counter x = cd_counter (tc_from t)"
      "granted (tc_shared t) n l"
    have "tunnel_at t0 s gt kt (gf + n) kf (copy_direction d ev t)"
      using assms n at shared_grant [OF at(2) n(4), of FromTor] unfolding t' by (simp add: tunnel_at_def)
    then show ?thesis using same by blast
  qed (use assms(1) t' same in \<open>fastforce simp: tunnel_at_def\<close>)
qed

lemma checkpoint_at:
  assumes at: "tunnel_at t0 s gt kt gf kf t" and chk: "checkpoint_customer_data_session worker t = (res, t')"
  obtains s' where "tunnel_at t0 s' gt kt gf kf t'" "tc_result t' = tc_result t" "copy_outcome t' = copy_outcome t"
    "cs_session (tc_shared t') = Some s'"
    "res = Err account_usage_checkpoint_error \<or>
       res = Ok () \<and> ses_persisted_to_tor s' = ses_bytes_to_tor s' \<and> ses_persisted_from_tor s' = ses_bytes_from_tor s'"
proof -
  have sh: "cs_session (tc_shared t) = Some s" "shared_inv t0 s gt kt gf kf (tc_shared t) (tc_conn t)"
    and inv: "session_inv (ts_usage t0) (ts_to t0 + kt) (ts_from t0 + kf) (s, tc_conn t)"
    using at by (auto simp: tunnel_at_def shared_inv_def)
  obtain r s' c where r: "session_checkpoint worker s (tc_conn t) = (r, s', c)" by (metis prod_cases3)
  have t': "t' = t\<lparr>tc_shared := (tc_shared t)\<lparr>cs_session := Some s'\<rparr>, tc_conn := c\<rparr>"
      "res = map_err (\<lambda>_. account_usage_checkpoint_error) r"
    using chk sh(1) r by (auto simp: checkpoint_customer_data_session_def)
  have same: "same_session s s'" "r = Ok () \<Longrightarrow> ses_persisted_to_tor s' = ses_bytes_to_tor s' \<and> ses_persisted_from_tor s' = ses_bytes_from_tor s'"
    using r by (cases rule: session_checkpoint_cases [OF inv, of worker]; auto simp: same_session_def)+
  have "tunnel_at t0 s' gt kt gf kf t'"
    using at session_checkpoint_inv(1) [OF inv r] same(1) unfolding t' tunnel_at_def shared_inv_def same_session_def
    by auto
  moreover have "res = Err account_usage_checkpoint_error \<or>
       res = Ok () \<and> ses_persisted_to_tor s' = ses_bytes_to_tor s' \<and> ses_persisted_from_tor s' = ses_bytes_from_tor s'"
    using same(2) unfolding t'(2) by (cases r) auto
  ultimately show thesis using that [of s'] unfolding t'(1) by (simp add: copy_outcome_def)
qed

definition settled :: "CustomerDataSession \<Rightarrow> tunnel_copy \<Rightarrow> bool" where
  "settled s t \<longleftrightarrow> (\<forall>res. tc_result t = Some res \<longrightarrow> res = Err account_usage_checkpoint_error
     \<or> (ses_persisted_to_tor s = ses_bytes_to_tor s \<and> ses_persisted_from_tor s = ses_bytes_from_tor s
        \<and> (\<forall>v. res = Ok v \<longrightarrow> copy_outcome t = Some (Ok v))))"

definition tunnel_inv :: "tunnel_start \<Rightarrow> tunnel_copy \<Rightarrow> bool" where
  "tunnel_inv t0 t \<longleftrightarrow> (\<exists>s gt kt gf kf. tunnel_at t0 s gt kt gf kf t \<and> settled s t)"

lemma tunnel_at_result [simp]: "tunnel_at t0 s gt kt gf kf (t\<lparr>tc_result := r\<rparr>) = tunnel_at t0 s gt kt gf kf t"
  and copy_outcome_result [simp]: "copy_outcome (t\<lparr>tc_result := r\<rparr>) = copy_outcome t"
  by (simp_all add: tunnel_at_def copy_outcome_def)

lemma tunnel_invI: "tunnel_at t0 s gt kt gf kf t \<Longrightarrow> tc_result t = None \<Longrightarrow> tunnel_inv t0 t"
  unfolding tunnel_inv_def settled_def by fastforce

lemma checkpoint_and_continue_inv:
  assumes "tunnel_at t0 s gt kt gf kf t" "tc_result t = None"
  shows "tunnel_inv t0 (checkpoint_and_continue worker t)"
proof -
  obtain res t' where chk: "checkpoint_customer_data_session worker t = (res, t')" by fastforce
  from checkpoint_at [OF assms(1) chk] obtain s' where s': "tunnel_at t0 s' gt kt gf kf t'" "tc_result t' = None"
      "res = Err account_usage_checkpoint_error \<or> res = Ok ()"
    using assms(2) by metis
  from s'(3) show ?thesis
  proof
    assume "res = Err account_usage_checkpoint_error"
    with s' chk have "tunnel_at t0 s' gt kt gf kf (checkpoint_and_continue worker t)"
        "settled s' (checkpoint_and_continue worker t)"
      by (simp_all add: checkpoint_and_continue_def settled_def)
    then show ?thesis unfolding tunnel_inv_def by blast
  next
    assume "res = Ok ()"
    with s' chk show ?thesis by (auto simp: checkpoint_and_continue_def intro: tunnel_invI)
  qed
qed

lemma checkpoint_and_return_inv:
  assumes "tunnel_at t0 s gt kt gf kf t" "\<And>v. res = Ok v \<Longrightarrow> copy_outcome t = Some res"
  shows "tunnel_inv t0 (checkpoint_and_return worker res t)"
proof -
  obtain r t' where chk: "checkpoint_customer_data_session worker t = (r, t')" by fastforce
  from checkpoint_at [OF assms(1) chk] obtain s' where s': "tunnel_at t0 s' gt kt gf kf t'"
      "copy_outcome t' = copy_outcome t" "r = Err account_usage_checkpoint_error \<or>
       r = Ok () \<and> ses_persisted_to_tor s' = ses_bytes_to_tor s' \<and> ses_persisted_from_tor s' = ses_bytes_from_tor s'"
    by metis
  have "settled s' (checkpoint_and_return worker res t)"
    using s'(3)
  proof (elim disjE conjE)
    assume "r = Err account_usage_checkpoint_error"
    with chk show ?thesis by (simp add: checkpoint_and_return_def settled_def)
  next
    assume "r = Ok ()" "ses_persisted_to_tor s' = ses_bytes_to_tor s'" "ses_persisted_from_tor s' = ses_bytes_from_tor s'"
    with chk s'(2) assms(2) show ?thesis by (auto simp: checkpoint_and_return_def settled_def)
  qed
  moreover have "tunnel_at t0 s' gt kt gf kf (checkpoint_and_return worker res t)"
    using s'(1) chk by (cases r) (simp_all add: checkpoint_and_return_def)
  ultimately show ?thesis unfolding tunnel_inv_def by blast
qed

lemma elsewhere_at:
  assumes "tunnel_at t0 s gt kt gf kf t"
  shows "tunnel_at t0 s gt kt gf kf (elsewhere n t) \<and> tc_result (elsewhere n t) = tc_result t"
proof -
  have s: "cs_session (tc_shared t) = Some s" using assms by (simp add: tunnel_at_def shared_inv_def)
  obtain res l where l: "session_allow n s (cs_limiter (tc_shared t)) = (res, l)" by fastforce
  from l show ?thesis
  proof (cases rule: session_allow_cases)
    case refused
    then show ?thesis using assms s l by (simp add: elsewhere_def tunnel_at_def shared_inv_def)
  next
    case (allowed a)
    then show ?thesis using assms s l by (auto simp: elsewhere_def tunnel_at_def shared_inv_def)
  qed
qed

lemma select_limited_inv:
  assumes "tunnel_inv t0 t" "ts_to t0 + ts_from t0 \<le> ts_used t0"
  shows "tunnel_inv t0 (select_limited idle ev t)"
proof (cases "tc_result t")
  case (Some r)
  then show ?thesis using assms by simp
next
  case None
  obtain s gt kt gf kf where at: "tunnel_at t0 s gt kt gf kf t" using assms(1) by (auto simp: tunnel_inv_def)
  show ?thesis
  proof (cases ev)
    case (Copy_Event d e worker)
    obtain s' gt' kt' gf' kf' where at': "tunnel_at t0 s' gt' kt' gf' kf' (copy_direction d e t)"
        "tc_result (copy_direction d e t) = None"
      using copy_direction_at [OF at assms(2), of d e] None by auto
    then show ?thesis using Copy_Event None tunnel_invI [OF at'] checkpoint_and_return_inv [OF at'(1)]
      by (cases "copy_outcome (copy_direction d e t)") (simp_all add: Let_def)
  next
    case (Activity_Event now worker)
    let ?t = "activity_seen (now + idle) t"
    have at': "tunnel_at t0 s gt kt gf kf ?t" "tc_result ?t = None" "cs_session (tc_shared ?t) = Some s"
      using at None by (auto simp: tunnel_at_def shared_inv_def activity_seen_def)
    then show ?thesis using Activity_Event None assms(1) tunnel_invI [OF at'(1,2)] checkpoint_and_continue_inv [OF at'(1,2)]
      by (simp add: Let_def)
  next
    case (Tick_Event worker)
    then show ?thesis using None checkpoint_and_continue_inv [OF at None] by simp
  next
    case (Idle_Event now worker)
    then show ?thesis using None assms(1) checkpoint_and_return_inv [OF at, of "Err idle_timeout_error"] by simp
  next
    case (Elsewhere n)
    then show ?thesis using None elsewhere_at [OF at, of n] by (auto intro: tunnel_invI)
  qed
qed

lemma select_limited_run:
  assumes "tunnel_inv t0 t" "ts_to t0 + ts_from t0 \<le> ts_used t0"
  shows "tunnel_inv t0 (fold (select_limited idle) evs t)"
  using assms(1) by (induction evs arbitrary: t) (simp_all del: select_limited.simps add: select_limited_inv assms(2))

lemma copy_outcome_Ok:
  "copy_outcome t = Some (Ok (n, m)) \<longleftrightarrow> cd_phase (tc_to t) = Finished (Ok n) \<and> cd_phase (tc_from t) = Finished (Ok m)"
  by (auto simp: copy_outcome_def split: copy_phase.splits sum.splits)

lemma finished_exact:
  assumes "copy_inv g k x" "cd_phase x = Finished (Ok n)"
  shows "cd_written x = cd_read x \<and> k = length (cd_read x) \<and> unat n = min k (2 ^ 64 - 1)"
  using assms by (auto simp: copy_inv_def)

lemma limited_tunnel:
  assumes "session_inv u0 n m (s, c)" "n + m \<le> unat (used_bytes (dl_heap l (ses_state s)))"
    and "used_bytes (dl_heap l (ses_state s)) \<le> ses_limit s"
    and "t = copy_bidirectional_with_customer_data_limit now idle ca cb s l c evs"
  obtains s' gt kt gf kf where "tunnel_at \<lparr>ts_session = s, ts_used = unat (used_bytes (dl_heap l (ses_state s))),
      ts_to = n, ts_from = m, ts_usage = u0, ts_counter_to = ca, ts_counter_from = cb\<rparr> s' gt kt gf kf t" "settled s' t"
proof -
  let ?t0 = "\<lparr>ts_session = s, ts_used = unat (used_bytes (dl_heap l (ses_state s))),
      ts_to = n, ts_from = m, ts_usage = u0, ts_counter_to = ca, ts_counter_from = cb\<rparr>"
  have "tunnel_at ?t0 s 0 0 0 0 (tunnel_copy_new now idle ca cb (Some s) l c)"
    using assms(1,3) by (cases ca; cases cb)
      (simp_all add: tunnel_at_def shared_inv_def tunnel_copy_new_def same_session_def copy_inv_new counted_from_def,
       simp_all add: copy_dir_new_def)
  then have "tunnel_inv ?t0 (tunnel_copy_new now idle ca cb (Some s) l c)"
    by (rule tunnel_invI) (simp add: tunnel_copy_new_def)
  from select_limited_run [OF this, of idle evs] assms(2) have "tunnel_inv ?t0 t"
    unfolding assms(4) copy_bidirectional_with_customer_data_limit_def by simp
  then show thesis unfolding tunnel_inv_def using that by blast
qed

text \<open>
  Property C6. A tunnel never takes an account past its period's data limit: whatever the peers send,
  whichever operations fail and whatever other tunnels of the account do, each peer receives a prefix of
  what the other sent, and the bytes delivered in both directions together fit between the usage at the
  start and the limit; a tunnel that ends normally has delivered all bytes and returns their numbers.
\<close>

theorem tunnel_within_limit:
  assumes "session_inv u0 n m (s, c)" "n + m \<le> unat (used_bytes (dl_heap l (ses_state s)))"
    and "used_bytes (dl_heap l (ses_state s)) \<le> ses_limit s"
    and "t = copy_bidirectional_with_customer_data_limit now idle ca cb s l c evs"
  shows "prefix (cd_written (tc_to t)) (cd_read (tc_to t)) \<and> prefix (cd_written (tc_from t)) (cd_read (tc_from t))
    \<and> unat (used_bytes (dl_heap l (ses_state s))) + length (cd_written (tc_to t)) + length (cd_written (tc_from t))
        \<le> unat (ses_limit s)
    \<and> (\<forall>x y. tc_result t = Some (Ok (x, y)) \<longrightarrow>
          cd_written (tc_to t) = cd_read (tc_to t) \<and> unat x = length (cd_read (tc_to t))
          \<and> cd_written (tc_from t) = cd_read (tc_from t) \<and> unat y = length (cd_read (tc_from t)))"
proof -
  obtain s' gt kt gf kf where at: "tunnel_at \<lparr>ts_session = s, ts_used = unat (used_bytes (dl_heap l (ses_state s))),
      ts_to = n, ts_from = m, ts_usage = u0, ts_counter_to = ca, ts_counter_from = cb\<rparr> s' gt kt gf kf t" "settled s' t"
    using limited_tunnel [OF assms] by blast
  then have inv: "copy_inv gt kt (tc_to t)" "copy_inv gf kf (tc_from t)"
    and used: "unat (used_bytes (dl_heap l (ses_state s))) + gt + gf \<le> unat (ses_limit s)"
    by (auto simp: tunnel_at_def shared_inv_def same_session_def word_le_nat_alt intro: order_trans)
  have fin: "cd_phase (tc_to t) = Finished (Ok x) \<and> cd_phase (tc_from t) = Finished (Ok y)"
    if "tc_result t = Some (Ok (x, y))" for x y
    using that at(2) unfolding settled_def copy_outcome_Ok [symmetric] by force
  have small: "kt \<le> 2 ^ 64 - 1" "kf \<le> 2 ^ 64 - 1"
    using copy_inv_bounds(1,2) [OF inv(1)] copy_inv_bounds(1,2) [OF inv(2)] used unat_u64_lt [of "ses_limit s"] by simp_all
  show ?thesis
    using copy_inv_bounds [OF inv(1)] copy_inv_bounds [OF inv(2)] used small
      finished_exact [OF inv(1)] finished_exact [OF inv(2)] fin
    by (auto simp: min_def)
qed

text \<open>
  Property C7. A tunnel accounts for what it delivered: when it has returned, and did not report a
  failed checkpoint, the database has for the session's scope and period the usage of before plus the
  acknowledged bytes, nothing else changed, the byte counters grew by the same numbers, and in
  each direction at most one buffer of delivered bytes is not acknowledged, none on a normal end.
\<close>

theorem tunnel_usage_recorded:
  assumes "session_inv u0 n m (s, c)" "n + m \<le> unat (used_bytes (dl_heap l (ses_state s)))"
    and "used_bytes (dl_heap l (ses_state s)) \<le> ses_limit s"
    and "t = copy_bidirectional_with_customer_data_limit now idle (Some ca) (Some cb) s l c evs"
    and "tc_result t = Some res" "res \<noteq> Err account_usage_checkpoint_error"
  shows "\<exists>a b. usage_of (tbls (tc_conn t)) = u0(scope_key (ses_identity s) (ses_period_start s) :=
        add_usage (u0 (scope_key (ses_identity s) (ses_period_start s))) (recorded (of_nat (n + a)) (of_nat (m + b))))
    \<and> cd_counter (tc_to t) = Some (ca + of_nat a) \<and> cd_counter (tc_from t) = Some (cb + of_nat b)
    \<and> a \<le> length (cd_written (tc_to t)) \<and> length (cd_written (tc_to t)) \<le> a + 16384
    \<and> b \<le> length (cd_written (tc_from t)) \<and> length (cd_written (tc_from t)) \<le> b + 16384
    \<and> (\<forall>v. res = Ok v \<longrightarrow> a = length (cd_read (tc_to t)) \<and> b = length (cd_read (tc_from t)))"
proof -
  let ?t0 = "\<lparr>ts_session = s, ts_used = unat (used_bytes (dl_heap l (ses_state s))),
      ts_to = n, ts_from = m, ts_usage = u0, ts_counter_to = Some ca, ts_counter_from = Some cb\<rparr>"
  obtain s' gt kt gf kf where at: "tunnel_at ?t0 s' gt kt gf kf t" "settled s' t"
    using limited_tunnel [OF assms(1-4)] by blast
  then have inv: "copy_inv gt kt (tc_to t)" "copy_inv gf kf (tc_from t)"
    and ses: "session_inv u0 (n + kt) (m + kf) (s', tc_conn t)" "same_session s s'"
    and counters: "cd_counter (tc_to t) = Some (ca + of_nat kt)" "cd_counter (tc_from t) = Some (cb + of_nat kf)"
    by (auto simp: tunnel_at_def shared_inv_def counted_from_def)
  have "ses_persisted_to_tor s' = of_nat (n + kt)" "ses_persisted_from_tor s' = of_nat (m + kf)"
    using at(2) assms(5,6) ses(1) word_of_nat_unat [of "ses_bytes_to_tor s'"] word_of_nat_unat [of "ses_bytes_from_tor s'"]
    by (auto simp: settled_def session_inv_def Let_def)
  with ses have "usage_of (tbls (tc_conn t)) = u0(scope_key (ses_identity s) (ses_period_start s) :=
        add_usage (u0 (scope_key (ses_identity s) (ses_period_start s))) (recorded (of_nat (n + kt)) (of_nat (m + kf))))"
    by (simp add: session_inv_def same_session_def Let_def)
  moreover have "kt = length (cd_read (tc_to t)) \<and> kf = length (cd_read (tc_from t))" if "res = Ok v" for v
  proof -
    have "copy_outcome t = Some (Ok (fst v, snd v))"
      using at(2) assms(5) that by (cases v) (simp add: settled_def)
    then show ?thesis using finished_exact [OF inv(1)] finished_exact [OF inv(2)] unfolding copy_outcome_Ok by blast
  qed
  ultimately show ?thesis
    using counters copy_inv_bounds [OF inv(1)] copy_inv_bounds [OF inv(2)]
    by (intro exI [of _ kt] exI [of _ kf]) (auto simp: COPY_BUFFER_BYTES_def)
qed

section \<open>Tunnels without an account\<close>

definition plain_inv :: "tunnel_copy \<Rightarrow> bool" where
  "plain_inv t \<longleftrightarrow> (\<exists>g k. copy_inv g k (tc_to t)) \<and> (\<exists>g k. copy_inv g k (tc_from t))
     \<and> (\<forall>v. tc_result t = Some (Ok v) \<longrightarrow> copy_outcome t = Some (Ok v))"

lemma copy_step_inv: "copy_inv g k x \<Longrightarrow> \<exists>g' k'. copy_inv g' k' (fst (copy_step d ev x sh))"
  using copy_step_change [of g k x d ev sh "fst (copy_step d ev x sh)" "snd (copy_step d ev x sh)"]
  unfolding copy_change_def by auto

lemma select_idle_inv: "plain_inv t \<Longrightarrow> plain_inv (select_idle idle ev t)"
proof (cases "tc_result t")
  case None
  assume inv: "plain_inv t"
  show ?thesis
  proof (cases ev)
    case (Copy_Event d e worker)
    have "(\<exists>g k. copy_inv g k (tc_to (copy_direction d e t))) \<and> (\<exists>g k. copy_inv g k (tc_from (copy_direction d e t)))"
      using inv copy_step_inv [of _ _ "tc_to t" ToTor e "tc_shared t"] copy_step_inv [of _ _ "tc_from t" FromTor e "tc_shared t"]
      unfolding plain_inv_def copy_direction_def
      by (cases d; cases "copy_step d e (if d = ToTor then tc_to t else tc_from t) (tc_shared t)") auto
    moreover have "tc_result (copy_direction d e t) = None"
      using None by (simp add: copy_direction_def split: CustomerDataDirection.splits prod.splits)
    ultimately show ?thesis using Copy_Event None by (auto simp: plain_inv_def Let_def split: option.splits)
  next
    case (Activity_Event now worker)
    then show ?thesis using None inv by (auto simp: plain_inv_def activity_seen_def copy_outcome_def)
  qed (use None inv in \<open>auto simp: plain_inv_def\<close>)
qed simp

lemma plain_tunnel_exact:
  assumes "t = copy_bidirectional_with_idle_timeout_and_counters now idle ca cb l c evs"
  shows "prefix (cd_written (tc_to t)) (cd_read (tc_to t)) \<and> prefix (cd_written (tc_from t)) (cd_read (tc_from t))
    \<and> (\<forall>v. tc_result t = Some (Ok v) \<longrightarrow> cd_written (tc_to t) = cd_read (tc_to t) \<and> cd_written (tc_from t) = cd_read (tc_from t))"
proof -
  have start: "plain_inv (tunnel_copy_new now idle ca cb None l c)"
    using copy_inv_new by (auto simp: plain_inv_def tunnel_copy_new_def)
  have "plain_inv (fold (select_idle idle) es t0)" if "plain_inv t0" for es t0
    using that by (induction es arbitrary: t0) (simp_all del: select_idle.simps add: select_idle_inv)
  from this [OF start] have "plain_inv t"
    unfolding assms copy_bidirectional_with_idle_timeout_and_counters_def .
  then show ?thesis
    unfolding plain_inv_def using copy_inv_bounds(4) finished_exact by (metis copy_outcome_Ok surj_pair)
qed

text \<open>A tunnel of the demonstration account that carries five bytes and is closed by both peers.\<close>

lemma demo_record: "\<exists>c'. record_account_bytes None demo_identity (UnixTimestamp 0) 5 0 demo_connection = (Ok (), c')"
proof -
  have "\<exists>snap c'. db_record_usage demo_identity (UnixTimestamp 0) (recorded 5 0) demo_connection = (Ok snap, c')"
    by (simp add: db_record_usage_def transaction_def require_workspace_scope_def workspace_scope_exists_def
        demo_tables_def demo_identity_def usage_values_def select_usage_def usage_counters_from_row_def
        nonnegative_u64_from_database_def u64_try_from_i64_def write_usage_def checked_usage_add_def checked_add_def
        recorded_def checked_database_counter_def i64_try_from_u64_def i64_max_def upsert_usage_def
        db_bind_def db_map_err_def select_stmt_def account_exists_def usage_row_check_def Let_def
        lock_connection_def db_lift_def db_return_def run_statement_def sql_def usage_row_def)
  then show ?thesis
    by (auto simp: record_account_bytes_def UsageDelta_new_def dbm_simps recorded_def checked_database_counter_def
        checked_add_def i64_try_from_u64_def i64_max_def)
qed

definition demo_events :: "tunnel_event list" where
  "demo_events =
     [Copy_Event ToTor (Read_Ready (Ok ''hello'')) None, Copy_Event ToTor (Write_Ready 5 (Ok ())) None,
      Elsewhere 7, Copy_Event ToTor (Flush_Ready (Ok ())) None, Copy_Event ToTor (Read_Ready (Ok [])) None,
      Copy_Event ToTor (Shutdown_Ready (Ok ())) None, Copy_Event FromTor (Read_Ready (Ok [])) None,
      Copy_Event FromTor (Shutdown_Ready (Ok ())) None]"

definition demo_tunnel :: tunnel_copy where
  "demo_tunnel = copy_bidirectional_with_customer_data_limit 0 300 (Some 10) (Some 20) demo_session demo_limiter
     demo_connection demo_events"

lemma demo_tunnel_run:
  "tc_result demo_tunnel = Some (Ok (5, 0))" "cd_written (tc_to demo_tunnel) = ''hello''" "cd_written (tc_from demo_tunnel) = []"
proof -
  obtain c' where c': "record_account_bytes None demo_identity (UnixTimestamp 0) 5 0 demo_connection = (Ok (), c')"
    using demo_record by blast
  note defs = demo_tunnel_def copy_bidirectional_with_customer_data_limit_def demo_events_def tunnel_copy_new_def
    copy_direction_def copy_dir_new_def copy_step.simps copy_read_def copy_allowance_def session_allow_def period_allow_def
    allow_projection_def demo_session_def CustomerDataSession_new_def demo_limiter_def COPY_BUFFER_BYTES_def
    copy_outcome_def copy_flushed_def elsewhere_def shutdown_copy_writer_def record_transferred_def
    checkpoint_and_return_def checkpoint_customer_data_session_def session_checkpoint_def checked_add_def
    checked_sub_def saturating_add_def c'
  show "tc_result demo_tunnel = Some (Ok (5, 0))" "cd_written (tc_to demo_tunnel) = ''hello''"
      "cd_written (tc_from demo_tunnel) = []"
    by (simp_all add: defs)
qed

lemma demo_tunnel_start:
  "session_inv (usage_of demo_tables) 0 0 (demo_session, demo_connection)"
  "0 + 0 \<le> unat (used_bytes (dl_heap demo_limiter (ses_state demo_session)))"
  "used_bytes (dl_heap demo_limiter (ses_state demo_session)) \<le> ses_limit demo_session"
  using new_session_inv [of demo_connection demo_identity "UnixTimestamp 0" 100 0] demo_counters_ok
  by (simp_all add: demo_session_def demo_limiter_def CustomerDataSession_new_def)

theorem tunnel_within_limit_witness:
  "tc_result demo_tunnel = Some (Ok (5, 0)) \<and> cd_written (tc_to demo_tunnel) = cd_read (tc_to demo_tunnel)
   \<and> length (cd_read (tc_to demo_tunnel)) = 5"
  using tunnel_within_limit [OF demo_tunnel_start demo_tunnel_def] demo_tunnel_run by auto

theorem tunnel_usage_recorded_witness:
  "\<exists>a b. cd_counter (tc_to demo_tunnel) = Some (10 + of_nat a) \<and> a = length (cd_read (tc_to demo_tunnel))
     \<and> usage_of (tbls (tc_conn demo_tunnel)) (1, 1, 0) = add_usage (usage_of demo_tables (1, 1, 0)) (recorded (of_nat a) (of_nat b))"
proof -
  have "scope_key (ses_identity demo_session) (ses_period_start demo_session) = (1, 1, 0)"
    by (simp add: demo_session_def CustomerDataSession_new_def scope_key_def demo_identity_def)
  with tunnel_usage_recorded [OF demo_tunnel_start demo_tunnel_def demo_tunnel_run(1)] show ?thesis by force
qed

end
