(* ===== verification/Admission_Slots.thy ===== *)
theory Admission_Slots
  imports Metrics
begin

text \<open>
  Slots handed out by semaphores: the request scheduler (\<open>src/src/request_scheduler.rs\<close>) and the
  two admission functions of \<open>src/src/main.rs\<close>, \<open>acquire_active_tunnel_permit\<close> and
  \<open>acquire_circuit_permit\<close>, with the gauges and counters they keep.

  Tokio's \<open>Semaphore\<close> is a parameter, a record of operations on its state; \<open>sem_acquire\<close> is
  \<open>timeout(wait, acquire_owned())\<close> at the instant it completes. What the code relies on is
  \<open>semaphore_laws\<close>: permits are conserved and a closed semaphore grants none. The contract that the
  three users share is the locale \<open>slot_pool\<close>.
\<close>

section \<open>Semaphores\<close>

datatype acquire_outcome = Permit | SemaphoreClosed | Elapsed

record 's semaphore_ops =
  sem_new :: "nat \<Rightarrow> 's"
  sem_acquire :: "nat \<Rightarrow> 's \<Rightarrow> acquire_outcome \<times> 's"
  sem_release :: "'s \<Rightarrow> 's"
  sem_close :: "'s \<Rightarrow> 's"
  sem_available :: "'s \<Rightarrow> nat"
  sem_is_closed :: "'s \<Rightarrow> bool"

text \<open>
  \<open>Semaphore::MAX_PERMITS\<close>, which is \<open>usize::MAX >> 3\<close>: \<open>Semaphore::new\<close> panics above it. \<open>sem_new\<close> is the
  constructor on the capacities it takes; the constructors that pass a configured capacity check it against
  this bound and have the panic as a result.
\<close>

definition MAX_PERMITS :: nat where "MAX_PERMITS = u64_max div 8"

definition semaphore_laws :: "'s semaphore_ops \<Rightarrow> bool" where
  "semaphore_laws ops \<longleftrightarrow>
     (\<forall>n. sem_available ops (sem_new ops n) = n \<and> \<not> sem_is_closed ops (sem_new ops n))
     \<and> (\<forall>wait s o' s'. sem_acquire ops wait s = (o', s') \<longrightarrow>
          sem_is_closed ops s' = sem_is_closed ops s
          \<and> (case o' of Permit \<Rightarrow> \<not> sem_is_closed ops s \<and> sem_available ops s = Suc (sem_available ops s')
             | _ \<Rightarrow> sem_available ops s' = sem_available ops s))
     \<and> (\<forall>s. sem_available ops (sem_release ops s) = Suc (sem_available ops s)
          \<and> sem_is_closed ops (sem_release ops s) = sem_is_closed ops s)
     \<and> (\<forall>s. sem_available ops (sem_close ops s) = sem_available ops s \<and> sem_is_closed ops (sem_close ops s))"

lemma semaphore_acquire_laws:
  assumes "semaphore_laws ops" "sem_acquire ops wait s = (o', s')"
  shows "sem_is_closed ops s' = sem_is_closed ops s"
    and "o' = Permit \<Longrightarrow> \<not> sem_is_closed ops s \<and> sem_available ops s = Suc (sem_available ops s')"
    and "o' \<noteq> Permit \<Longrightarrow> sem_available ops s' = sem_available ops s"
proof -
  have "sem_is_closed ops s' = sem_is_closed ops s
      \<and> (case o' of Permit \<Rightarrow> \<not> sem_is_closed ops s \<and> sem_available ops s = Suc (sem_available ops s')
         | _ \<Rightarrow> sem_available ops s' = sem_available ops s)"
    using assms unfolding semaphore_laws_def by blast
  then show "sem_is_closed ops s' = sem_is_closed ops s"
    and "o' = Permit \<Longrightarrow> \<not> sem_is_closed ops s \<and> sem_available ops s = Suc (sem_available ops s')"
    and "o' \<noteq> Permit \<Longrightarrow> sem_available ops s' = sem_available ops s"
    by (cases o'; simp)+
qed

lemma semaphore_other_laws:
  assumes "semaphore_laws ops"
  shows "sem_available ops (sem_new ops n) = n" "\<not> sem_is_closed ops (sem_new ops n)"
    and "sem_available ops (sem_release ops s) = Suc (sem_available ops s)"
    and "sem_available ops (sem_close ops s) = sem_available ops s" "sem_is_closed ops (sem_close ops s)"
    and "sem_is_closed ops (sem_release ops s) = sem_is_closed ops s"
  using assms by (simp_all add: semaphore_laws_def)

section \<open>The contract of a pool of slots\<close>

datatype slot_effect = Took | Freed | Kept

text \<open>
  A run with the number of guards that are alive: a guard is dropped only if there is one.
\<close>

fun held_run :: "('o \<Rightarrow> 'p \<Rightarrow> slot_effect \<times> 'p) \<Rightarrow> 'o list \<Rightarrow> nat \<Rightarrow> 'p \<Rightarrow> (nat \<times> 'p) option" where
  "held_run step [] n p = Some (n, p)"
| "held_run step (x # xs) n p =
     (case step x p of
        (Took, p') \<Rightarrow> held_run step xs (Suc n) p'
      | (Freed, p') \<Rightarrow> if n = 0 then None else held_run step xs (n - 1) p'
      | (Kept, p') \<Rightarrow> held_run step xs n p')"

locale slot_pool =
  fixes step :: "'o \<Rightarrow> 'p \<Rightarrow> slot_effect \<times> 'p"
    and active :: "'p \<Rightarrow> nat"
    and inv :: "'p \<Rightarrow> bool"
    and slots :: nat
  assumes took: "inv p \<Longrightarrow> step x p = (Took, p') \<Longrightarrow> inv p' \<and> active p' = Suc (active p)"
    and freed: "inv p \<Longrightarrow> 0 < active p \<Longrightarrow> step x p = (Freed, p') \<Longrightarrow> inv p' \<and> Suc (active p') = active p"
    and kept: "inv p \<Longrightarrow> step x p = (Kept, p') \<Longrightarrow> inv p' \<and> active p' = active p"
    and within: "inv p \<Longrightarrow> active p \<le> slots"
begin

lemma held_exact:
  assumes "held_run step xs n p = Some (n', p')" "inv p" "active p = n"
  shows "inv p' \<and> active p' = n' \<and> n' \<le> slots"
  using assms
proof (induction xs arbitrary: n p)
  case Nil
  then show ?case using within by auto
next
  case (Cons x xs)
  obtain e q where x: "step x p = (e, q)" by fastforce
  show ?case
  proof (cases e)
    case Took
    with Cons.prems x took [of p x q] show ?thesis by (intro Cons.IH [of "Suc n" q]) auto
  next
    case Freed
    with Cons.prems x freed [of p x q] show ?thesis by (intro Cons.IH [of "n - 1" q]) (auto split: if_splits)
  next
    case Kept
    with Cons.prems x kept [of p x q] show ?thesis by (intro Cons.IH [of n q]) auto
  qed
qed

end

section \<open>The request scheduler\<close>

datatype RequestSchedulerError = SchedulerTimedOut | SchedulerClosed

text \<open>A scheduler that was made, so with a capacity of at most \<open>MAX_PERMITS\<close>.\<close>

record 's RequestScheduler =
  sched_semaphore :: 's
  sched_capacity :: nat
  sched_wait_timeout :: nat

definition RequestScheduler_new :: "'s semaphore_ops \<Rightarrow> nat \<Rightarrow> nat \<Rightarrow> 's RequestScheduler" where
  "RequestScheduler_new ops capacity wait_timeout =
     \<lparr>sched_semaphore = sem_new ops capacity, sched_capacity = capacity, sched_wait_timeout = wait_timeout\<rparr>"

definition scheduler_acquire ::
    "'s semaphore_ops \<Rightarrow> 's RequestScheduler \<Rightarrow> (unit, RequestSchedulerError) result \<times> 's RequestScheduler" where
  "scheduler_acquire ops r =
     (case sem_acquire ops (sched_wait_timeout r) (sched_semaphore r) of
        (Permit, s) \<Rightarrow> (Ok (), r\<lparr>sched_semaphore := s\<rparr>)
      | (SemaphoreClosed, s) \<Rightarrow> (Err SchedulerClosed, r\<lparr>sched_semaphore := s\<rparr>)
      | (Elapsed, s) \<Rightarrow> (Err SchedulerTimedOut, r\<lparr>sched_semaphore := s\<rparr>))"

definition scheduler_close :: "'s semaphore_ops \<Rightarrow> 's RequestScheduler \<Rightarrow> 's RequestScheduler" where
  "scheduler_close ops r = r\<lparr>sched_semaphore := sem_close ops (sched_semaphore r)\<rparr>"

definition scheduler_capacity :: "'s RequestScheduler \<Rightarrow> nat" where
  "scheduler_capacity r = sched_capacity r"

definition available_permits :: "'s semaphore_ops \<Rightarrow> 's RequestScheduler \<Rightarrow> nat" where
  "available_permits ops r = sem_available ops (sched_semaphore r)"

definition active_requests :: "'s semaphore_ops \<Rightarrow> 's RequestScheduler \<Rightarrow> nat" where
  "active_requests ops r = sched_capacity r - available_permits ops r"

text \<open>Dropping a \<open>RateLimitGuard\<close> drops its permit.\<close>

definition drop_rate_limit_guard :: "'s semaphore_ops \<Rightarrow> 's RequestScheduler \<Rightarrow> 's RequestScheduler" where
  "drop_rate_limit_guard ops r = r\<lparr>sched_semaphore := sem_release ops (sched_semaphore r)\<rparr>"

datatype scheduler_op = Sched_Acquire | Sched_Drop | Sched_Close

fun scheduler_step ::
    "'s semaphore_ops \<Rightarrow> scheduler_op \<Rightarrow> 's RequestScheduler \<Rightarrow> slot_effect \<times> 's RequestScheduler" where
  "scheduler_step ops Sched_Acquire r =
     (case scheduler_acquire ops r of (Inr _, r') \<Rightarrow> (Took, r') | (Inl _, r') \<Rightarrow> (Kept, r'))"
| "scheduler_step ops Sched_Drop r = (Freed, drop_rate_limit_guard ops r)"
| "scheduler_step ops Sched_Close r = (Kept, scheduler_close ops r)"

definition scheduler_inv :: "'s semaphore_ops \<Rightarrow> nat \<Rightarrow> 's RequestScheduler \<Rightarrow> bool" where
  "scheduler_inv ops cap r \<longleftrightarrow> semaphore_laws ops \<and> sched_capacity r = cap \<and> available_permits ops r \<le> cap"

lemma scheduler_acquire_cases:
  assumes "scheduler_acquire ops r = (res, r')"
  obtains s o' where "sem_acquire ops (sched_wait_timeout r) (sched_semaphore r) = (o', s)"
    "r' = r\<lparr>sched_semaphore := s\<rparr>" "res = (case o' of Permit \<Rightarrow> Ok () | SemaphoreClosed \<Rightarrow> Err SchedulerClosed | Elapsed \<Rightarrow> Err SchedulerTimedOut)"
  using assms by (auto simp: scheduler_acquire_def split: prod.splits acquire_outcome.splits)

interpretation scheduler: slot_pool "scheduler_step ops" "active_requests ops" "scheduler_inv ops cap" cap
  for ops :: "'s semaphore_ops" and cap
proof unfold_locales
  fix p p' :: "'s RequestScheduler" and x
  assume inv: "scheduler_inv ops cap p"
  then have laws: "semaphore_laws ops" by (simp add: scheduler_inv_def)
  show "active_requests ops p \<le> cap" using inv by (simp add: scheduler_inv_def active_requests_def)
  have acq: "scheduler_inv ops cap q \<and> active_requests ops q = (if res = Ok () then Suc (active_requests ops p) else active_requests ops p)"
    if "scheduler_acquire ops p = (res, q)" for res q
    using that
  proof (cases rule: scheduler_acquire_cases)
    case (1 s o')
    with semaphore_acquire_laws [OF laws 1(1)] inv show ?thesis
      by (cases o') (auto simp: scheduler_inv_def active_requests_def available_permits_def)
  qed
  show "scheduler_inv ops cap p' \<and> active_requests ops p' = Suc (active_requests ops p)"
    if "scheduler_step ops x p = (Took, p')"
    using that acq by (cases x) (force split: prod.splits sum.splits)+
  show "scheduler_inv ops cap p' \<and> active_requests ops p' = active_requests ops p"
    if "scheduler_step ops x p = (Kept, p')"
    using that acq inv semaphore_other_laws [OF laws]
    by (cases x) (force simp: scheduler_close_def scheduler_inv_def active_requests_def available_permits_def
        split: prod.splits sum.splits)+
  show "scheduler_inv ops cap p' \<and> Suc (active_requests ops p') = active_requests ops p"
    if "0 < active_requests ops p" "scheduler_step ops x p = (Freed, p')"
    using that inv semaphore_other_laws [OF laws]
    by (cases x) (auto simp: drop_rate_limit_guard_def scheduler_inv_def active_requests_def available_permits_def
        split: prod.splits sum.splits)
qed

lemma scheduler_new_inv: "semaphore_laws ops \<Longrightarrow> scheduler_inv ops cap (RequestScheduler_new ops cap wait)"
  by (simp add: scheduler_inv_def RequestScheduler_new_def available_permits_def semaphore_other_laws)

lemma scheduler_new_active: "semaphore_laws ops \<Longrightarrow> active_requests ops (RequestScheduler_new ops cap wait) = 0"
  by (simp add: RequestScheduler_new_def active_requests_def available_permits_def semaphore_other_laws)

lemma closed_scheduler_refuses:
  assumes "semaphore_laws ops" "sem_is_closed ops (sched_semaphore r)"
  shows "fst (scheduler_acquire ops r) \<noteq> Ok () \<and> sem_is_closed ops (sched_semaphore (snd (scheduler_acquire ops r)))"
proof (cases "scheduler_acquire ops r" rule: prod.exhaust)
  case (Pair res r')
  then show ?thesis
  proof (cases rule: scheduler_acquire_cases)
    case (1 s o')
    with assms semaphore_acquire_laws [OF assms(1) 1(1)] Pair show ?thesis by (cases o') auto
  qed
qed

lemma scheduler_step_closed:
  assumes "semaphore_laws ops" "sem_is_closed ops (sched_semaphore r)" "scheduler_step ops x r = (e, r')"
  shows "e \<noteq> Took \<and> sem_is_closed ops (sched_semaphore r')"
  using assms closed_scheduler_refuses [OF assms(1,2)] semaphore_other_laws [OF assms(1)]
  by (cases x) (auto simp: scheduler_close_def drop_rate_limit_guard_def split: prod.splits sum.splits)

lemma held_run_closed:
  assumes "semaphore_laws ops" "sem_is_closed ops (sched_semaphore r)" "held_run (scheduler_step ops) xs n r = Some (n', r')"
  shows "n' \<le> n"
  using assms(2,3)
proof (induction xs arbitrary: n r)
  case (Cons x xs)
  obtain e q where x: "scheduler_step ops x r = (e, q)" by fastforce
  with scheduler_step_closed [OF assms(1) Cons.prems(1) x] Cons.IH [of q n] Cons.IH [of q "n - 1"] Cons.prems
  show ?case by (cases e) (auto split: if_splits)
qed simp

lemma held_run_append:
  "held_run step (xs @ ys) n p = (case held_run step xs n p of None \<Rightarrow> None | Some (m, q) \<Rightarrow> held_run step ys m q)"
  by (induction step xs n p rule: held_run.induct) (auto split: slot_effect.splits prod.splits)

text \<open>
  Property C39. The request scheduler never has more live guards than its capacity, whatever requests
  arrive, time out, are dropped or find it closed: the number of active requests it reports is exactly
  the number of live guards. Once it is closed that number only falls.
\<close>

theorem scheduler_requests_bounded:
  assumes "semaphore_laws ops"
    and "held_run (scheduler_step ops) xs 0 (RequestScheduler_new ops capacity wait) = Some (n, r)"
    and "held_run (scheduler_step ops) ys n (scheduler_close ops r) = Some (m, r')"
  shows "active_requests ops r = n \<and> n \<le> scheduler_capacity r \<and> scheduler_capacity r = capacity
    \<and> active_requests ops r' = m \<and> m \<le> n"
proof -
  note one = scheduler.held_exact [OF assms(2) scheduler_new_inv [OF assms(1)] scheduler_new_active [OF assms(1)]]
  have close: "scheduler_step ops Sched_Close r = (Kept, scheduler_close ops r)" by simp
  with scheduler.kept one have inv: "scheduler_inv ops capacity (scheduler_close ops r)"
    "active_requests ops (scheduler_close ops r) = n" by blast+
  have "sem_is_closed ops (sched_semaphore (scheduler_close ops r))"
    using semaphore_other_laws [OF assms(1)] by (simp add: scheduler_close_def)
  from held_run_closed [OF assms(1) this assms(3)] scheduler.held_exact [OF assms(3) inv] one
  show ?thesis by (auto simp: scheduler_capacity_def scheduler_inv_def)
qed

text \<open>A counting semaphore without waiters, on which the laws hold.\<close>

definition counting_semaphore :: "(nat \<times> bool) semaphore_ops" where
  "counting_semaphore =
     \<lparr>sem_new = \<lambda>n. (n, False),
      sem_acquire = \<lambda>wait (n, closed). if closed then (SemaphoreClosed, (n, closed))
        else case n of 0 \<Rightarrow> (Elapsed, (n, closed)) | Suc k \<Rightarrow> (Permit, (k, closed)),
      sem_release = \<lambda>(n, closed). (Suc n, closed),
      sem_close = \<lambda>(n, closed). (n, True),
      sem_available = fst, sem_is_closed = snd\<rparr>"

lemma counting_semaphore_laws: "semaphore_laws counting_semaphore"
  unfolding semaphore_laws_def counting_semaphore_def
  by (auto split: prod.splits if_splits nat.splits)

lemma scheduler_demo:
  "held_run (scheduler_step counting_semaphore) [Sched_Acquire, Sched_Acquire, Sched_Acquire, Sched_Drop, Sched_Acquire] 0
     (RequestScheduler_new counting_semaphore 2 5) = Some (2, \<lparr>sched_semaphore = (0, False), sched_capacity = 2, sched_wait_timeout = 5\<rparr>)"
  "held_run (scheduler_step counting_semaphore) [Sched_Drop, Sched_Acquire] 2
     (scheduler_close counting_semaphore \<lparr>sched_semaphore = (0, False), sched_capacity = 2, sched_wait_timeout = 5\<rparr>)
   = Some (1, \<lparr>sched_semaphore = (1, True), sched_capacity = 2, sched_wait_timeout = 5\<rparr>)"
  by (simp_all add: counting_semaphore_def RequestScheduler_new_def scheduler_acquire_def scheduler_close_def
      drop_rate_limit_guard_def numeral_2_eq_2)

theorem scheduler_requests_bounded_witness:
  "active_requests counting_semaphore \<lparr>sched_semaphore = (0, False), sched_capacity = 2, sched_wait_timeout = 5\<rparr> = 2
   \<and> active_requests counting_semaphore \<lparr>sched_semaphore = (1, True), sched_capacity = 2, sched_wait_timeout = 5\<rparr> = 1"
  using scheduler_requests_bounded [OF counting_semaphore_laws scheduler_demo] by simp

section \<open>Tunnel and circuit permits\<close>

definition CIRCUIT_CAPACITY_RESPONSE :: string where
  "CIRCUIT_CAPACITY_RESPONSE =
     ''HTTP/1.1 503 Service Unavailable'' @ [CHR 0x0D, CHR 0x0A] @ ''Retry-After: 5'' @ [CHR 0x0D, CHR 0x0A]
     @ ''Content-Length: 0'' @ [CHR 0x0D, CHR 0x0A] @ ''Connection: close'' @ [CHR 0x0D, CHR 0x0A, CHR 0x0D, CHR 0x0A]"

definition MAX_CONCURRENT_CIRCUIT_BUILDS :: nat where "MAX_CONCURRENT_CIRCUIT_BUILDS = 32"
definition MAX_ACTIVE_TUNNELS :: nat where "MAX_ACTIVE_TUNNELS = 256"

datatype slot_error = SlotSemaphoreClosed | SlotCapacityExceeded

text \<open>
  Each of the two functions has a part before its wait, where the gauge guard of the queue is created,
  and a part from the end of the wait, where that guard is dropped. The second component of the
  result is what is written to the client.
\<close>

definition gauge_increment :: "u64 \<Rightarrow> u64" where "gauge_increment n = n + 1"
definition drop_gauge_guard :: "u64 \<Rightarrow> u64" where "drop_gauge_guard n = n - 1"

definition queue_tunnel :: "CircuitMetrics \<Rightarrow> CircuitMetrics" where
  "queue_tunnel m = m\<lparr>m_queued_tunnels := gauge_increment (m_queued_tunnels m)\<rparr>"

definition unqueue_tunnel :: "CircuitMetrics \<Rightarrow> CircuitMetrics" where
  "unqueue_tunnel m = m\<lparr>m_queued_tunnels := drop_gauge_guard (m_queued_tunnels m)\<rparr>"

definition tunnel_wait_over ::
    "acquire_outcome \<Rightarrow> CircuitMetrics \<Rightarrow> (unit, slot_error) result \<times> string list \<times> CircuitMetrics" where
  "tunnel_wait_over outcome m0 =
     (let m = unqueue_tunnel m0 in
      case outcome of
        Permit \<Rightarrow> (Ok (), [], m\<lparr>m_active_tunnels := m_active_tunnels m + 1\<rparr>)
      | SemaphoreClosed \<Rightarrow> (Err SlotSemaphoreClosed, [], m)
      | Elapsed \<Rightarrow> (Err SlotCapacityExceeded, [CIRCUIT_CAPACITY_RESPONSE],
          m\<lparr>m_rejected_tunnels := m_rejected_tunnels m + 1\<rparr>))"

definition acquire_active_tunnel_permit ::
    "'s semaphore_ops \<Rightarrow> nat \<Rightarrow> 's \<Rightarrow> CircuitMetrics
      \<Rightarrow> (unit, slot_error) result \<times> string list \<times> 's \<times> CircuitMetrics" where
  "acquire_active_tunnel_permit ops wait_timeout tunnel_semaphore m =
     (let m1 = queue_tunnel m; (outcome, sem) = sem_acquire ops wait_timeout tunnel_semaphore;
          (res, out, m2) = tunnel_wait_over outcome m1
      in (res, out, sem, m2))"

text \<open>Dropping an \<open>ActiveTunnelPermit\<close>: its \<open>drop\<close>, then its permit.\<close>

definition drop_active_tunnel_permit :: "'s semaphore_ops \<Rightarrow> 's \<Rightarrow> CircuitMetrics \<Rightarrow> 's \<times> CircuitMetrics" where
  "drop_active_tunnel_permit ops tunnel_semaphore m =
     (sem_release ops tunnel_semaphore,
      m\<lparr>m_active_tunnels := m_active_tunnels m - 1, m_completed_tunnels := m_completed_tunnels m + 1\<rparr>)"

definition queue_circuit :: "CircuitMetrics \<Rightarrow> CircuitMetrics" where
  "queue_circuit m = m\<lparr>m_queued_circuit_builds := gauge_increment (m_queued_circuit_builds m)\<rparr>"

definition unqueue_circuit :: "CircuitMetrics \<Rightarrow> CircuitMetrics" where
  "unqueue_circuit m = m\<lparr>m_queued_circuit_builds := drop_gauge_guard (m_queued_circuit_builds m)\<rparr>"

definition circuit_wait_over ::
    "acquire_outcome \<Rightarrow> CircuitMetrics \<Rightarrow> (unit, slot_error) result \<times> string list \<times> CircuitMetrics" where
  "circuit_wait_over outcome m0 =
     (let m = unqueue_circuit m0 in
      case outcome of
        Permit \<Rightarrow> (Ok (), [], m)
      | SemaphoreClosed \<Rightarrow> (Err SlotSemaphoreClosed, [CIRCUIT_CAPACITY_RESPONSE], m)
      | Elapsed \<Rightarrow> (Err SlotCapacityExceeded, [CIRCUIT_CAPACITY_RESPONSE],
          m\<lparr>m_acquire_timeouts := m_acquire_timeouts m + 1\<rparr>))"

definition acquire_circuit_permit ::
    "'s semaphore_ops \<Rightarrow> nat \<Rightarrow> 's \<Rightarrow> CircuitMetrics
      \<Rightarrow> (unit, slot_error) result \<times> string list \<times> 's \<times> CircuitMetrics" where
  "acquire_circuit_permit ops acquire_timeout circuit_semaphore m =
     (let m1 = queue_circuit m; (outcome, sem) = sem_acquire ops acquire_timeout circuit_semaphore;
          (res, out, m2) = circuit_wait_over outcome m1
      in (res, out, sem, m2))"

lemma tunnel_permit_outcome:
  assumes "acquire_active_tunnel_permit ops wait s m = (res, out, s', m')"
  obtains o' where "sem_acquire ops wait s = (o', s')" "m_queued_tunnels m' = m_queued_tunnels m"
    "res = (case o' of Permit \<Rightarrow> Ok () | SemaphoreClosed \<Rightarrow> Err SlotSemaphoreClosed | Elapsed \<Rightarrow> Err SlotCapacityExceeded)"
    "out = (if o' = Elapsed then [CIRCUIT_CAPACITY_RESPONSE] else [])"
    "m' = m\<lparr>m_active_tunnels := m_active_tunnels m + (if o' = Permit then 1 else 0),
            m_rejected_tunnels := m_rejected_tunnels m + (if o' = Elapsed then 1 else 0)\<rparr>"
  using assms
  by (cases "sem_acquire ops wait s"; cases "fst (sem_acquire ops wait s)")
    (auto simp: acquire_active_tunnel_permit_def tunnel_wait_over_def queue_tunnel_def unqueue_tunnel_def
      gauge_increment_def drop_gauge_guard_def Let_def)

lemma circuit_permit_outcome:
  assumes "acquire_circuit_permit ops wait s m = (res, out, s', m')"
  obtains o' where "sem_acquire ops wait s = (o', s')" "m_queued_circuit_builds m' = m_queued_circuit_builds m"
    "res = (case o' of Permit \<Rightarrow> Ok () | SemaphoreClosed \<Rightarrow> Err SlotSemaphoreClosed | Elapsed \<Rightarrow> Err SlotCapacityExceeded)"
    "out = (if o' = Permit then [] else [CIRCUIT_CAPACITY_RESPONSE])"
    "m' = m\<lparr>m_acquire_timeouts := m_acquire_timeouts m + (if o' = Elapsed then 1 else 0)\<rparr>"
  using assms
  by (cases "sem_acquire ops wait s"; cases "fst (sem_acquire ops wait s)")
    (auto simp: acquire_circuit_permit_def circuit_wait_over_def queue_circuit_def unqueue_circuit_def
      gauge_increment_def drop_gauge_guard_def Let_def)

text \<open>
  Calls of \<open>acquire_active_tunnel_permit\<close> interleaved with one another, with cancelled calls (a task
  aborted while it waits drops its queue guard) and with dropped permits.
\<close>

record 's tunnel_pool =
  tp_semaphore :: 's
  tp_metrics :: CircuitMetrics
  tp_waiting :: nat

datatype tunnel_op = Tunnel_Begin | Tunnel_End nat | Tunnel_Cancel | Tunnel_Drop

fun tunnel_step :: "'s semaphore_ops \<Rightarrow> tunnel_op \<Rightarrow> 's tunnel_pool \<Rightarrow> slot_effect \<times> 's tunnel_pool" where
  "tunnel_step ops Tunnel_Begin p =
     (Kept, p\<lparr>tp_metrics := queue_tunnel (tp_metrics p), tp_waiting := Suc (tp_waiting p)\<rparr>)"
| "tunnel_step ops (Tunnel_End wait) p =
     (if tp_waiting p = 0 then (Kept, p) else
      let (outcome, sem) = sem_acquire ops wait (tp_semaphore p);
          (res, out, m) = tunnel_wait_over outcome (tp_metrics p)
      in (case res of Inr _ \<Rightarrow> Took | Inl _ \<Rightarrow> Kept,
          \<lparr>tp_semaphore = sem, tp_metrics = m, tp_waiting = tp_waiting p - 1\<rparr>))"
| "tunnel_step ops Tunnel_Cancel p =
     (if tp_waiting p = 0 then (Kept, p)
      else (Kept, p\<lparr>tp_metrics := unqueue_tunnel (tp_metrics p), tp_waiting := tp_waiting p - 1\<rparr>))"
| "tunnel_step ops Tunnel_Drop p =
     (case drop_active_tunnel_permit ops (tp_semaphore p) (tp_metrics p) of
        (sem, m) \<Rightarrow> (Freed, p\<lparr>tp_semaphore := sem, tp_metrics := m\<rparr>))"

definition tunnel_pool_inv :: "'s semaphore_ops \<Rightarrow> nat \<Rightarrow> 's tunnel_pool \<Rightarrow> bool" where
  "tunnel_pool_inv ops slots p \<longleftrightarrow> semaphore_laws ops \<and> slots < 2 ^ 64
     \<and> sem_available ops (tp_semaphore p) + unat (m_active_tunnels (tp_metrics p)) = slots
     \<and> m_queued_tunnels (tp_metrics p) = of_nat (tp_waiting p)"

lemma gauge_up_down:
  "n + 1 < 2 ^ 64 \<Longrightarrow> unat (w :: u64) = n \<Longrightarrow> unat (w + 1) = Suc n"
  "0 < unat w \<Longrightarrow> Suc (unat (w - 1)) = unat w"
  by (simp add: unat_add_no_wrap) (metis Suc_pred' unat_minus_one unat_0 less_numeral_extra(3))

interpretation tunnels: slot_pool "tunnel_step ops" "\<lambda>p. unat (m_active_tunnels (tp_metrics p))" "tunnel_pool_inv ops slots" slots
  for ops :: "'s semaphore_ops" and slots
proof unfold_locales
  fix p p' :: "'s tunnel_pool" and x
  assume inv: "tunnel_pool_inv ops slots p"
  then have laws: "semaphore_laws ops" by (simp add: tunnel_pool_inv_def)
  show "unat (m_active_tunnels (tp_metrics p)) \<le> slots" using inv by (simp add: tunnel_pool_inv_def)
  have ended: "tunnel_pool_inv ops slots q \<and> unat (m_active_tunnels (tp_metrics q)) =
      (if e = Took then Suc (unat (m_active_tunnels (tp_metrics p))) else unat (m_active_tunnels (tp_metrics p)))"
    if "tunnel_step ops (Tunnel_End wait) p = (e, q)" for wait e q
  proof (cases "tp_waiting p = 0")
    case False
    obtain o' s where o': "sem_acquire ops wait (tp_semaphore p) = (o', s)" by fastforce
    from False that inv semaphore_acquire_laws [OF laws o'] show ?thesis
      by (cases o') (auto simp: o' tunnel_wait_over_def unqueue_tunnel_def drop_gauge_guard_def tunnel_pool_inv_def
          gauge_up_down of_nat_diff Let_def)
  qed (use that inv in auto)
  show "tunnel_pool_inv ops slots p' \<and> unat (m_active_tunnels (tp_metrics p')) = Suc (unat (m_active_tunnels (tp_metrics p)))"
    if "tunnel_step ops x p = (Took, p')"
    using that ended by (cases x) (auto split: prod.splits if_splits)
  show "tunnel_pool_inv ops slots p' \<and> unat (m_active_tunnels (tp_metrics p')) = unat (m_active_tunnels (tp_metrics p))"
    if "tunnel_step ops x p = (Kept, p')"
  proof (cases x)
    case (Tunnel_End wait)
    then show ?thesis using that ended by fastforce
  qed (use that inv in \<open>auto simp: tunnel_pool_inv_def queue_tunnel_def unqueue_tunnel_def gauge_increment_def
        drop_gauge_guard_def of_nat_diff split: if_splits prod.splits\<close>)
  show "tunnel_pool_inv ops slots p' \<and> Suc (unat (m_active_tunnels (tp_metrics p'))) = unat (m_active_tunnels (tp_metrics p))"
    if "0 < unat (m_active_tunnels (tp_metrics p))" "tunnel_step ops x p = (Freed, p')"
  proof (cases x)
    case Tunnel_Drop
    then show ?thesis using that inv gauge_up_down(2) [OF that(1)] semaphore_other_laws [OF laws]
      by (auto simp: drop_active_tunnel_permit_def tunnel_pool_inv_def)
  qed (use that in \<open>auto split: prod.splits if_splits sum.splits\<close>)
qed

definition tunnel_pool_new :: "'s semaphore_ops \<Rightarrow> 's tunnel_pool" where
  "tunnel_pool_new ops =
     \<lparr>tp_semaphore = sem_new ops MAX_ACTIVE_TUNNELS, tp_metrics = CircuitMetrics_default, tp_waiting = 0\<rparr>"

lemma tunnel_pool_new_inv: "semaphore_laws ops \<Longrightarrow> tunnel_pool_inv ops MAX_ACTIVE_TUNNELS (tunnel_pool_new ops)"
  by (simp add: tunnel_pool_inv_def tunnel_pool_new_def MAX_ACTIVE_TUNNELS_def CircuitMetrics_default_def
      semaphore_other_laws)

text \<open>
  Property C16. The tunnel gauges are exact: under every interleaving of acquisitions, time-outs,
  aborted waits and dropped permits the gauge of active tunnels is the number of live permits, at most
  256, the gauge of queued tunnels is the number of calls that wait, and every permit not held is in
  the semaphore.
\<close>

theorem active_tunnels_exact:
  assumes "semaphore_laws ops" "held_run (tunnel_step ops) xs 0 (tunnel_pool_new ops) = Some (n, p)"
  shows "unat (m_active_tunnels (tp_metrics p)) = n \<and> n \<le> 256
    \<and> m_queued_tunnels (tp_metrics p) = of_nat (tp_waiting p)
    \<and> sem_available ops (tp_semaphore p) = 256 - n"
proof -
  have "unat (m_active_tunnels (tp_metrics (tunnel_pool_new ops))) = 0"
    by (simp add: tunnel_pool_new_def CircuitMetrics_default_def)
  from tunnels.held_exact [OF assms(2) tunnel_pool_new_inv [OF assms(1)] this] show ?thesis
    by (auto simp: tunnel_pool_inv_def MAX_ACTIVE_TUNNELS_def)
qed

definition tunnel_demo :: "(nat \<times> bool) tunnel_pool" where
  "tunnel_demo = \<lparr>tp_semaphore = (255, False),
     tp_metrics = CircuitMetrics_default\<lparr>m_active_tunnels := 1, m_queued_tunnels := 1, m_completed_tunnels := 1\<rparr>,
     tp_waiting = 1\<rparr>"

theorem active_tunnels_exact_witness:
  "held_run (tunnel_step counting_semaphore)
     [Tunnel_Begin, Tunnel_Begin, Tunnel_End 5, Tunnel_Begin, Tunnel_Cancel, Tunnel_End 5, Tunnel_Drop, Tunnel_Begin] 0
     (tunnel_pool_new counting_semaphore) = Some (1, tunnel_demo)
   \<and> sem_available counting_semaphore (tp_semaphore tunnel_demo) = 255"
proof -
  have run: "held_run (tunnel_step counting_semaphore)
     [Tunnel_Begin, Tunnel_Begin, Tunnel_End 5, Tunnel_Begin, Tunnel_Cancel, Tunnel_End 5, Tunnel_Drop, Tunnel_Begin] 0
     (tunnel_pool_new counting_semaphore) = Some (1, tunnel_demo)"
    by (simp add: tunnel_pool_new_def counting_semaphore_def MAX_ACTIVE_TUNNELS_def tunnel_wait_over_def
        queue_tunnel_def unqueue_tunnel_def gauge_increment_def drop_gauge_guard_def drop_active_tunnel_permit_def
        CircuitMetrics_default_def tunnel_demo_def)
  with active_tunnels_exact [OF counting_semaphore_laws run] show ?thesis by simp
qed

end
