(* ===== verification/Tor_Connect.thy ===== *)
theory Tor_Connect
  imports Isolation Admission_Slots
begin

text \<open>
  Opening a stream through Tor (\<open>src/src/main.rs\<close>): \<open>ConnectFailure\<close>, \<open>arti_error_class\<close> and
  \<open>connect_with_retry\<close>, with its deadline, its retry and the rotation of the isolation token.

  Arti is a parameter: \<open>tor target prefs limit w\<close> is \<open>timeout(limit, connect_with_prefs(target, prefs))\<close>, it
  returns the outcome and how long it took. An Arti error is its \<open>kind()\<close>, the only part the code looks
  at. Instants and durations are nanoseconds; \<open>sleep\<close> takes its time exactly.
\<close>

section \<open>Failures\<close>

datatype TorErrorKind =
    RemoteNetworkTimeout | ExitTimeout | RemoteConnectionRefused | RemoteHostNotFound | ExitPolicyRejected
  | TorAccessFailed | BootstrapRequired | DirectoryExpired | RemoteStreamError | RemoteStreamReset
  | RemoteNetworkFailed | UnlistedErrorKind string

fun arti_error_class :: "TorErrorKind \<Rightarrow> string" where
  "arti_error_class RemoteNetworkTimeout = ''timeout''"
| "arti_error_class ExitTimeout = ''timeout''"
| "arti_error_class RemoteConnectionRefused = ''connection_refused''"
| "arti_error_class RemoteHostNotFound = ''dns''"
| "arti_error_class ExitPolicyRejected = ''exit_policy''"
| "arti_error_class TorAccessFailed = ''tor_health''"
| "arti_error_class BootstrapRequired = ''tor_health''"
| "arti_error_class DirectoryExpired = ''tor_health''"
| "arti_error_class RemoteStreamError = ''stream''"
| "arti_error_class RemoteStreamReset = ''stream''"
| "arti_error_class RemoteNetworkFailed = ''stream''"
| "arti_error_class (UnlistedErrorKind k) = ''other''"

datatype ConnectFailure = Connect_Timeout | Connect_Tor TorErrorKind

definition retryable :: "ConnectFailure \<Rightarrow> bool" where
  "retryable failure =
     (case failure of
        Connect_Timeout \<Rightarrow> True
      | Connect_Tor kind \<Rightarrow>
          kind \<in> {RemoteNetworkTimeout, ExitTimeout, RemoteStreamError, RemoteStreamReset, RemoteNetworkFailed})"

text \<open>A failure is retried exactly if its class is a time-out or a stream error.\<close>

lemma retryable_class:
  "retryable (Connect_Tor kind) \<longleftrightarrow> arti_error_class kind = ''timeout'' \<or> arti_error_class kind = ''stream''"
  by (cases kind) (simp_all add: retryable_def)

section \<open>Connecting\<close>

datatype 't StreamPrefs = Isolate_Every_Stream | Isolation_Token 't

datatype 'd tor_outcome = Stream_Ready 'd | Stream_Failed TorErrorKind | Stream_Elapsed

record ('t, 'w) connect_state =
  cw_now :: nat
  cw_tokens :: "'t IsolationStore"
  cw_metrics :: CircuitMetrics
  cw_world :: 'w
  cw_attempts :: "('t StreamPrefs \<times> nat) list"

definition secs :: "nat \<Rightarrow> nat" where "secs n = n * 1000000000"
definition millis :: "nat \<Rightarrow> nat" where "millis n = n * 1000000"

definition TOR_CONNECT_TIMEOUT :: nat where "TOR_CONNECT_TIMEOUT = secs 45"
definition RETRY_BACKOFF_MIN_MS :: nat where "RETRY_BACKOFF_MIN_MS = 50"
definition RETRY_BACKOFF_JITTER_MS :: nat where "RETRY_BACKOFF_JITTER_MS = 100"

definition stream_prefs ::
    "(nat \<Rightarrow> 't) \<Rightarrow> ResolvedIsolation \<Rightarrow> ('t, 'w) connect_state \<Rightarrow> 't StreamPrefs \<times> ('t, 'w) connect_state" where
  "stream_prefs new_token isolation st =
     (if resolved_strict isolation then (Isolate_Every_Stream, st)
      else case material_for_at new_token (resolved_identity isolation) (cw_now st) (cw_tokens st) of
        (m, tokens) \<Rightarrow> (Isolation_Token (iso_token m), st\<lparr>cw_tokens := tokens\<rparr>))"

definition count_connect_timeout :: "CircuitMetrics \<Rightarrow> CircuitMetrics" where
  "count_connect_timeout m =
     record_arti_failure ''timeout'' (m\<lparr>m_connect_timeouts := m_connect_timeouts m + 1\<rparr>)"

definition attempt_result ::
    "'d tor_outcome \<Rightarrow> CircuitMetrics \<Rightarrow> ('d, ConnectFailure) result \<times> CircuitMetrics" where
  "attempt_result outcome m =
     (case outcome of
        Stream_Ready stream \<Rightarrow> (Ok stream, m)
      | Stream_Failed kind \<Rightarrow> (Err (Connect_Tor kind), record_arti_failure (arti_error_class kind) m)
      | Stream_Elapsed \<Rightarrow> (Err Connect_Timeout, count_connect_timeout m))"

text \<open>Between two attempts: the retry is counted and, unless strict, the identity is rotated.\<close>

definition prepare_retry ::
    "(nat \<Rightarrow> 't) \<Rightarrow> ResolvedIsolation \<Rightarrow> ('t, 'w) connect_state \<Rightarrow> nat \<times> ('t, 'w) connect_state" where
  "prepare_retry new_token isolation st =
     (let retry_number = unat (m_retries (cw_metrics st));
          st1 = st\<lparr>cw_metrics := (cw_metrics st)\<lparr>m_retries := m_retries (cw_metrics st) + 1\<rparr>\<rparr>;
          st2 = (if resolved_strict isolation then st1
                 else st1\<lparr>cw_tokens := snd (rotate_identity new_token (resolved_identity isolation) (cw_now st1) (cw_tokens st1))\<rparr>)
      in (millis (RETRY_BACKOFF_MIN_MS + retry_number mod RETRY_BACKOFF_JITTER_MS), st2))"

text \<open>The loop \<open>for attempt in 0..=1\<close>; \<open>None\<close> is the \<open>unreachable!\<close> after it.\<close>

fun connect_loop ::
    "('a \<Rightarrow> 't StreamPrefs \<Rightarrow> nat \<Rightarrow> 'w \<Rightarrow> 'd tor_outcome \<times> nat \<times> 'w) \<Rightarrow> (nat \<Rightarrow> 't) \<Rightarrow> 'a \<Rightarrow> ResolvedIsolation \<Rightarrow> nat
      \<Rightarrow> nat list \<Rightarrow> ('t, 'w) connect_state \<Rightarrow> ('d, ConnectFailure) result option \<times> ('t, 'w) connect_state" where
  "connect_loop tor new_token target isolation deadline [] st = (None, st)"
| "connect_loop tor new_token target isolation deadline (attempt # attempts) st =
     (let (prefs, st1) = stream_prefs new_token isolation st;
          remaining = deadline - cw_now st1
      in if remaining = 0
         then (Some (Err Connect_Timeout), st1\<lparr>cw_metrics := count_connect_timeout (cw_metrics st1)\<rparr>)
         else
           let attempt_timeout = (if attempt = 0 then remaining div 2 else remaining);
               (outcome, elapsed, w) = tor target prefs attempt_timeout (cw_world st1);
               (res, m) = attempt_result outcome (record_build_latency elapsed (cw_metrics st1));
               st2 = st1\<lparr>cw_now := cw_now st1 + elapsed, cw_metrics := m, cw_world := w,
                         cw_attempts := cw_attempts st1 @ [(prefs, attempt_timeout)]\<rparr>
           in case res of
                Inr stream \<Rightarrow> (Some (Ok stream), st2)
              | Inl failure \<Rightarrow>
                  if attempt = 1 \<or> \<not> retryable failure then (Some (Err failure), st2)
                  else
                    let (backoff, st3) = prepare_retry new_token isolation st2
                    in if deadline - cw_now st3 \<le> backoff then (Some (Err failure), st3)
                       else connect_loop tor new_token target isolation deadline attempts
                              (st3\<lparr>cw_now := cw_now st3 + backoff\<rparr>))"

definition connect_with_retry ::
    "('a \<Rightarrow> 't StreamPrefs \<Rightarrow> nat \<Rightarrow> 'w \<Rightarrow> 'd tor_outcome \<times> nat \<times> 'w) \<Rightarrow> (nat \<Rightarrow> 't) \<Rightarrow> 'a \<Rightarrow> ResolvedIsolation
      \<Rightarrow> ('t, 'w) connect_state \<Rightarrow> ('d, ConnectFailure) result option \<times> ('t, 'w) connect_state" where
  "connect_with_retry tor new_token target isolation st =
     connect_loop tor new_token target isolation (cw_now st + TOR_CONNECT_TIMEOUT) [0, 1] st"

section \<open>What connecting keeps\<close>

lemma stream_prefs_fields:
  assumes "stream_prefs new_token isolation st = (prefs, st1)"
  shows "cw_now st1 = cw_now st" "cw_attempts st1 = cw_attempts st" "cw_world st1 = cw_world st" "cw_metrics st1 = cw_metrics st"
  using assms by (auto simp: stream_prefs_def split: if_splits prod.splits)

lemma prepare_retry_fields:
  assumes "prepare_retry new_token isolation st = (backoff, st3)"
  shows "cw_now st3 = cw_now st" "cw_attempts st3 = cw_attempts st" "cw_world st3 = cw_world st"
    and "cw_tokens st3 = (if resolved_strict isolation then cw_tokens st
      else snd (rotate_identity new_token (resolved_identity isolation) (cw_now st) (cw_tokens st)))"
  using assms by (auto simp: prepare_retry_def Let_def split: if_splits)

definition timely :: "('a \<Rightarrow> 't StreamPrefs \<Rightarrow> nat \<Rightarrow> 'w \<Rightarrow> 'd tor_outcome \<times> nat \<times> 'w) \<Rightarrow> bool" where
  "timely tor \<longleftrightarrow> (\<forall>target prefs limit w. fst (snd (tor target prefs limit w)) \<le> limit)"

lemma attempt_in_time:
  assumes "timely tor" "tor target prefs limit w = (outcome, elapsed, w')"
  shows "elapsed \<le> limit"
  using assms unfolding timely_def by (metis fst_conv snd_conv)

text \<open>The last attempt: it returns, in time, and was made at most once.\<close>

lemma connect_last:
  assumes "timely tor" "connect_loop tor new_token target isolation deadline [1] st = (res, st')" "cw_now st \<le> deadline"
  shows "res \<noteq> None \<and> cw_now st' \<le> deadline
    \<and> (cw_attempts st' = cw_attempts st \<or> (\<exists>d. cw_attempts st' = cw_attempts st @ [(fst (stream_prefs new_token isolation st), d)]))"
proof -
  obtain prefs st1 where p: "stream_prefs new_token isolation st = (prefs, st1)" by fastforce
  obtain outcome elapsed w where t: "tor target prefs (deadline - cw_now st) (cw_world st) = (outcome, elapsed, w)"
    by (metis prod_cases3)
  obtain r m where a: "attempt_result outcome (record_build_latency elapsed (cw_metrics st)) = (r, m)" by fastforce
  show ?thesis
    using assms(2,3) attempt_in_time [OF assms(1) t] stream_prefs_fields [OF p]
    by (auto simp: p t a Let_def split: if_splits sum.splits)
qed

lemma connect_with_retry_cases:
  fixes st st' :: "('t, 'w) connect_state"
  assumes "timely tor" "connect_with_retry tor new_token target isolation st = (res, st')"
  obtains prefs st1 where "stream_prefs new_token isolation st = (prefs, st1)" "res \<noteq> None"
    "cw_now st' \<le> cw_now st + TOR_CONNECT_TIMEOUT"
    "(\<exists>d. cw_attempts st' = cw_attempts st @ [(prefs, d)])
     \<or> (\<exists>d d' (st2 :: ('t, 'w) connect_state) backoff st3 (st4 :: ('t, 'w) connect_state). cw_attempts st' = cw_attempts st @ [(prefs, d), (fst (stream_prefs new_token isolation st4), d')]
          \<and> cw_tokens st2 = cw_tokens st1 \<and> prepare_retry new_token isolation st2 = (backoff, st3) \<and> cw_tokens st4 = cw_tokens st3)"
proof -
  let ?deadline = "cw_now st + TOR_CONNECT_TIMEOUT"
  obtain prefs st1 where p: "stream_prefs new_token isolation st = (prefs, st1)" by fastforce
  note f1 = stream_prefs_fields [OF p]
  have pos: "TOR_CONNECT_TIMEOUT \<noteq> 0" by (simp add: TOR_CONNECT_TIMEOUT_def secs_def)
  obtain outcome elapsed w where t: "tor target prefs (TOR_CONNECT_TIMEOUT div 2) (cw_world st) = (outcome, elapsed, w)"
    by (metis prod_cases3)
  have el: "elapsed \<le> TOR_CONNECT_TIMEOUT div 2" by (rule attempt_in_time [OF assms(1) t])
  obtain r m where a: "attempt_result outcome (record_build_latency elapsed (cw_metrics st)) = (r, m)" by fastforce
  define st2 where "st2 = st1\<lparr>cw_now := cw_now st + elapsed, cw_metrics := m, cw_world := w,
    cw_attempts := cw_attempts st @ [(prefs, TOR_CONNECT_TIMEOUT div 2)]\<rparr>"
  have st2: "cw_now st2 \<le> ?deadline" "cw_attempts st2 = cw_attempts st @ [(prefs, TOR_CONNECT_TIMEOUT div 2)]"
      "cw_tokens st2 = cw_tokens st1"
    using el by (auto simp: st2_def f1)
  obtain backoff st3 where pr: "prepare_retry new_token isolation st2 = (backoff, st3)" by fastforce
  note f3 = prepare_retry_fields [OF pr]
  define st4 where "st4 = st3\<lparr>cw_now := cw_now st3 + backoff\<rparr>"
  have run: "(case r of Inr stream \<Rightarrow> (Some (Ok stream), st2)
      | Inl failure \<Rightarrow> if \<not> retryable failure then (Some (Err failure), st2)
          else if ?deadline - cw_now st3 \<le> backoff then (Some (Err failure), st3)
          else connect_loop tor new_token target isolation ?deadline [1] st4) = (res, st')"
    using assms(2) pr [unfolded st2_def] unfolding connect_with_retry_def st2_def st4_def
    by (cases r) (auto simp: p pos t a f1 Let_def split: if_splits)
  show thesis
  proof (cases "(\<exists>s. r = Inr s) \<or> (\<exists>f. r = Inl f \<and> (\<not> retryable f \<or> ?deadline - cw_now st3 \<le> backoff))")
    case True
    then have "res \<noteq> None \<and> cw_now st' \<le> ?deadline \<and> cw_attempts st' = cw_attempts st2"
      using run st2(1) f3 by (auto split: if_splits)
    then show thesis using st2(2) by (intro that [OF p]) auto
  next
    case False
    then obtain f where f: "r = Inl f" "retryable f" "\<not> ?deadline - cw_now st3 \<le> backoff" by (cases r) auto
    then have loop: "connect_loop tor new_token target isolation ?deadline [1] st4 = (res, st')"
      using run by simp
    have st4: "cw_now st4 \<le> ?deadline" "cw_attempts st4 = cw_attempts st2" "cw_tokens st4 = cw_tokens st3"
      using f(3) f3 by (auto simp: st4_def)
    note last = connect_last [OF assms(1) loop st4(1)]
    show thesis
    proof (cases "cw_attempts st' = cw_attempts st4")
      case True
      then show thesis using last st4(2) st2(2) by (intro that [OF p]) auto
    next
      case False
      then obtain d where d: "cw_attempts st' = cw_attempts st4 @ [(fst (stream_prefs new_token isolation st4), d)]"
        using last by blast
      show thesis
      proof (rule that [OF p])
        show "res \<noteq> None" "cw_now st' \<le> ?deadline" using last by blast+
        have "cw_attempts st' = cw_attempts st
            @ [(prefs, TOR_CONNECT_TIMEOUT div 2), (fst (stream_prefs new_token isolation st4), d)]"
          using d st4(2) st2(2) by simp
        with st2(3) pr st4(3) show "(\<exists>d. cw_attempts st' = cw_attempts st @ [(prefs, d)])
          \<or> (\<exists>d d' (st2 :: ('t, 'w) connect_state) backoff st3 (st4 :: ('t, 'w) connect_state). cw_attempts st' = cw_attempts st @ [(prefs, d), (fst (stream_prefs new_token isolation st4), d')]
             \<and> cw_tokens st2 = cw_tokens st1 \<and> prepare_retry new_token isolation st2 = (backoff, st3) \<and> cw_tokens st4 = cw_tokens st3)"
          by blast
      qed
    qed
  qed
qed

text \<open>After a rotation a lookup never returns the material of an earlier lookup.\<close>

lemma rotated_token_differs:
  assumes "inj new_token" "iso_inv new_token owner st"
    and m1: "material_for_at new_token i now1 st = (m1, st1)" and m2: "rotate_identity new_token i now2 st1 = (m2, st2)"
    and m3: "material_for_at new_token i now3 st2 = (m3, st3)"
  shows "iso_token m1 \<noteq> iso_token m3"
proof -
  have "iso_step new_token (MaterialFor i now1) st = ([(i, m1)], st1)" using m1 by simp
  from iso_step_inv [OF assms(2) this] obtain owner1 k where
      inv1: "iso_inv new_token owner1 st1" and k: "k < tokens_drawn st1" "m1 = drawn new_token k"
    by (auto simp: owned_def)
  have st2: "tokens_drawn st2 = Suc (tokens_drawn st1)" "hm_wf (iso_entries st2)"
      "hm_get (iso_entries st2) i = Some \<lparr>iso_material = m2, last_used = now2, expires_at = now2 + iso_ttl st1\<rparr>"
      "iso_token m2 = new_token (tokens_drawn st1)"
    using m2 inv1 by (auto simp: rotate_identity_def draw_material_def iso_inv_def simp del: map_of_eq_Some_iff)
  obtain j where "j \<ge> tokens_drawn st1" "iso_token m3 = new_token j"
    using m3
  proof (cases rule: material_for_at_cases)
    case (hit e)
    then have "m3 = m2" using st2(3) by (auto simp: hm_get_retain_live [OF st2(2)] simp del: map_of_eq_Some_iff split: if_splits)
    then show ?thesis using st2(4) by (intro that [of "tokens_drawn st1"]) simp_all
  next
    case miss
    then show ?thesis using st2(1) by (intro that [of "tokens_drawn st2"]) simp_all
  qed
  with k have "j \<noteq> k" by simp
  with k(2) \<open>iso_token m3 = _\<close> assms(1) show ?thesis by (simp add: drawn_def inj_eq)
qed

text \<open>
  Property C34. Connecting through Tor ends: when every attempt respects its time-out, the function
  returns within its 45 seconds, back-off included, after one or two attempts, and never reaches the
  end of its loop. The second attempt uses another isolation token than the first, or, in strict
  mode, both attempts isolate every stream.
\<close>

theorem connect_with_retry_bounded:
  fixes st st' :: "('t, 'w) connect_state"
  assumes "timely tor" "inj new_token" "iso_inv new_token owner (cw_tokens st)"
    and "connect_with_retry tor new_token target isolation st = (res, st')"
  shows "res \<noteq> None \<and> cw_now st' \<le> cw_now st + secs 45
    \<and> (\<exists>attempts. cw_attempts st' = cw_attempts st @ attempts \<and> length attempts \<in> {1, 2}
        \<and> (if resolved_strict isolation then \<forall>a\<in>set attempts. fst a = Isolate_Every_Stream
            else distinct (map fst attempts) \<and> (\<forall>a\<in>set attempts. fst a \<noteq> Isolate_Every_Stream)))"
proof -
  obtain prefs st1 where p: "stream_prefs new_token isolation st = (prefs, st1)" and r: "res \<noteq> None"
    "cw_now st' \<le> cw_now st + TOR_CONNECT_TIMEOUT"
    and c: "(\<exists>d. cw_attempts st' = cw_attempts st @ [(prefs, d)])
     \<or> (\<exists>d d' (st2 :: ('t, 'w) connect_state) backoff st3 (st4 :: ('t, 'w) connect_state). cw_attempts st' = cw_attempts st @ [(prefs, d), (fst (stream_prefs new_token isolation st4), d')]
          \<and> cw_tokens st2 = cw_tokens st1 \<and> prepare_retry new_token isolation st2 = (backoff, st3) \<and> cw_tokens st4 = cw_tokens st3)"
    by (rule connect_with_retry_cases [OF assms(1,4)])
  let ?kind = "\<lambda>q. if resolved_strict isolation then q = Isolate_Every_Stream else q \<noteq> Isolate_Every_Stream"
  have kind: "?kind (fst (stream_prefs new_token isolation s))" for s :: "('t, 'w) connect_state"
    by (simp add: stream_prefs_def split: prod.splits)
  have differs: "prefs \<noteq> fst (stream_prefs new_token isolation st4)"
    if ns: "\<not> resolved_strict isolation" and h: "cw_tokens st2 = cw_tokens st1"
      "prepare_retry new_token isolation st2 = (backoff, st3)" "cw_tokens st4 = cw_tokens st3"
    for st2 st3 st4 :: "('t, 'w) connect_state" and backoff
  proof -
    let ?i = "resolved_identity isolation"
    obtain m1 where m1: "material_for_at new_token ?i (cw_now st) (cw_tokens st) = (m1, cw_tokens st1)"
        "prefs = Isolation_Token (iso_token m1)"
      using p ns by (auto simp: stream_prefs_def split: prod.splits if_splits)
    obtain m2 where m2: "rotate_identity new_token ?i (cw_now st2) (cw_tokens st1) = (m2, cw_tokens st4)"
      using prepare_retry_fields(4) [OF h(2)] h ns by (metis prod.collapse)
    obtain m3 s where m3: "material_for_at new_token ?i (cw_now st4) (cw_tokens st4) = (m3, s)" by fastforce
    show ?thesis
      using rotated_token_differs [OF assms(2,3) m1(1) m2 m3] m1(2) m3 ns by (simp add: stream_prefs_def)
  qed
  show ?thesis
    using c
  proof (elim disjE exE conjE)
    fix d assume "cw_attempts st' = cw_attempts st @ [(prefs, d)]"
    with kind [of st] p r show ?thesis
      by (intro conjI exI [of _ "[(prefs, d)]"]) (simp_all add: TOR_CONNECT_TIMEOUT_def split: if_splits)
  next
    fix d d' backoff and st2 st3 st4 :: "('t, 'w) connect_state"
    assume as: "cw_attempts st' = cw_attempts st @ [(prefs, d), (fst (stream_prefs new_token isolation st4), d')]"
      and h: "cw_tokens st2 = cw_tokens st1" "prepare_retry new_token isolation st2 = (backoff, st3)" "cw_tokens st4 = cw_tokens st3"
    from as kind [of st] kind [of st4] p r differs [OF _ h] show ?thesis
      by (intro conjI exI [of _ "[(prefs, d), (fst (stream_prefs new_token isolation st4), d')]"])
        (simp_all add: TOR_CONNECT_TIMEOUT_def split: if_splits)
  qed
qed

text \<open>A Tor network whose first attempt is reset and whose second attempt succeeds.\<close>

definition flaky_tor :: "string \<Rightarrow> nat StreamPrefs \<Rightarrow> nat \<Rightarrow> nat \<Rightarrow> string tor_outcome \<times> nat \<times> nat" where
  "flaky_tor target prefs limit n =
     (if n = 0 then (Stream_Failed RemoteStreamReset, min limit 5, 1) else (Stream_Ready target, min limit 7, n))"

definition flaky_start :: "(nat, nat) connect_state" where
  "flaky_start = \<lparr>cw_now = 100, cw_tokens = example_store, cw_metrics = CircuitMetrics_default, cw_world = 0, cw_attempts = []\<rparr>"

lemma flaky_run:
  "fst (connect_with_retry flaky_tor id ''example.org:443'' \<lparr>resolved_identity = ''a'', resolved_strict = False\<rparr> flaky_start)
     = Some (Ok ''example.org:443'')"
  "map fst (cw_attempts (snd (connect_with_retry flaky_tor id ''example.org:443''
      \<lparr>resolved_identity = ''a'', resolved_strict = False\<rparr> flaky_start))) = [Isolation_Token 0, Isolation_Token 2]"
  by (simp_all add: connect_with_retry_def flaky_tor_def flaky_start_def stream_prefs_def example_store_def
      material_for_at_def rotate_identity_def draw_material_def retain_live_def hm_retain_def evict_oldest_def
      put_entry_def attempt_result_def record_build_latency_def record_arti_failure_def prepare_retry_def retryable_def
      TOR_CONNECT_TIMEOUT_def secs_def millis_def RETRY_BACKOFF_MIN_MS_def RETRY_BACKOFF_JITTER_MS_def
      CircuitMetrics_default_def)

theorem connect_with_retry_bounded_witness:
  "cw_now (snd (connect_with_retry flaky_tor id ''example.org:443''
      \<lparr>resolved_identity = ''a'', resolved_strict = False\<rparr> flaky_start)) \<le> 100 + secs 45
   \<and> map fst (cw_attempts (snd (connect_with_retry flaky_tor id ''example.org:443''
      \<lparr>resolved_identity = ''a'', resolved_strict = False\<rparr> flaky_start))) = [Isolation_Token 0, Isolation_Token 2]"
proof -
  have "timely flaky_tor" by (simp add: timely_def flaky_tor_def)
  moreover have "iso_inv id (\<lambda>_. []) (cw_tokens flaky_start)"
    using new_store_inv [OF example_store_new] by (simp add: flaky_start_def)
  ultimately show ?thesis
    using connect_with_retry_bounded [of flaky_tor id "\<lambda>_. []" flaky_start "''example.org:443''"
        "\<lparr>resolved_identity = ''a'', resolved_strict = False\<rparr>"] flaky_run(2)
    by (cases "connect_with_retry flaky_tor id ''example.org:443''
      \<lparr>resolved_identity = ''a'', resolved_strict = False\<rparr> flaky_start") (auto simp: flaky_start_def)
qed

end
