(* ===== verification/Bridge_State.thy ===== *)
theory Bridge_State
  imports Account_Admission Tenant_Isolation Circuit_Breaker Ingress_Stores
    Request_Parsing Account_Auth Tunnel_Copy Tor_Connect
begin

text \<open>
  The state the connection handlers of \<open>Bridge\<close> (\<open>src/src/main.rs\<close>) work on, and the small language the
  handlers are written in here.

  \<open>bridge\<close> has the shared components, each as modelled in its own theory, and what belongs to the one
  connection that is handled: the observation of its tunnel and the trace of what the handler did to
  the outside. \<open>bridge_env\<close> collects the parameters: the libraries the handlers call and the peers. A
  handler is a function on the state that returns a value, fails with an error (an early
  return), or has not returned because a copy loop still waits for events.

  The handlers are run without interference by other tasks between their suspension points; what
  other tasks do to the shared components is covered by the theories of the components.
\<close>

section \<open>State and environment\<close>

datatype ('a, 't) bridge_event =
    Wrote_Client string
  | Tor_Attempt 'a "'t StreamPrefs"
  | Request_Recorded string u16
  | Tunnel_Logged u16 string
  | Dispatched string "AuthenticatedRequestContext option"

record ('s, 't, 'l, 'w, 'a, 'p) bridge =
  b_now :: nat
  b_metrics :: CircuitMetrics
  b_tokens :: "'t IsolationStore"
  b_id_counter :: u64
  b_breaker :: CircuitBreaker
  b_tunnel_semaphore :: 's
  b_circuit_semaphore :: 's
  b_admission :: "'l admission"
  b_limiter :: data_limiter
  b_db :: connection
  b_identities :: BridgeIdentityRegistry
  b_downstream :: "'p AuthenticatedDownstreamStore"
  b_world :: 'w
  b_observation :: TunnelObservation
  b_trace :: "('a, 't) bridge_event list"

record ('s, 't, 'l, 'w, 'a, 'p, 'd) bridge_env =
  env_clock :: "'w \<Rightarrow> nat"
  env_parse_authority :: "string \<Rightarrow> (Authority, string) result"
  env_tor_addr :: "string \<Rightarrow> ('a, string) result"
  env_tor :: "'a \<Rightarrow> 't StreamPrefs \<Rightarrow> nat \<Rightarrow> 'w \<Rightarrow> 'd tor_outcome \<times> nat \<times> 'w"
  env_new_token :: "nat \<Rightarrow> 't"
  env_semaphore :: "'s semaphore_ops"
  env_request_limiter :: "AccountLimits \<Rightarrow> 'l"
  env_limiter_check :: "'l \<Rightarrow> nat option \<times> 'l"
  env_tenant_hash :: "string \<Rightarrow> string"
  env_std_decode :: "string \<Rightarrow> string option"
  env_key_hash :: "string \<Rightarrow> string"
  env_http_parse :: http_parser
  env_usage_period :: u64
  env_system_time :: "'w \<Rightarrow> u64 option"
  env_authenticated :: bool
  env_worker :: "'w \<Rightarrow> string option \<times> 'w"
  env_read_client :: "nat \<Rightarrow> 'w \<Rightarrow> (string, anyhow_error) result \<times> 'w"
  env_first_request_elapsed :: "nat \<Rightarrow> 'w \<Rightarrow> bool"
  env_write_client :: "string \<Rightarrow> 'w \<Rightarrow> (unit, io_error) result \<times> 'w"
  env_write_tor :: "'d \<Rightarrow> string \<Rightarrow> 'w \<Rightarrow> (unit, io_error) result \<times> 'w"
  env_flush_tor :: "'d \<Rightarrow> 'w \<Rightarrow> (unit, io_error) result \<times> 'w"
  env_tunnel_events :: "'d \<Rightarrow> 'w \<Rightarrow> tunnel_event list \<times> 'w"
  env_connect_pingora :: "'w \<Rightarrow> (unit, io_error) result \<times> 'w"
  env_local_addr :: "'w \<Rightarrow> ('p, io_error) result \<times> 'w"
  env_write_pingora :: "string \<Rightarrow> 'w \<Rightarrow> (unit, io_error) result \<times> 'w"
  env_pingora_events :: "'w \<Rightarrow> tunnel_event list \<times> 'w"

datatype bridge_error =
    Bail string
  | Request_Error anyhow_error
  | Destination_Error connect_error
  | Slot_Error slot_error
  | Data_Error CustomerDataAdmissionError
  | Account_Error AccountManagementError
  | Io_Error io_error

section \<open>Handlers\<close>

text \<open>\<open>None\<close>: the handler has not returned.\<close>

type_synonym ('b, 'x) handler = "'b \<Rightarrow> ('x, bridge_error) result option \<times> 'b"

definition h_return :: "'x \<Rightarrow> ('b, 'x) handler" where
  "h_return x b = (Some (Ok x), b)"

definition h_fail :: "bridge_error \<Rightarrow> ('b, 'x) handler" where
  "h_fail e b = (Some (Err e), b)"

definition h_bind :: "('b, 'x) handler \<Rightarrow> ('x \<Rightarrow> ('b, 'y) handler) \<Rightarrow> ('b, 'y) handler" where
  "h_bind m f b =
     (case m b of
        (Some (Inr x), b') \<Rightarrow> f x b'
      | (Some (Inl e), b') \<Rightarrow> (Some (Err e), b')
      | (None, b') \<Rightarrow> (None, b'))"

definition h_modify :: "('b \<Rightarrow> 'b) \<Rightarrow> ('b, unit) handler" where
  "h_modify f b = (Some (Ok ()), f b)"

text \<open>A guard: \<open>release\<close> is its \<open>drop\<close>, run when the rest of the function has returned.\<close>

definition h_guard :: "('b \<Rightarrow> 'b) \<Rightarrow> ('b, 'x) handler \<Rightarrow> ('b, 'x) handler" where
  "h_guard release m b =
     (case m b of
        (Some r, b') \<Rightarrow> (Some r, release b')
      | (None, b') \<Rightarrow> (None, b'))"

text \<open>\<open>?\<close> on an I/O operation of a peer, and \<open>let _ =\<close> on it.\<close>

definition h_io :: "('w \<Rightarrow> (unit, io_error) result \<times> 'w) \<Rightarrow> (('s, 't, 'l, 'w, 'a, 'p) bridge, unit) handler" where
  "h_io op b = (case op (b_world b) of (res, w) \<Rightarrow> (Some (map_err Io_Error res), b\<lparr>b_world := w\<rparr>))"

definition write_client ::
    "('s, 't, 'l, 'w, 'a, 'p, 'd) bridge_env \<Rightarrow> string \<Rightarrow> (('s, 't, 'l, 'w, 'a, 'p) bridge, unit) handler" where
  "write_client env bytes =
     h_bind (h_modify (\<lambda>b. b\<lparr>b_trace := b_trace b @ [Wrote_Client bytes]\<rparr>)) (\<lambda>_.
     h_io (env_write_client env bytes))"

definition respond ::
    "('s, 't, 'l, 'w, 'a, 'p, 'd) bridge_env \<Rightarrow> string \<Rightarrow> (('s, 't, 'l, 'w, 'a, 'p) bridge, unit) handler" where
  "respond env bytes b = (Some (Ok ()), snd (write_client env bytes b))"

text \<open>\<open>Instant::now()\<close>: the monotonic clock, which the peers advance.\<close>

definition h_now :: "('s, 't, 'l, 'w, 'a, 'p, 'd) bridge_env \<Rightarrow> (('s, 't, 'l, 'w, 'a, 'p) bridge, nat) handler" where
  "h_now env b = (let now = max (b_now b) (env_clock env (b_world b)) in (Some (Ok now), b\<lparr>b_now := now\<rparr>))"

definition on_metrics :: "(CircuitMetrics \<Rightarrow> CircuitMetrics) \<Rightarrow> (('s, 't, 'l, 'w, 'a, 'p) bridge, unit) handler" where
  "on_metrics f = h_modify (\<lambda>b. b\<lparr>b_metrics := f (b_metrics b)\<rparr>)"

definition finish_observation :: "u16 \<Rightarrow> string \<Rightarrow> (('s, 't, 'l, 'w, 'a, 'p) bridge, unit) handler" where
  "finish_observation status error_class =
     h_modify (\<lambda>b. b\<lparr>b_observation := observation_finish status error_class (b_observation b)\<rparr>)"

text \<open>\<open>record_request\<close> with the latency since \<open>started\<close>.\<close>

definition record_outcome ::
    "('s, 't, 'l, 'w, 'a, 'p, 'd) bridge_env \<Rightarrow> string \<Rightarrow> u16 \<Rightarrow> nat \<Rightarrow> (('s, 't, 'l, 'w, 'a, 'p) bridge, unit) handler" where
  "record_outcome env method status started =
     h_bind (h_now env) (\<lambda>now.
     h_modify (\<lambda>b. b\<lparr>b_metrics := record_request method status (now - started) (b_metrics b),
       b_trace := b_trace b @ [Request_Recorded (method_label method) status]\<rparr>))"

section \<open>Reasoning about handlers\<close>

text \<open>\<open>h_run m b Q\<close>: the outcome and the state \<open>m\<close> ends in from \<open>b\<close> satisfy \<open>Q\<close>.\<close>

definition h_run :: "('b, 'x) handler \<Rightarrow> 'b \<Rightarrow> (('x, bridge_error) result option \<Rightarrow> 'b \<Rightarrow> bool) \<Rightarrow> bool" where
  "h_run m b Q = (case m b of (r, b') \<Rightarrow> Q r b')"

lemma h_runI: "(\<And>r b'. m b = (r, b') \<Longrightarrow> Q r b') \<Longrightarrow> h_run m b Q"
  by (simp add: h_run_def split: prod.splits)

lemma h_runD: "h_run m b Q \<Longrightarrow> m b = (r, b') \<Longrightarrow> Q r b'"
  by (simp add: h_run_def)

lemma h_run_mono: "h_run m b Q \<Longrightarrow> (\<And>r b'. Q r b' \<Longrightarrow> Q' r b') \<Longrightarrow> h_run m b Q'"
  by (auto simp: h_run_def)

lemma h_run_rules [simp]:
  "h_run (h_return y) b Q = Q (Some (Ok y)) b"
  "h_run (h_fail e) b Q = Q (Some (Err e)) b"
  "h_run (h_modify upd) b QU = QU (Some (Ok ())) (upd b)"
  "h_run (h_bind m f) b Q = h_run m b (\<lambda>r b'. case r of Some (Inr x) \<Rightarrow> h_run (f x) b' Q
     | Some (Inl e) \<Rightarrow> Q (Some (Err e)) b' | None \<Rightarrow> Q None b')"
  "h_run (h_guard release mg) b QG = h_run mg b (\<lambda>r b'. case r of Some z \<Rightarrow> QG (Some z) (release b') | None \<Rightarrow> QG None b')"
  by (auto simp: h_run_def h_return_def h_fail_def h_modify_def h_bind_def h_guard_def split: prod.splits option.splits sum.splits)

section \<open>Responses\<close>

definition response :: "string \<Rightarrow> string list \<Rightarrow> string" where
  "response status headers = ''HTTP/1.1 '' @ status @ crlf @ concat (map (\<lambda>h. h @ crlf) headers) @ crlf"

definition BAD_REQUEST_RESPONSE :: string where
  "BAD_REQUEST_RESPONSE = response ''400 Bad Request'' [''Content-Length: 0'', ''Connection: close'']"
definition FORBIDDEN_RESPONSE :: string where
  "FORBIDDEN_RESPONSE = response ''403 Forbidden'' [''Content-Length: 0'', ''Connection: close'']"
definition BAD_GATEWAY_RESPONSE :: string where
  "BAD_GATEWAY_RESPONSE = response ''502 Bad Gateway'' [''Content-Length: 0'', ''Connection: close'']"
definition GATEWAY_TIMEOUT_RESPONSE :: string where
  "GATEWAY_TIMEOUT_RESPONSE = response ''504 Gateway Timeout'' [''Content-Length: 0'', ''Connection: close'']"
definition PROXY_AUTH_REQUIRED_RESPONSE :: string where
  "PROXY_AUTH_REQUIRED_RESPONSE = response ''407 Proxy Authentication Required''
     [''Proxy-Authenticate: Basic realm='' @ [CHR 0x22] @ ''private-proxy'' @ [CHR 0x22] @ '', charset='' @ [CHR 0x22] @ ''UTF-8'' @ [CHR 0x22],
      ''Content-Length: 0'', ''Connection: close'']"
definition RATE_LIMITED_RESPONSE :: string where
  "RATE_LIMITED_RESPONSE = response ''429 Too Many Requests'' [''Retry-After: 1'', ''Content-Length: 0'', ''Connection: close'']"
definition QUOTA_EXCEEDED_RESPONSE :: string where
  "QUOTA_EXCEEDED_RESPONSE = response ''429 Too Many Requests'' [''Content-Length: 0'', ''Connection: close'']"
definition REQUEST_TIMEOUT_RESPONSE :: string where
  "REQUEST_TIMEOUT_RESPONSE = response ''408 Request Timeout'' [''Content-Length: 0'', ''Connection: close'']"
definition SERVICE_UNAVAILABLE_RESPONSE :: string where
  "SERVICE_UNAVAILABLE_RESPONSE = response ''503 Service Unavailable'' [''Retry-After: 5'', ''Content-Length: 0'', ''Connection: close'']"
definition CONNECTION_ESTABLISHED :: string where
  "CONNECTION_ESTABLISHED = response ''200 Connection Established'' []"

lemma capacity_response: "CIRCUIT_CAPACITY_RESPONSE = SERVICE_UNAVAILABLE_RESPONSE"
  by (simp add: CIRCUIT_CAPACITY_RESPONSE_def SERVICE_UNAVAILABLE_RESPONSE_def response_def crlf_def)

text \<open>The status code of a response.\<close>

definition status_of :: "string \<Rightarrow> u16" where
  "status_of bytes = of_nat (digits_value (take 3 (drop 9 bytes)))"

lemmas response_defs = BAD_REQUEST_RESPONSE_def FORBIDDEN_RESPONSE_def BAD_GATEWAY_RESPONSE_def GATEWAY_TIMEOUT_RESPONSE_def
  PROXY_AUTH_REQUIRED_RESPONSE_def RATE_LIMITED_RESPONSE_def QUOTA_EXCEEDED_RESPONSE_def REQUEST_TIMEOUT_RESPONSE_def
  SERVICE_UNAVAILABLE_RESPONSE_def CONNECTION_ESTABLISHED_def

lemma status_of_responses [simp]:
  "status_of BAD_REQUEST_RESPONSE = 400" "status_of FORBIDDEN_RESPONSE = 403" "status_of BAD_GATEWAY_RESPONSE = 502"
  "status_of GATEWAY_TIMEOUT_RESPONSE = 504" "status_of PROXY_AUTH_REQUIRED_RESPONSE = 407"
  "status_of RATE_LIMITED_RESPONSE = 429" "status_of QUOTA_EXCEEDED_RESPONSE = 429"
  "status_of REQUEST_TIMEOUT_RESPONSE = 408" "status_of SERVICE_UNAVAILABLE_RESPONSE = 503"
  "status_of CONNECTION_ESTABLISHED = 200" "status_of CIRCUIT_CAPACITY_RESPONSE = 503"
  by (simp_all add: capacity_response response_defs response_def status_of_def digits_value_def byte_def)

end
