(* ===== verification/Bridge_Connect.thy ===== *)
theory Bridge_Connect
  imports Bridge_State
begin

text \<open>
  \<open>Bridge::handle_connect_request\<close> (\<open>src/src/main.rs\<close>): the whole life of a CONNECT tunnel. The code acquires,
  one after the other, the account's tunnel guard, the data session, the tunnel permit and the circuit
  permit; here each of these is a function \<open>with_\<dots>\<close> that takes the rest of the handler as its scope, so
  that the guards are dropped where the code drops them, in the reverse order of their acquisition.

  The lemmas show that Tor is contacted only for requests that passed every check, that a handler which
  returned gave everything back, and that the status it records is the one the client was sent.
\<close>

section \<open>Rejections\<close>

text \<open>
  \<open>observation.finish\<close>, a counter, the response with \<open>let _ =\<close>, and the error. Of a message that
  interpolates another error \<open>Bail\<close> has the constant part.
\<close>

definition reject ::
    "('s, 't, 'l, 'w, 'a, 'p, 'd) bridge_env \<Rightarrow> u16 \<Rightarrow> string \<Rightarrow> (CircuitMetrics \<Rightarrow> CircuitMetrics) \<Rightarrow> string \<Rightarrow> bridge_error
      \<Rightarrow> (('s, 't, 'l, 'w, 'a, 'p) bridge, 'x) handler" where
  "reject env status error_class counter bytes error =
     h_bind (finish_observation status error_class) (\<lambda>_.
     h_bind (on_metrics counter) (\<lambda>_.
     h_bind (respond env bytes) (\<lambda>_. h_fail error)))"

definition count_breaker_rejection :: "CircuitMetrics \<Rightarrow> CircuitMetrics" where
  "count_breaker_rejection m = m\<lparr>m_breaker_rejections := m_breaker_rejections m + 1\<rparr>"

definition count_data_limit_rejection :: "CircuitMetrics \<Rightarrow> CircuitMetrics" where
  "count_data_limit_rejection m = m\<lparr>m_customer_data_limit_rejections := m_customer_data_limit_rejections m + 1\<rparr>"

definition count_checkpoint_failure :: "CircuitMetrics \<Rightarrow> CircuitMetrics" where
  "count_checkpoint_failure m = m\<lparr>m_account_usage_checkpoint_failures := m_account_usage_checkpoint_failures m + 1\<rparr>"

definition count_idle_timeout :: "CircuitMetrics \<Rightarrow> CircuitMetrics" where
  "count_idle_timeout m = m\<lparr>m_idle_timeouts := m_idle_timeouts m + 1\<rparr>"

section \<open>Admission\<close>

definition breaker_allow ::
    "('s, 't, 'l, 'w, 'a, 'p, 'd) bridge_env \<Rightarrow> string \<Rightarrow> (('s, 't, 'l, 'w, 'a, 'p) bridge, bool) handler" where
  "breaker_allow env key =
     h_bind (h_now env) (\<lambda>now b. case allow_at key now (b_breaker b) of
       (ok, breaker) \<Rightarrow> (Some (Ok ok), b\<lparr>b_breaker := breaker\<rparr>))"

text \<open>Up to the circuit breaker: the target for Tor and the key of the destination.\<close>

definition admit_destination ::
    "('s, 't, 'l, 'w, 'a, 'p, 'd) bridge_env \<Rightarrow> string \<Rightarrow> (('s, 't, 'l, 'w, 'a, 'p) bridge, 'a \<times> string) handler" where
  "admit_destination env dest =
     (case parse_connect_destination (env_parse_authority env) (env_tor_addr env) dest of
        Inl e \<Rightarrow> reject env 400 ''invalid_request'' id BAD_REQUEST_RESPONSE (Destination_Error e)
      | Inr target \<Rightarrow>
     (case canonical_connect_destination_key (env_parse_authority env) dest of
        Inl e \<Rightarrow> h_fail (Destination_Error e)
      | Inr key \<Rightarrow>
     (case connect_destination_allowed (env_parse_authority env) dest of
        Inl e \<Rightarrow> reject env 400 ''invalid_request'' id BAD_REQUEST_RESPONSE (Destination_Error e)
      | Inr False \<Rightarrow> reject env 403 ''destination_policy'' id FORBIDDEN_RESPONSE
          (Bail ''CONNECT destination rejected by local policy'')
      | Inr True \<Rightarrow>
          h_bind (breaker_allow env key) (\<lambda>ok.
          if ok then h_return (target, key)
          else reject env 503 ''circuit_breaker'' count_breaker_rejection CIRCUIT_CAPACITY_RESPONSE
            (Bail ''destination circuit breaker is open'')))))"

text \<open>\<open>Drop for AccountTunnelGuard\<close>, with the guard's reference.\<close>

definition drop_account_guard ::
    "AccountId \<Rightarrow> nat \<Rightarrow> ('s, 't, 'l, 'w, 'a, 'p) bridge \<Rightarrow> ('s, 't, 'l, 'w, 'a, 'p) bridge" where
  "drop_account_guard account r b =
     (let c = b_admission b in
      b\<lparr>b_admission := c\<lparr>heap := (heap c)(r := drop_tunnel (heap c r)), guards := guards c - {#(account, r)#}\<rparr>\<rparr>)"

definition with_account_tunnel ::
    "('s, 't, 'l, 'w, 'a, 'p, 'd) bridge_env \<Rightarrow> AccountRequestScope option \<Rightarrow> (('s, 't, 'l, 'w, 'a, 'p) bridge, 'x) handler
      \<Rightarrow> (('s, 't, 'l, 'w, 'a, 'p) bridge, 'x) handler" where
  "with_account_tunnel env account_scope body =
     (case account_scope of
        None \<Rightarrow> body
      | Some scope \<Rightarrow> (\<lambda>b.
          case try_acquire_tunnel (env_request_limiter env) (scope_identity scope) (b_admission b) of
            (Inr r, c) \<Rightarrow>
              h_guard (drop_account_guard (identity_account_id (scope_identity scope)) r) body (b\<lparr>b_admission := c\<rparr>)
          | (Inl (TunnelLimitReached n), c) \<Rightarrow>
              reject env 429 ''account_tunnel_capacity'' id RATE_LIMITED_RESPONSE
                (Bail ''account concurrent tunnel limit reached'') (b\<lparr>b_admission := c\<rparr>)
          | (Inl e, c) \<Rightarrow>
              reject env 503 ''account_admission'' id SERVICE_UNAVAILABLE_RESPONSE
                (Bail ''account tunnel admission failed'') (b\<lparr>b_admission := c\<rparr>)))"

datatype RuntimeCustomerDataAdmissionError =
    Customer CustomerDataAdmissionError
  | DataWorker string

text \<open>\<open>spawn_blocking\<close>: the runtime may fail to run the closure, which then has not run.\<close>

definition on_worker ::
    "('s, 't, 'l, 'w, 'a, 'p, 'd) bridge_env \<Rightarrow> (string \<Rightarrow> 'e)
      \<Rightarrow> (('s, 't, 'l, 'w, 'a, 'p) bridge \<Rightarrow> ('x, 'e) result \<times> ('s, 't, 'l, 'w, 'a, 'p) bridge)
      \<Rightarrow> (('s, 't, 'l, 'w, 'a, 'p) bridge, ('x, 'e) result) handler" where
  "on_worker env worker_error closure b =
     (case env_worker env (b_world b) of
        (Some message, w) \<Rightarrow> (Some (Ok (Err (worker_error message))), b\<lparr>b_world := w\<rparr>)
      | (None, w) \<Rightarrow> (case closure (b\<lparr>b_world := w\<rparr>) of (res, b') \<Rightarrow> (Some (Ok res), b')))"

definition open_customer_data_session ::
    "('s, 't, 'l, 'w, 'a, 'p, 'd) bridge_env \<Rightarrow> IngressIdentity \<Rightarrow> UnixTimestamp
      \<Rightarrow> (('s, 't, 'l, 'w, 'a, 'p) bridge, (CustomerDataSession, RuntimeCustomerDataAdmissionError) result) handler" where
  "open_customer_data_session env identity period_start =
     on_worker env DataWorker (\<lambda>b.
       case limiter_open_session identity period_start (b_limiter b) (b_db b) of
         (res, l, c) \<Rightarrow> (map_err Customer res, b\<lparr>b_limiter := l, b_db := c\<rparr>))"

text \<open>The \<open>Arc\<close> of the session's counter is dropped with the session.\<close>

definition drop_data_session ::
    "CustomerDataSession \<Rightarrow> ('s, 't, 'l, 'w, 'a, 'p) bridge \<Rightarrow> ('s, 't, 'l, 'w, 'a, 'p) bridge" where
  "drop_data_session s b =
     (let l = b_limiter b in
      b\<lparr>b_limiter := l\<lparr>dl_holders :=
         dl_holders l - {#((identity_account_id (ses_identity s), ses_period_start s), ses_state s)#}\<rparr>\<rparr>)"

definition with_data_session ::
    "('s, 't, 'l, 'w, 'a, 'p, 'd) bridge_env \<Rightarrow> AccountRequestScope option
      \<Rightarrow> (CustomerDataSession option \<Rightarrow> (('s, 't, 'l, 'w, 'a, 'p) bridge, 'x) handler)
      \<Rightarrow> (('s, 't, 'l, 'w, 'a, 'p) bridge, 'x) handler" where
  "with_data_session env account_scope body =
     (case account_scope of
        None \<Rightarrow> body None
      | Some scope \<Rightarrow>
          h_bind (open_customer_data_session env (scope_identity scope) (scope_period_start scope)) (\<lambda>res.
          case res of
            Inr session \<Rightarrow> h_guard (drop_data_session session) (body (Some session))
          | Inl (Customer (DataLimitReached n)) \<Rightarrow>
              reject env 429 ''account_data_limit'' count_data_limit_rejection QUOTA_EXCEEDED_RESPONSE
                (Bail ''customer period data limit reached'')
          | Inl (Customer e) \<Rightarrow>
              reject env 503 ''account_data_admission'' id SERVICE_UNAVAILABLE_RESPONSE
                (Bail ''customer data admission failed'')
          | Inl (DataWorker message) \<Rightarrow>
              reject env 503 ''account_data_admission'' id SERVICE_UNAVAILABLE_RESPONSE
                (Bail (''customer data admission worker failed: '' @ message))))"

definition TUNNEL_ACQUIRE_TIMEOUT :: nat where "TUNNEL_ACQUIRE_TIMEOUT = secs 5"
definition CIRCUIT_ACQUIRE_TIMEOUT :: nat where "CIRCUIT_ACQUIRE_TIMEOUT = secs 10"
definition TUNNEL_IDLE_TIMEOUT :: nat where "TUNNEL_IDLE_TIMEOUT = secs (5 * 60)"

definition respond_all ::
    "('s, 't, 'l, 'w, 'a, 'p, 'd) bridge_env \<Rightarrow> string list \<Rightarrow> (('s, 't, 'l, 'w, 'a, 'p) bridge, unit) handler" where
  "respond_all env out = fold (\<lambda>bytes m. h_bind m (\<lambda>_. respond env bytes)) out (h_return ())"

definition drop_tunnel_permit ::
    "('s, 't, 'l, 'w, 'a, 'p, 'd) bridge_env \<Rightarrow> ('s, 't, 'l, 'w, 'a, 'p) bridge \<Rightarrow> ('s, 't, 'l, 'w, 'a, 'p) bridge" where
  "drop_tunnel_permit env b =
     (case drop_active_tunnel_permit (env_semaphore env) (b_tunnel_semaphore b) (b_metrics b) of
        (sem, m) \<Rightarrow> b\<lparr>b_tunnel_semaphore := sem, b_metrics := m\<rparr>)"

definition with_tunnel_permit ::
    "('s, 't, 'l, 'w, 'a, 'p, 'd) bridge_env \<Rightarrow> (('s, 't, 'l, 'w, 'a, 'p) bridge, 'x) handler
      \<Rightarrow> (('s, 't, 'l, 'w, 'a, 'p) bridge, 'x) handler" where
  "with_tunnel_permit env body b =
     (case acquire_active_tunnel_permit (env_semaphore env) TUNNEL_ACQUIRE_TIMEOUT (b_tunnel_semaphore b) (b_metrics b) of
        (res, out, sem, m) \<Rightarrow>
          h_bind (respond_all env out) (\<lambda>_.
          case res of
            Inr _ \<Rightarrow> h_guard (drop_tunnel_permit env) body
          | Inl e \<Rightarrow> h_bind (finish_observation 503 ''capacity'') (\<lambda>_. h_fail (Slot_Error e)))
          (b\<lparr>b_tunnel_semaphore := sem, b_metrics := m\<rparr>))"

definition resolve_request_isolation ::
    "('s, 't, 'l, 'w, 'a, 'p, 'd) bridge_env \<Rightarrow> AccountRequestScope option \<Rightarrow> bool \<Rightarrow> string \<Rightarrow> IsolationRequest
      \<Rightarrow> (('s, 't, 'l, 'w, 'a, 'p) bridge, ResolvedIsolation) handler" where
  "resolve_request_isolation env account_scope count_as_public_request key isolation_request b =
     (case (case account_scope of
              Some scope \<Rightarrow>
                if count_as_public_request
                then TenantIsolationHasher_resolve (env_tenant_hash env) (scope_identity scope) key isolation_request (b_id_counter b)
                else resolve_isolation isolation_request (b_id_counter b)
            | None \<Rightarrow> resolve_isolation isolation_request (b_id_counter b)) of
        (isolation, counter) \<Rightarrow> (Some (Ok isolation), b\<lparr>b_id_counter := counter\<rparr>))"

section \<open>Connecting\<close>

definition tor_connect ::
    "('s, 't, 'l, 'w, 'a, 'p, 'd) bridge_env \<Rightarrow> 'a \<Rightarrow> ResolvedIsolation
      \<Rightarrow> (('s, 't, 'l, 'w, 'a, 'p) bridge, ('d, ConnectFailure) result) handler" where
  "tor_connect env target isolation =
     h_bind (h_now env) (\<lambda>now b.
       case connect_with_retry (env_tor env) (env_new_token env) target isolation
              \<lparr>cw_now = now, cw_tokens = b_tokens b, cw_metrics = b_metrics b, cw_world = b_world b, cw_attempts = []\<rparr> of
         (res, st) \<Rightarrow>
           (map_option Ok res,
            b\<lparr>b_now := cw_now st, b_tokens := cw_tokens st, b_metrics := cw_metrics st, b_world := cw_world st,
              b_trace := b_trace b @ map (\<lambda>(prefs, _). Tor_Attempt target prefs) (cw_attempts st)\<rparr>))"

text \<open>The permit of a circuit build is dropped as soon as the connection attempt is over.\<close>

definition connect_with_permit ::
    "('s, 't, 'l, 'w, 'a, 'p, 'd) bridge_env \<Rightarrow> 'a \<Rightarrow> ResolvedIsolation
      \<Rightarrow> (('s, 't, 'l, 'w, 'a, 'p) bridge, ('d, ConnectFailure) result) handler" where
  "connect_with_permit env target isolation b =
     (case acquire_circuit_permit (env_semaphore env) CIRCUIT_ACQUIRE_TIMEOUT (b_circuit_semaphore b) (b_metrics b) of
        (res, out, sem, m) \<Rightarrow>
          h_bind (respond_all env out) (\<lambda>_.
          case res of
            Inr _ \<Rightarrow> h_guard (\<lambda>b. b\<lparr>b_circuit_semaphore := sem_release (env_semaphore env) (b_circuit_semaphore b)\<rparr>)
                       (tor_connect env target isolation)
          | Inl e \<Rightarrow> h_bind (finish_observation 503 ''circuit_capacity'') (\<lambda>_. h_fail (Slot_Error e)))
          (b\<lparr>b_circuit_semaphore := sem, b_metrics := m\<rparr>))"

definition on_breaker :: "(CircuitBreaker \<Rightarrow> CircuitBreaker) \<Rightarrow> (('s, 't, 'l, 'w, 'a, 'p) bridge, unit) handler" where
  "on_breaker f = h_modify (\<lambda>b. b\<lparr>b_breaker := f (b_breaker b)\<rparr>)"

definition breaker_failure ::
    "('s, 't, 'l, 'w, 'a, 'p, 'd) bridge_env \<Rightarrow> string \<Rightarrow> (('s, 't, 'l, 'w, 'a, 'p) bridge, unit) handler" where
  "breaker_failure env key = h_bind (h_now env) (\<lambda>now. on_breaker (record_failure_at key now))"

definition answer_connect ::
    "('s, 't, 'l, 'w, 'a, 'p, 'd) bridge_env \<Rightarrow> string \<Rightarrow> ('d, ConnectFailure) result
      \<Rightarrow> (('s, 't, 'l, 'w, 'a, 'p) bridge, 'd) handler" where
  "answer_connect env key connect_result =
     (case connect_result of
        Inr stream \<Rightarrow>
          h_bind (on_breaker (record_success key)) (\<lambda>_.
          h_bind (write_client env CONNECTION_ESTABLISHED) (\<lambda>_.
          h_bind (finish_observation 200 ''stream'') (\<lambda>_. h_return stream)))
      | Inl Connect_Timeout \<Rightarrow>
          h_bind (finish_observation 504 ''timeout'') (\<lambda>_.
          h_bind (breaker_failure env key) (\<lambda>_.
          h_bind (write_client env GATEWAY_TIMEOUT_RESPONSE) (\<lambda>_.
          h_fail (Bail ''Tor connection establishment timed out''))))
      | Inl (Connect_Tor kind) \<Rightarrow>
          h_bind (finish_observation 502 (arti_error_class kind)) (\<lambda>_.
          h_bind (breaker_failure env key) (\<lambda>_.
          h_bind (write_client env BAD_GATEWAY_RESPONSE) (\<lambda>_.
          h_fail (Bail ''Tor connection failed''))))) "

section \<open>The tunnel\<close>

definition buffered_allowance ::
    "nat \<Rightarrow> CustomerDataSession option
      \<Rightarrow> (('s, 't, 'l, 'w, 'a, 'p) bridge, (CustomerDataAllowance, CustomerDataAdmissionError) result) handler" where
  "buffered_allowance n session b =
     (case session of
        Some s \<Rightarrow> (case session_allow (of_nat n) s (b_limiter b) of (res, l) \<Rightarrow> (Some (Ok res), b\<lparr>b_limiter := l\<rparr>))
      | None \<Rightarrow> (Some (Ok (Ok \<lparr>allowance_bytes = of_nat n, allowance_exhausted = False\<rparr>)), b))"

definition checkpoint_session ::
    "('s, 't, 'l, 'w, 'a, 'p, 'd) bridge_env \<Rightarrow> CustomerDataSession option
      \<Rightarrow> (('s, 't, 'l, 'w, 'a, 'p) bridge, (unit, checkpoint_error) result) handler" where
  "checkpoint_session env session b =
     (case session of
        None \<Rightarrow> (Some (Ok (Ok ())), b)
      | Some s \<Rightarrow>
          (case env_worker env (b_world b) of
             (worker, w) \<Rightarrow>
               (case session_checkpoint worker s (b_db b) of
                  (res, s', c) \<Rightarrow> (Some (Ok res), b\<lparr>b_world := w, b_db := c\<rparr>))))"

text \<open>The bytes that were read together with the CONNECT header.\<close>

definition forward_buffered ::
    "('s, 't, 'l, 'w, 'a, 'p, 'd) bridge_env \<Rightarrow> 'd \<Rightarrow> string \<Rightarrow> CustomerDataSession option
      \<Rightarrow> (('s, 't, 'l, 'w, 'a, 'p) bridge, CustomerDataSession option) handler" where
  "forward_buffered env stream data session =
     (if data = [] then h_return session else
      h_bind (buffered_allowance (length data) session) (\<lambda>res.
      case res of
        Inl (DataLimitReached n) \<Rightarrow>
          h_bind (on_metrics count_data_limit_rejection) (\<lambda>_.
          h_bind (finish_observation 200 ''account_data_limit'') (\<lambda>_. h_fail (Io_Error customer_data_limit_error)))
      | Inl e \<Rightarrow> h_fail (Data_Error e)
      | Inr allowance \<Rightarrow>
          let bytes = allowance_bytes allowance;
              session' = map_option (record_transferred ToTor bytes) session
          in
          h_bind (h_io (env_write_tor env stream (take (unat bytes) data))) (\<lambda>_.
          h_bind (h_io (env_flush_tor env stream)) (\<lambda>_.
          h_bind (on_metrics (\<lambda>m. m\<lparr>m_bytes_to_tor := m_bytes_to_tor m + bytes\<rparr>)) (\<lambda>_.
          if \<not> allowance_exhausted allowance then h_return session' else
          h_bind (checkpoint_session env session') (\<lambda>checkpoint.
          case checkpoint of
            Inl e \<Rightarrow>
              h_bind (on_metrics count_checkpoint_failure) (\<lambda>_.
              h_bind (finish_observation 200 ''usage_checkpoint'') (\<lambda>_.
              h_fail (Io_Error account_usage_checkpoint_error)))
          | Inr _ \<Rightarrow>
              h_bind (on_metrics count_data_limit_rejection) (\<lambda>_.
              h_bind (finish_observation 200 ''account_data_limit'') (\<lambda>_.
              h_fail (Io_Error customer_data_limit_error)))))))))"

definition copied_counters :: "tunnel_copy \<Rightarrow> CircuitMetrics \<Rightarrow> CircuitMetrics" where
  "copied_counters t m =
     m\<lparr>m_bytes_to_tor := (case cd_counter (tc_to t) of Some n \<Rightarrow> n | None \<Rightarrow> m_bytes_to_tor m),
       m_bytes_from_tor := (case cd_counter (tc_from t) of Some n \<Rightarrow> n | None \<Rightarrow> m_bytes_from_tor m)\<rparr>"

definition copy_tunnel ::
    "('s, 't, 'l, 'w, 'a, 'p, 'd) bridge_env \<Rightarrow> 'd \<Rightarrow> CustomerDataSession option
      \<Rightarrow> (('s, 't, 'l, 'w, 'a, 'p) bridge, (u64 \<times> u64, io_error) result) handler" where
  "copy_tunnel env stream session =
     h_bind (h_now env) (\<lambda>now b.
       case env_tunnel_events env stream (b_world b) of
         (evs, w) \<Rightarrow>
           let to = Some (m_bytes_to_tor (b_metrics b)); from = Some (m_bytes_from_tor (b_metrics b));
               t = (case session of
                      Some s \<Rightarrow> copy_bidirectional_with_customer_data_limit now TUNNEL_IDLE_TIMEOUT to from s
                                  (b_limiter b) (b_db b) evs
                    | None \<Rightarrow> copy_bidirectional_with_idle_timeout_and_counters now TUNNEL_IDLE_TIMEOUT to from
                                (b_limiter b) (b_db b) evs)
           in (map_option Ok (tc_result t),
               b\<lparr>b_metrics := copied_counters t (b_metrics b), b_limiter := cs_limiter (tc_shared t),
                 b_db := tc_conn t, b_world := w\<rparr>))"

definition finish_tunnel :: "(u64 \<times> u64, io_error) result \<Rightarrow> (('s, 't, 'l, 'w, 'a, 'p) bridge, unit) handler" where
  "finish_tunnel copy_result =
     (case copy_result of
        Inr bytes \<Rightarrow> finish_observation 200 ''none''
      | Inl e \<Rightarrow>
          if is_customer_data_limit_error e then
            h_bind (finish_observation 200 ''account_data_limit'') (\<lambda>_.
            h_bind (on_metrics count_data_limit_rejection) (\<lambda>_. h_fail (Io_Error e)))
          else if is_account_usage_checkpoint_error e then
            h_bind (finish_observation 200 ''usage_checkpoint'') (\<lambda>_.
            h_bind (on_metrics count_checkpoint_failure) (\<lambda>_. h_fail (Io_Error e)))
          else if error_kind e = TimedOut then
            h_bind (finish_observation 200 ''idle_timeout'') (\<lambda>_.
            h_bind (on_metrics count_idle_timeout) (\<lambda>_. h_fail (Io_Error e)))
          else h_bind (finish_observation 200 ''stream'') (\<lambda>_. h_fail (Io_Error e)))"

definition run_tunnel ::
    "('s, 't, 'l, 'w, 'a, 'p, 'd) bridge_env \<Rightarrow> 'd \<Rightarrow> string \<Rightarrow> CustomerDataSession option
      \<Rightarrow> (('s, 't, 'l, 'w, 'a, 'p) bridge, unit) handler" where
  "run_tunnel env stream data session =
     h_bind (forward_buffered env stream data session) (\<lambda>session'.
     h_bind (copy_tunnel env stream session') finish_tunnel)"

section \<open>The handler\<close>

definition connect_and_copy ::
    "('s, 't, 'l, 'w, 'a, 'p, 'd) bridge_env \<Rightarrow> 'a \<Rightarrow> string \<Rightarrow> IsolationRequest \<Rightarrow> string \<Rightarrow> bool
      \<Rightarrow> AccountRequestScope option \<Rightarrow> CustomerDataSession option \<Rightarrow> (('s, 't, 'l, 'w, 'a, 'p) bridge, unit) handler" where
  "connect_and_copy env target key isolation_request data count_as_public_request account_scope session =
     h_bind (resolve_request_isolation env account_scope count_as_public_request key isolation_request) (\<lambda>isolation.
     h_bind (connect_with_permit env target isolation) (\<lambda>connect_result.
     h_bind (answer_connect env key connect_result) (\<lambda>stream.
     run_tunnel env stream data session)))"

definition connect_request_body ::
    "('s, 't, 'l, 'w, 'a, 'p, 'd) bridge_env \<Rightarrow> string \<Rightarrow> IsolationRequest \<Rightarrow> string \<Rightarrow> bool
      \<Rightarrow> AccountRequestScope option \<Rightarrow> (('s, 't, 'l, 'w, 'a, 'p) bridge, unit) handler" where
  "connect_request_body env dest isolation_request data count_as_public_request account_scope =
     h_bind (admit_destination env dest) (\<lambda>(target, key).
     with_account_tunnel env account_scope (
     with_data_session env account_scope (\<lambda>session.
     with_tunnel_permit env (
     connect_and_copy env target key isolation_request data count_as_public_request account_scope session))))"

text \<open>\<open>Drop for TunnelObservation\<close>: the metrics and the log line.\<close>

definition drop_observation ::
    "('s, 't, 'l, 'w, 'a, 'p, 'd) bridge_env \<Rightarrow> ('s, 't, 'l, 'w, 'a, 'p) bridge \<Rightarrow> ('s, 't, 'l, 'w, 'a, 'p) bridge" where
  "drop_observation env b =
     (let obs = b_observation b; now = max (b_now b) (env_clock env (b_world b)) in
      b\<lparr>b_now := now, b_metrics := drop_tunnel_observation now obs (b_metrics b),
        b_trace := b_trace b
          @ (if obs_count_as_public_request obs then [Request_Recorded ''CONNECT'' (obs_status obs)] else [])
          @ [Tunnel_Logged (obs_status obs) (obs_error_class obs)]\<rparr>)"

definition handle_connect_request ::
    "('s, 't, 'l, 'w, 'a, 'p, 'd) bridge_env \<Rightarrow> string \<Rightarrow> IsolationRequest \<Rightarrow> string \<Rightarrow> bool
      \<Rightarrow> AccountRequestScope option \<Rightarrow> (('s, 't, 'l, 'w, 'a, 'p) bridge, unit) handler" where
  "handle_connect_request env dest isolation_request data count_as_public_request account_scope =
     h_bind (h_now env) (\<lambda>now.
     h_bind (h_modify (\<lambda>b. b\<lparr>b_observation := TunnelObservation_new now count_as_public_request\<rparr>)) (\<lambda>_.
     h_guard (drop_observation env)
       (connect_request_body env dest isolation_request data count_as_public_request account_scope)))"

section \<open>Everything is given back\<close>

text \<open>
  What a tunnel takes from the shared state: the gauges, the permits, the account's guard and active
  count, the holder of the data counter.
\<close>

definition given_back ::
    "'s semaphore_ops \<Rightarrow> ('s, 't, 'l, 'w, 'a, 'p) bridge \<Rightarrow> ('s, 't, 'l, 'w, 'a, 'p) bridge \<Rightarrow> bool" where
  "given_back ops b b' \<longleftrightarrow>
     m_active_tunnels (b_metrics b') = m_active_tunnels (b_metrics b)
     \<and> m_queued_tunnels (b_metrics b') = m_queued_tunnels (b_metrics b)
     \<and> m_queued_circuit_builds (b_metrics b') = m_queued_circuit_builds (b_metrics b)
     \<and> sem_available ops (b_tunnel_semaphore b') = sem_available ops (b_tunnel_semaphore b)
     \<and> sem_available ops (b_circuit_semaphore b') = sem_available ops (b_circuit_semaphore b)
     \<and> guards (b_admission b') = guards (b_admission b)
     \<and> dl_holders (b_limiter b') = dl_holders (b_limiter b)
     \<and> fresh_ref (b_admission b) \<le> fresh_ref (b_admission b')
     \<and> (\<forall>r<fresh_ref (b_admission b). adm_active (heap (b_admission b') r) = adm_active (heap (b_admission b) r))"

lemma given_back_refl [simp]: "given_back ops b b"
  by (simp add: given_back_def)

lemma given_back_trans: "given_back ops b b' \<Longrightarrow> given_back ops b' b'' \<Longrightarrow> given_back ops b b''"
  by (simp add: given_back_def)

definition restores :: "'s semaphore_ops \<Rightarrow> (('s, 't, 'l, 'w, 'a, 'p) bridge, 'x) handler \<Rightarrow> bool" where
  "restores ops m \<longleftrightarrow> (\<forall>b. h_run m b (\<lambda>r b'. r \<noteq> None \<longrightarrow> given_back ops b b'))"

lemma restoresI: "(\<And>b r b'. m b = (Some r, b') \<Longrightarrow> given_back ops b b') \<Longrightarrow> restores ops m"
  unfolding restores_def by (intro allI h_runI) auto

lemma restoresD: "restores ops m \<Longrightarrow> m b = (Some r, b') \<Longrightarrow> given_back ops b b'"
  unfolding restores_def by (auto dest: h_runD)

lemma restores_bind:
  assumes "restores ops m" "\<And>x. restores ops (f x)"
  shows "restores ops (h_bind m f)"
proof (rule restoresI)
  fix b r b' assume "h_bind m f b = (Some r, b')"
  then consider (ok) x b1 where "m b = (Some (Ok x), b1)" "f x b1 = (Some r, b')"
    | (err) e where "m b = (Some (Err e), b')"
    by (auto simp: h_bind_def split: prod.splits option.splits sum.splits)
  then show "given_back ops b b'"
  proof cases
    case ok
    then show ?thesis using assms by (blast intro: given_back_trans dest: restoresD)
  next
    case err
    then show ?thesis using assms(1) by (blast dest: restoresD)
  qed
qed

lemma restores_basic:
  "restores ops (h_return x)" "restores ops (h_fail e)" "restores ops (h_io op)" "restores ops (write_client env bytes)"
  "restores ops (respond env bytes)" "restores ops (finish_observation status error_class)" "restores ops (h_now env)"
  "restores ops (on_breaker f)"
  by (auto intro!: restoresI simp: h_return_def h_fail_def h_io_def write_client_def respond_def finish_observation_def
      h_modify_def h_bind_def h_now_def on_breaker_def given_back_def Let_def split: prod.splits)

definition gauge_neutral :: "(CircuitMetrics \<Rightarrow> CircuitMetrics) \<Rightarrow> bool" where
  "gauge_neutral g \<longleftrightarrow> (\<forall>m. m_active_tunnels (g m) = m_active_tunnels m \<and> m_queued_tunnels (g m) = m_queued_tunnels m
     \<and> m_queued_circuit_builds (g m) = m_queued_circuit_builds m)"

lemma gauge_neutral_counters [simp]:
  "gauge_neutral id" "gauge_neutral count_breaker_rejection" "gauge_neutral count_data_limit_rejection"
  "gauge_neutral count_checkpoint_failure" "gauge_neutral count_idle_timeout"
  "gauge_neutral (\<lambda>m. m\<lparr>m_bytes_to_tor := m_bytes_to_tor m + n\<rparr>)"
  by (simp_all add: gauge_neutral_def count_breaker_rejection_def count_data_limit_rejection_def
      count_checkpoint_failure_def count_idle_timeout_def)

lemma restores_metrics: "gauge_neutral g \<Longrightarrow> restores ops (on_metrics g)"
  by (intro restoresI) (auto simp: on_metrics_def h_modify_def given_back_def gauge_neutral_def)

lemma restores_reject: "gauge_neutral counter \<Longrightarrow> restores ops (reject env status error_class counter bytes e)"
  unfolding reject_def by (intro restores_bind restores_basic restores_metrics)

lemma rejected_given_back:
  assumes "reject env status error_class counter bytes e b1 = (Some x, b')" "gauge_neutral counter" "given_back ops b b1"
  shows "given_back ops b b'"
  using assms(3) restoresD [OF restores_reject [OF assms(2)] assms(1)] by (rule given_back_trans)

lemma restores_respond_all: "restores ops (respond_all env out)"
proof -
  have "restores ops m \<Longrightarrow> restores ops (fold (\<lambda>bytes m. h_bind m (\<lambda>_. respond env bytes)) out m)" for m
    by (induction out arbitrary: m) (simp_all add: restores_bind restores_basic)
  then show ?thesis by (simp add: respond_all_def restores_basic)
qed

lemmas restores_intros = restores_bind restores_basic restores_metrics restores_reject restores_respond_all

lemma restores_admit_destination: "restores ops (admit_destination env dest)"
proof -
  have "restores ops (breaker_allow env key)" for key
    unfolding breaker_allow_def
    by (intro restores_bind restores_basic restoresI) (auto simp: given_back_def split: prod.splits)
  then show ?thesis
    unfolding admit_destination_def
    by (auto intro!: restores_intros split: sum.splits bool.splits)
qed

lemma restores_isolation: "restores ops (resolve_request_isolation env scope public key request)"
  by (intro restoresI) (auto simp: resolve_request_isolation_def given_back_def split: prod.splits)

lemma state_for_keeps:
  assumes "state_for request_limiter account limits c = (res, c')"
  shows "guards c' = guards c" "fresh_ref c \<le> fresh_ref c'" "\<forall>r<fresh_ref c. adm_active (heap c' r) = adm_active (heap c r)"
  using assms
  by (auto simp: state_for_def state_for_locked_def insert_state_def update_limits_def Let_def
      split: if_splits option.splits sum.splits)

lemma restores_account_tunnel:
  assumes "restores ops body"
  shows "restores ops (with_account_tunnel env account_scope body)"
proof (cases account_scope)
  case None
  then show ?thesis using assms by (simp add: with_account_tunnel_def)
next
  case (Some scope)
  let ?a = "identity_account_id (scope_identity scope)"
  show ?thesis
  proof (rule restoresI)
    fix b x b' assume run: "with_account_tunnel env account_scope body b = (Some x, b')"
    obtain res c where s: "state_for (env_request_limiter env) ?a (identity_limits (scope_identity scope)) (b_admission b) = (res, c)"
      by fastforce
    note keeps = state_for_keeps [OF s]
    have kept: "given_back ops b (b\<lparr>b_admission := c\<rparr>)" using keeps by (simp add: given_back_def)
    show "given_back ops b b'"
    proof (cases "try_acquire_tunnel (env_request_limiter env) (scope_identity scope) (b_admission b)")
      case (Pair res' c')
      show ?thesis
      proof (cases res')
        case (Inl e)
        then have "c' = c" using Pair s by (auto simp: try_acquire_tunnel_def split: sum.splits if_splits)
        with run Some Pair Inl show ?thesis
          by (cases e) (auto simp: with_account_tunnel_def elim!: rejected_given_back intro: kept)
      next
        case (Inr r)
        then have acq: "adm_active (heap c r) < max_concurrent_tunnels (adm_limits (heap c r))"
          "c' = c\<lparr>heap := (heap c)(r := (heap c r)\<lparr>adm_active := adm_active (heap c r) + 1\<rparr>),
                 guards := add_mset (?a, r) (guards c)\<rparr>"
          using Pair s by (auto simp: try_acquire_tunnel_def current_limits_def split: sum.splits if_splits)
        obtain b2 where b2: "body (b\<lparr>b_admission := c'\<rparr>) = (Some x, b2)" "b' = drop_account_guard ?a r b2"
          using run Some Pair Inr by (auto simp: with_account_tunnel_def h_guard_def split: prod.splits option.splits)
        note inner = restoresD [OF assms b2(1)]
        have one: "adm_active (heap c r) + 1 \<noteq> 0"
          using acq(1) word_order.extremum_strict by (metis eq_neg_iff_add_eq_0)
        show ?thesis
          using inner keeps one unfolding b2(2) acq(2)
          by (auto simp: given_back_def drop_account_guard_def drop_tunnel_def checked_sub_def not_le word_less_1 Let_def)
      qed
    qed
  qed
qed

lemma open_session_holders:
  assumes "limiter_open_session identity period_start l c = (res, l', c')"
  shows "dl_holders l' = (case res of Inr s \<Rightarrow>
      add_mset ((identity_account_id (ses_identity s), ses_period_start s), ses_state s) (dl_holders l) | Inl _ \<Rightarrow> dl_holders l)"
  using assms
  by (auto simp: limiter_open_session_def period_state_for_def evict_period_def insert_period_def CustomerDataSession_new_def Let_def
      split: if_splits option.splits sum.splits prod.splits)

lemma restores_data_session:
  assumes "\<And>session. restores ops (body session)"
  shows "restores ops (with_data_session env account_scope body)"
proof (cases account_scope)
  case None
  then show ?thesis using assms by (simp add: with_data_session_def)
next
  case (Some scope)
  show ?thesis
  proof (rule restoresI)
    fix b x b' assume run: "with_data_session env account_scope body b = (Some x, b')"
    obtain worker w where w: "env_worker env (b_world b) = (worker, w)" by fastforce
    show "given_back ops b b'"
    proof (cases worker)
      case (Some message)
      have "given_back ops b (b\<lparr>b_world := w\<rparr>)" by (simp add: given_back_def)
      then show ?thesis
        using run \<open>account_scope = Some scope\<close> w Some
        by (auto simp: with_data_session_def open_customer_data_session_def on_worker_def h_bind_def
            elim!: rejected_given_back)
    next
      case None
      obtain res l c where o': "limiter_open_session (scope_identity scope) (scope_period_start scope) (b_limiter b) (b_db b) = (res, l, c)"
        by (metis prod_cases3)
      note holders = open_session_holders [OF o']
      let ?b = "b\<lparr>b_world := w, b_limiter := l, b_db := c\<rparr>"
      show ?thesis
      proof (cases res)
        case (Inl e)
        then have "given_back ops b ?b" using holders by (simp add: given_back_def)
        then show ?thesis
          using run \<open>account_scope = Some scope\<close> w None o' Inl
          by (cases e) (auto simp: with_data_session_def open_customer_data_session_def on_worker_def h_bind_def
              elim!: rejected_given_back)
      next
        case (Inr s)
        obtain b2 where b2: "body (Some s) ?b = (Some x, b2)" "b' = drop_data_session s b2"
          using run \<open>account_scope = Some scope\<close> w None o' Inr
          by (auto simp: with_data_session_def open_customer_data_session_def on_worker_def h_bind_def h_guard_def
              split: prod.splits option.splits)
        from restoresD [OF assms b2(1)] holders Inr show ?thesis
          unfolding b2(2) by (auto simp: given_back_def drop_data_session_def Let_def)
      qed
    qed
  qed
qed

text \<open>A permit that is released after the body; a refused one leads to an error.\<close>

lemma restores_tunnel_permit:
  assumes laws: "semaphore_laws (env_semaphore env)" and body: "restores (env_semaphore env) body"
  shows "restores (env_semaphore env) (with_tunnel_permit env body)"
proof (rule restoresI)
  fix b x b' assume run: "with_tunnel_permit env body b = (Some x, b')"
  let ?ops = "env_semaphore env"
  obtain res out sem m where a: "acquire_active_tunnel_permit ?ops TUNNEL_ACQUIRE_TIMEOUT (b_tunnel_semaphore b) (b_metrics b) = (res, out, sem, m)"
    by (metis prod_cases4)
  obtain o' where o': "sem_acquire ?ops TUNNEL_ACQUIRE_TIMEOUT (b_tunnel_semaphore b) = (o', sem)"
    and out: "out = (if o' = Elapsed then [CIRCUIT_CAPACITY_RESPONSE] else [])" and res: "res = (case o' of Permit \<Rightarrow> Ok () | SemaphoreClosed \<Rightarrow> Err SlotSemaphoreClosed | Elapsed \<Rightarrow> Err SlotCapacityExceeded)"
    and m: "m = (b_metrics b)\<lparr>m_active_tunnels := m_active_tunnels (b_metrics b) + (if o' = Permit then 1 else 0),
            m_rejected_tunnels := m_rejected_tunnels (b_metrics b) + (if o' = Elapsed then 1 else 0)\<rparr>"
    by (rule tunnel_permit_outcome [OF a])
  let ?b = "b\<lparr>b_tunnel_semaphore := sem, b_metrics := m\<rparr>"
  show "given_back ?ops b b'"
  proof (cases "o' = Permit")
    case True
    then obtain b2 where b2: "body ?b = (Some x, b2)" "b' = drop_tunnel_permit env b2"
      using run a res out
      by (auto simp: with_tunnel_permit_def respond_all_def h_bind_def h_return_def h_guard_def split: prod.splits option.splits)
    from restoresD [OF body b2(1)] show ?thesis
      using semaphore_acquire_laws(2) [OF laws o' True] semaphore_other_laws [OF laws] True
      unfolding b2(2) m by (auto simp: given_back_def drop_tunnel_permit_def drop_active_tunnel_permit_def)
  next
    case False
    have refused: "restores ?ops (h_bind (respond_all env out) (\<lambda>_.
          h_bind (finish_observation 503 ''capacity'') (\<lambda>_. h_fail (Slot_Error e))))" for e
      by (intro restores_intros)
    have kept: "given_back ?ops b ?b"
      using semaphore_acquire_laws [OF laws o'] m False by (simp add: given_back_def)
    obtain e where e: "h_bind (respond_all env out) (\<lambda>_.
          h_bind (finish_observation 503 ''capacity'') (\<lambda>_. h_fail (Slot_Error e))) ?b = (Some x, b')"
      using run a res False by (cases o') (auto simp: with_tunnel_permit_def)
    show ?thesis by (rule given_back_trans [OF kept restoresD [OF refused e]])
  qed
qed

text \<open>What every step of the loop keeps, the loop keeps.\<close>

lemma connect_loop_invariant:
  fixes st st' :: "('t, 'w) connect_state" and res :: "('d, ConnectFailure) result option"
  assumes "connect_loop tor new_token target isolation deadline attempts st = (res, st')" "I st"
    and "\<And>st. I st \<Longrightarrow> I (snd (stream_prefs new_token isolation st))"
    and "\<And>st. I st \<Longrightarrow> I (st\<lparr>cw_metrics := count_connect_timeout (cw_metrics st)\<rparr>)"
    and "\<And>st prefs outcome elapsed now w limit. I st
      \<Longrightarrow> \<exists>s :: ('t, 'w) connect_state. prefs = fst (stream_prefs new_token isolation s)
      \<Longrightarrow> I (st\<lparr>cw_now := now, cw_metrics := snd (attempt_result (outcome :: 'd tor_outcome) (record_build_latency elapsed (cw_metrics st))),
             cw_world := w, cw_attempts := cw_attempts st @ [(prefs, limit)]\<rparr>)"
    and "\<And>st. I st \<Longrightarrow> I (snd (prepare_retry new_token isolation st))"
    and "\<And>st now. I st \<Longrightarrow> I (st\<lparr>cw_now := now\<rparr>)"
  shows "I st'"
  using assms(1,2)
proof (induction attempts arbitrary: st)
  case (Cons attempt attempts)
  obtain prefs st1 where p: "stream_prefs new_token isolation st = (prefs, st1)" by fastforce
  have I1: "I st1" using assms(3) [OF Cons.prems(2)] p by simp
  show ?case
  proof (cases "deadline - cw_now st1 = 0")
    case True
    then show ?thesis using Cons.prems(1) p assms(4) [OF I1] by auto
  next
    case False
    let ?limit = "if attempt = 0 then (deadline - cw_now st1) div 2 else deadline - cw_now st1"
    obtain outcome elapsed w where t: "tor target prefs ?limit (cw_world st1) = (outcome, elapsed, w)" by (metis prod_cases3)
    obtain r m where a: "attempt_result outcome (record_build_latency elapsed (cw_metrics st1)) = (r, m)" by fastforce
    define st2 where "st2 = st1\<lparr>cw_now := cw_now st1 + elapsed, cw_metrics := m, cw_world := w,
                         cw_attempts := cw_attempts st1 @ [(prefs, ?limit)]\<rparr>"
    have I2: "I st2"
      using assms(5) [OF I1, where prefs = prefs and now = "cw_now st1 + elapsed" and outcome = outcome and elapsed = elapsed
          and w = w and limit = ?limit] p a unfolding st2_def by (metis fst_conv snd_conv)
    obtain backoff st3 where pr: "prepare_retry new_token isolation st2 = (backoff, st3)" by fastforce
    have I3: "I st3" using assms(6) [OF I2] pr by simp
    from Cons.prems(1) have "(case r of Inr stream \<Rightarrow> (Some (Ok stream), st2)
        | Inl failure \<Rightarrow> if attempt = 1 \<or> \<not> retryable failure then (Some (Err failure), st2)
            else if deadline - cw_now st3 \<le> backoff then (Some (Err failure), st3)
            else connect_loop tor new_token target isolation deadline attempts (st3\<lparr>cw_now := cw_now st3 + backoff\<rparr>)) = (res, st')"
      using False p t a pr unfolding st2_def by (cases r) (auto simp: Let_def split: if_splits)
    then show ?thesis
      using I2 I3 Cons.IH [OF _ assms(7) [OF I3, of "cw_now st3 + backoff"]] by (auto split: sum.splits if_splits)
  qed
qed (use assms(2) in simp)

lemma connect_loop_gauges:
  assumes "connect_loop tor new_token target isolation deadline attempts st = (res, st')"
  shows "m_active_tunnels (cw_metrics st') = m_active_tunnels (cw_metrics st)
     \<and> m_queued_tunnels (cw_metrics st') = m_queued_tunnels (cw_metrics st)
     \<and> m_queued_circuit_builds (cw_metrics st') = m_queued_circuit_builds (cw_metrics st)"
  by (rule connect_loop_invariant [OF assms])
    (auto simp: stream_prefs_def attempt_result_def record_build_latency_def record_arti_failure_def count_connect_timeout_def
      prepare_retry_def Let_def split: prod.splits tor_outcome.splits)

text \<open>The attempts isolate every stream exactly in strict mode.\<close>

lemma connect_loop_prefs:
  fixes st :: "('t, 'w) connect_state"
  assumes "connect_loop tor new_token target isolation deadline attempts st = (res, st')" "cw_attempts st = []"
  shows "\<forall>a\<in>set (cw_attempts st'). fst a = Isolate_Every_Stream \<longleftrightarrow> resolved_strict isolation"
proof -
  have kind: "fst (stream_prefs new_token isolation s) = Isolate_Every_Stream \<longleftrightarrow> resolved_strict isolation"
    for s :: "('t, 'w) connect_state" by (simp add: stream_prefs_def split: prod.splits)
  show ?thesis
    by (rule connect_loop_invariant [OF assms(1)])
      (use assms(2) kind in \<open>auto simp: prepare_retry_fields(2) [OF prod.collapse [symmetric]]
        stream_prefs_fields(2) [OF prod.collapse [symmetric]]\<close>)
qed

lemma tor_connect_outcome:
  fixes b b' :: "('s, 't, 'l, 'w, 'a, 'p) bridge"
  assumes "tor_connect env target isolation b = (r, b')"
  obtains res st where "connect_with_retry (env_tor env) (env_new_token env) target isolation
      \<lparr>cw_now = max (b_now b) (env_clock env (b_world b)), cw_tokens = b_tokens b, cw_metrics = b_metrics b,
       cw_world = b_world b, cw_attempts = []\<rparr> = (res, st)" "r = map_option Ok res"
    "b' = b\<lparr>b_now := cw_now st, b_tokens := cw_tokens st, b_metrics := cw_metrics st,
        b_world := cw_world st, b_trace := b_trace b @ map (\<lambda>(prefs, _). Tor_Attempt target prefs) (cw_attempts st)\<rparr>"
proof (cases "connect_with_retry (env_tor env) (env_new_token env) target isolation
      \<lparr>cw_now = max (b_now b) (env_clock env (b_world b)), cw_tokens = b_tokens b, cw_metrics = b_metrics b,
       cw_world = b_world b, cw_attempts = []\<rparr>")
  case (Pair res st)
  with assms show thesis by (intro that) (auto simp: tor_connect_def h_bind_def h_now_def Let_def)
qed

lemma restores_tor_connect: "restores ops (tor_connect env target isolation)"
proof (rule restoresI)
  fix b r b' assume run: "tor_connect env target isolation b = (Some r, b')"
  show "given_back ops b b'"
    by (rule tor_connect_outcome [OF run]) (auto simp: given_back_def connect_with_retry_def simp del: connect_loop.simps dest!: connect_loop_gauges)
qed

lemma restores_connect_with_permit:
  assumes laws: "semaphore_laws (env_semaphore env)"
  shows "restores (env_semaphore env) (connect_with_permit env target isolation)"
proof (rule restoresI)
  fix b x b' assume run: "connect_with_permit env target isolation b = (Some x, b')"
  let ?ops = "env_semaphore env"
  obtain res out sem m where a: "acquire_circuit_permit ?ops CIRCUIT_ACQUIRE_TIMEOUT (b_circuit_semaphore b) (b_metrics b) = (res, out, sem, m)"
    by (metis prod_cases4)
  obtain o' where o': "sem_acquire ?ops CIRCUIT_ACQUIRE_TIMEOUT (b_circuit_semaphore b) = (o', sem)"
    and out: "out = (if o' = Permit then [] else [CIRCUIT_CAPACITY_RESPONSE])"
    and res: "res = (case o' of Permit \<Rightarrow> Ok () | SemaphoreClosed \<Rightarrow> Err SlotSemaphoreClosed | Elapsed \<Rightarrow> Err SlotCapacityExceeded)"
    and m: "m = (b_metrics b)\<lparr>m_acquire_timeouts := m_acquire_timeouts (b_metrics b) + (if o' = Elapsed then 1 else 0)\<rparr>"
    by (rule circuit_permit_outcome [OF a])
  let ?b = "b\<lparr>b_circuit_semaphore := sem, b_metrics := m\<rparr>"
  show "given_back ?ops b b'"
  proof (cases "o' = Permit")
    case True
    then obtain b2 where b2: "tor_connect env target isolation ?b = (Some x, b2)"
        "b' = b2\<lparr>b_circuit_semaphore := sem_release ?ops (b_circuit_semaphore b2)\<rparr>"
      using run a res out
      by (auto simp: connect_with_permit_def respond_all_def h_bind_def h_return_def h_guard_def split: prod.splits option.splits)
    from restoresD [OF restores_tor_connect b2(1), of ?ops] show ?thesis
      using semaphore_acquire_laws(2) [OF laws o' True] semaphore_other_laws [OF laws]
      unfolding b2(2) m by (auto simp: given_back_def)
  next
    case False
    have refused: "restores ?ops (h_bind (respond_all env out) (\<lambda>_.
          h_bind (finish_observation 503 ''circuit_capacity'') (\<lambda>_. h_fail (Slot_Error e))))" for e
      by (intro restores_intros)
    have kept: "given_back ?ops b ?b"
      using semaphore_acquire_laws [OF laws o'] m False by (simp add: given_back_def)
    obtain e where e: "h_bind (respond_all env out) (\<lambda>_.
          h_bind (finish_observation 503 ''circuit_capacity'') (\<lambda>_. h_fail (Slot_Error e))) ?b = (Some x, b')"
      using run a res False by (cases o') (auto simp: connect_with_permit_def)
    show ?thesis by (rule given_back_trans [OF kept restoresD [OF refused e]])
  qed
qed

lemma restores_answer: "restores ops (answer_connect env key res)"
  unfolding answer_connect_def breaker_failure_def
  by (auto intro!: restores_intros split: sum.splits ConnectFailure.splits)

lemma session_allow_holders: "dl_holders (snd (session_allow n s l)) = dl_holders l"
  by (simp add: session_allow_def split: prod.splits)

lemma copy_allowance_holders:
  "dl_holders (cs_limiter (snd (copy_allowance n sh))) = dl_holders (cs_limiter sh)"
  using session_allow_holders [of "of_nat n" _ "cs_limiter sh"]
  by (auto simp: copy_allowance_def split: option.splits prod.splits) (metis snd_conv)

lemma copy_step_holders: "dl_holders (cs_limiter (snd (copy_step d ev x sh))) = dl_holders (cs_limiter sh)"
proof -
  have "dl_holders (cs_limiter (snd (copy_read bs x sh))) = dl_holders (cs_limiter sh)" for bs
    using copy_allowance_holders [of "length bs" sh]
    by (auto simp: copy_read_def Let_def split: prod.splits sum.splits CustomerDataAdmissionError.splits)
  then show ?thesis
    by (auto simp: copy_step.simps copy_flushed_def Let_def split: copy_phase.splits copy_event.splits sum.splits)
qed

lemma checkpoint_limiter:
  "cs_limiter (tc_shared (snd (checkpoint_customer_data_session worker t))) = cs_limiter (tc_shared t)"
  by (simp add: checkpoint_customer_data_session_def split: option.splits prod.splits)

lemma copy_direction_holders:
  "dl_holders (cs_limiter (tc_shared (copy_direction d e t))) = dl_holders (cs_limiter (tc_shared t))"
  using copy_step_holders [of ToTor e "tc_to t" "tc_shared t"] copy_step_holders [of FromTor e "tc_from t" "tc_shared t"]
  by (auto simp: copy_direction_def split: CustomerDataDirection.splits prod.splits simp del: copy_step.simps)

lemma checkpointing_limiter:
  "cs_limiter (tc_shared (checkpoint_and_continue worker t)) = cs_limiter (tc_shared t)"
  "cs_limiter (tc_shared (checkpoint_and_return worker res t)) = cs_limiter (tc_shared t)"
  using checkpoint_limiter [of worker t]
  by (auto simp: checkpoint_and_continue_def checkpoint_and_return_def split: prod.splits sum.splits)

lemma select_holders:
  "dl_holders (cs_limiter (tc_shared (select_limited idle ev t))) = dl_holders (cs_limiter (tc_shared t))"
  "dl_holders (cs_limiter (tc_shared (select_idle idle ev t))) = dl_holders (cs_limiter (tc_shared t))"
  by (auto simp: copy_direction_holders checkpointing_limiter activity_seen_def elsewhere_def session_allow_holders Let_def
      split: tunnel_event.splits option.splits)

lemma copy_holders:
  "dl_holders (cs_limiter (tc_shared (copy_bidirectional_with_customer_data_limit now idle to fr s l c evs))) = dl_holders l"
  "dl_holders (cs_limiter (tc_shared (copy_bidirectional_with_idle_timeout_and_counters now idle to fr l c evs))) = dl_holders l"
proof -
  have "dl_holders (cs_limiter (tc_shared (fold (select_limited idle) es t))) = dl_holders (cs_limiter (tc_shared t))"
    "dl_holders (cs_limiter (tc_shared (fold (select_idle idle) es t))) = dl_holders (cs_limiter (tc_shared t))" for es t
    by (induction es arbitrary: t) (simp_all del: select_limited.simps select_idle.simps add: select_holders)
  then show
    "dl_holders (cs_limiter (tc_shared (copy_bidirectional_with_customer_data_limit now idle to fr s l c evs))) = dl_holders l"
    "dl_holders (cs_limiter (tc_shared (copy_bidirectional_with_idle_timeout_and_counters now idle to fr l c evs))) = dl_holders l"
    by (simp_all add: copy_bidirectional_with_customer_data_limit_def
        copy_bidirectional_with_idle_timeout_and_counters_def tunnel_copy_new_def)
qed

lemma restores_allowance:
  "restores ops (buffered_allowance n session :: (('s, 't, 'l, 'w, 'a, 'p) bridge, _) handler)"
proof (rule restoresI)
  fix r and b b' :: "('s, 't, 'l, 'w, 'a, 'p) bridge"
  assume "buffered_allowance n session b = (Some r, b')"
  then show "given_back ops b b'"
    using session_allow_holders [of "of_nat n" "the session" "b_limiter b"]
    by (auto simp: buffered_allowance_def given_back_def split: option.splits prod.splits)
qed

lemma restores_finish_tunnel: "restores ops (finish_tunnel res)"
  unfolding finish_tunnel_def by (auto intro!: restores_intros split: sum.splits)

lemma restores_run_tunnel: "restores ops (run_tunnel env stream data session)"
proof -
  have "restores ops (checkpoint_session env s)" for s
    by (intro restoresI) (auto simp: checkpoint_session_def given_back_def split: option.splits prod.splits)
  then have "restores ops (forward_buffered env stream data session)"
    unfolding forward_buffered_def Let_def
    by (auto intro!: restores_intros restores_allowance split: sum.splits CustomerDataAdmissionError.splits)
  moreover have "restores ops (copy_tunnel env stream s)" for s
    unfolding copy_tunnel_def
    by (intro restores_bind restores_basic restoresI)
      (auto simp: given_back_def copied_counters_def copy_holders Let_def split: prod.splits option.splits)
  ultimately show ?thesis
    unfolding run_tunnel_def by (intro restores_bind restores_finish_tunnel)
qed

lemma restores_connect_request:
  assumes "semaphore_laws (env_semaphore env)"
  shows "restores (env_semaphore env) (handle_connect_request env dest request data public scope)"
proof -
  let ?ops = "env_semaphore env"
  have "restores ?ops (connect_and_copy env target key request data public scope session)" for target key session
    unfolding connect_and_copy_def
    by (intro restores_bind restores_isolation restores_connect_with_permit restores_answer restores_run_tunnel assms)
  then have body: "restores ?ops (connect_request_body env dest request data public scope)"
    unfolding connect_request_body_def
    by (auto intro!: restores_bind restores_admit_destination restores_account_tunnel restores_data_session
        restores_tunnel_permit assms)
  have "restores ?ops (h_guard (drop_observation env) (connect_request_body env dest request data public scope))"
  proof (rule restoresI)
    fix b r b' assume "h_guard (drop_observation env) (connect_request_body env dest request data public scope) b = (Some r, b')"
    then obtain b1 where b1: "connect_request_body env dest request data public scope b = (Some r, b1)" "b' = drop_observation env b1"
      by (auto simp: h_guard_def split: prod.splits option.splits)
    from restoresD [OF body b1(1)] show "given_back ?ops b b'"
      unfolding b1(2) by (auto simp: given_back_def drop_observation_def drop_tunnel_observation_def record_request_def Let_def)
  qed
  moreover have "restores ?ops (h_modify (\<lambda>b. b\<lparr>b_observation := obs\<rparr>))" for obs
    by (intro restoresI) (auto simp: h_modify_def given_back_def)
  ultimately show ?thesis
    unfolding handle_connect_request_def by (intro restores_bind restores_basic)
qed

section \<open>A demonstration\<close>

text \<open>
  A bridge in which the demonstration account asks for a destination that refuses the connection.
\<close>

definition demo_env :: "(nat \<times> bool, nat, unit, unit, string, nat, string) bridge_env" where
  "demo_env = \<lparr>env_clock = (\<lambda>_. 7), env_parse_authority = demo_authority, env_tor_addr = Ok,
     env_tor = (\<lambda>target prefs limit w. (Stream_Failed RemoteConnectionRefused, min limit 5, w)),
     env_new_token = id, env_semaphore = counting_semaphore, env_request_limiter = (\<lambda>_. ()),
     env_limiter_check = (\<lambda>l. (None, l)), env_tenant_hash = (\<lambda>s. s), env_std_decode = Some, env_key_hash = (\<lambda>s. s),
     env_http_parse = sample_parser, env_usage_period = 3600, env_system_time = (\<lambda>_. Some 100), env_authenticated = True, env_worker = (\<lambda>w. (None, w)),
     env_read_client = (\<lambda>n w. (Ok [], w)), env_first_request_elapsed = (\<lambda>_ _. False),
     env_write_client = (\<lambda>_ w. (Ok (), w)), env_write_tor = (\<lambda>_ _ w. (Ok (), w)), env_flush_tor = (\<lambda>_ w. (Ok (), w)),
     env_tunnel_events = (\<lambda>_ w. ([], w)), env_connect_pingora = (\<lambda>w. (Ok (), w)), env_local_addr = (\<lambda>w. (Ok 0, w)),
     env_write_pingora = (\<lambda>_ w. (Ok (), w)), env_pingora_events = (\<lambda>w. ([], w))\<rparr>"

definition demo_account_scope :: AccountRequestScope where
  "demo_account_scope = \<lparr>scope_identity = demo_identity, scope_period_start = UnixTimestamp 0\<rparr>"

definition demo_bridge :: "(nat \<times> bool, nat, unit, unit, string, nat) bridge" where
  "demo_bridge = \<lparr>b_now = 0, b_metrics = CircuitMetrics_default, b_tokens = example_store, b_id_counter = 1,
     b_breaker = \<lparr>cb_entries = [], cb_capacity = 4, cb_failure_threshold = 5, cb_cooldown = 30\<rparr>,
     b_tunnel_semaphore = (256, False), b_circuit_semaphore = (32, False),
     b_admission = \<lparr>states = [], max_cached_accounts = 4, sequence = 1, states_poisoned = False,
       heap = (\<lambda>_. AccountAdmissionState_new (\<lambda>_. ()) demo_limits 0), fresh_ref = 0, calls = {#}, guards = {#}\<rparr>,
     b_limiter = demo_limiter, b_db = demo_connection,
     b_identities = \<lparr>reg_entries = [(''lease'', demo_account_scope)], reg_capacity = 4, reg_poisoned = False\<rparr>,
     b_downstream = \<lparr>ds_entries = [], ds_capacity = 4, ds_sequence = 1, ds_poisoned = False\<rparr>,
     b_world = (), b_observation = TunnelObservation_new 0 False, b_trace = []\<rparr>"

definition strict_request :: IsolationRequest where
  "strict_request = \<lparr>request_identity = None, request_strict = True\<rparr>"

lemma demo_host: "normalized_host ''cdn.example'' = ''cdn.example''" "connect_host_allowed ''cdn.example''"
  by (simp_all add: normalized_host_def trim_end_matches_def trim_start_matches_def to_ascii_lowercase_def ascii_lower_def ascii_defs byte_def
      connect_host_allowed_def local_name_def ends_with_def parse_name)

lemma demo_destination:
  "parse_connect_destination demo_authority Ok ''cdn.example:443'' = Ok ''cdn.example:443''"
  "canonical_connect_destination_key demo_authority ''cdn.example:443'' = Ok (host_and_port ''cdn.example'' 443)"
  "connect_destination_allowed demo_authority ''cdn.example:443'' = Ok True"
  by (simp_all add: parse_connect_destination_def canonical_connect_destination_key_def connect_destination_allowed_def
      demo_authority_def nonzero_port_def and_then_def demo_host)

definition demo_request :: "(unit, bridge_error) result option \<times> (nat \<times> bool, nat, unit, unit, string, nat) bridge" where
  "demo_request = handle_connect_request demo_env ''cdn.example:443'' strict_request [] True (Some demo_account_scope) demo_bridge"

lemmas demo_evaluation = demo_env_def demo_bridge_def handle_connect_request_def connect_request_body_def
  h_bind_def h_now_def h_modify_def h_guard_def h_return_def h_fail_def h_io_def
  admit_destination_def demo_destination breaker_allow_def allow_at_def with_account_tunnel_def demo_account_scope_def
  try_acquire_tunnel_def state_for_def state_for_locked_def insert_state_def AccountAdmissionState_new_def current_limits_def
  with_data_session_def open_customer_data_session_def on_worker_def with_tunnel_permit_def
  acquire_active_tunnel_permit_def tunnel_wait_over_def unqueue_tunnel_def queue_tunnel_def counting_semaphore_def
  respond_all_def connect_and_copy_def resolve_request_isolation_def TenantIsolationHasher_resolve_def strict_request_def
  connect_with_permit_def acquire_circuit_permit_def circuit_wait_over_def queue_circuit_def unqueue_circuit_def
  tor_connect_def connect_with_retry_def stream_prefs_def attempt_result_def retryable_def TOR_CONNECT_TIMEOUT_def secs_def
  answer_connect_def breaker_failure_def on_breaker_def write_client_def finish_observation_def observation_finish_def
  drop_observation_def drop_tunnel_permit_def drop_active_tunnel_permit_def drop_data_session_def drop_account_guard_def
  TunnelObservation_new_def demo_limits_def

lemma demo_opens:
  obtains s l c where "limiter_open_session demo_identity (UnixTimestamp 0) demo_limiter demo_connection = (Ok s, l, c)"
proof -
  obtain c' where "persisted_bytes (AccountId 1) (UnixTimestamp 0) demo_connection = (Ok 0, c')"
    using demo_persisted by blast
  then show thesis
    by (intro that) (simp add: limiter_open_session_def period_state_for_def demo_limiter_def demo_identity_def demo_limits_def evict_period_def
        insert_period_def period_ensure_available_def CustomerPeriodUsage_new_def)
qed

lemma demo_identity_sel: "identity_account_id demo_identity = AccountId 1" "identity_limits demo_identity = demo_limits"
  by (simp_all add: demo_identity_def)

lemma demo_request_run:
  "fst demo_request = Some (Err (Bail ''Tor connection failed''))"
  "b_trace (snd demo_request) = [Tor_Attempt ''cdn.example:443'' Isolate_Every_Stream, Wrote_Client BAD_GATEWAY_RESPONSE,
     Request_Recorded ''CONNECT'' 502, Tunnel_Logged 502 ''connection_refused'']"
proof -
  obtain s l c where o': "limiter_open_session demo_identity (UnixTimestamp 0) demo_limiter demo_connection = (Ok s, l, c)"
    by (rule demo_opens)
  show "fst demo_request = Some (Err (Bail ''Tor connection failed''))"
    by (simp add: demo_request_def o' demo_identity_sel demo_evaluation Let_def)
  show "b_trace (snd demo_request) = [Tor_Attempt ''cdn.example:443'' Isolate_Every_Stream, Wrote_Client BAD_GATEWAY_RESPONSE,
     Request_Recorded ''CONNECT'' 502, Tunnel_Logged 502 ''connection_refused'']"
    by (simp add: demo_request_def o' demo_identity_sel demo_evaluation Let_def)
qed

text \<open>
  Property C12. A CONNECT tunnel leaves nothing behind: when its handler has returned, successfully or with
  any error, the gauges and the free permits of tunnels and circuit builds, the account's guards
  and active count, and the holders of the data counters are those of before.
\<close>

theorem connect_request_gives_back:
  assumes "semaphore_laws (env_semaphore env)"
    and "handle_connect_request env dest isolation_request data count_as_public_request account_scope b = (Some r, b')"
  shows "given_back (env_semaphore env) b b'"
  using restoresD [OF restores_connect_request [OF assms(1)] assms(2)] .

theorem connect_request_gives_back_witness:
  "semaphore_laws counting_semaphore \<and> fst demo_request = Some (Err (Bail ''Tor connection failed''))
   \<and> given_back counting_semaphore demo_bridge (snd demo_request)"
proof -
  have "handle_connect_request demo_env ''cdn.example:443'' strict_request [] True (Some demo_account_scope) demo_bridge
      = (Some (Err (Bail ''Tor connection failed'')), snd demo_request)"
    using demo_request_run(1) unfolding demo_request_def by (metis prod.collapse)
  moreover have "semaphore_laws (env_semaphore demo_env)" by (simp add: demo_env_def counting_semaphore_laws)
  ultimately have "given_back (env_semaphore demo_env) demo_bridge (snd demo_request)"
    by (intro connect_request_gives_back)
  then show ?thesis by (simp add: demo_env_def counting_semaphore_laws demo_request_run(1))
qed

end
