(* ===== verification/Bridge_Answers.thy ===== *)
theory Bridge_Answers
  imports Bridge_Connect
begin

text \<open>
  What a client of \<open>handle_connect_request\<close> sees, what is recorded about it, and what has to hold before
  the handler turns to Tor. \<open>did m b P\<close> relates the events a handler adds to the trace, its outcome and the
  observation; the functions of \<open>Bridge_Connect\<close> have one lemma each, and those of the \<open>with_\<dots>\<close> functions
  pass the property of their scope on.
\<close>

section \<open>One answer, one record\<close>

fun client_writes :: "('a, 't) bridge_event list \<Rightarrow> string list" where
  "client_writes [] = []"
| "client_writes (Wrote_Client bytes # es) = bytes # client_writes es"
| "client_writes (e # es) = client_writes es"

lemma client_writes_append [simp]: "client_writes (es @ es') = client_writes es @ client_writes es'"
  by (induction es rule: client_writes.induct) simp_all

fun peer_event :: "('a, 't) bridge_event \<Rightarrow> bool" where
  "peer_event (Wrote_Client bytes) = True"
| "peer_event (Tor_Attempt target prefs) = True"
| "peer_event e = False"

text \<open>\<open>did m P\<close>: whatever \<open>m\<close> did to the peers, the events, the outcome and the observation satisfy \<open>P\<close>.\<close>

definition did ::
    "(('s, 't, 'l, 'w, 'a, 'p) bridge, 'x) handler \<Rightarrow> ('s, 't, 'l, 'w, 'a, 'p) bridge
      \<Rightarrow> (('a, 't) bridge_event list \<Rightarrow> ('x, bridge_error) result option \<Rightarrow> TunnelObservation \<Rightarrow> bool) \<Rightarrow> bool" where
  "did m b P \<longleftrightarrow> h_run m b (\<lambda>r b'. \<exists>es. b_trace b' = b_trace b @ es \<and> list_all peer_event es
     \<and> obs_started (b_observation b') = obs_started (b_observation b)
     \<and> obs_count_as_public_request (b_observation b') = obs_count_as_public_request (b_observation b)
     \<and> P es r (b_observation b'))"

lemma didI:
  assumes "m b = (r, b')" "b_trace b' = b_trace b @ es" "list_all peer_event es"
    "obs_started (b_observation b') = obs_started (b_observation b)"
    "obs_count_as_public_request (b_observation b') = obs_count_as_public_request (b_observation b)"
    "P es r (b_observation b')"
  shows "did m b P"
  using assms by (auto simp: did_def h_run_def)

lemma didE:
  assumes "did m b P" "m b = (r, b')"
  obtains es where "b_trace b' = b_trace b @ es" "list_all peer_event es"
    "obs_started (b_observation b') = obs_started (b_observation b)"
    "obs_count_as_public_request (b_observation b') = obs_count_as_public_request (b_observation b)"
    "P es r (b_observation b')"
  using assms by (auto simp: did_def h_run_def)

lemma did_mono: "did m b P \<Longrightarrow> (\<And>es r obs. P es r obs \<Longrightarrow> Q es r obs) \<Longrightarrow> did m b Q"
  by (auto simp: did_def h_run_def split: prod.splits)

lemma did_bind:
  assumes "did m b P"
    and "\<And>es x b1. P es (Some (Ok x)) (b_observation b1) \<Longrightarrow> did (f x) b1 (\<lambda>es'. Q (es @ es'))"
    and "\<And>es e obs. P es (Some (Err e)) obs \<Longrightarrow> Q es (Some (Err e)) obs"
    and "\<And>es obs. P es None obs \<Longrightarrow> Q es None obs"
  shows "did (h_bind m f) b Q"
proof -
  obtain r b1 where r: "m b = (r, b1)" by fastforce
  show ?thesis
  proof (rule didE [OF assms(1) r])
    fix es assume es: "b_trace b1 = b_trace b @ es" "list_all peer_event es"
      "obs_started (b_observation b1) = obs_started (b_observation b)"
      "obs_count_as_public_request (b_observation b1) = obs_count_as_public_request (b_observation b)"
      "P es r (b_observation b1)"
    show ?thesis
    proof (cases r)
      case None
      then show ?thesis using r es assms(4) by (intro didI [of _ _ None b1]) (auto simp: h_bind_def)
    next
      case (Some y)
      show ?thesis
      proof (cases y)
        case (Inl e)
        then show ?thesis using r es Some assms(3) by (intro didI [of _ _ "Some (Err e)" b1]) (auto simp: h_bind_def)
      next
        case (Inr x)
        obtain r2 b2 where r2: "f x b1 = (r2, b2)" by fastforce
        have d: "did (f x) b1 (\<lambda>es'. Q (es @ es'))" using es(5) Some Inr by (intro assms(2)) simp
        show ?thesis
        proof (rule didE [OF d r2])
          fix es' assume es': "b_trace b2 = b_trace b1 @ es'" "list_all peer_event es'"
            "obs_started (b_observation b2) = obs_started (b_observation b1)"
            "obs_count_as_public_request (b_observation b2) = obs_count_as_public_request (b_observation b1)"
            "Q (es @ es') r2 (b_observation b2)"
          have "h_bind m f b = (r2, b2)" using r r2 Some Inr by (simp add: h_bind_def)
          then show ?thesis by (rule didI [where es = "es @ es'"]) (simp_all add: es es')
        qed
      qed
    qed
  qed
qed

lemma did_guard:
  assumes "did m b P" "\<And>b. b_trace (release b) = b_trace b" "\<And>b. b_observation (release b) = b_observation b"
  shows "did (h_guard release m) b P"
  using assms by (auto simp: did_def h_run_def h_guard_def split: prod.splits option.splits)

text \<open>Steps that neither write to the client nor touch the observation.\<close>

definition silent :: "(('s, 't, 'l, 'w, 'a, 'p) bridge, 'x) handler \<Rightarrow> bool" where
  "silent m \<longleftrightarrow> (\<forall>b. did m b (\<lambda>es r obs. client_writes es = [] \<and> obs = b_observation b))"

lemma silentI:
  "(\<And>b r b'. m b = (r, b') \<Longrightarrow> b_trace b' = b_trace b \<and> b_observation b' = b_observation b) \<Longrightarrow> silent m"
  unfolding silent_def by (auto intro!: didI [where es = "[]"] simp: prod_eq_iff)

lemma did_silent: "silent m \<Longrightarrow> did m b (\<lambda>es r obs. client_writes es = [] \<and> obs = b_observation b)"
  by (simp add: silent_def)

lemma did_silent_bind:
  fixes b :: "('s, 't, 'l, 'w, 'a, 'p) bridge"
  assumes "silent m" "\<And>x b1 :: ('s, 't, 'l, 'w, 'a, 'p) bridge. b_observation b1 = b_observation b \<Longrightarrow> did (f x) b1 P"
    and "\<And>es es' r obs. P es r obs \<Longrightarrow> client_writes es' = [] \<Longrightarrow> P (es' @ es) r obs"
    and "\<And>es e. client_writes es = [] \<Longrightarrow> P es (Some (Err e)) (b_observation b)"
    and "\<And>es. client_writes es = [] \<Longrightarrow> P es None (b_observation b)"
  shows "did (h_bind m f) b P"
proof (rule did_bind [OF did_silent [OF assms(1)]])
  fix es :: "('a, 't) bridge_event list" and x and b1 :: "('s, 't, 'l, 'w, 'a, 'p) bridge"
  assume *: "client_writes es = [] \<and> b_observation b1 = b_observation b"
  then have "did (f x) b1 P" by (intro assms(2)) simp
  then show "did (f x) b1 (\<lambda>es'. P (es @ es'))" by (rule did_mono) (use * assms(3) in blast)
qed (use assms(4,5) in auto)

lemma silent_basic:
  "silent (h_return x)" "silent (h_fail e)" "silent (h_io op)" "silent (on_metrics g)" "silent (h_now env)" "silent (on_breaker h)"
  by (rule silentI; auto simp: h_return_def h_fail_def h_io_def on_metrics_def h_modify_def h_now_def on_breaker_def Let_def
      split: prod.splits)+

lemma silent_bind: "silent m \<Longrightarrow> (\<And>x. silent (f x)) \<Longrightarrow> silent (h_bind m f)"
  unfolding silent_def [of "h_bind m f"]
  by (intro allI did_silent_bind) (auto intro: did_mono [OF did_silent])

lemma h_run_prims:
  "h_run (finish_observation status error_class) b Q = Q (Some (Ok ())) (b\<lparr>b_observation := observation_finish status error_class (b_observation b)\<rparr>)"
  "h_run (on_metrics g) b Q = Q (Some (Ok ())) (b\<lparr>b_metrics := g (b_metrics b)\<rparr>)"
  "h_run (on_breaker h) b Q = Q (Some (Ok ())) (b\<lparr>b_breaker := h (b_breaker b)\<rparr>)"
  "h_run (h_now env) b QN = (let now = max (b_now b) (env_clock env (b_world b)) in QN (Some (Ok now)) (b\<lparr>b_now := now\<rparr>))"
  "h_run (h_io op) b Q = Q (Some (map_err Io_Error (fst (op (b_world b))))) (b\<lparr>b_world := snd (op (b_world b))\<rparr>)"
  "h_run (write_client env bytes) b Q = Q (Some (map_err Io_Error (fst (env_write_client env bytes (b_world b)))))
     (b\<lparr>b_trace := b_trace b @ [Wrote_Client bytes], b_world := snd (env_write_client env bytes (b_world b))\<rparr>)"
  "h_run (respond env bytes) b Q = Q (Some (Ok ()))
     (b\<lparr>b_trace := b_trace b @ [Wrote_Client bytes], b_world := snd (env_write_client env bytes (b_world b))\<rparr>)"
  by (simp_all add: h_run_def finish_observation_def on_metrics_def on_breaker_def h_modify_def h_now_def h_io_def
      write_client_def respond_def h_bind_def Let_def split: prod.splits)

lemma did_respond:
  "did (respond env bytes) b (\<lambda>es r obs. es = [Wrote_Client bytes] \<and> r = Some (Ok ()) \<and> obs = b_observation b)"
  by (simp add: did_def h_run_prims)

lemma did_reject:
  "did (reject env status error_class counter bytes e) b (\<lambda>es r obs. es = [Wrote_Client bytes] \<and> r = Some (Err e)
     \<and> obs_status obs = status \<and> obs_error_class obs = error_class)"
  by (simp add: did_def reject_def h_run_prims observation_finish_def)

lemma silent_tor_connect:
  fixes env :: "('s, 't, 'l, 'w, 'a, 'p, 'd) bridge_env"
  shows "silent (tor_connect env target isolation)"
  unfolding silent_def
proof
  fix b :: "('s, 't, 'l, 'w, 'a, 'p) bridge"
  obtain r b' where run: "tor_connect env target isolation b = (r, b')" by fastforce
  have "list_all peer_event (map (\<lambda>(prefs, _). Tor_Attempt target prefs) as)
      \<and> client_writes (map (\<lambda>(prefs, _). Tor_Attempt target prefs) as) = []" for as :: "('t StreamPrefs \<times> nat) list"
    by (induction as) auto
  then show "did (tor_connect env target isolation) b (\<lambda>es r obs. client_writes es = [] \<and> obs = b_observation b)"
    by (rule_tac tor_connect_outcome [OF run]) (rule didI [where r = r and b' = b'], rule run, auto)
qed

lemma silent_others:
  "silent (breaker_allow env key)" "silent (resolve_request_isolation env scope public key request)"
  "silent (buffered_allowance n session)" "silent (checkpoint_session env session)" "silent (copy_tunnel env stream session)"
  by (rule silentI; auto simp: breaker_allow_def h_bind_def h_now_def resolve_request_isolation_def buffered_allowance_def
      checkpoint_session_def copy_tunnel_def Let_def split: prod.splits option.splits)+

text \<open>After the tunnel is established: nothing but the tunnel goes to the client, and the status stays 200.\<close>

definition stays :: "(TunnelObservation \<Rightarrow> bool) \<Rightarrow> (('s, 't, 'l, 'w, 'a, 'p) bridge, 'x) handler \<Rightarrow> bool" where
  "stays I m \<longleftrightarrow> (\<forall>b. I (b_observation b) \<longrightarrow> did m b (\<lambda>es r obs. client_writes es = [] \<and> I obs))"

lemma stays_silent: "silent m \<Longrightarrow> stays I m"
  unfolding stays_def by (auto intro: did_mono [OF did_silent])

lemmas stays_basic = silent_basic [THEN stays_silent] silent_others [THEN stays_silent]

lemma stays_bind:
  fixes m :: "(('s, 't, 'l, 'w, 'a, 'p) bridge, 'x) handler"
  shows "stays I m \<Longrightarrow> (\<And>x. stays I (f x)) \<Longrightarrow> stays I (h_bind m f)"
  unfolding stays_def [of I "h_bind m f"]
proof (intro allI impI)
  fix b :: "('s, 't, 'l, 'w, 'a, 'p) bridge"
  assume m: "stays I m" and f: "\<And>x. stays I (f x)" and I: "I (b_observation b)"
  show "did (h_bind m f) b (\<lambda>es r obs. client_writes es = [] \<and> I obs)"
  proof (rule did_bind)
    show "did m b (\<lambda>es r obs. client_writes es = [] \<and> I obs)" using m I by (simp add: stays_def)
  next
    fix es :: "('a, 't) bridge_event list" and x and b1 :: "('s, 't, 'l, 'w, 'a, 'p) bridge"
    assume "client_writes es = [] \<and> I (b_observation b1)"
    with f [of x] show "did (f x) b1 (\<lambda>es' r obs. client_writes (es @ es') = [] \<and> I obs)" by (simp add: stays_def)
  qed auto
qed

abbreviation "open_tunnel obs \<equiv> obs_status obs = 200 \<and> obs_error_class obs \<noteq> ''none''"

lemma stays_finish: "error_class \<noteq> ''none'' \<Longrightarrow> stays open_tunnel (finish_observation 200 error_class)"
  by (simp add: stays_def did_def h_run_prims observation_finish_def)

lemma stays_forward_buffered: "stays open_tunnel (forward_buffered env stream data session)"
  unfolding forward_buffered_def Let_def
  by (auto intro!: stays_bind stays_finish stays_basic
      split: sum.splits CustomerDataAdmissionError.splits)

lemma did_finish_tunnel:
  "did (finish_tunnel res) b (\<lambda>es r obs. client_writes es = [] \<and> obs_status obs = 200
     \<and> (case res of Inr _ \<Rightarrow> r = Some (Ok ()) \<and> obs_error_class obs = ''none''
         | Inl e \<Rightarrow> r = Some (Err (Io_Error e)) \<and> obs_error_class obs \<noteq> ''none''))"
  by (auto simp: did_def finish_tunnel_def h_run_prims observation_finish_def split: sum.splits)

lemma did_run_tunnel:
  fixes b :: "('s, 't, 'l, 'w, 'a, 'p) bridge"
  assumes "open_tunnel (b_observation b)"
  shows "did (run_tunnel env stream data session) b (\<lambda>es r obs. client_writes es = [] \<and> obs_status obs = 200
     \<and> (r \<noteq> None \<longrightarrow> (r = Some (Ok ()) \<longleftrightarrow> obs_error_class obs = ''none'')))"
  unfolding run_tunnel_def
proof (rule did_bind [where P = "\<lambda>es r obs. client_writes es = [] \<and> open_tunnel obs"])
  show "did (forward_buffered env stream data session) b (\<lambda>es r obs. client_writes es = [] \<and> open_tunnel obs)"
    using stays_forward_buffered [of env stream data session] assms unfolding stays_def by blast
next
  fix es :: "('a, 't) bridge_event list" and x and b1 :: "('s, 't, 'l, 'w, 'a, 'p) bridge"
  assume b1: "client_writes es = [] \<and> open_tunnel (b_observation b1)"
  show "did (h_bind (copy_tunnel env stream x) finish_tunnel) b1 (\<lambda>es' r obs. client_writes (es @ es') = [] \<and> obs_status obs = 200
     \<and> (r \<noteq> None \<longrightarrow> (r = Some (Ok ()) \<longleftrightarrow> obs_error_class obs = ''none'')))"
    by (rule did_silent_bind [OF silent_others(5)])
      (use b1 in \<open>auto intro!: did_mono [OF did_finish_tunnel] split: sum.splits\<close>)
qed auto

text \<open>The answer to a request: the bytes written, the result and the observation agree.\<close>

definition answered :: "string list \<Rightarrow> (unit, bridge_error) result \<Rightarrow> TunnelObservation \<Rightarrow> bool" where
  "answered ws r obs \<longleftrightarrow>
     (case ws of
        [] \<Rightarrow> obs_status obs = 503 \<and> r = Err (Slot_Error SlotSemaphoreClosed)
      | [w] \<Rightarrow> obs_status obs = status_of w
               \<or> w = CONNECTION_ESTABLISHED \<and> obs_status obs = 500 \<and> (\<exists>e. r = Err (Io_Error e))
      | _ \<Rightarrow> False)
     \<and> (r = Ok () \<longleftrightarrow> obs_error_class obs = ''none'')"

definition fresh_observation :: "TunnelObservation \<Rightarrow> bool" where
  "fresh_observation obs \<longleftrightarrow> obs_status obs = 500 \<and> obs_error_class obs = ''internal''"

definition answers :: "(('s, 't, 'l, 'w, 'a, 'p) bridge, unit) handler \<Rightarrow> bool" where
  "answers m \<longleftrightarrow> (\<forall>b. fresh_observation (b_observation b) \<longrightarrow>
     did m b (\<lambda>es r obs. \<forall>x. r = Some x \<longrightarrow> answered (client_writes es) x obs))"

lemma answersD: "answers m \<Longrightarrow> fresh_observation (b_observation b) \<Longrightarrow>
    did m b (\<lambda>es r obs. \<forall>x. r = Some x \<longrightarrow> answered (client_writes es) x obs)"
  by (simp add: answers_def)

lemma answers_reject:
  assumes "status_of bytes = status" "error_class \<noteq> ''none''"
  shows "did (reject env status error_class counter bytes e) b (\<lambda>es r obs. \<forall>x. r = Some x \<longrightarrow> answered (client_writes es) x obs)"
  by (rule did_mono [OF did_reject]) (use assms in \<open>auto simp: answered_def\<close>)

lemma did_step:
  assumes "m b = (Some (Ok x), b1)" "b_trace b1 = b_trace b" "b_observation b1 = b_observation b" "did (f x) b1 P"
  shows "did (h_bind m f) b P"
  using assms by (auto simp: did_def h_run_def h_bind_def split: prod.splits)

lemma did_respond_all: "did (respond_all env out) b (\<lambda>es r obs. client_writes es = out \<and> r = Some (Ok ()) \<and> obs = b_observation b)"
proof -
  have "did (fold (\<lambda>bytes m. h_bind m (\<lambda>_. respond env bytes)) out m) b
      (\<lambda>es r obs. client_writes es = ws @ out \<and> r = Some (Ok ()) \<and> obs = b_observation b)"
    if "did m b (\<lambda>es r obs. client_writes es = ws \<and> r = Some (Ok ()) \<and> obs = b_observation b)" for m ws
    using that
  proof (induction out arbitrary: m ws)
    case (Cons w out)
    have "did (h_bind m (\<lambda>_. respond env w)) b (\<lambda>es r obs. client_writes es = ws @ [w] \<and> r = Some (Ok ()) \<and> obs = b_observation b)"
      by (rule did_bind [OF Cons.prems]) (auto intro: did_mono [OF did_respond])
    from Cons.IH [OF this] show ?case by simp
  qed simp
  from this [of "h_return ()" "[]"] show ?thesis by (simp add: respond_all_def did_def)
qed

text \<open>The outcome of waiting for a circuit and connecting.\<close>

definition connected :: "TunnelObservation \<Rightarrow> string list \<Rightarrow> ('x, bridge_error) result option \<Rightarrow> TunnelObservation \<Rightarrow> bool" where
  "connected obs0 ws r obs \<longleftrightarrow>
     (case r of
        None \<Rightarrow> True
      | Some (Inl e) \<Rightarrow> ws = [CIRCUIT_CAPACITY_RESPONSE] \<and> obs_status obs = 503 \<and> obs_error_class obs = ''circuit_capacity''
      | Some (Inr _) \<Rightarrow> ws = [] \<and> obs = obs0)"

lemma did_tor_connect:
  "did (tor_connect env target isolation) b (\<lambda>es r obs. connected (b_observation b) (client_writes es) r obs)"
proof -
  obtain r b' where run: "tor_connect env target isolation b = (r, b')" by fastforce
  have "\<forall>e. r \<noteq> Some (Err e)" by (rule tor_connect_outcome [OF run]) (metis map_option_eq_Some Inl_Inr_False)
  moreover have "did (tor_connect env target isolation) b (\<lambda>es r obs. client_writes es = [] \<and> obs = b_observation b)"
    by (rule did_silent [OF silent_tor_connect])
  ultimately show ?thesis
    by (auto simp: did_def h_run_def run connected_def split: option.splits sum.splits)
qed

lemma did_refuse:
  "did (h_bind (finish_observation status error_class) (\<lambda>_. h_fail e)) b (\<lambda>es r obs. es = [] \<and> r = Some (Err e)
     \<and> obs_status obs = status \<and> obs_error_class obs = error_class)"
  by (simp add: did_def h_run_prims observation_finish_def)

lemma did_connect_with_permit:
  "did (connect_with_permit env target isolation) b (\<lambda>es r obs. connected (b_observation b) (client_writes es) r obs)"
proof -
  obtain res out sem m where a: "acquire_circuit_permit (env_semaphore env) CIRCUIT_ACQUIRE_TIMEOUT (b_circuit_semaphore b) (b_metrics b) = (res, out, sem, m)"
    by (metis prod_cases4)
  obtain o' where out: "out = (if o' = Permit then [] else [CIRCUIT_CAPACITY_RESPONSE])"
    and res: "res = (case o' of Permit \<Rightarrow> Ok () | SemaphoreClosed \<Rightarrow> Err SlotSemaphoreClosed | Elapsed \<Rightarrow> Err SlotCapacityExceeded)"
    by (rule circuit_permit_outcome [OF a])
  let ?b = "b\<lparr>b_circuit_semaphore := sem, b_metrics := m\<rparr>"
  let ?release = "\<lambda>b. b\<lparr>b_circuit_semaphore := sem_release (env_semaphore env) (b_circuit_semaphore b)\<rparr>"
  have "did (h_bind (respond_all env out) (\<lambda>_. case res of
            Inr _ \<Rightarrow> h_guard ?release (tor_connect env target isolation)
          | Inl e \<Rightarrow> h_bind (finish_observation 503 ''circuit_capacity'') (\<lambda>_. h_fail (Slot_Error e)))) ?b
        (\<lambda>es r obs. connected (b_observation b) (client_writes es) r obs)"
    by (rule did_bind [OF did_respond_all], cases o')
      (auto simp: out res connected_def intro!: did_mono [OF did_refuse]
        did_mono [OF did_guard [OF did_tor_connect, where release = ?release]] split: option.splits sum.splits)
  then show ?thesis by (simp add: did_def h_run_def connect_with_permit_def a split: prod.splits)
qed

lemma arti_error_class_not_none: "arti_error_class kind \<noteq> ''none''"
  by (cases kind) simp_all

lemma did_answer_connect:
  assumes "fresh_observation (b_observation b)"
  shows "did (answer_connect env key res) b (\<lambda>es r obs. case r of
      None \<Rightarrow> False
    | Some (Inl e) \<Rightarrow> answered (client_writes es) (Err e) obs
    | Some (Inr _) \<Rightarrow> client_writes es = [CONNECTION_ESTABLISHED] \<and> open_tunnel obs)"
proof (cases res)
  case (Inr stream)
  then show ?thesis
    using assms by (auto simp: answer_connect_def did_def h_run_prims observation_finish_def fresh_observation_def answered_def
        split: sum.splits option.splits)
next
  case (Inl failure)
  show ?thesis
    by (cases failure)
      (auto simp: Inl answer_connect_def breaker_failure_def did_def h_run_prims observation_finish_def answered_def
        arti_error_class_not_none Let_def split: sum.splits option.splits)
qed

lemma resolve_request_isolation_outcome:
  obtains isolation counter where
    "resolve_request_isolation env scope public key request b = (Some (Ok isolation), b\<lparr>b_id_counter := counter\<rparr>)"
    "resolved_strict isolation = request_strict request"
proof -
  define resolved where "resolved = (case scope of
      Some scope \<Rightarrow> if public then TenantIsolationHasher_resolve (env_tenant_hash env) (scope_identity scope) key request (b_id_counter b)
        else resolve_isolation request (b_id_counter b)
    | None \<Rightarrow> resolve_isolation request (b_id_counter b))"
  have "resolved_strict (fst resolved) = request_strict request"
    by (auto simp: resolved_def TenantIsolationHasher_resolve_def resolve_isolation_def split: option.splits)
  moreover have "resolve_request_isolation env scope public key request b = (Some (Ok (fst resolved)), b\<lparr>b_id_counter := snd resolved\<rparr>)"
    unfolding resolve_request_isolation_def resolved_def [symmetric] by (simp split: prod.splits)
  ultimately show thesis by (rule that [rotated])
qed

lemma answers_connect_and_copy:
  fixes env :: "('s, 't, 'l, 'w, 'a, 'p, 'd) bridge_env"
  shows "answers (connect_and_copy env target key request data public scope session)"
  unfolding answers_def
proof (intro allI impI)
  fix b :: "('s, 't, 'l, 'w, 'a, 'p) bridge"
  assume fresh: "fresh_observation (b_observation b)"
  let ?Q = "\<lambda>es r obs. \<forall>x. r = Some x \<longrightarrow> answered (client_writes es) x obs"
  have tunnel: "did (run_tunnel env stream data session) b1 (\<lambda>es'. ?Q (es @ es'))"
    if "client_writes es = [CONNECTION_ESTABLISHED]" "open_tunnel (b_observation b1)"
    for stream es and b1 :: "('s, 't, 'l, 'w, 'a, 'p) bridge"
    by (rule did_mono [OF did_run_tunnel]) (use that in \<open>auto simp: answered_def\<close>)
  have answer: "did (h_bind (answer_connect env key res) (\<lambda>stream. run_tunnel env stream data session)) b1 (\<lambda>es'. ?Q (es @ es'))"
    if "client_writes es = []" "fresh_observation (b_observation b1)" for res es and b1 :: "('s, 't, 'l, 'w, 'a, 'p) bridge"
    by (rule did_bind [OF did_answer_connect [OF that(2)]])
      (use that(1) tunnel in \<open>auto simp: append_assoc [symmetric] simp del: append_assoc\<close>)
  obtain isolation b1 where iso: "resolve_request_isolation env scope public key request b = (Some (Ok isolation), b1)"
      "b_trace b1 = b_trace b" "b_observation b1 = b_observation b"
    by (rule resolve_request_isolation_outcome [of env scope public key request b]) auto
  show "did (connect_and_copy env target key request data public scope session) b ?Q"
    unfolding connect_and_copy_def
    by (rule did_step, rule iso(1), rule iso(2), rule iso(3), rule did_bind [OF did_connect_with_permit])
      (use fresh iso(3) answer in \<open>auto simp: connected_def answered_def\<close>)
qed

lemma answers_tunnel_permit:
  fixes env :: "('s, 't, 'l, 'w, 'a, 'p, 'd) bridge_env"
  assumes "answers body"
  shows "answers (with_tunnel_permit env body)"
  unfolding answers_def
proof (intro allI impI)
  fix b :: "('s, 't, 'l, 'w, 'a, 'p) bridge"
  assume fresh: "fresh_observation (b_observation b)"
  let ?Q = "\<lambda>es r obs. \<forall>x. r = Some x \<longrightarrow> answered (client_writes es) x obs"
  obtain res out sem m where a: "acquire_active_tunnel_permit (env_semaphore env) TUNNEL_ACQUIRE_TIMEOUT (b_tunnel_semaphore b) (b_metrics b) = (res, out, sem, m)"
    by (metis prod_cases4)
  obtain o' where out: "out = (if o' = Elapsed then [CIRCUIT_CAPACITY_RESPONSE] else [])"
    and res: "res = (case o' of Permit \<Rightarrow> Ok () | SemaphoreClosed \<Rightarrow> Err SlotSemaphoreClosed | Elapsed \<Rightarrow> Err SlotCapacityExceeded)"
    by (rule tunnel_permit_outcome [OF a])
  have granted: "did (h_guard (drop_tunnel_permit env) body) b1 (\<lambda>es'. ?Q (es @ es'))"
    if "fresh_observation (b_observation b1)" "client_writes es = []" for es b1
    by (rule did_mono [OF did_guard [OF answersD [OF assms that(1)]]])
      (use that(2) in \<open>auto simp: drop_tunnel_permit_def split: prod.splits\<close>)
  have "did (h_bind (respond_all env out) (\<lambda>_. case res of
            Inr _ \<Rightarrow> h_guard (drop_tunnel_permit env) body
          | Inl e \<Rightarrow> h_bind (finish_observation 503 ''capacity'') (\<lambda>_. h_fail (Slot_Error e))))
          (b\<lparr>b_tunnel_semaphore := sem, b_metrics := m\<rparr>) ?Q"
    by (rule did_bind [OF did_respond_all], cases o')
      (use fresh granted in \<open>auto simp: out res answered_def intro!: did_mono [OF did_refuse]\<close>)
  then show "did (with_tunnel_permit env body) b ?Q"
    by (simp add: did_def h_run_def with_tunnel_permit_def a split: prod.splits)
qed

lemma did_same:
  assumes "did m b1 P" "m' b = m b1" "b_trace b1 = b_trace b" "b_observation b1 = b_observation b"
  shows "did m' b P"
  using assms by (simp add: did_def h_run_def)

lemma answers_account_tunnel:
  fixes env :: "('s, 't, 'l, 'w, 'a, 'p, 'd) bridge_env"
  assumes "answers body"
  shows "answers (with_account_tunnel env account_scope body)"
proof (cases account_scope)
  case None
  then show ?thesis using assms by (simp add: with_account_tunnel_def)
next
  case (Some scope)
  show ?thesis
    unfolding answers_def
  proof (intro allI impI)
    fix b :: "('s, 't, 'l, 'w, 'a, 'p) bridge"
    assume fresh: "fresh_observation (b_observation b)"
    let ?Q = "\<lambda>es r obs. \<forall>x. r = Some x \<longrightarrow> answered (client_writes es) x obs"
    obtain res c where t: "try_acquire_tunnel (env_request_limiter env) (scope_identity scope) (b_admission b) = (res, c)"
      by fastforce
    let ?b = "b\<lparr>b_admission := c\<rparr>"
    have granted: "did (h_guard (drop_account_guard a r) body) ?b ?Q" for a r
      by (rule did_guard [OF answersD [OF assms]]) (use fresh in \<open>auto simp: drop_account_guard_def Let_def\<close>)
    have refused: "did (reject env status error_class id bytes e) ?b ?Q"
      if "status_of bytes = status" "error_class \<noteq> ''none''" for status error_class bytes e
      by (rule answers_reject [OF that])
    show "did (with_account_tunnel env account_scope body) b ?Q"
    proof (cases res)
      case (Inr r)
      show ?thesis
        by (rule did_same [OF granted [of "identity_account_id (scope_identity scope)" r]])
          (simp_all add: with_account_tunnel_def Some t Inr)
    next
      case (Inl e)
      show ?thesis
      proof (cases "\<exists>n. e = TunnelLimitReached n")
        case True
        then show ?thesis
          by (intro did_same [OF refused [of RATE_LIMITED_RESPONSE 429 "''account_tunnel_capacity''"
              "Bail ''account concurrent tunnel limit reached''"]]) (auto simp: with_account_tunnel_def Some t Inl)
      next
        case False
        then show ?thesis
          by (intro did_same [OF refused [of SERVICE_UNAVAILABLE_RESPONSE 503 "''account_admission''"
              "Bail ''account tunnel admission failed''"]]) (auto simp: with_account_tunnel_def Some t Inl split: AdmissionError.splits)
      qed
    qed
  qed
qed

lemma open_data_session_outcome:
  fixes env :: "('s, 't, 'l, 'w, 'a, 'p, 'd) bridge_env"
  obtains (worker) message w where "env_worker env (b_world b) = (Some message, w)"
      "open_customer_data_session env identity period_start b = (Some (Ok (Err (DataWorker message))), b\<lparr>b_world := w\<rparr>)"
    | (ran) w res l c where "env_worker env (b_world b) = (None, w)"
      "limiter_open_session identity period_start (b_limiter b) (b_db b) = (res, l, c)"
      "open_customer_data_session env identity period_start b
        = (Some (Ok (map_err Customer res)), b\<lparr>b_world := w, b_limiter := l, b_db := c\<rparr>)"
proof (cases "env_worker env (b_world b)")
  case (Pair worker w)
  obtain res l c where o': "limiter_open_session identity period_start (b_limiter b) (b_db b) = (res, l, c)"
    by (metis prod_cases3)
  show thesis
  proof (cases worker)
    case None
    show thesis by (rule ran [OF Pair [unfolded None] o']) (simp add: open_customer_data_session_def on_worker_def Pair None o')
  next
    case (Some message)
    show thesis by (rule worker [OF Pair [unfolded Some]]) (simp add: open_customer_data_session_def on_worker_def Pair Some)
  qed
qed

lemma answers_data_session:
  fixes env :: "('s, 't, 'l, 'w, 'a, 'p, 'd) bridge_env"
  assumes "\<And>session. answers (body session)"
  shows "answers (with_data_session env account_scope body)"
proof (cases account_scope)
  case None
  then show ?thesis using assms by (simp add: with_data_session_def)
next
  case (Some scope)
  show ?thesis
    unfolding answers_def
  proof (intro allI impI)
    fix b :: "('s, 't, 'l, 'w, 'a, 'p) bridge"
    assume fresh: "fresh_observation (b_observation b)"
    let ?Q = "\<lambda>es r obs. \<forall>x. r = Some x \<longrightarrow> answered (client_writes es) x obs"
    obtain res b1 where o': "open_customer_data_session env (scope_identity scope) (scope_period_start scope) b = (Some (Ok res), b1)"
        "b_trace b1 = b_trace b" "b_observation b1 = b_observation b"
      by (rule open_data_session_outcome [of env b "scope_identity scope" "scope_period_start scope"]) auto
    show "did (with_data_session env account_scope body) b ?Q"
    proof (cases res)
      case (Inr session)
      have "did (h_guard (drop_data_session session) (body (Some session))) b1 ?Q"
        by (rule did_guard [OF answersD [OF assms]]) (use fresh o'(3) in \<open>auto simp: drop_data_session_def Let_def\<close>)
      then show ?thesis
        unfolding with_data_session_def Some option.case
        by (rule_tac did_step, rule_tac o'(1), rule_tac o'(2), rule_tac o'(3)) (simp add: Inr)
    next
      case (Inl e)
      show ?thesis
        unfolding with_data_session_def Some option.case
        by (rule did_step, rule o'(1), rule o'(2), rule o'(3))
          (auto simp: Inl split: RuntimeCustomerDataAdmissionError.split CustomerDataAdmissionError.split
            intro!: answers_reject)
    qed
  qed
qed

lemma canonical_key_ok:
  assumes "parse_connect_destination parse addr dest = Ok target"
  obtains key where "canonical_connect_destination_key parse dest = Ok key"
  using assms
  by (auto simp: parse_connect_destination_def canonical_connect_destination_key_def and_then_def split: sum.splits)

lemma breaker_allow_outcome:
  obtains ok breaker where "allow_at key (max (b_now b) (env_clock env (b_world b))) (b_breaker b) = (ok, breaker)"
    "breaker_allow env key b = (Some (Ok ok), b\<lparr>b_now := max (b_now b) (env_clock env (b_world b)), b_breaker := breaker\<rparr>)"
  by (cases "allow_at key (max (b_now b) (env_clock env (b_world b))) (b_breaker b)")
    (simp add: breaker_allow_def h_bind_def h_now_def Let_def)

lemma did_admit_destination:
  assumes "fresh_observation (b_observation b)"
  shows "did (admit_destination env dest) b (\<lambda>es r obs. case r of
      None \<Rightarrow> False
    | Some (Inl e) \<Rightarrow> answered (client_writes es) (Err e) obs
    | Some (Inr _) \<Rightarrow> es = [] \<and> obs = b_observation b)"
proof (cases "parse_connect_destination (env_parse_authority env) (env_tor_addr env) dest")
  case (Inl e)
  show ?thesis unfolding admit_destination_def Inl
    by (auto intro!: did_mono [OF answers_reject] did_mono [OF did_reject] simp: answered_def)
next
  case (Inr target)
  obtain key where key: "canonical_connect_destination_key (env_parse_authority env) dest = Ok key"
    by (rule canonical_key_ok [OF Inr])
  obtain ok breaker now where allow: "breaker_allow env key b = (Some (Ok ok), b\<lparr>b_now := now, b_breaker := breaker\<rparr>)"
    by (rule breaker_allow_outcome [of key b env])
  have asked: "did (h_bind (breaker_allow env key) f) b P" if "did (f ok) (b\<lparr>b_now := now, b_breaker := breaker\<rparr>) P" for f P
    by (rule did_step, rule allow, simp, simp, rule that)
  show ?thesis
    unfolding admit_destination_def Inr key sum.case
    by (auto intro!: did_mono [OF did_reject] asked simp: answered_def did_def [of "h_return _"] split: sum.split bool.split)
qed

lemma answers_body:
  fixes env :: "('s, 't, 'l, 'w, 'a, 'p, 'd) bridge_env"
  shows "answers (connect_request_body env dest request data public scope)"
  unfolding connect_request_body_def answers_def
proof (intro allI impI, rule did_bind, erule did_admit_destination)
  fix x :: "'a \<times> string" and b b1 :: "('s, 't, 'l, 'w, 'a, 'p) bridge" and es :: "('a, 't) bridge_event list"
  assume "fresh_observation (b_observation b)"
    and "case Some (Ok x) of None \<Rightarrow> False | Some (Inl e) \<Rightarrow> answered (client_writes es) (Err e) (b_observation b1)
      | Some (Inr _) \<Rightarrow> es = [] \<and> b_observation b1 = b_observation b"
  then show "did (case x of (target, key) \<Rightarrow> with_account_tunnel env scope (with_data_session env scope (\<lambda>session.
      with_tunnel_permit env (connect_and_copy env target key request data public scope session)))) b1
      (\<lambda>es' r obs. \<forall>x. r = Some x \<longrightarrow> answered (client_writes (es @ es')) x obs)"
    by (cases x) (auto intro!: answersD answers_account_tunnel answers_data_session answers_tunnel_permit answers_connect_and_copy)
qed auto

text \<open>
  Property C13. A CONNECT request is answered once and recorded as it was answered: when its handler has
  returned, exactly one line was logged, and a public request was counted once, with one status. One
  response was written to the client before, of that status; there are two exceptions: no response when the
  semaphore of the tunnels was closed, and the status 500 when writing the 200 response itself failed.
  The handler succeeds exactly if the recorded error class is none.
\<close>

theorem connect_request_answered_once:
  assumes "handle_connect_request env dest isolation_request data count_as_public_request account_scope b = (Some r, b')"
  shows "\<exists>es status error_class. b_trace b' = b_trace b @ es
        @ (if count_as_public_request then [Request_Recorded ''CONNECT'' status] else []) @ [Tunnel_Logged status error_class]
    \<and> list_all peer_event es
    \<and> (client_writes es = [] \<and> status = 503 \<and> r = Err (Slot_Error SlotSemaphoreClosed)
       \<or> (\<exists>w. client_writes es = [w] \<and> status = status_of w)
       \<or> client_writes es = [CONNECTION_ESTABLISHED] \<and> status = 500 \<and> (\<exists>e. r = Err (Io_Error e)))
    \<and> (r = Ok () \<longleftrightarrow> error_class = ''none'')"
proof -
  let ?now = "max (b_now b) (env_clock env (b_world b))"
  let ?b = "b\<lparr>b_now := ?now, b_observation := TunnelObservation_new ?now count_as_public_request\<rparr>"
  obtain b1 where run: "connect_request_body env dest isolation_request data count_as_public_request account_scope ?b = (Some r, b1)"
      "b' = drop_observation env b1"
    using assms by (auto simp: handle_connect_request_def h_bind_def h_now_def h_modify_def h_guard_def Let_def
        split: prod.splits option.splits)
  have fresh: "fresh_observation (b_observation ?b)" by (simp add: fresh_observation_def TunnelObservation_new_def)
  show ?thesis
  proof (rule didE [OF answersD [OF answers_body fresh] run(1)])
    fix es assume "b_trace b1 = b_trace ?b @ es" "list_all peer_event es"
      "obs_count_as_public_request (b_observation b1) = obs_count_as_public_request (b_observation ?b)"
      "\<forall>x. Some r = Some x \<longrightarrow> answered (client_writes es) x (b_observation b1)"
    then show ?thesis
      by (intro exI [of _ es] exI [of _ "obs_status (b_observation b1)"] exI [of _ "obs_error_class (b_observation b1)"])
        (auto simp: run(2) drop_observation_def TunnelObservation_new_def answered_def Let_def split: list.splits)
  qed
qed

section \<open>When Tor is contacted\<close>

text \<open>Steps that contact nobody but the client.\<close>

definition tor_free :: "(('s, 't, 'l, 'w, 'a, 'p) bridge, 'x) handler \<Rightarrow> bool" where
  "tor_free m \<longleftrightarrow> (\<forall>b. did m b (\<lambda>es r obs. \<forall>target prefs. Tor_Attempt target prefs \<notin> set es))"

lemma tor_freeD: "tor_free m \<Longrightarrow> did m b (\<lambda>es r obs. \<forall>target prefs. Tor_Attempt target prefs \<notin> set es)"
  by (simp add: tor_free_def)

lemma tor_freeI:
  "(\<And>b r b'. m b = (r, b') \<Longrightarrow> b_trace b' = b_trace b \<and> b_observation b' = b_observation b) \<Longrightarrow> tor_free m"
  unfolding tor_free_def by (auto intro!: didI [where es = "[]"] simp: prod_eq_iff)

lemma tor_free_basic:
  "tor_free (h_return x)" "tor_free (h_fail e)" "tor_free (h_io op)" "tor_free (on_metrics g)" "tor_free (on_breaker h)"
  "tor_free (h_now env)" "tor_free (finish_observation status error_class)" "tor_free (write_client env bytes)"
  by (simp_all add: tor_free_def did_def h_run_prims observation_finish_def Let_def)

lemma tor_free_others:
  "tor_free (buffered_allowance n session)" "tor_free (checkpoint_session env session)" "tor_free (copy_tunnel env stream session)"
  by (rule tor_freeI; auto simp: buffered_allowance_def h_bind_def h_now_def
      checkpoint_session_def copy_tunnel_def Let_def split: prod.splits option.splits)+

lemma tor_free_bind:
  fixes m :: "(('s, 't, 'l, 'w, 'a, 'p) bridge, 'x) handler"
  assumes "tor_free m" "\<And>x. tor_free (f x)"
  shows "tor_free (h_bind m f)"
  unfolding tor_free_def [of "h_bind m f"]
proof
  fix b :: "('s, 't, 'l, 'w, 'a, 'p) bridge"
  show "did (h_bind m f) b (\<lambda>es r obs. \<forall>target prefs. Tor_Attempt target prefs \<notin> set es)"
    by (rule did_bind [OF tor_freeD [OF assms(1)]]) (auto intro: did_mono [OF tor_freeD [OF assms(2)]])
qed

lemma tor_free_tunnel:
  "tor_free (run_tunnel env stream data session)" "tor_free (answer_connect env key res)"
  unfolding run_tunnel_def forward_buffered_def finish_tunnel_def answer_connect_def breaker_failure_def Let_def
  by (auto intro!: tor_free_bind tor_free_basic tor_free_others
      split: sum.splits CustomerDataAdmissionError.splits ConnectFailure.splits)

lemma did_tor_attempts:
  "did (tor_connect env target isolation) b
     (\<lambda>es r obs. \<forall>t prefs. Tor_Attempt t prefs \<in> set es \<longrightarrow> t = target \<and> (prefs = Isolate_Every_Stream \<longleftrightarrow> resolved_strict isolation))"
proof -
  obtain r b' where run: "tor_connect env target isolation b = (r, b')" by fastforce
  obtain res st where c: "connect_with_retry (env_tor env) (env_new_token env) target isolation
      \<lparr>cw_now = max (b_now b) (env_clock env (b_world b)), cw_tokens = b_tokens b, cw_metrics = b_metrics b,
       cw_world = b_world b, cw_attempts = []\<rparr> = (res, st)" and b': "b_trace b' = b_trace b
        @ map (\<lambda>(prefs, _). Tor_Attempt target prefs) (cw_attempts st)" "b_observation b' = b_observation b"
    by (rule tor_connect_outcome [OF run]) auto
  from connect_loop_prefs [OF c [unfolded connect_with_retry_def]] show ?thesis
    by (intro didI [where m = "tor_connect env target isolation" and b = b, OF run b'(1)]) (force simp: b'(2) list_all_iff)+
qed

text \<open>\<open>tor_only_if C m b\<close>: run in \<open>b\<close>, \<open>m\<close> makes no attempts but those \<open>C\<close> accepts.\<close>

definition tor_only_if ::
    "('a \<Rightarrow> 't StreamPrefs \<Rightarrow> bool) \<Rightarrow> (('s, 't, 'l, 'w, 'a, 'p) bridge, 'x) handler \<Rightarrow> ('s, 't, 'l, 'w, 'a, 'p) bridge \<Rightarrow> bool" where
  "tor_only_if C m b \<longleftrightarrow> did m b (\<lambda>es r obs. \<forall>target prefs. Tor_Attempt target prefs \<in> set es \<longrightarrow> C target prefs)"

lemma tor_only_if_free: "tor_free m \<Longrightarrow> tor_only_if C m b"
  unfolding tor_only_if_def by (auto intro: did_mono [OF tor_freeD])

lemma tor_free_reject: "tor_free (reject env status error_class counter bytes e)"
  unfolding tor_free_def by (auto intro: did_mono [OF did_reject])

lemma tor_free_respond_all: "tor_free (respond_all env out)"
proof -
  have "tor_free (respond env bytes)" for bytes by (simp add: tor_free_def did_def h_run_prims)
  then have "tor_free m \<Longrightarrow> tor_free (fold (\<lambda>bytes m. h_bind m (\<lambda>_. respond env bytes)) out m)" for m
    by (induction out arbitrary: m) (simp_all add: tor_free_bind)
  then show ?thesis by (simp add: respond_all_def tor_free_basic)
qed

lemma tor_only_if_bind:
  fixes b :: "('s, 't, 'l, 'w, 'a, 'p) bridge"
  assumes "tor_only_if C m b" "\<And>x. tor_free (f x)"
  shows "tor_only_if C (h_bind m f) b"
  unfolding tor_only_if_def
  by (rule did_bind [OF assms(1) [unfolded tor_only_if_def]]) (auto intro: did_mono [OF tor_freeD [OF assms(2)]])

lemma tor_only_if_step:
  assumes "m b = (Some (Ok x), b1)" "b_trace b1 = b_trace b" "b_observation b1 = b_observation b" "tor_only_if C (f x) b1"
  shows "tor_only_if C (h_bind m f) b"
  using assms unfolding tor_only_if_def by (intro did_step [of m b x b1])

lemma tor_only_if_same:
  assumes "tor_only_if C m b1" "m' b = m b1" "b_trace b1 = b_trace b" "b_observation b1 = b_observation b"
  shows "tor_only_if C m' b"
  unfolding tor_only_if_def by (rule did_same [OF assms(1) [unfolded tor_only_if_def]]) (fact assms(2-4))+

lemma tor_only_if_guard:
  assumes "tor_only_if C m b" "\<And>b. b_trace (release b) = b_trace b" "\<And>b. b_observation (release b) = b_observation b"
  shows "tor_only_if C (h_guard release m) b"
  unfolding tor_only_if_def by (rule did_guard [OF assms(1) [unfolded tor_only_if_def] assms(2,3)])

lemma tor_only_if_mono: "tor_only_if C m b \<Longrightarrow> (\<And>target prefs. C target prefs \<Longrightarrow> D target prefs) \<Longrightarrow> tor_only_if D m b"
  unfolding tor_only_if_def by (auto elim: did_mono)

lemmas tor_free_intros = tor_free_bind tor_free_basic tor_free_reject tor_free_respond_all tor_free_tunnel

lemma tor_connect_with_permit:
  fixes b :: "('s, 't, 'l, 'w, 'a, 'p) bridge"
  shows "tor_only_if (\<lambda>t prefs. t = target \<and> (prefs = Isolate_Every_Stream \<longleftrightarrow> resolved_strict isolation)
      \<and> fst (sem_acquire (env_semaphore env) CIRCUIT_ACQUIRE_TIMEOUT (b_circuit_semaphore b)) = Permit)
    (connect_with_permit env target isolation) b" (is "tor_only_if ?C _ _")
proof -
  obtain res out sem m where a: "acquire_circuit_permit (env_semaphore env) CIRCUIT_ACQUIRE_TIMEOUT (b_circuit_semaphore b) (b_metrics b) = (res, out, sem, m)"
    by (metis prod_cases4)
  obtain o' where o': "sem_acquire (env_semaphore env) CIRCUIT_ACQUIRE_TIMEOUT (b_circuit_semaphore b) = (o', sem)"
    and out: "out = (if o' = Permit then [] else [CIRCUIT_CAPACITY_RESPONSE])"
    and res: "res = (case o' of Permit \<Rightarrow> Ok () | SemaphoreClosed \<Rightarrow> Err SlotSemaphoreClosed | Elapsed \<Rightarrow> Err SlotCapacityExceeded)"
    by (rule circuit_permit_outcome [OF a])
  let ?b = "b\<lparr>b_circuit_semaphore := sem, b_metrics := m\<rparr>"
  let ?release = "\<lambda>b. b\<lparr>b_circuit_semaphore := sem_release (env_semaphore env) (b_circuit_semaphore b)\<rparr>"
  show ?thesis
  proof (cases "o' = Permit")
    case True
    have "tor_only_if ?C (h_guard ?release (tor_connect env target isolation)) ?b"
      by (rule tor_only_if_guard, unfold tor_only_if_def, rule did_mono [OF did_tor_attempts]) (use o' True in auto)
    then show ?thesis
      by (rule tor_only_if_same) (simp_all add: connect_with_permit_def a res out True respond_all_def h_bind_def h_return_def)
  next
    case False
    then obtain e where res: "res = Err e" using res by (cases o') auto
    have "tor_only_if ?C (h_bind (respond_all env out) (\<lambda>_. h_bind (finish_observation 503 ''circuit_capacity'') (\<lambda>_. h_fail (Slot_Error e)))) ?b"
      by (intro tor_only_if_free tor_free_intros)
    then show ?thesis by (rule tor_only_if_same) (simp_all add: connect_with_permit_def a res)
  qed
qed

lemma tor_connect_and_copy:
  fixes b :: "('s, 't, 'l, 'w, 'a, 'p) bridge"
  shows "tor_only_if (\<lambda>t prefs. t = target \<and> (prefs = Isolate_Every_Stream \<longleftrightarrow> request_strict request)
      \<and> fst (sem_acquire (env_semaphore env) CIRCUIT_ACQUIRE_TIMEOUT (b_circuit_semaphore b)) = Permit)
    (connect_and_copy env target key request data public scope session) b"
proof (rule resolve_request_isolation_outcome [of env scope public key request b])
  fix isolation counter
  assume iso: "resolve_request_isolation env scope public key request b = (Some (Ok isolation), b\<lparr>b_id_counter := counter\<rparr>)"
    and strict: "resolved_strict isolation = request_strict request"
  show ?thesis
    unfolding connect_and_copy_def
    by (rule tor_only_if_step, rule iso, simp, simp, rule tor_only_if_bind, rule tor_only_if_mono [OF tor_connect_with_permit])
      (use strict in \<open>auto intro!: tor_free_intros\<close>)
qed

lemma tor_tunnel_permit:
  fixes b :: "('s, 't, 'l, 'w, 'a, 'p) bridge"
  assumes "\<And>sem m. tor_only_if C body (b\<lparr>b_tunnel_semaphore := sem, b_metrics := m\<rparr>)"
  shows "tor_only_if (\<lambda>t prefs. C t prefs \<and> fst (sem_acquire (env_semaphore env) TUNNEL_ACQUIRE_TIMEOUT (b_tunnel_semaphore b)) = Permit)
    (with_tunnel_permit env body) b" (is "tor_only_if ?C _ _")
proof -
  obtain res out sem m where a: "acquire_active_tunnel_permit (env_semaphore env) TUNNEL_ACQUIRE_TIMEOUT (b_tunnel_semaphore b) (b_metrics b) = (res, out, sem, m)"
    by (metis prod_cases4)
  obtain o' where o': "sem_acquire (env_semaphore env) TUNNEL_ACQUIRE_TIMEOUT (b_tunnel_semaphore b) = (o', sem)"
    and out: "out = (if o' = Elapsed then [CIRCUIT_CAPACITY_RESPONSE] else [])"
    and res: "res = (case o' of Permit \<Rightarrow> Ok () | SemaphoreClosed \<Rightarrow> Err SlotSemaphoreClosed | Elapsed \<Rightarrow> Err SlotCapacityExceeded)"
    by (rule tunnel_permit_outcome [OF a])
  let ?b = "b\<lparr>b_tunnel_semaphore := sem, b_metrics := m\<rparr>"
  show ?thesis
  proof (cases "o' = Permit")
    case True
    have "tor_only_if ?C (h_guard (drop_tunnel_permit env) body) ?b"
      by (rule tor_only_if_guard, rule tor_only_if_mono [OF assms])
        (use o' True in \<open>auto simp: drop_tunnel_permit_def split: prod.splits\<close>)
    then show ?thesis
      by (rule tor_only_if_same) (simp_all add: with_tunnel_permit_def a res out True respond_all_def h_bind_def h_return_def)
  next
    case False
    then obtain e where res: "res = Err e" using res by (cases o') auto
    have "tor_only_if ?C (h_bind (respond_all env out) (\<lambda>_. h_bind (finish_observation 503 ''capacity'') (\<lambda>_. h_fail (Slot_Error e)))) ?b"
      by (intro tor_only_if_free tor_free_intros)
    then show ?thesis by (rule tor_only_if_same) (simp_all add: with_tunnel_permit_def a res)
  qed
qed

lemma tor_data_session:
  fixes b :: "('s, 't, 'l, 'w, 'a, 'p) bridge"
  assumes "\<And>session w l c. tor_only_if C (body session) (b\<lparr>b_world := w, b_limiter := l, b_db := c\<rparr>)"
  shows "tor_only_if (\<lambda>t prefs. C t prefs \<and> (\<forall>sc. account_scope = Some sc \<longrightarrow> fst (env_worker env (b_world b)) = None
      \<and> (\<exists>session. fst (limiter_open_session (scope_identity sc) (scope_period_start sc) (b_limiter b) (b_db b)) = Ok session)))
    (with_data_session env account_scope body) b" (is "tor_only_if ?C _ _")
proof (cases account_scope)
  case None
  have "tor_only_if C (body None) b" using assms [where session = None and w = "b_world b" and l = "b_limiter b" and c = "b_db b"] by simp
  then show ?thesis unfolding with_data_session_def by (simp add: None)
next
  case (Some scope)
  show ?thesis
  proof (rule open_data_session_outcome [of env b "scope_identity scope" "scope_period_start scope"])
    fix message w
    assume o': "open_customer_data_session env (scope_identity scope) (scope_period_start scope) b
      = (Some (Ok (Err (DataWorker message))), b\<lparr>b_world := w\<rparr>)"
    show ?thesis
      unfolding with_data_session_def Some option.case
      by (rule tor_only_if_step, rule o', simp, simp) (simp add: tor_only_if_free tor_free_reject)
  next
    fix w res l c
    assume w: "env_worker env (b_world b) = (None, w)"
      and l: "limiter_open_session (scope_identity scope) (scope_period_start scope) (b_limiter b) (b_db b) = (res, l, c)"
      and o': "open_customer_data_session env (scope_identity scope) (scope_period_start scope) b
        = (Some (Ok (map_err Customer res)), b\<lparr>b_world := w, b_limiter := l, b_db := c\<rparr>)"
    show ?thesis
    proof (cases res)
      case (Inl e)
      show ?thesis
        unfolding with_data_session_def Some option.case
        by (rule tor_only_if_step, rule o', simp, simp)
          (auto simp: Inl intro!: tor_only_if_free tor_free_reject split: CustomerDataAdmissionError.split)
    next
      case (Inr session)
      have "tor_only_if ?C (h_guard (drop_data_session session) (body (Some session))) (b\<lparr>b_world := w, b_limiter := l, b_db := c\<rparr>)"
        by (rule tor_only_if_guard, rule tor_only_if_mono [OF assms])
          (use w l Inr Some in \<open>auto simp: drop_data_session_def Let_def\<close>)
      then show ?thesis
        unfolding with_data_session_def Some option.case
        by (rule_tac tor_only_if_step, rule_tac o', simp, simp) (simp add: Inr)
    qed
  qed
qed

lemma tor_account_tunnel:
  fixes b :: "('s, 't, 'l, 'w, 'a, 'p) bridge"
  assumes "\<And>c. tor_only_if C body (b\<lparr>b_admission := c\<rparr>)"
  shows "tor_only_if (\<lambda>t prefs. C t prefs \<and> (\<forall>sc. account_scope = Some sc \<longrightarrow>
      (\<exists>g. fst (try_acquire_tunnel (env_request_limiter env) (scope_identity sc) (b_admission b)) = Ok g)))
    (with_account_tunnel env account_scope body) b" (is "tor_only_if ?C _ _")
proof (cases account_scope)
  case None
  have "tor_only_if C body b" using assms [of "b_admission b"] by simp
  then show ?thesis unfolding with_account_tunnel_def by (simp add: None)
next
  case (Some scope)
  obtain res c where t: "try_acquire_tunnel (env_request_limiter env) (scope_identity scope) (b_admission b) = (res, c)"
    by fastforce
  let ?b = "b\<lparr>b_admission := c\<rparr>"
  show ?thesis
  proof (cases res)
    case (Inr g)
    have "tor_only_if ?C (h_guard (drop_account_guard (identity_account_id (scope_identity scope)) g) body) ?b"
      by (rule tor_only_if_guard, rule tor_only_if_mono [OF assms])
        (use t Inr Some in \<open>auto simp: drop_account_guard_def Let_def\<close>)
    then show ?thesis by (rule tor_only_if_same) (simp_all add: with_account_tunnel_def Some t Inr)
  next
    case (Inl e)
    obtain status error_class bytes err where
      "with_account_tunnel env account_scope body b = reject env status error_class id bytes err ?b"
      by (cases e) (simp_all add: with_account_tunnel_def Some t Inl)
    then show ?thesis
      by (rule tor_only_if_same [OF tor_only_if_free [OF tor_free_reject]]) simp_all
  qed
qed

lemma tor_only_if_failed:
  assumes "tor_free m" "\<And>x b1. m b \<noteq> (Some (Ok x), b1)"
  shows "tor_only_if C (h_bind m f) b"
  using tor_freeD [OF assms(1), of b] assms(2)
  by (auto simp: tor_only_if_def did_def h_run_def h_bind_def split: prod.splits option.splits sum.splits)

lemma reject_fails: "reject env status error_class counter bytes e b \<noteq> (Some (Ok x), b1)"
  by (simp add: reject_def h_bind_def finish_observation_def on_metrics_def h_modify_def respond_def h_fail_def)

lemma tor_free_admit_destination: "tor_free (admit_destination env dest)"
proof -
  have "tor_free (breaker_allow env key)" for key
    by (rule tor_freeI) (auto simp: breaker_allow_def h_bind_def h_now_def Let_def split: prod.splits)
  then show ?thesis
    unfolding admit_destination_def by (auto intro!: tor_free_intros split: sum.splits bool.splits)
qed

lemma admit_destination_cases:
  obtains (refused) "\<And>x b1. admit_destination env dest b \<noteq> (Some (Ok x), b1)"
    | (admitted) target key breaker where
        "parse_connect_destination (env_parse_authority env) (env_tor_addr env) dest = Ok target"
        "canonical_connect_destination_key (env_parse_authority env) dest = Ok key"
        "connect_destination_allowed (env_parse_authority env) dest = Ok True"
        "allow_at key (max (b_now b) (env_clock env (b_world b))) (b_breaker b) = (True, breaker)"
        "admit_destination env dest b = (Some (Ok (target, key)),
           b\<lparr>b_now := max (b_now b) (env_clock env (b_world b)), b_breaker := breaker\<rparr>)"
proof (cases "parse_connect_destination (env_parse_authority env) (env_tor_addr env) dest")
  case (Inl e)
  then show thesis by (intro refused) (simp add: admit_destination_def reject_fails)
next
  case (Inr target)
  obtain key where key: "canonical_connect_destination_key (env_parse_authority env) dest = Ok key"
    by (rule canonical_key_ok [OF Inr])
  obtain ok breaker where allow: "allow_at key (max (b_now b) (env_clock env (b_world b))) (b_breaker b) = (ok, breaker)"
    "breaker_allow env key b = (Some (Ok ok), b\<lparr>b_now := max (b_now b) (env_clock env (b_world b)), b_breaker := breaker\<rparr>)"
    by (rule breaker_allow_outcome [of key b env])
  show thesis
  proof (cases "connect_destination_allowed (env_parse_authority env) dest = Ok True \<and> ok")
    case True
    with Inr key allow show thesis by (intro admitted) (simp_all add: admit_destination_def h_bind_def h_return_def)
  next
    case False
    with Inr key allow show thesis
      by (intro refused) (auto simp: admit_destination_def h_bind_def reject_fails split: sum.splits bool.splits)
  qed
qed

lemma tor_admitted_request:
  fixes b :: "('s, 't, 'l, 'w, 'a, 'p) bridge"
  shows "tor_only_if (\<lambda>t prefs. t = target \<and> (prefs = Isolate_Every_Stream \<longleftrightarrow> request_strict request)
      \<and> fst (sem_acquire (env_semaphore env) CIRCUIT_ACQUIRE_TIMEOUT (b_circuit_semaphore b)) = Permit
      \<and> fst (sem_acquire (env_semaphore env) TUNNEL_ACQUIRE_TIMEOUT (b_tunnel_semaphore b)) = Permit
      \<and> (\<forall>sc. scope = Some sc \<longrightarrow> fst (env_worker env (b_world b)) = None
          \<and> (\<exists>session. fst (limiter_open_session (scope_identity sc) (scope_period_start sc) (b_limiter b) (b_db b)) = Ok session))
      \<and> (\<forall>sc. scope = Some sc \<longrightarrow>
          (\<exists>g. fst (try_acquire_tunnel (env_request_limiter env) (scope_identity sc) (b_admission b)) = Ok g)))
    (with_account_tunnel env scope (with_data_session env scope (\<lambda>session.
       with_tunnel_permit env (connect_and_copy env target key request data public scope session)))) b"
proof -
  let ?circuit = "\<lambda>t prefs. t = target \<and> (prefs = Isolate_Every_Stream \<longleftrightarrow> request_strict request)
      \<and> fst (sem_acquire (env_semaphore env) CIRCUIT_ACQUIRE_TIMEOUT (b_circuit_semaphore b)) = Permit"
  let ?tunnel = "\<lambda>t prefs. ?circuit t prefs \<and> fst (sem_acquire (env_semaphore env) TUNNEL_ACQUIRE_TIMEOUT (b_tunnel_semaphore b)) = Permit"
  let ?session = "\<lambda>t prefs. ?tunnel t prefs \<and> (\<forall>sc. scope = Some sc \<longrightarrow> fst (env_worker env (b_world b)) = None
      \<and> (\<exists>session. fst (limiter_open_session (scope_identity sc) (scope_period_start sc) (b_limiter b) (b_db b)) = Ok session))"
  have circuit: "tor_only_if ?circuit (connect_and_copy env target key request data public scope session) s"
    if "b_circuit_semaphore s = b_circuit_semaphore b" for session and s :: "('s, 't, 'l, 'w, 'a, 'p) bridge"
    by (rule tor_only_if_mono [OF tor_connect_and_copy]) (use that in simp)
  have tunnel: "tor_only_if ?tunnel (with_tunnel_permit env (connect_and_copy env target key request data public scope session)) s"
    if "b_circuit_semaphore s = b_circuit_semaphore b" "b_tunnel_semaphore s = b_tunnel_semaphore b"
    for session and s :: "('s, 't, 'l, 'w, 'a, 'p) bridge"
    by (rule tor_only_if_mono, rule tor_tunnel_permit [where C = ?circuit], rule circuit) (use that in auto)
  have session: "tor_only_if ?session (with_data_session env scope (\<lambda>session.
       with_tunnel_permit env (connect_and_copy env target key request data public scope session))) (b\<lparr>b_admission := c\<rparr>)" for c
    by (rule tor_only_if_mono, rule tor_data_session [where C = ?tunnel], rule tunnel) auto
  show ?thesis
    by (rule tor_only_if_mono, rule tor_account_tunnel [where C = ?session], rule session) auto
qed

text \<open>
  Property C2. Tor is contacted only after every check: an attempt to open a stream is made only to the
  parsed destination, only if the destination policy and the circuit breaker allow it, only if the account
  was granted a tunnel and a data session, and only with a tunnel permit and a circuit permit; the
  stream has an isolation of its own exactly if the request asked for strict isolation.
\<close>

theorem tor_contacted_only_when_admitted:
  assumes "handle_connect_request env dest isolation_request data count_as_public_request account_scope b = (res, b')"
    and "Tor_Attempt target prefs \<in> set (drop (length (b_trace b)) (b_trace b'))"
  shows "parse_connect_destination (env_parse_authority env) (env_tor_addr env) dest = Ok target
    \<and> connect_destination_allowed (env_parse_authority env) dest = Ok True
    \<and> (\<exists>key. canonical_connect_destination_key (env_parse_authority env) dest = Ok key
          \<and> fst (allow_at key (max (b_now b) (env_clock env (b_world b))) (b_breaker b)))
    \<and> (\<forall>scope. account_scope = Some scope \<longrightarrow>
          (\<exists>g. fst (try_acquire_tunnel (env_request_limiter env) (scope_identity scope) (b_admission b)) = Ok g)
          \<and> fst (env_worker env (b_world b)) = None
          \<and> (\<exists>s. fst (limiter_open_session (scope_identity scope) (scope_period_start scope) (b_limiter b) (b_db b)) = Ok s))
    \<and> fst (sem_acquire (env_semaphore env) TUNNEL_ACQUIRE_TIMEOUT (b_tunnel_semaphore b)) = Permit
    \<and> fst (sem_acquire (env_semaphore env) CIRCUIT_ACQUIRE_TIMEOUT (b_circuit_semaphore b)) = Permit
    \<and> (prefs = Isolate_Every_Stream \<longleftrightarrow> request_strict isolation_request)" (is "?C target prefs")
proof -
  let ?now = "max (b_now b) (env_clock env (b_world b))"
  let ?b = "b\<lparr>b_now := ?now, b_observation := TunnelObservation_new ?now count_as_public_request\<rparr>"
  have body: "tor_only_if ?C (connect_request_body env dest isolation_request data count_as_public_request account_scope) ?b"
  proof (cases rule: admit_destination_cases [of env dest ?b])
    case refused
    then show ?thesis
      unfolding connect_request_body_def by (intro tor_only_if_failed [OF tor_free_admit_destination])
  next
    case (admitted t key breaker)
    let ?b1 = "?b\<lparr>b_now := max (b_now ?b) (env_clock env (b_world ?b)), b_breaker := breaker\<rparr>"
    show ?thesis
      unfolding connect_request_body_def
      by (rule tor_only_if_step, rule admitted(5), simp, simp, unfold prod.case, rule tor_only_if_mono [OF tor_admitted_request])
        (use admitted in auto)
  qed
  obtain b1 where run: "connect_request_body env dest isolation_request data count_as_public_request account_scope ?b = (res, b1)"
      "b' = (if res = None then b1 else drop_observation env b1)"
    using assms by (auto simp: handle_connect_request_def h_bind_def h_now_def h_modify_def h_guard_def Let_def
        split: prod.splits option.splits)
  show ?thesis
    using assms(2) by (rule_tac didE [OF body [unfolded tor_only_if_def] run(1)])
      (auto simp: run(2) drop_observation_def Let_def split: if_splits)
qed

theorem tor_contacted_only_when_admitted_witness:
  "Tor_Attempt ''cdn.example:443'' Isolate_Every_Stream \<in> set (b_trace (snd demo_request))
   \<and> parse_connect_destination demo_authority Ok ''cdn.example:443'' = Ok ''cdn.example:443''
   \<and> (\<exists>s. fst (limiter_open_session demo_identity (UnixTimestamp 0) demo_limiter demo_connection) = Ok s)"
proof -
  have "handle_connect_request demo_env ''cdn.example:443'' strict_request [] True (Some demo_account_scope) demo_bridge
      = (fst demo_request, snd demo_request)"
    by (simp add: demo_request_def)
  moreover have "Tor_Attempt ''cdn.example:443'' Isolate_Every_Stream
      \<in> set (drop (length (b_trace demo_bridge)) (b_trace (snd demo_request)))"
    by (simp add: demo_request_run demo_bridge_def)
  ultimately show ?thesis
    using tor_contacted_only_when_admitted [of demo_env "''cdn.example:443''" strict_request "[]" True "Some demo_account_scope"
        demo_bridge "fst demo_request" "snd demo_request" "''cdn.example:443''" Isolate_Every_Stream]
    by (simp add: demo_request_run) (simp add: demo_env_def demo_bridge_def demo_account_scope_def)
qed

theorem connect_request_answered_once_witness:
  "\<exists>es status error_class. b_trace (snd demo_request) =
      es @ [Request_Recorded ''CONNECT'' status, Tunnel_Logged status error_class]
     \<and> list_all peer_event es \<and> error_class \<noteq> ''none''"
proof -
  have "handle_connect_request demo_env ''cdn.example:443'' strict_request [] True (Some demo_account_scope) demo_bridge
      = (Some (Err (Bail ''Tor connection failed'')), snd demo_request)"
    using demo_request_run(1) unfolding demo_request_def by (metis prod.collapse)
  from connect_request_answered_once [OF this] show ?thesis
    by (auto simp: demo_bridge_def)
qed

end
