(* ===== verification/Bridge_Ingress.thy ===== *)
theory Bridge_Ingress
  imports Bridge_Answers
begin

text \<open>
  The handlers of accepted connections (\<open>src/src/main.rs\<close>): \<open>handle_public_connection\<close>, which reads one
  request, admits it for the account of an authenticated client and hands it to the CONNECT handler or to
  the internal Pingora service, and \<open>handle_internal_connect\<close>, which takes the CONNECT requests Pingora
  makes back. The account functions run on blocking workers, as in \<open>authenticate_account\<close>,
  \<open>ensure_customer_data_available\<close> and \<open>admit_account_request\<close>.

  The lemmas show that in authenticated mode nothing is forwarded for a client before its
  credentials, its rate, its remaining data and its request quota were checked, in this order.
\<close>

section \<open>Accounts on workers\<close>

datatype RuntimeAuthenticationError = AuthAccount AuthenticationError | AuthWorker string
datatype RuntimeUsageAdmissionError = UsageAccount UsageAdmissionError | UsageWorker string

definition authenticate_account ::
    "('s, 't, 'l, 'w, 'a, 'p, 'd) bridge_env \<Rightarrow> string \<Rightarrow> string
      \<Rightarrow> (('s, 't, 'l, 'w, 'a, 'p) bridge, (IngressIdentity, RuntimeAuthenticationError) result) handler" where
  "authenticate_account env proxy_authorization fingerprint =
     on_worker env AuthWorker (\<lambda>b.
       case AccountManager_authenticate_ingress (env_std_decode env) (env_key_hash env) proxy_authorization fingerprint (b_db b) of
         (res, c) \<Rightarrow> (map_err AuthAccount res, b\<lparr>b_db := c\<rparr>))"

definition admit_account_request ::
    "('s, 't, 'l, 'w, 'a, 'p, 'd) bridge_env \<Rightarrow> IngressIdentity \<Rightarrow> UnixTimestamp
      \<Rightarrow> (('s, 't, 'l, 'w, 'a, 'p) bridge, (unit, RuntimeUsageAdmissionError) result) handler" where
  "admit_account_request env identity period_start =
     on_worker env UsageWorker (\<lambda>b.
       case db_admit_request identity period_start (b_db b) of
         (res, c) \<Rightarrow> (map_err UsageAccount (map_sum id (\<lambda>_. ()) res), b\<lparr>b_db := c\<rparr>))"

definition ensure_customer_data_available ::
    "('s, 't, 'l, 'w, 'a, 'p, 'd) bridge_env \<Rightarrow> IngressIdentity \<Rightarrow> UnixTimestamp
      \<Rightarrow> (('s, 't, 'l, 'w, 'a, 'p) bridge, (unit, RuntimeCustomerDataAdmissionError) result) handler" where
  "ensure_customer_data_available env identity period_start =
     on_worker env DataWorker (\<lambda>b.
       case limiter_ensure_available identity period_start (b_limiter b) (b_db b) of
         (res, l, c) \<Rightarrow> (map_err Customer res, b\<lparr>b_limiter := l, b_db := c\<rparr>))"

section \<open>Reading and rejecting\<close>

text \<open>The response with \<open>let _ =\<close>, a counter, \<open>record_request\<close> and the error.\<close>

definition ingress_reject ::
    "('s, 't, 'l, 'w, 'a, 'p, 'd) bridge_env \<Rightarrow> string \<Rightarrow> nat \<Rightarrow> u16 \<Rightarrow> string \<Rightarrow> (CircuitMetrics \<Rightarrow> CircuitMetrics)
      \<Rightarrow> bridge_error \<Rightarrow> (('s, 't, 'l, 'w, 'a, 'p) bridge, 'x) handler" where
  "ingress_reject env method started status bytes counter error =
     h_bind (respond env bytes) (\<lambda>_.
     h_bind (on_metrics counter) (\<lambda>_.
     h_bind (record_outcome env method status started) (\<lambda>_. h_fail error)))"

definition read_first_request ::
    "('s, 't, 'l, 'w, 'a, 'p, 'd) bridge_env \<Rightarrow> nat option \<Rightarrow> nat
      \<Rightarrow> (('s, 't, 'l, 'w, 'a, 'p) bridge, ParsedProxyRequest \<times> string) handler" where
  "read_first_request env first_request_timeout started b =
     (if (case first_request_timeout of Some t \<Rightarrow> env_first_request_elapsed env t (b_world b) | None \<Rightarrow> False)
      then ingress_reject env ''OTHER'' started 408 REQUEST_TIMEOUT_RESPONSE id (Bail ''first proxy request timed out'') b
      else case read_proxy_request (env_http_parse env) (env_read_client env) [] (b_world b) of
        (Inl e, w) \<Rightarrow>
          ingress_reject env ''OTHER'' started 400 BAD_REQUEST_RESPONSE id (Request_Error e) (b\<lparr>b_world := w\<rparr>)
      | (Inr request, w) \<Rightarrow> (Some (Ok request), b\<lparr>b_world := w\<rparr>))"

section \<open>Admitting a request\<close>

definition authenticate_request ::
    "('s, 't, 'l, 'w, 'a, 'p, 'd) bridge_env \<Rightarrow> ParsedProxyRequest \<Rightarrow> string \<Rightarrow> nat
      \<Rightarrow> (('s, 't, 'l, 'w, 'a, 'p) bridge, IngressIdentity) handler" where
  "authenticate_request env request fingerprint started =
     (let refuse = ingress_reject env (parsed_method request) started in
      case parsed_proxy_authorization request of
        None \<Rightarrow> refuse 407 PROXY_AUTH_REQUIRED_RESPONSE id (Bail ''proxy authorization is required'')
      | Some proxy_authorization \<Rightarrow>
          h_bind (authenticate_account env proxy_authorization fingerprint) (\<lambda>res.
          case res of
            Inr identity \<Rightarrow> h_return identity
          | Inl (AuthAccount e) \<Rightarrow>
              (case e of
                 InvalidAuthorization _ \<Rightarrow> refuse 407 PROXY_AUTH_REQUIRED_RESPONSE id (Bail ''proxy authorization was rejected'')
               | InvalidApiKey \<Rightarrow> refuse 407 PROXY_AUTH_REQUIRED_RESPONSE id (Bail ''proxy authorization was rejected'')
               | ApiKeyRevoked \<Rightarrow> refuse 407 PROXY_AUTH_REQUIRED_RESPONSE id (Bail ''proxy authorization was rejected'')
               | AuthStorage _ \<Rightarrow>
                   refuse 503 SERVICE_UNAVAILABLE_RESPONSE id (Bail ''account authentication service is unavailable'')
               | _ \<Rightarrow> refuse 403 FORBIDDEN_RESPONSE id (Bail ''authenticated account or device is not permitted''))
          | Inl (AuthWorker message) \<Rightarrow>
              refuse 503 SERVICE_UNAVAILABLE_RESPONSE id (Bail (''account authentication worker failed: '' @ message))))"

definition check_rate ::
    "('s, 't, 'l, 'w, 'a, 'p, 'd) bridge_env \<Rightarrow> ParsedProxyRequest \<Rightarrow> IngressIdentity \<Rightarrow> nat
      \<Rightarrow> (('s, 't, 'l, 'w, 'a, 'p) bridge, unit) handler" where
  "check_rate env request identity started b =
     (case check_request_rate (env_request_limiter env) (env_limiter_check env) identity (b_admission b) of
        (Inr _, c) \<Rightarrow> (Some (Ok ()), b\<lparr>b_admission := c\<rparr>)
      | (Inl (RateLimited n), c) \<Rightarrow>
          ingress_reject env (parsed_method request) started 429 RATE_LIMITED_RESPONSE id
            (Bail ''account request admission failed'') (b\<lparr>b_admission := c\<rparr>)
      | (Inl e, c) \<Rightarrow>
          ingress_reject env (parsed_method request) started 503 SERVICE_UNAVAILABLE_RESPONSE id
            (Bail ''account request admission failed'') (b\<lparr>b_admission := c\<rparr>))"

definition current_period ::
    "('s, 't, 'l, 'w, 'a, 'p, 'd) bridge_env \<Rightarrow> ParsedProxyRequest \<Rightarrow> nat
      \<Rightarrow> (('s, 't, 'l, 'w, 'a, 'p) bridge, UnixTimestamp) handler" where
  "current_period env request started b =
     (case UnixTimestamp_period_start_now (env_usage_period env) (env_system_time env (b_world b)) of
        Inr period_start \<Rightarrow> (Some (Ok period_start), b)
      | Inl e \<Rightarrow>
          ingress_reject env (parsed_method request) started 503 SERVICE_UNAVAILABLE_RESPONSE id (Account_Error e) b)"

definition ensure_data ::
    "('s, 't, 'l, 'w, 'a, 'p, 'd) bridge_env \<Rightarrow> ParsedProxyRequest \<Rightarrow> IngressIdentity \<Rightarrow> UnixTimestamp \<Rightarrow> nat
      \<Rightarrow> (('s, 't, 'l, 'w, 'a, 'p) bridge, unit) handler" where
  "ensure_data env request identity period_start started =
     (let refuse = ingress_reject env (parsed_method request) started in
      h_bind (ensure_customer_data_available env identity period_start) (\<lambda>res.
      case res of
        Inr _ \<Rightarrow> h_return ()
      | Inl (Customer (DataLimitReached n)) \<Rightarrow>
          refuse 429 QUOTA_EXCEEDED_RESPONSE count_data_limit_rejection (Bail ''customer period data limit reached'')
      | Inl (Customer e) \<Rightarrow> refuse 503 SERVICE_UNAVAILABLE_RESPONSE id (Bail ''customer data admission failed'')
      | Inl (DataWorker message) \<Rightarrow>
          refuse 503 SERVICE_UNAVAILABLE_RESPONSE id (Bail (''customer data admission worker failed: '' @ message))))"

definition admit_usage ::
    "('s, 't, 'l, 'w, 'a, 'p, 'd) bridge_env \<Rightarrow> ParsedProxyRequest \<Rightarrow> IngressIdentity \<Rightarrow> UnixTimestamp \<Rightarrow> nat
      \<Rightarrow> (('s, 't, 'l, 'w, 'a, 'p) bridge, unit) handler" where
  "admit_usage env request identity period_start started =
     (let refuse = ingress_reject env (parsed_method request) started in
      h_bind (admit_account_request env identity period_start) (\<lambda>res.
      case res of
        Inr _ \<Rightarrow> h_return ()
      | Inl (UsageAccount (Quota e)) \<Rightarrow> refuse 429 QUOTA_EXCEEDED_RESPONSE id (Bail ''account period quota reached'')
      | Inl (UsageAccount (UsageStorage e)) \<Rightarrow>
          refuse 503 SERVICE_UNAVAILABLE_RESPONSE id (Bail ''account usage admission service is unavailable'')
      | Inl (UsageWorker message) \<Rightarrow>
          refuse 503 SERVICE_UNAVAILABLE_RESPONSE id (Bail (''account usage admission worker failed: '' @ message))))"

definition admit_account ::
    "('s, 't, 'l, 'w, 'a, 'p, 'd) bridge_env \<Rightarrow> ParsedProxyRequest \<Rightarrow> string \<Rightarrow> nat
      \<Rightarrow> (('s, 't, 'l, 'w, 'a, 'p) bridge, AccountRequestScope) handler" where
  "admit_account env request fingerprint started =
     h_bind (authenticate_request env request fingerprint started) (\<lambda>identity.
     h_bind (check_rate env request identity started) (\<lambda>_.
     h_bind (current_period env request started) (\<lambda>period_start.
     h_bind (ensure_data env request identity period_start started) (\<lambda>_.
     h_bind (admit_usage env request identity period_start started) (\<lambda>_.
     h_return \<lparr>scope_identity = identity, scope_period_start = period_start\<rparr>)))))"

section \<open>Forwarding to Pingora\<close>

definition copy_to_pingora ::
    "('s, 't, 'l, 'w, 'a, 'p, 'd) bridge_env \<Rightarrow> (('s, 't, 'l, 'w, 'a, 'p) bridge, unit) handler" where
  "copy_to_pingora env =
     h_bind (h_now env) (\<lambda>now b.
       case env_pingora_events env (b_world b) of
         (evs, w) \<Rightarrow>
           let t = copy_bidirectional_with_idle_timeout now TUNNEL_IDLE_TIMEOUT (b_limiter b) (b_db b) evs
           in (map_option (\<lambda>res. map_err Io_Error (map_sum id (\<lambda>_. ()) res)) (tc_result t), b\<lparr>b_world := w\<rparr>))"

definition dispatch ::
    "('s, 't, 'l, 'w, 'a, 'p, 'd) bridge_env \<Rightarrow> string \<Rightarrow> AuthenticatedRequestContext option
      \<Rightarrow> (('s, 't, 'l, 'w, 'a, 'p) bridge, unit) handler" where
  "dispatch env bytes context =
     h_bind (h_modify (\<lambda>b. b\<lparr>b_trace := b_trace b @ [Dispatched bytes context]\<rparr>)) (\<lambda>_.
     h_io (env_write_pingora env bytes))"

definition with_downstream_context ::
    "('s, 't, 'l, 'w, 'a, 'p, 'd) bridge_env \<Rightarrow> AuthenticatedRequestContext \<Rightarrow> (('s, 't, 'l, 'w, 'a, 'p) bridge, unit) handler
      \<Rightarrow> (('s, 't, 'l, 'w, 'a, 'p) bridge, unit) handler" where
  "with_downstream_context env context body b =
     (case env_local_addr env (b_world b) of
        (Inl e, w) \<Rightarrow> (Some (Err (Io_Error e)), b\<lparr>b_world := w\<rparr>)
      | (Inr address, w) \<Rightarrow>
          (case downstream_register address context (b_downstream b) of
             (Inl e, st) \<Rightarrow>
               h_bind (respond env SERVICE_UNAVAILABLE_RESPONSE) (\<lambda>_. h_fail (Request_Error e))
                 (b\<lparr>b_world := w, b_downstream := st\<rparr>)
           | (Inr g, st) \<Rightarrow>
               h_guard (\<lambda>b. b\<lparr>b_downstream := drop_downstream_guard g (b_downstream b)\<rparr>) body
                 (b\<lparr>b_world := w, b_downstream := st\<rparr>)))"

definition forward_to_pingora ::
    "('s, 't, 'l, 'w, 'a, 'p, 'd) bridge_env \<Rightarrow> ParsedProxyRequest \<Rightarrow> string \<Rightarrow> AccountRequestScope option
      \<Rightarrow> (('s, 't, 'l, 'w, 'a, 'p) bridge, unit) handler" where
  "forward_to_pingora env request buffer account_scope =
     (let connect = (\<lambda>rest b. case env_connect_pingora env (b_world b) of
            (Inl e, w) \<Rightarrow>
              h_bind (respond env BAD_GATEWAY_RESPONSE) (\<lambda>_. h_fail (Bail ''failed to reach internal Pingora service''))
                (b\<lparr>b_world := w\<rparr>)
          | (Inr _, w) \<Rightarrow> rest (b\<lparr>b_world := w\<rparr>))
      in case account_scope of
        None \<Rightarrow> connect (h_bind (dispatch env buffer None) (\<lambda>_. copy_to_pingora env))
      | Some scope \<Rightarrow>
          (case strip_ingress_headers (env_http_parse env) buffer (parsed_header_len request) of
             Inl e \<Rightarrow> h_fail (Request_Error e)
           | Inr sanitized \<Rightarrow>
               let context = \<lparr>context_scope = scope, context_isolation = parsed_isolation request\<rparr>
               in connect (with_downstream_context env context
                    (h_bind (dispatch env sanitized (Some context)) (\<lambda>_. copy_to_pingora env)))))"

section \<open>The handlers\<close>

text \<open>\<open>authentication\<close> is the fingerprint of the client's certificate in authenticated mode.\<close>

definition route_request ::
    "('s, 't, 'l, 'w, 'a, 'p, 'd) bridge_env \<Rightarrow> ParsedProxyRequest \<Rightarrow> string \<Rightarrow> AccountRequestScope option
      \<Rightarrow> (('s, 't, 'l, 'w, 'a, 'p) bridge, unit) handler" where
  "route_request env request buffer account_scope =
     (if eq_ignore_ascii_case (parsed_method request) ''CONNECT''
      then handle_connect_request env (the (parsed_destination request)) (parsed_isolation request)
             (drop (parsed_header_len request) buffer) True account_scope
      else forward_to_pingora env request buffer account_scope)"

definition handle_public_connection ::
    "('s, 't, 'l, 'w, 'a, 'p, 'd) bridge_env \<Rightarrow> string option \<Rightarrow> nat option \<Rightarrow> (('s, 't, 'l, 'w, 'a, 'p) bridge, unit) handler" where
  "handle_public_connection env authentication first_request_timeout =
     h_bind (h_now env) (\<lambda>started.
     h_bind (read_first_request env first_request_timeout started) (\<lambda>(request, buffer).
     if parsed_internal_identity request \<noteq> None
     then ingress_reject env (parsed_method request) started 400 BAD_REQUEST_RESPONSE id
            (Bail ''public request supplied a reserved internal identity header'')
     else case authentication of
       None \<Rightarrow> route_request env request buffer None
     | Some fingerprint \<Rightarrow>
         h_bind (admit_account env request fingerprint started) (\<lambda>scope.
         route_request env request buffer (Some scope))))"

definition handle_internal_connect ::
    "('s, 't, 'l, 'w, 'a, 'p, 'd) bridge_env \<Rightarrow> (('s, 't, 'l, 'w, 'a, 'p) bridge, unit) handler" where
  "handle_internal_connect env b =
     (case read_connect_request (env_http_parse env) (env_read_client env) (b_world b) of
        (Inl e, w) \<Rightarrow>
          h_bind (respond env BAD_REQUEST_RESPONSE) (\<lambda>_. h_fail (Request_Error e)) (b\<lparr>b_world := w\<rparr>)
      | (Inr (dest, isolation, internal_identity, data), w) \<Rightarrow>
          (case (env_authenticated env, internal_identity) of
             (True, Some token) \<Rightarrow>
               (case BridgeIdentityRegistry_resolve (b_identities b) token of
                  None \<Rightarrow>
                    h_bind (respond env FORBIDDEN_RESPONSE) (\<lambda>_. h_fail (Bail ''internal account identity lease was rejected''))
                | Some scope \<Rightarrow> handle_connect_request env dest isolation data False (Some scope))
           | (True, None) \<Rightarrow>
               h_bind (respond env FORBIDDEN_RESPONSE) (\<lambda>_.
                 h_fail (Bail ''authenticated internal proxy request is missing its identity lease''))
           | (False, Some token) \<Rightarrow>
               h_bind (respond env BAD_REQUEST_RESPONSE) (\<lambda>_.
                 h_fail (Bail ''development proxy request supplied an internal identity lease''))
           | (False, None) \<Rightarrow> handle_connect_request env dest isolation data False None)
          (b\<lparr>b_world := w\<rparr>))"

section \<open>Nothing is forwarded on the way\<close>

fun forwarding :: "('a, 't) bridge_event \<Rightarrow> bool" where
  "forwarding (Tor_Attempt target prefs) = True"
| "forwarding (Dispatched bytes context) = True"
| "forwarding e = False"

text \<open>\<open>only P m\<close>: every event of \<open>m\<close> satisfies \<open>P\<close>. \<open>quiet m\<close>: \<open>m\<close> forwards nothing.\<close>

definition only :: "(('a, 't) bridge_event \<Rightarrow> bool) \<Rightarrow> (('s, 't, 'l, 'w, 'a, 'p) bridge, 'x) handler \<Rightarrow> bool" where
  "only P m \<longleftrightarrow> (\<forall>b. h_run m b (\<lambda>r b'. \<exists>es. b_trace b' = b_trace b @ es \<and> (\<forall>e\<in>set es. P e)))"

abbreviation quiet :: "(('s, 't, 'l, 'w, 'a, 'p) bridge, 'x) handler \<Rightarrow> bool" where
  "quiet m \<equiv> only (\<lambda>e. \<not> forwarding e) m"

lemma onlyI: "(\<And>b r b'. m b = (r, b') \<Longrightarrow> \<exists>es. b_trace b' = b_trace b @ es \<and> (\<forall>e\<in>set es. P e)) \<Longrightarrow> only P m"
  unfolding only_def by (intro allI h_runI)

lemma onlyE:
  assumes "only P m" "m b = (r, b')"
  obtains es where "b_trace b' = b_trace b @ es" "\<forall>e\<in>set es. P e"
  using h_runD [OF assms(1) [unfolded only_def, rule_format] assms(2)] by blast

lemma only_mono: "only P m \<Longrightarrow> (\<And>e. P e \<Longrightarrow> Q e) \<Longrightarrow> only Q m"
  by (rule onlyI) (metis onlyE)

lemma only_bind:
  assumes "only P m" "\<And>x. only P (f x)"
  shows "only P (h_bind m f)"
proof (rule onlyI)
  fix b r b' assume run: "h_bind m f b = (r, b')"
  obtain r1 b1 where m: "m b = (r1, b1)" by fastforce
  obtain es where es: "b_trace b1 = b_trace b @ es" "\<forall>e\<in>set es. P e" by (rule onlyE [OF assms(1) m])
  consider "b' = b1" | x where "f x b1 = (r, b')" using run m by (auto simp: h_bind_def split: option.splits sum.splits)
  then show "\<exists>es. b_trace b' = b_trace b @ es \<and> (\<forall>e\<in>set es. P e)"
  proof cases
    case 1
    then show ?thesis using es by blast
  next
    case (2 x)
    obtain es' where "b_trace b' = b_trace b1 @ es'" "\<forall>e\<in>set es'. P e" by (rule onlyE [OF assms(2) 2])
    then show ?thesis using es by (intro exI [of _ "es @ es'"]) auto
  qed
qed

lemma quiet_basic:
  "quiet (h_return x)" "quiet (h_fail e)" "quiet (h_now env)" "quiet (on_metrics g)" "quiet (respond env bytes)"
  "quiet (record_outcome env method status started)"
  by (simp_all add: only_def h_run_prims record_outcome_def Let_def)

lemma only_same_trace: "(\<And>b r b'. m b = (r, b') \<Longrightarrow> b_trace b' = b_trace b) \<Longrightarrow> only P m"
  by (rule onlyI) auto

lemma only_then:
  assumes "only P m" "m b1 = (r, b')" "b_trace b1 = b_trace b"
  shows "\<exists>es. b_trace b' = b_trace b @ es \<and> (\<forall>e\<in>set es. P e)"
  using onlyE [OF assms(1,2)] assms(3) by metis

lemma quiet_reject: "quiet (ingress_reject env method started status bytes counter e)"
  unfolding ingress_reject_def by (intro only_bind quiet_basic)

lemma quiet_workers:
  "quiet (authenticate_account env auth fingerprint)" "quiet (admit_account_request env identity period)"
  "quiet (ensure_customer_data_available env identity period)"
  by (rule only_same_trace; auto simp: authenticate_account_def admit_account_request_def ensure_customer_data_available_def
      on_worker_def split: prod.splits option.splits)+

lemma quiet_reading: "quiet (read_first_request env timeout started)"
  by (rule onlyI) (auto simp: read_first_request_def intro: only_then [OF quiet_reject] split: if_splits prod.splits sum.splits)

lemma quiet_admission:
  "quiet (authenticate_request env request fingerprint started)" "quiet (check_rate env request identity started)"
  "quiet (current_period env request started)" "quiet (ensure_data env request identity period started)"
  "quiet (admit_usage env request identity period started)"
proof -
  show "quiet (authenticate_request env request fingerprint started)"
    unfolding authenticate_request_def Let_def
    by (auto intro!: only_bind quiet_workers quiet_reject quiet_basic split: option.splits sum.splits RuntimeAuthenticationError.splits AuthenticationError.splits)
  show "quiet (check_rate env request identity started)"
    by (rule onlyI) (auto simp: check_rate_def intro: only_then [OF quiet_reject] split: prod.splits sum.splits AdmissionError.splits)
  show "quiet (current_period env request started)"
    by (rule onlyI) (auto simp: current_period_def intro: only_then [OF quiet_reject] split: sum.splits)
  show "quiet (ensure_data env request identity period started)"
    unfolding ensure_data_def Let_def
    by (auto intro!: only_bind quiet_workers quiet_reject quiet_basic
        split: sum.splits RuntimeCustomerDataAdmissionError.splits CustomerDataAdmissionError.splits)
  show "quiet (admit_usage env request identity period started)"
    unfolding admit_usage_def Let_def
    by (auto intro!: only_bind quiet_workers quiet_reject quiet_basic
        split: sum.splits RuntimeUsageAdmissionError.splits UsageAdmissionError.splits)
qed

lemma quiet_admit_account: "quiet (admit_account env request fingerprint started)"
  unfolding admit_account_def by (intro only_bind quiet_admission quiet_basic)

section \<open>What admission decides\<close>

lemma reads_bind: "reads m \<Longrightarrow> (\<And>x. reads (f x)) \<Longrightarrow> reads (db_bind m f)"
  by (simp add: reads_def keeps_rules)

lemma reads_authenticate: "reads (AccountManager_authenticate_ingress std_decode keyed_hash auth fingerprint)"
  unfolding AccountManager_authenticate_ingress_def db_authenticate_def by (intro reads_bind reads_rules)

lemma reads_persisted_bytes: "reads (persisted_bytes account period)"
proof -
  have return: "reads (db_return x)" for x :: u64 by (simp add: reads_def keeps_rules)
  have "reads (db_usage_for_scope account w period)" for w
    unfolding db_usage_for_scope_def
    by (intro reads_bind reads_rules) (auto simp: reads_def keeps_rules split: prod.splits)
  then have "reads (sum_workspace_usage account period ws n)" for ws n
    by (induction ws arbitrary: n) (auto intro!: reads_bind reads_rules return)
  moreover have "reads (db_list_workspaces account)"
    unfolding db_list_workspaces_def by (auto intro!: reads_bind reads_rules)
  ultimately show ?thesis unfolding persisted_bytes_def by (intro reads_bind)
qed

lemma ensure_available_reads:
  assumes "limiter_ensure_available identity period l c = (res, l', c')"
  shows "tbls c' = tbls c"
proof -
  have "tbls c1 = tbls c" if "period_state_for identity period l c = (r, l1, c1)" for r l1 c1
    using that readsD [OF reads_persisted_bytes, of "identity_account_id identity" period c]
    by (auto simp: period_state_for_def Let_def split: if_splits option.splits prod.splits sum.splits)
  then show ?thesis using assms by (auto simp: limiter_ensure_available_def split: prod.splits sum.splits)
qed

text \<open>A refused request: one response, one record of its status, and no charge.\<close>

definition refused :: "string \<Rightarrow> ('s, 't, 'l, 'w, 'a, 'p) bridge \<Rightarrow> ('s, 't, 'l, 'w, 'a, 'p) bridge \<Rightarrow> bool" where
  "refused method b b' \<longleftrightarrow>
     (\<exists>w. b_trace b' = b_trace b @ [Wrote_Client w, Request_Recorded (method_label method) (status_of w)]
        \<and> status_of w \<in> {403, 407, 429, 503})
     \<and> tbls (b_db b') = tbls (b_db b)"

lemma reject_refused:
  assumes "ingress_reject env method started status bytes counter e b1 = (r, b')"
    "status_of bytes = status" "status \<in> {403, 407, 429, 503}" "b_trace b1 = b_trace b" "tbls (b_db b1) = tbls (b_db b)"
  shows "r = Some (Err e) \<and> refused method b b'"
proof -
  have "h_run (ingress_reject env method started status bytes counter e) b1 (\<lambda>r b'. r = Some (Err e) \<and> refused method b1 b')"
    using assms(2,3) by (auto simp: ingress_reject_def h_run_prims record_outcome_def refused_def Let_def)
  from h_runD [OF this assms(1)] assms(4,5) show ?thesis by (simp add: refused_def)
qed

text \<open>A worker that ran, or did not run, its closure.\<close>

lemma on_worker_cases:
  assumes "on_worker env worker_error closure b = (r, b')"
  obtains (lost) message w where "env_worker env (b_world b) = (Some message, w)" "r = Some (Ok (Err (worker_error message)))"
      "b' = b\<lparr>b_world := w\<rparr>"
    | (ran) w res where "env_worker env (b_world b) = (None, w)" "closure (b\<lparr>b_world := w\<rparr>) = (res, b')" "r = Some (Ok res)"
  using assms by (auto simp: on_worker_def split: prod.splits option.splits)

lemma authenticate_request_cases:
  assumes "authenticate_request env request fingerprint started b = (r, b')"
  obtains (refused) e where "r = Some (Err e)" "refused (parsed_method request) b b'"
    | (authenticated) auth identity w c where "parsed_proxy_authorization request = Some auth"
      "env_worker env (b_world b) = (None, w)"
      "AccountManager_authenticate_ingress (env_std_decode env) (env_key_hash env) auth fingerprint (b_db b) = (Ok identity, c)"
      "r = Some (Ok identity)" "b' = b\<lparr>b_world := w, b_db := c\<rparr>" "tbls c = tbls (b_db b)"
proof (cases "parsed_proxy_authorization request")
  case None
  then show thesis using assms refused
    by (auto simp: authenticate_request_def Let_def dest!: reject_refused)
next
  case (Some auth)
  obtain r1 b1 where w: "authenticate_account env auth fingerprint b = (r1, b1)" by fastforce
  from w show thesis
    unfolding authenticate_account_def
  proof (cases rule: on_worker_cases)
    case (lost message w)
    then show thesis using assms Some w refused
      by (auto simp: authenticate_request_def h_bind_def Let_def dest!: reject_refused [where b = b])
  next
    case (ran w res)
    obtain res' c where a: "AccountManager_authenticate_ingress (env_std_decode env) (env_key_hash env) auth fingerprint (b_db b) = (res', c)"
      by fastforce
    note tb = readsD [OF reads_authenticate a]
    show thesis
    proof (cases res')
      case (Inr identity)
      then show thesis using assms Some w ran a tb
        by (intro authenticated [OF Some ran(1), of identity c]) (auto simp: authenticate_request_def h_bind_def h_return_def Let_def)
    next
      case (Inl e)
      then show thesis using assms Some w ran a tb refused
        by (cases e) (auto simp: authenticate_request_def h_bind_def Let_def dest!: reject_refused [where b = b])
    qed
  qed
qed

lemma check_rate_cases:
  assumes "check_rate env request identity started b = (r, b')"
  obtains (refused) e where "r = Some (Err e)" "refused (parsed_method request) b b'"
    | (passed) c where "check_request_rate (env_request_limiter env) (env_limiter_check env) identity (b_admission b) = (Ok (), c)"
      "r = Some (Ok ())" "b' = b\<lparr>b_admission := c\<rparr>"
proof (cases "check_request_rate (env_request_limiter env) (env_limiter_check env) identity (b_admission b)")
  case (Pair res c)
  show thesis
  proof (cases res)
    case (Inl e)
    then show thesis using assms Pair refused
      by (cases e) (auto simp: check_rate_def dest!: reject_refused [where b = b])
  next
    case (Inr u)
    then show thesis using assms Pair by (intro passed) (auto simp: check_rate_def)
  qed
qed

lemma current_period_cases:
  assumes "current_period env request started b = (r, b')"
  obtains (refused) e where "r = Some (Err e)" "refused (parsed_method request) b b'"
    | (known) period where "UnixTimestamp_period_start_now (env_usage_period env) (env_system_time env (b_world b)) = Ok period"
      "r = Some (Ok period)" "b' = b"
proof (cases "UnixTimestamp_period_start_now (env_usage_period env) (env_system_time env (b_world b))")
  case (Inl e)
  then show thesis using assms refused by (auto simp: current_period_def dest!: reject_refused [where b = b])
next
  case (Inr period)
  then show thesis using assms by (intro known) (auto simp: current_period_def)
qed

lemma ensure_data_cases:
  assumes "ensure_data env request identity period started b = (r, b')"
  obtains (refused) e where "r = Some (Err e)" "refused (parsed_method request) b b'"
    | (available) w l c where "limiter_ensure_available identity period (b_limiter b) (b_db b) = (Ok (), l, c)"
      "r = Some (Ok ())" "b' = b\<lparr>b_world := w, b_limiter := l, b_db := c\<rparr>" "tbls c = tbls (b_db b)"
proof -
  obtain r1 b1 where w: "ensure_customer_data_available env identity period b = (r1, b1)" by fastforce
  from w show thesis
    unfolding ensure_customer_data_available_def
  proof (cases rule: on_worker_cases)
    case (lost message w)
    then show thesis using assms \<open>ensure_customer_data_available env identity period b = _\<close> refused
      by (auto simp: ensure_data_def h_bind_def Let_def dest!: reject_refused [where b = b])
  next
    case (ran w res)
    obtain res' l c where a: "limiter_ensure_available identity period (b_limiter b) (b_db b) = (res', l, c)"
      by (metis prod_cases3)
    note tb = ensure_available_reads [OF a]
    show thesis
    proof (cases res')
      case (Inr u)
      then show thesis using assms w ran a tb
        by (intro available [of l c w]) (auto simp: ensure_data_def h_bind_def h_return_def Let_def)
    next
      case (Inl e)
      then show thesis using assms w ran a tb refused
        by (cases e) (auto simp: ensure_data_def h_bind_def Let_def dest!: reject_refused [where b = b])
    qed
  qed
qed

lemma admit_usage_cases:
  assumes "admit_usage env request identity period started b = (r, b')"
  obtains (refused) e where "r = Some (Err e)" "refused (parsed_method request) b b'"
    | (counted) w snapshot c where "db_admit_request identity period (b_db b) = (Ok snapshot, c)"
      "r = Some (Ok ())" "b' = b\<lparr>b_world := w, b_db := c\<rparr>"
proof -
  obtain r1 b1 where w: "admit_account_request env identity period b = (r1, b1)" by fastforce
  from w show thesis
    unfolding admit_account_request_def
  proof (cases rule: on_worker_cases)
    case (lost message w)
    then show thesis using assms \<open>admit_account_request env identity period b = _\<close> refused
      by (auto simp: admit_usage_def h_bind_def Let_def dest!: reject_refused [where b = b])
  next
    case (ran w res)
    obtain res' c where a: "db_admit_request identity period (b_db b) = (res', c)" by fastforce
    show thesis
    proof (cases res')
      case (Inr snapshot)
      then show thesis using assms w ran a
        by (intro counted [of snapshot c w]) (auto simp: admit_usage_def h_bind_def h_return_def Let_def)
    next
      case (Inl e)
      have tb: "tbls c = tbls (b_db b)"
        using a Inl by (auto dest!: atomicD [OF atomic_admit_request, of "\<lambda>_. True", rotated])
      then show thesis using assms w ran a Inl refused
        by (cases e) (auto simp: admit_usage_def h_bind_def Let_def dest!: reject_refused [where b = b])
    qed
  qed
qed

text \<open>The outcome of admission: a refusal, or the four checks in their order.\<close>

lemma admit_account_cases:
  assumes "admit_account env request fingerprint started b = (r, b')"
  obtains (refused) e where "r = Some (Err e)" "refused (parsed_method request) b b'"
    | (admitted) auth identity w c1 period l c2 snapshot where
      "parsed_proxy_authorization request = Some auth" "env_worker env (b_world b) = (None, w)"
      "AccountManager_authenticate_ingress (env_std_decode env) (env_key_hash env) auth fingerprint (b_db b) = (Ok identity, c1)"
      "fst (check_request_rate (env_request_limiter env) (env_limiter_check env) identity (b_admission b)) = Ok ()"
      "UnixTimestamp_period_start_now (env_usage_period env) (env_system_time env w) = Ok period"
      "limiter_ensure_available identity period (b_limiter b) c1 = (Ok (), l, c2)"
      "db_admit_request identity period c2 = (Ok snapshot, b_db b')"
      "r = Some (Ok \<lparr>scope_identity = identity, scope_period_start = period\<rparr>)" "b_trace b' = b_trace b"
proof -
  obtain r1 b1 where 1: "authenticate_request env request fingerprint started b = (r1, b1)" by fastforce
  from 1 show thesis
  proof (cases rule: authenticate_request_cases)
    case (refused e)
    then show thesis using assms 1 that(1) by (auto simp: admit_account_def h_bind_def)
  next
    case (authenticated auth identity w c1)
    obtain r2 b2 where 2: "check_rate env request identity started b1 = (r2, b2)" by fastforce
    from 2 show thesis
    proof (cases rule: check_rate_cases)
      case (refused e)
      then show thesis using assms 1 2 authenticated that(1) by (auto simp: admit_account_def h_bind_def refused_def)
    next
      case rate: (passed c)
      obtain r3 b3 where 3: "current_period env request started b2 = (r3, b3)" by fastforce
      from 3 show thesis
      proof (cases rule: current_period_cases)
        case (refused e)
        then show thesis using assms 1 2 3 authenticated rate that(1) by (auto simp: admit_account_def h_bind_def refused_def)
      next
        case (known period)
        obtain r4 b4 where 4: "ensure_data env request identity period started b3 = (r4, b4)" by fastforce
        from 4 show thesis
        proof (cases rule: ensure_data_cases)
          case (refused e)
          then show thesis using assms 1 2 3 4 authenticated rate known that(1)
            by (auto simp: admit_account_def h_bind_def refused_def)
        next
          case (available w' l c2)
          obtain r5 b5 where 5: "admit_usage env request identity period started b4 = (r5, b5)" by fastforce
          from 5 show thesis
          proof (cases rule: admit_usage_cases)
            case (refused e)
            then show thesis using assms 1 2 3 4 5 authenticated rate known available that(1)
              by (auto simp: admit_account_def h_bind_def refused_def)
          next
            case (counted w'' snapshot c)
            show thesis
              by (rule admitted [of auth w identity c1 period l c2 snapshot])
                (use assms 1 2 3 4 5 authenticated rate known available counted in \<open>auto simp: admit_account_def h_bind_def h_return_def\<close>)
          qed
        qed
      qed
    qed
  qed
qed

section \<open>What is forwarded\<close>

lemma connect_not_dispatched:
  "only (\<lambda>e. \<forall>bytes context. e \<noteq> Dispatched bytes context) (handle_connect_request env dest request data public scope)"
proof (rule onlyI)
  fix b r b' assume run: "handle_connect_request env dest request data public scope b = (r, b')"
  let ?now = "max (b_now b) (env_clock env (b_world b))"
  let ?b = "b\<lparr>b_now := ?now, b_observation := TunnelObservation_new ?now public\<rparr>"
  obtain b1 where b1: "connect_request_body env dest request data public scope ?b = (r, b1)"
      "b' = (if r = None then b1 else drop_observation env b1)"
    using run by (auto simp: handle_connect_request_def h_bind_def h_now_def h_modify_def h_guard_def Let_def
        split: prod.splits option.splits)
  have fresh: "fresh_observation (b_observation ?b)" by (simp add: fresh_observation_def TunnelObservation_new_def)
  show "\<exists>es. b_trace b' = b_trace b @ es \<and> (\<forall>e\<in>set es. \<forall>bytes context. e \<noteq> Dispatched bytes context)"
  proof (rule didE [OF answersD [OF answers_body fresh] b1(1)])
    fix es assume "b_trace b1 = b_trace ?b @ es" "list_all peer_event es"
    then show ?thesis by (auto simp: b1(2) drop_observation_def list_all_iff Let_def)
  qed
qed

lemma only_guard:
  assumes "only P m" "\<And>b. b_trace (release b) = b_trace b"
  shows "only P (h_guard release m)"
proof (rule onlyI)
  fix b r b' assume run: "h_guard release m b = (r, b')"
  obtain r1 b1 where m: "m b = (r1, b1)" by fastforce
  obtain es where es: "b_trace b1 = b_trace b @ es" "\<forall>e\<in>set es. P e" by (rule onlyE [OF assms(1) m])
  show "\<exists>es. b_trace b' = b_trace b @ es \<and> (\<forall>e\<in>set es. P e)"
    using run m es assms(2) by (auto simp: h_guard_def split: option.splits)
qed

lemma only_forwarding_basic:
  "only (\<lambda>e. forwarding e \<longrightarrow> Q e) (h_fail err)" "only (\<lambda>e. forwarding e \<longrightarrow> Q e) (respond env bytes)"
  "only (\<lambda>e. forwarding e \<longrightarrow> Q e) (copy_to_pingora env)"
  "Q (Dispatched bytes context) \<Longrightarrow> only (\<lambda>e. forwarding e \<longrightarrow> Q e) (dispatch env bytes context)"
  by (auto simp: only_def h_run_prims dispatch_def copy_to_pingora_def h_run_def h_bind_def h_now_def h_fail_def respond_def
      write_client_def h_modify_def h_io_def Let_def split: prod.splits)

lemma pingora_dispatched:
  "only (\<lambda>e. forwarding e \<longrightarrow> (\<exists>bytes. strip_ingress_headers (env_http_parse env) buffer (parsed_header_len request) = Ok bytes
      \<and> e = Dispatched bytes (Some \<lparr>context_scope = scope, context_isolation = parsed_isolation request\<rparr>)))
    (forward_to_pingora env request buffer (Some scope))" (is "only ?P _")
proof (cases "strip_ingress_headers (env_http_parse env) buffer (parsed_header_len request)")
  case (Inl e)
  then show ?thesis by (simp add: forward_to_pingora_def quiet_basic)
next
  case (Inr sanitized)
  let ?ctx = "\<lparr>context_scope = scope, context_isolation = parsed_isolation request\<rparr>"
  let ?Q = "\<lambda>e. forwarding e \<longrightarrow> e = Dispatched sanitized (Some ?ctx)"
  let ?body = "h_bind (dispatch env sanitized (Some ?ctx)) (\<lambda>_. copy_to_pingora env)"
  have body: "only ?Q ?body" by (intro only_bind only_forwarding_basic) simp
  have failed: "only ?Q (h_bind (respond env bytes) (\<lambda>_. h_fail e))" for bytes e
    by (intro only_bind only_forwarding_basic)
  have registered: "only ?Q (with_downstream_context env ?ctx ?body)"
  proof (rule onlyI)
    fix b r b' assume run: "with_downstream_context env ?ctx ?body b = (r, b')"
    have guarded: "only ?Q (h_guard (\<lambda>b. b\<lparr>b_downstream := drop_downstream_guard g (b_downstream b)\<rparr>) ?body)" for g
      by (rule only_guard [OF body]) simp
    from run show "\<exists>es. b_trace b' = b_trace b @ es \<and> (\<forall>e\<in>set es. ?Q e)"
      unfolding with_downstream_context_def
      by (auto split: prod.splits sum.splits intro: only_then [OF failed] only_then [OF guarded])
  qed
  have "only ?Q (forward_to_pingora env request buffer (Some scope))"
  proof (rule onlyI)
    fix b r b' assume "forward_to_pingora env request buffer (Some scope) b = (r, b')"
    then show "\<exists>es. b_trace b' = b_trace b @ es \<and> (\<forall>e\<in>set es. ?Q e)"
      unfolding forward_to_pingora_def
      by (auto simp: Inr Let_def split: prod.splits sum.splits intro: only_then [OF failed] only_then [OF registered])
  qed
  then show ?thesis by (rule only_mono) (use Inr in simp)
qed

lemma read_first_request_Ok:
  assumes "read_first_request env timeout started b = (Some (Ok (request, buffer)), b1)"
  obtains w where "read_proxy_request (env_http_parse env) (env_read_client env) [] (b_world b) = (Ok (request, buffer), w)"
    "b1 = b\<lparr>b_world := w\<rparr>"
proof -
  have never: "ingress_reject env m started st bytes counter e b0 \<noteq> (Some (Ok x), b2)"
    for m st bytes counter e b0 b2 and x :: "ParsedProxyRequest \<times> string"
    by (simp add: ingress_reject_def h_bind_def respond_def on_metrics_def h_modify_def record_outcome_def h_now_def h_fail_def Let_def)
  show thesis using assms that never
    by (auto simp: read_first_request_def split: if_splits prod.splits sum.splits)
qed

text \<open>
  In authenticated mode nothing is forwarded for a client that was not admitted: a stream is
  requested from Tor, or a request handed to the internal proxy, only if the request carried no internal
  identity, its credentials authenticated an identity together with the certificate, the account
  was within its request rate, its data limit and its request quota, and the request was counted; what the
  internal proxy receives is the request without the ingress headers, registered for that identity.
\<close>

lemma forwarded_only_when_admitted:
  assumes "handle_public_connection env (Some fingerprint) first_request_timeout b = (res, b')"
    and "e \<in> set (drop (length (b_trace b)) (b_trace b'))" "forwarding e"
  shows "\<exists>request buffer w auth identity w' c1 period l c2 snapshot c3.
      read_proxy_request (env_http_parse env) (env_read_client env) [] (b_world b) = (Ok (request, buffer), w)
    \<and> parsed_internal_identity request = None \<and> parsed_proxy_authorization request = Some auth
    \<and> env_worker env w = (None, w')
    \<and> AccountManager_authenticate_ingress (env_std_decode env) (env_key_hash env) auth fingerprint (b_db b) = (Ok identity, c1)
    \<and> fst (check_request_rate (env_request_limiter env) (env_limiter_check env) identity (b_admission b)) = Ok ()
    \<and> UnixTimestamp_period_start_now (env_usage_period env) (env_system_time env w') = Ok period
    \<and> limiter_ensure_available identity period (b_limiter b) c1 = (Ok (), l, c2)
    \<and> db_admit_request identity period c2 = (Ok snapshot, c3)
    \<and> (\<forall>bytes context. e = Dispatched bytes context \<longrightarrow>
         strip_ingress_headers (env_http_parse env) buffer (parsed_header_len request) = Ok bytes
         \<and> context = Some \<lparr>context_scope = \<lparr>scope_identity = identity, scope_period_start = period\<rparr>,
                            context_isolation = parsed_isolation request\<rparr>)"
proof -
  let ?now = "max (b_now b) (env_clock env (b_world b))"
  let ?b = "b\<lparr>b_now := ?now\<rparr>"
  obtain r1 b1 where r1: "read_first_request env first_request_timeout ?now ?b = (r1, b1)" by fastforce
  obtain es1 where es1: "b_trace b1 = b_trace b @ es1" "\<forall>e\<in>set es1. \<not> forwarding e"
    by (rule onlyE [OF quiet_reading r1]) auto
  have quiet: False if "b_trace b' = b_trace b1 @ es" "\<forall>e\<in>set es. \<not> forwarding e" for es
    using that es1 assms(2,3) by auto
  have run: "(case r1 of Some (Inr (request, buffer)) \<Rightarrow>
        (if parsed_internal_identity request \<noteq> None
         then ingress_reject env (parsed_method request) ?now 400 BAD_REQUEST_RESPONSE id
            (Bail ''public request supplied a reserved internal identity header'')
         else h_bind (admit_account env request fingerprint ?now) (\<lambda>scope. route_request env request buffer (Some scope))) b1
      | Some (Inl e) \<Rightarrow> (Some (Err e), b1) | None \<Rightarrow> (None, b1)) = (res, b')"
    using assms(1) r1 by (auto simp: handle_public_connection_def h_bind_def [of "h_now env"] h_now_def Let_def
        h_bind_def [of "read_first_request _ _ _"] split: option.splits sum.splits prod.splits)
  obtain request buffer where ok: "r1 = Some (Ok (request, buffer))" "parsed_internal_identity request = None"
      "h_bind (admit_account env request fingerprint ?now) (\<lambda>scope. route_request env request buffer (Some scope)) b1 = (res, b')"
  proof (cases "\<exists>request buffer. r1 = Some (Ok (request, buffer)) \<and> parsed_internal_identity request = None")
    case True
    then show thesis using run that by auto
  next
    case False
    then have "\<exists>es. b_trace b' = b_trace b1 @ es \<and> (\<forall>e\<in>set es. \<not> forwarding e)"
      using run by (auto split: option.splits sum.splits if_splits intro: only_then [OF quiet_reject])
    then show thesis using quiet by blast
  qed
  obtain w where w: "read_proxy_request (env_http_parse env) (env_read_client env) [] (b_world b) = (Ok (request, buffer), w)"
      "b1 = ?b\<lparr>b_world := w\<rparr>"
    using read_first_request_Ok [OF r1 [unfolded ok(1)]] by auto
  obtain r2 b2 where r2: "admit_account env request fingerprint ?now b1 = (r2, b2)" by fastforce
  from r2 show ?thesis
  proof (cases rule: admit_account_cases)
    case (refused e)
    then have "b' = b2" using ok(3) r2 by (simp add: h_bind_def)
    moreover obtain es where "b_trace b2 = b_trace b1 @ es" "\<forall>e\<in>set es. \<not> forwarding e"
      by (rule onlyE [OF quiet_admit_account r2])
    ultimately show ?thesis using quiet by blast
  next
    case (admitted auth identity w' c1 period l c2 snapshot)
    let ?scope = "\<lparr>scope_identity = identity, scope_period_start = period\<rparr>"
    have route: "route_request env request buffer (Some ?scope) b2 = (res, b')"
      using ok(3) r2 admitted(8) by (simp add: h_bind_def)
    have "only (\<lambda>e. \<forall>bytes context. e = Dispatched bytes context \<longrightarrow>
         strip_ingress_headers (env_http_parse env) buffer (parsed_header_len request) = Ok bytes
         \<and> context = Some \<lparr>context_scope = ?scope, context_isolation = parsed_isolation request\<rparr>)
       (route_request env request buffer (Some ?scope))"
      unfolding route_request_def
      by (auto intro: only_mono [OF connect_not_dispatched] only_mono [OF pingora_dispatched])
    from onlyE [OF this route] obtain es where es: "b_trace b' = b_trace b2 @ es"
      "\<forall>e\<in>set es. \<forall>bytes context. e = Dispatched bytes context \<longrightarrow>
         strip_ingress_headers (env_http_parse env) buffer (parsed_header_len request) = Ok bytes
         \<and> context = Some \<lparr>context_scope = ?scope, context_isolation = parsed_isolation request\<rparr>"
      by blast
    have "e \<in> set es" using es(1) es1 admitted(9) assms(2,3) by auto
    with es(2) have "\<forall>bytes context. e = Dispatched bytes context \<longrightarrow>
         strip_ingress_headers (env_http_parse env) buffer (parsed_header_len request) = Ok bytes
         \<and> context = Some \<lparr>context_scope = ?scope, context_isolation = parsed_isolation request\<rparr>" by blast
    with w ok(2) admitted show ?thesis
      by (intro exI conjI) (assumption | simp)+
  qed
qed

text \<open>
  Property C26. A refused request is answered and recorded once, and costs nothing: when admission fails,
  whichever of its checks failed, the client was sent exactly one response, its status, one of
  403, 407, 429 and 503, was recorded for the method of the request, and the account database is unchanged.
\<close>

theorem refused_request_not_charged:
  assumes "admit_account env request fingerprint started b = (Some (Err e), b')"
  shows "\<exists>w. b_trace b' = b_trace b @ [Wrote_Client w, Request_Recorded (method_label (parsed_method request)) (status_of w)]
    \<and> status_of w \<in> {403, 407, 429, 503} \<and> tbls (b_db b') = tbls (b_db b)"
  using assms by (cases rule: admit_account_cases) (auto simp: refused_def)

text \<open>
  Property C27. An internal CONNECT acts for the account of a live lease: when the bridge runs in
  authenticated mode, Tor is contacted for a connection of the internal proxy only if the request names a
  leased token, and the tunnel is then opened for the scope of that lease.
\<close>

theorem internal_connect_needs_lease:
  assumes "handle_internal_connect env b = (res, b')" "env_authenticated env"
    and "Tor_Attempt target prefs \<in> set (drop (length (b_trace b)) (b_trace b'))"
  shows "\<exists>dest isolation token data w scope.
      read_connect_request (env_http_parse env) (env_read_client env) (b_world b) = (Ok (dest, isolation, Some token, data), w)
    \<and> BridgeIdentityRegistry_resolve (b_identities b) token = Some scope
    \<and> handle_connect_request env dest isolation data False (Some scope) (b\<lparr>b_world := w\<rparr>) = (res, b')"
proof -
  have failed: "quiet (h_bind (respond env bytes) (\<lambda>_. h_fail e))" for bytes e
    by (intro only_bind quiet_basic)
  have quiet: False if "\<exists>es. b_trace b' = b_trace b @ es \<and> (\<forall>e\<in>set es. \<not> forwarding e)"
    using that assms(3) by fastforce
  obtain r w where r: "read_connect_request (env_http_parse env) (env_read_client env) (b_world b) = (r, w)" by fastforce
  show ?thesis
  proof (cases "\<exists>dest isolation token data scope. r = Ok (dest, isolation, Some token, data)
      \<and> BridgeIdentityRegistry_resolve (b_identities b) token = Some scope")
    case True
    then show ?thesis using assms(1,2) r by (auto simp: handle_internal_connect_def)
  next
    case False
    then have "\<exists>es. b_trace b' = b_trace b @ es \<and> (\<forall>e\<in>set es. \<not> forwarding e)"
      using assms(1,2) r
      by (auto simp: handle_internal_connect_def split: sum.splits prod.splits option.splits intro: only_then [OF failed])
    then show ?thesis using quiet by blast
  qed
qed

section \<open>A demonstration\<close>

definition ingress_key :: string where
  "ingress_key = ''pxy_AAAABBBBCCCCDDDD.'' @ replicate 43 (CHR ''k'')"

definition ingress_env :: "(nat \<times> bool, nat, unit, unit, string, nat, string) bridge_env" where
  "ingress_env = demo_env\<lparr>env_std_decode := (\<lambda>_. Some (ingress_key @ '':'')), env_key_hash := (\<lambda>_. demo_digest)\<rparr>"

definition demo_state :: "connection \<Rightarrow> bool" where
  "demo_state c \<longleftrightarrow> tbls c = demo_tables \<and> faults c = (\<lambda>_. None) \<and> \<not> poisoned c"

lemma demo_authenticates:
  "\<exists>c. AccountManager_authenticate_ingress (\<lambda>_. Some (ingress_key @ '':'')) (\<lambda>_. demo_digest) ''Basic cHh5''
     demo_fingerprint demo_connection = (Ok demo_identity, c) \<and> demo_state c"
proof -
  have key: "parse_api_key_public_id ingress_key = Ok ''AAAABBBBCCCCDDDD''"
    unfolding parse_api_key_public_id_Ok
    by (rule exI [of _ "replicate 43 (CHR ''k'')"])
      (simp add: ingress_key_def API_KEY_PREFIX_def is_base64_url_byte_def ascii_defs byte_def list_all_iff)
  have header: "split_ascii_whitespace ''Basic cHh5'' = [''Basic'', ''cHh5'']" by code_simp
  have "eq_ignore_ascii_case ''Basic'' ''Basic''" by (simp add: eq_ignore_ascii_case_def)
  then have "extract_proxy_auth_api_key (\<lambda>_. Some (ingress_key @ '':'')) ''Basic cHh5'' = Ok ingress_key"
    by (intro extract_key [OF key header]) simp_all
  moreover have "db_authenticate ''AAAABBBBCCCCDDDD'' demo_digest demo_fingerprint demo_connection
      = (Ok demo_identity, after demo_tables (after demo_tables demo_connection))"
    unfolding authenticate_Ok demo_connection_simps authorized_iff [OF demo_schema_wf] using demo_authorized by simp
  ultimately show ?thesis
    by (simp add: AccountManager_authenticate_ingress_def dbm_unfold key ApiKeyHasher_digest_def demo_state_def after_def)
qed

lemma demo_period: "UnixTimestamp_period_start_now 3600 (Some 100) = Ok (UnixTimestamp 0)"
  by (simp add: UnixTimestamp_period_start_now_def UnixTimestamp_now_def i64_try_from_u64_def i64_max_def)

lemma demo_available:
  assumes "demo_state c"
  shows "\<exists>l c'. limiter_ensure_available demo_identity (UnixTimestamp 0) demo_limiter c = (Ok (), l, c') \<and> demo_state c'"
proof -
  have "usage_counters_from_row None = Ok (0, 0, 0)"
    by (simp add: usage_counters_from_row_def nonnegative_u64_from_database_def u64_try_from_i64_def)
  with assms have "\<exists>c'. persisted_bytes (AccountId 1) (UnixTimestamp 0) c = (Ok 0, c') \<and> demo_state c'"
    by (auto simp: persisted_bytes_def db_list_workspaces_def db_usage_for_scope_def record_exists_def
        require_workspace_scope_def workspace_scope_exists_def account_exists_def select_usage_def
        demo_tables_def dbm_simps WorkspaceId_from_database_def WorkspaceStatus_from_database_def
        UsageSnapshot_total_bytes_def checked_add_def demo_state_def)
  then show ?thesis
    by (auto simp: limiter_ensure_available_def period_state_for_def demo_limiter_def demo_identity_def demo_limits_def
        evict_period_def insert_period_def period_ensure_available_def CustomerPeriodUsage_new_def)
qed

lemma demo_admitted:
  assumes "demo_state c"
  obtains snapshot c' where "db_admit_request demo_identity (UnixTimestamp 0) c = (Ok snapshot, c')"
proof -
  have "\<exists>snap. fst (db_admit_request demo_identity (UnixTimestamp 0) c) = Ok snap"
    using assms admit_request_condition [of c "UnixTimestamp 0" demo_identity 0 0 0] demo_schema_wf demo_counters_ok
    by (simp add: demo_state_def no_faults_def workspace_scope_exists_def demo_tables_def demo_identity_def
        demo_limits_def below_limit_def i64_max_def)
  then show thesis using that by (cases "db_admit_request demo_identity (UnixTimestamp 0) c") auto
qed

definition sample_request :: ParsedProxyRequest where
  "sample_request = \<lparr>parsed_method = ''GET'', parsed_destination = None, parsed_header_len = 0,
     parsed_isolation = strict_request, parsed_proxy_authorization = Some ''Basic cHh5'', parsed_internal_identity = None\<rparr>"

lemma sample_read: "read_proxy_request sample_parser read [] w = (Ok (sample_request, []), w)"
proof -
  have "[] \<noteq> sample_output" by (simp add: sample_output_def)
  then have "parse_proxy_request sample_parser [] = Ok (Some sample_request)"
    by (simp add: parse_proxy_request_def sample_parser_def sample_head_def nonempty_option_def sample_parsed sample_ingress_def
        sample_request_def strict_request_def eq_ignore_ascii_case_def sample_lower)
  then show ?thesis by (simp add: read_proxy_request.simps)
qed

lemma sample_strip: "strip_ingress_headers sample_parser [] 0 = Ok sample_output"
proof -
  have "[] \<noteq> sample_output" by (simp add: sample_output_def)
  then have p: "sample_parser [] = Ok (Complete 0 (sample_head sample_headers))" by (simp add: sample_parser_def)
  have "forwarded_headers sample_headers = ''Host: a.example'' @ crlf"
    by (subst forwarded_headers_filter, simp only: sample_filtered) (simp add: is_ingress_header_def
        eq_ignore_ascii_case_def ingress_names_lower sample_lower)
  then show ?thesis by (simp add: strip_ingress_headers_def p sample_head_def sample_output_def)
qed

lemma demo_rate:
  "\<exists>c. check_request_rate (\<lambda>_. ()) (\<lambda>l. (None, l)) demo_identity (b_admission demo_bridge) = (Ok (), c)"
  by (simp add: check_request_rate_def state_for_def state_for_locked_def insert_state_def AccountAdmissionState_new_def
      state_request_limiter_def demo_bridge_def)

definition demo_context :: AuthenticatedRequestContext where
  "demo_context = \<lparr>context_scope = demo_account_scope, context_isolation = strict_request\<rparr>"

lemma demo_public:
  "\<exists>b'. handle_public_connection ingress_env (Some demo_fingerprint) (Some 5) demo_bridge = (None, b')
     \<and> b_trace b' = [Dispatched sample_output (Some demo_context)]"
proof -
  obtain c1 where a: "AccountManager_authenticate_ingress (\<lambda>_. Some (ingress_key @ '':'')) (\<lambda>_. demo_digest) ''Basic cHh5''
     demo_fingerprint demo_connection = (Ok demo_identity, c1)" "demo_state c1"
    using demo_authenticates by blast
  obtain adm where r: "check_request_rate (\<lambda>_. ()) (\<lambda>l. (None, l)) demo_identity (b_admission demo_bridge) = (Ok (), adm)"
    using demo_rate by blast
  obtain l c2 where e: "limiter_ensure_available demo_identity (UnixTimestamp 0) demo_limiter c1 = (Ok (), l, c2)" "demo_state c2"
    using demo_available [OF a(2)] by blast
  obtain snapshot c3 where q: "db_admit_request demo_identity (UnixTimestamp 0) c2 = (Ok snapshot, c3)"
    by (rule demo_admitted [OF e(2)])
  have env: "env_std_decode ingress_env = (\<lambda>_. Some (ingress_key @ '':''))" "env_key_hash ingress_env = (\<lambda>_. demo_digest)"
      "env_worker ingress_env = (\<lambda>w. (None, w))" "env_request_limiter ingress_env = (\<lambda>_. ())"
      "env_limiter_check ingress_env = (\<lambda>l. (None, l))" "env_usage_period ingress_env = 3600"
      "env_system_time ingress_env = (\<lambda>_. Some 100)" "env_http_parse ingress_env = sample_parser"
      "env_first_request_elapsed ingress_env = (\<lambda>_ _. False)" "env_connect_pingora ingress_env = (\<lambda>w. (Ok (), w))"
      "env_local_addr ingress_env = (\<lambda>w. (Ok 0, w))" "env_write_pingora ingress_env = (\<lambda>_ w. (Ok (), w))"
      "env_pingora_events ingress_env = (\<lambda>w. ([], w))"
    by (simp_all add: ingress_env_def demo_env_def)
  have br: "b_db demo_bridge = demo_connection" "b_limiter demo_bridge = demo_limiter" "b_trace demo_bridge = []"
      "b_downstream demo_bridge = \<lparr>ds_entries = [], ds_capacity = 4, ds_sequence = 1, ds_poisoned = False\<rparr>"
    by (simp_all add: demo_bridge_def)
  have get: "\<not> eq_ignore_ascii_case ''GET'' ''CONNECT''" by (simp add: eq_ignore_ascii_case_def sample_lower)
  show ?thesis
    by (simp add: handle_public_connection_def h_bind_def h_now_def h_return_def read_first_request_def env sample_read
        sample_request_def admit_account_def authenticate_request_def authenticate_account_def on_worker_def a(1) br Let_def
        check_rate_def r current_period_def demo_period ensure_data_def ensure_customer_data_available_def e(1)
        admit_usage_def admit_account_request_def q route_request_def get forward_to_pingora_def sample_strip
        with_downstream_context_def downstream_register_def h_guard_def dispatch_def h_modify_def h_io_def
        copy_to_pingora_def copy_bidirectional_with_idle_timeout_def copy_bidirectional_with_idle_timeout_and_counters_def
        tunnel_copy_new_def demo_context_def demo_account_scope_def)
qed

theorem refused_request_not_charged_witness:
  "\<exists>b' w. b_trace b' = [Wrote_Client w, Request_Recorded ''GET'' (status_of w)]
     \<and> admit_account ingress_env (sample_request\<lparr>parsed_proxy_authorization := None\<rparr>) demo_fingerprint 0 demo_bridge
        = (Some (Err (Bail ''proxy authorization is required'')), b')"
proof -
  obtain b' where run: "admit_account ingress_env (sample_request\<lparr>parsed_proxy_authorization := None\<rparr>) demo_fingerprint 0 demo_bridge
      = (Some (Err (Bail ''proxy authorization is required'')), b')"
    by (simp add: admit_account_def authenticate_request_def h_bind_def ingress_reject_def respond_def on_metrics_def h_modify_def
        record_outcome_def h_now_def h_fail_def Let_def)
  from refused_request_not_charged [OF run] have "\<exists>w. b_trace b' = [Wrote_Client w, Request_Recorded ''GET'' (status_of w)]"
    by (auto simp: demo_bridge_def sample_request_def method_label_def method_labels_def)
  with run show ?thesis by blast
qed

text \<open>An internal connection that names the lease of the demonstration account.\<close>

definition lease_env :: "(nat \<times> bool, nat, unit, unit, string, nat, string) bridge_env" where
  "lease_env = demo_env\<lparr>env_http_parse := (\<lambda>s. Ok (Complete 0 \<lparr>head_method = Some ''CONNECT'',
     head_path = Some ''cdn.example:443'', head_version = Some 1,
     head_headers = [(''x-proxy-isolation-MODE'', ''strict''), (INTERNAL_IDENTITY_HEADER, ''lease'')]\<rparr>))\<rparr>"

lemma lease_read:
  "read_connect_request (env_http_parse lease_env) (env_read_client lease_env) w
     = (Ok (''cdn.example:443'', strict_request, Some ''lease'', []), w)"
proof -
  have "validate_isolation_identity ''lease'' = Ok ''lease''"
    by (simp add: validate_isolation_identity_Ok isolation_identity_byte_def ascii_defs byte_def)
  then have "parse_proxy_request (env_http_parse lease_env) [] = Ok (Some \<lparr>parsed_method = ''CONNECT'',
      parsed_destination = Some ''cdn.example:443'', parsed_header_len = 0, parsed_isolation = strict_request,
      parsed_proxy_authorization = None, parsed_internal_identity = Some ''lease''\<rparr>)"
    by (simp add: lease_env_def parse_proxy_request_def nonempty_option_def ingress_headers_from_httparse_def
        eq_ignore_ascii_case_def ingress_names_lower sample_lower parse_isolation_mode_def strict_request_def)
  then show ?thesis
    by (simp add: read_connect_request_def read_proxy_request.simps eq_ignore_ascii_case_def sample_lower)
qed

theorem internal_connect_needs_lease_witness:
  "\<exists>scope. BridgeIdentityRegistry_resolve (b_identities demo_bridge) ''lease'' = Some scope
     \<and> handle_internal_connect lease_env demo_bridge
       = handle_connect_request lease_env ''cdn.example:443'' strict_request [] False (Some scope) (demo_bridge\<lparr>b_world := ()\<rparr>)"
proof -
  obtain s l c where o': "limiter_open_session demo_identity (UnixTimestamp 0) demo_limiter demo_connection = (Ok s, l, c)"
    by (rule demo_opens)
  have auth: "env_authenticated lease_env" by (simp add: lease_env_def demo_env_def)
  have "Tor_Attempt ''cdn.example:443'' Isolate_Every_Stream \<in> set (b_trace (snd (handle_internal_connect lease_env demo_bridge)))"
    by (simp add: handle_internal_connect_def lease_read auth BridgeIdentityRegistry_resolve_def)
      (simp add: lease_env_def o' demo_identity_sel demo_evaluation resolve_isolation_def Let_def)
  then have "Tor_Attempt ''cdn.example:443'' Isolate_Every_Stream
      \<in> set (drop (length (b_trace demo_bridge)) (b_trace (snd (handle_internal_connect lease_env demo_bridge))))"
    by (simp add: demo_bridge_def)
  from internal_connect_needs_lease [OF prod.collapse [symmetric] auth this] show ?thesis
    by (auto simp: lease_read)
qed

end
