(* ===== verification/Secure_Files.thy ===== *)
theory Secure_Files
  imports Account_Types
begin

text \<open>
  The files that hold secrets (\<open>src/src/account_management.rs\<close>): the API-key hash secret, read by
  \<open>ApiKeyHasher::from_key_file\<close>, and the account database, prepared by \<open>prepare_database_file\<close>. The TLS
  private key of \<open>src/src/private_ingress.rs\<close> is checked the same way in \<open>Ingress_Config\<close>.

  The file system is a parameter: \<open>file_ops\<close> has the operations the code calls, each a function of the
  world, which other processes may change between two calls. An \<open>io::Error\<close> is a number.
\<close>

section \<open>Effects on the world\<close>

type_synonym ('w, 'a, 'e) io = "'w \<Rightarrow> ('a, 'e) result \<times> 'w"

definition io_return :: "'a \<Rightarrow> ('w, 'a, 'e) io" where
  "io_return x w = (Ok x, w)"

definition io_fail :: "'e \<Rightarrow> ('w, 'a, 'e) io" where
  "io_fail e w = (Err e, w)"

definition io_lift :: "('a, 'e) result \<Rightarrow> ('w, 'a, 'e) io" where
  "io_lift r w = (r, w)"

definition io_bind :: "('w, 'a, 'e) io \<Rightarrow> ('a \<Rightarrow> ('w, 'b, 'e) io) \<Rightarrow> ('w, 'b, 'e) io" where
  "io_bind m f w = (case m w of (Inl e, w') \<Rightarrow> (Err e, w') | (Inr x, w') \<Rightarrow> f x w')"

definition io_map_err :: "('e \<Rightarrow> 'f) \<Rightarrow> ('w, 'a, 'e) io \<Rightarrow> ('w, 'a, 'f) io" where
  "io_map_err g m w = (case m w of (r, w') \<Rightarrow> (map_err g r, w'))"

named_theorems io_simps \<open>outcomes of chains of effects\<close>

lemma io_basic [io_simps]:
  "io_return x w = (Inr y, w') \<longleftrightarrow> y = x \<and> w' = w"
  "io_return x w \<noteq> (Inl e, w')"
  "io_fail e w = (Inl e', w') \<longleftrightarrow> e' = e \<and> w' = w"
  "io_fail e w \<noteq> (Inr y, w')"
  "io_lift r w = (Inr y, w') \<longleftrightarrow> r = Inr y \<and> w' = w"
  "io_lift r w = (Inl e, w') \<longleftrightarrow> r = Inl e \<and> w' = w"
  by (auto simp: io_return_def io_fail_def io_lift_def)

lemma io_bind_Ok [io_simps]:
  "io_bind m f w = (Inr y, w') \<longleftrightarrow> (\<exists>x w1. m w = (Inr x, w1) \<and> f x w1 = (Inr y, w'))"
  by (cases "m w"; cases "fst (m w)") (auto simp: io_bind_def)

lemma io_bind_Err [io_simps]:
  "io_bind m f w = (Inl e, w') \<longleftrightarrow> m w = (Inl e, w') \<or> (\<exists>x w1. m w = (Inr x, w1) \<and> f x w1 = (Inl e, w'))"
  by (cases "m w"; cases "fst (m w)") (auto simp: io_bind_def)

lemma io_map_err_Ok [io_simps]: "io_map_err g m w = (Inr y, w') \<longleftrightarrow> m w = (Inr y, w')"
  by (cases "m w") (auto simp: io_map_err_def)

lemma io_map_err_Err [io_simps]: "io_map_err g m w = (Inl e, w') \<longleftrightarrow> (\<exists>d. m w = (Inl d, w') \<and> e = g d)"
  by (cases "m w") (auto simp: io_map_err_def)

section \<open>Files\<close>

record file_metadata =
  meta_is_symlink :: bool
  meta_is_file :: bool
  meta_mode :: u32

record ('w, 'f) file_ops =
  fs_symlink_metadata :: "string \<Rightarrow> ('w, file_metadata, nat) io"
  fs_open :: "string \<Rightarrow> ('w, 'f, nat) io"
  fs_read :: "string \<Rightarrow> ('w, string, nat) io"
  fs_create_new :: "string \<Rightarrow> u32 \<Rightarrow> ('w, unit, nat) io"
  fs_not_found :: "nat \<Rightarrow> bool"

unbundle bit_operations_syntax

text \<open>What every check of a secret file accepts.\<close>

definition private_file :: "file_metadata \<Rightarrow> bool" where
  "private_file m \<longleftrightarrow> \<not> meta_is_symlink m \<and> meta_is_file m \<and> meta_mode m AND 0x3f = 0"

section \<open>The API-key hash secret\<close>

definition KEY_LEN :: nat where "KEY_LEN = 32"

definition ApiKeyHasher_from_key_file :: "('w, 'f) file_ops \<Rightarrow> string \<Rightarrow> ('w, string, AccountManagementError) io" where
  "ApiKeyHasher_from_key_file fs path =
     (if path = [] then io_fail (InsecureSecretPath ''path must be explicit'')
      else io_bind (io_map_err Io (fs_symlink_metadata fs path)) (\<lambda>metadata.
        if meta_is_symlink metadata then io_fail (InsecureSecretPath ''symbolic links are not accepted'')
        else if \<not> meta_is_file metadata then io_fail (InsecureSecretPath ''path is not a regular file'')
        else if meta_mode metadata AND 0x3f \<noteq> 0 then io_fail (InsecureSecretPermissions (unat (meta_mode metadata)))
        else io_bind (io_map_err Io (fs_read fs path)) (\<lambda>bytes.
          if length bytes \<noteq> KEY_LEN then io_fail (InvalidSecretLength KEY_LEN (length bytes))
          else io_return bytes)))"

lemma from_key_file_Ok:
  "ApiKeyHasher_from_key_file fs path w = (Ok key, w') \<longleftrightarrow>
     path \<noteq> [] \<and> length key = KEY_LEN
     \<and> (\<exists>metadata w1. fs_symlink_metadata fs path w = (Ok metadata, w1) \<and> private_file metadata
          \<and> fs_read fs path w1 = (Ok key, w'))"
  by (auto simp: ApiKeyHasher_from_key_file_def private_file_def io_simps)

section \<open>The database file\<close>

definition prepare_database_file :: "('w, 'f) file_ops \<Rightarrow> string \<Rightarrow> ('w, unit, AccountManagementError) io" where
  "prepare_database_file fs path w =
     (if path = [] then (Err (InsecureDatabasePath ''path must be explicit''), w)
      else case fs_symlink_metadata fs path w of
        (Inr metadata, w1) \<Rightarrow>
          if meta_is_symlink metadata then (Err (InsecureDatabasePath ''symbolic links are not accepted''), w1)
          else if \<not> meta_is_file metadata then (Err (InsecureDatabasePath ''path is not a regular file''), w1)
          else if meta_mode metadata AND 0x3f \<noteq> 0
          then (Err (InsecureDatabasePermissions (unat (meta_mode metadata))), w1)
          else (Ok (), w1)
      | (Inl error, w1) \<Rightarrow>
          if fs_not_found fs error then io_map_err Io (fs_create_new fs path 0x180) w1
          else (Err (Io error), w1))"

text \<open>The database is a private file already, or is created with mode \<open>0o600\<close>.\<close>

lemma prepare_database_file_Ok:
  "prepare_database_file fs path w = (Ok (), w') \<longleftrightarrow>
     path \<noteq> []
     \<and> ((\<exists>metadata. fs_symlink_metadata fs path w = (Ok metadata, w') \<and> private_file metadata)
        \<or> (\<exists>e w1. fs_symlink_metadata fs path w = (Err e, w1) \<and> fs_not_found fs e
             \<and> fs_create_new fs path 0x180 w1 = (Ok (), w')))"
  by (auto simp: prepare_database_file_def private_file_def io_simps split: prod.splits sum.splits)

section \<open>A file system for the demonstrations\<close>

text \<open>A map of paths to modes and contents; directories and links have no contents.\<close>

type_synonym demo_files = "string \<Rightarrow> (u32 \<times> string) option"

definition demo_fs :: "(demo_files, string) file_ops" where
  "demo_fs = \<lparr>
     fs_symlink_metadata = (\<lambda>path w. (case w path of
         Some (mode, bytes) \<Rightarrow> Ok \<lparr>meta_is_symlink = False, meta_is_file = True, meta_mode = mode\<rparr>
       | None \<Rightarrow> Err 2, w)),
     fs_open = (\<lambda>path w. (case w path of Some (mode, bytes) \<Rightarrow> Ok bytes | None \<Rightarrow> Err 2, w)),
     fs_read = (\<lambda>path w. (case w path of Some (mode, bytes) \<Rightarrow> Ok bytes | None \<Rightarrow> Err 2, w)),
     fs_create_new = (\<lambda>path mode w. case w path of Some _ \<Rightarrow> (Err 17, w) | None \<Rightarrow> (Ok (), w(path \<mapsto> (mode, [])))),
     fs_not_found = (\<lambda>e. e = 2)\<rparr>"

end
