(* ===== verification/Account_Open.thy ===== *)
theory Account_Open
  imports Secure_Files Account_Properties Account_Admission
begin

text \<open>
  Opening the account store (\<open>src/src/account_management.rs\<close>): the pragmas of \<open>configure_connection\<close>, the
  schema migration, \<open>AccountDatabase::open\<close> and \<open>AccountManager::open\<close>.

  A database file has a \<open>user_version\<close> and, once the schema was created, the tables of
  \<open>Account_Database\<close>. An opened file carries the schedule of faults of its connection; the batch of
  \<open>CREATE\<close> statements is one step here, since a failure anywhere in it rolls the transaction back.

  The lemmas show that the migration is atomic: an opened store has the current version and
  well-formed tables, and an open that failed has changed nothing in the file.
\<close>

section \<open>Opened files\<close>

record db_file =
  df_user_version :: int
  df_tables :: "tables option"

record opened =
  op_file :: db_file
  op_clock :: nat
  op_faults :: "nat \<Rightarrow> nat option"

type_synonym 'a file_action = "opened \<Rightarrow> ('a, AccountManagementError) result \<times> opened"

text \<open>One statement: the fault of its position, or its effect on the file.\<close>

definition run_pragma :: "(db_file \<Rightarrow> ('a \<times> db_file, rusqlite_error) result) \<Rightarrow> 'a file_action" where
  "run_pragma s c =
     (let c' = c\<lparr>op_clock := Suc (op_clock c)\<rparr> in
      case op_faults c (op_clock c) of
        Some n \<Rightarrow> (Err (Database (SqliteOther n)), c')
      | None \<Rightarrow>
          (case s (op_file c) of
             Inl e \<Rightarrow> (Err (Database e), c')
           | Inr (x, f) \<Rightarrow> (Ok x, c'\<lparr>op_file := f\<rparr>)))"

abbreviation setting :: "unit file_action" where
  "setting \<equiv> run_pragma (\<lambda>f. Ok ((), f))"

section \<open>Configuration\<close>

text \<open>\<open>journal_mode\<close> is the answer of SQLite to \<open>PRAGMA journal_mode = WAL\<close>.\<close>

definition configure_connection :: "string \<Rightarrow> bool \<Rightarrow> unit file_action" where
  "configure_connection journal_mode file_backed =
     io_bind setting (\<lambda>_. io_bind setting (\<lambda>_. io_bind setting (\<lambda>_. io_bind setting (\<lambda>_. io_bind setting (\<lambda>_.
     if file_backed
     then io_bind (run_pragma (\<lambda>f. Ok (journal_mode, f))) (\<lambda>answer.
       if \<not> eq_ignore_ascii_case answer ''wal''
       then io_fail (CorruptData ''SQLite WAL mode could not be enabled'')
       else io_return ())
     else io_return ())))))"

section \<open>Migration\<close>

definition SCHEMA_VERSION :: int where "SCHEMA_VERSION = 1"

definition create_schema :: "db_file \<Rightarrow> (unit \<times> db_file, rusqlite_error) result" where
  "create_schema f =
     (case df_tables f of
        None \<Rightarrow> Ok ((), f\<lparr>df_tables := Some empty_tables\<rparr>)
      | Some _ \<Rightarrow> Err (SqliteOther 1))"

definition schema_transaction :: "unit file_action" where
  "schema_transaction c =
     (case setting c of
        (Inl e, c1) \<Rightarrow> (Err e, c1)
      | (Inr _, c1) \<Rightarrow>
          (case io_bind (run_pragma create_schema) (\<lambda>_.
                io_bind (run_pragma (\<lambda>f. Ok ((), f\<lparr>df_user_version := SCHEMA_VERSION\<rparr>))) (\<lambda>_. setting)) c1 of
             (Inl e, c2) \<Rightarrow> (Err e, c2\<lparr>op_file := op_file c1\<rparr>)
           | (Inr _, c2) \<Rightarrow> (Ok (), c2)))"

definition migrate_schema :: "unit file_action" where
  "migrate_schema =
     io_bind (run_pragma (\<lambda>f. Ok (df_user_version f, f))) (\<lambda>version.
     if version = SCHEMA_VERSION then io_return ()
     else if version = 0 then schema_transaction
     else io_fail (UnsupportedSchemaVersion version))"

section \<open>Opening\<close>

text \<open>\<open>Connection::open\<close> and the answer of the journal pragma are SQLite's.\<close>

record 'w sqlite_ops =
  sq_open :: "string \<Rightarrow> ('w, opened, rusqlite_error) io"
  sq_journal_mode :: "string \<Rightarrow> string"

definition open_connection :: "string \<Rightarrow> bool \<Rightarrow> unit file_action" where
  "open_connection journal_mode file_backed =
     io_bind (configure_connection journal_mode file_backed) (\<lambda>_. migrate_schema)"

definition opened_or_error :: "('a, 'e) result \<times> opened \<Rightarrow> (opened, 'e) result" where
  "opened_or_error r = and_then (fst r) (\<lambda>_. Ok (snd r))"

definition AccountDatabase_open ::
    "('w, 'f) file_ops \<Rightarrow> 'w sqlite_ops \<Rightarrow> string \<Rightarrow> ('w, opened, AccountManagementError) io" where
  "AccountDatabase_open fs sq path =
     io_bind (prepare_database_file fs path) (\<lambda>_.
     io_bind (io_map_err Database (sq_open sq path)) (\<lambda>c.
     io_lift (opened_or_error (open_connection (sq_journal_mode sq path) True c))))"

definition AccountDatabase_open_in_memory :: "(opened, rusqlite_error) result \<Rightarrow> (opened, AccountManagementError) result" where
  "AccountDatabase_open_in_memory memory =
     and_then (map_err Database memory) (\<lambda>c. opened_or_error (open_connection ''memory'' False c))"

record 'l AccountManager =
  am_database :: opened
  am_hasher :: string
  am_admission :: "'l admission"

definition AccountManager_open ::
    "('w, 'f) file_ops \<Rightarrow> 'w sqlite_ops \<Rightarrow> (nat \<Rightarrow> 'l AccountAdmissionState) \<Rightarrow> string \<Rightarrow> string \<Rightarrow> nat
      \<Rightarrow> ('w, 'l AccountManager, AccountManagementError) io" where
  "AccountManager_open fs sq memory path hasher max_cached =
     io_bind (AccountDatabase_open fs sq path) (\<lambda>database.
     io_bind (io_lift (AccountAdmissionController_new memory max_cached)) (\<lambda>admission.
     io_return \<lparr>am_database = database, am_hasher = hasher, am_admission = admission\<rparr>))"

definition AccountManager_open_in_memory ::
    "(opened, rusqlite_error) result \<Rightarrow> (nat \<Rightarrow> 'l AccountAdmissionState) \<Rightarrow> string \<Rightarrow> nat
      \<Rightarrow> ('l AccountManager, AccountManagementError) result" where
  "AccountManager_open_in_memory sqlite memory hasher max_cached =
     and_then (AccountDatabase_open_in_memory sqlite) (\<lambda>database.
     and_then (AccountAdmissionController_new memory max_cached) (\<lambda>admission.
     Ok \<lparr>am_database = database, am_hasher = hasher, am_admission = admission\<rparr>))"

section \<open>What opening gives\<close>

text \<open>A file this program wrote, or that is new.\<close>

definition account_file :: "db_file \<Rightarrow> bool" where
  "account_file f \<longleftrightarrow>
     (df_user_version f = 0 \<and> df_tables f = None)
     \<or> (df_user_version f = SCHEMA_VERSION \<and> (\<exists>t. df_tables f = Some t \<and> store_wf t))"

lemma run_pragma_Ok [io_simps]:
  "run_pragma s c = (Inr x, c') \<longleftrightarrow> op_faults c (op_clock c) = None
     \<and> (\<exists>f. s (op_file c) = Ok (x, f) \<and> c' = c\<lparr>op_clock := Suc (op_clock c), op_file := f\<rparr>)"
  by (auto simp: run_pragma_def Let_def split: option.splits sum.splits)

lemma run_pragma_Err:
  "run_pragma s c = (Inl e, c') \<Longrightarrow> c' = c\<lparr>op_clock := Suc (op_clock c)\<rparr>"
  by (auto simp: run_pragma_def Let_def split: option.splits sum.splits)

lemma configure_file:
  "configure_connection journal_mode file_backed c = (r, c') \<Longrightarrow> op_file c' = op_file c"
  by (cases r) (auto simp: configure_connection_def io_simps split: if_splits dest!: run_pragma_Err)

lemma schema_transaction_Err:
  "schema_transaction c = (Inl e, c') \<Longrightarrow> op_file c' = op_file c"
  by (auto simp: schema_transaction_def io_simps split: prod.splits sum.splits dest!: run_pragma_Err)

lemma migrate_Err: "migrate_schema c = (Inl e, c') \<Longrightarrow> op_file c' = op_file c"
  by (auto simp: migrate_schema_def io_simps split: if_splits dest!: run_pragma_Err schema_transaction_Err)

lemma schema_transaction_Ok:
  "schema_transaction c = (Inr u, c') \<Longrightarrow>
     df_tables (op_file c) = None \<and> op_file c' = (op_file c)\<lparr>df_tables := Some empty_tables, df_user_version := SCHEMA_VERSION\<rparr>"
  by (auto simp: schema_transaction_def io_simps create_schema_def split: prod.splits sum.splits option.splits)

lemma open_connection_Err:
  "open_connection journal_mode file_backed c = (Inl e, c') \<Longrightarrow> op_file c' = op_file c"
  by (auto simp: open_connection_def io_simps dest!: configure_file migrate_Err)

lemma open_connection_Ok:
  assumes "open_connection journal_mode file_backed c = (Inr u, c')" "account_file (op_file c)"
  shows "df_user_version (op_file c') = SCHEMA_VERSION
     \<and> (\<exists>t. df_tables (op_file c') = Some t \<and> store_wf t \<and> (\<forall>t0. df_tables (op_file c) = Some t0 \<longrightarrow> t = t0))"
proof -
  obtain c1 where c: "configure_connection journal_mode file_backed c = (Inr (), c1)" "migrate_schema c1 = (Inr u, c')"
    using assms(1) by (auto simp: open_connection_def io_simps)
  have "account_file (op_file c1)" "op_file c1 = op_file c" using configure_file [OF c(1)] assms(2) by simp_all
  with c(2) show ?thesis
    by (auto simp: migrate_schema_def io_simps account_file_def store_wf_empty SCHEMA_VERSION_def
        split: if_splits dest!: schema_transaction_Ok)
qed

section \<open>The life of a database file\<close>

definition connection_of :: "opened \<Rightarrow> connection" where
  "connection_of c = \<lparr>tbls = the (df_tables (op_file c)), clock = op_clock c, faults = op_faults c, poisoned = False\<rparr>"

text \<open>
  A file that is new, that was opened, with whatever result, or that was used by a process that
  opened it. Faults may strike at any statement of any of these.
\<close>

inductive stored :: "(string \<Rightarrow> string) \<Rightarrow> (string \<Rightarrow> string) \<Rightarrow> db_file \<Rightarrow> bool" for enc h where
  new: "stored enc h \<lparr>df_user_version = 0, df_tables = None\<rparr>"
| opened: "stored enc h f \<Longrightarrow> open_connection journal_mode file_backed \<lparr>op_file = f, op_clock = n, op_faults = fl\<rparr> = (r, c)
    \<Longrightarrow> stored enc h (op_file c)"
| used: "stored enc h f \<Longrightarrow> open_connection journal_mode file_backed \<lparr>op_file = f, op_clock = n, op_faults = fl\<rparr> = (Ok (), c)
    \<Longrightarrow> stored enc h ((op_file c)\<lparr>df_tables := Some (tbls (run_ops enc h ps (connection_of c)))\<rparr>)"

lemma stored_account_file: "stored enc h f \<Longrightarrow> account_file f"
proof (induction rule: stored.induct)
  case new
  then show ?case by (simp add: account_file_def)
next
  case (opened f journal_mode file_backed n fl r c)
  then show ?case
  proof (cases r)
    case (Inl e)
    with opened open_connection_Err show ?thesis by fastforce
  next
    case (Inr u)
    from open_connection_Ok [OF opened.hyps(2) [unfolded Inr]] opened.IH show ?thesis
      by (auto simp: account_file_def [of "op_file c"])
  qed
next
  case (used f journal_mode file_backed n fl c ps)
  then show ?case
    using open_connection_Ok [OF used.hyps(2)]
    by (auto simp: account_file_def connection_of_def intro: store_wf_ops)
qed

lemma open_connection_succeeds:
  assumes "account_file (op_file c)" "op_faults c = (\<lambda>_. None)" "eq_ignore_ascii_case journal_mode ''wal''"
  shows "\<exists>c'. open_connection journal_mode True c = (Ok (), c')"
  using assms
  by (auto simp: open_connection_def configure_connection_def migrate_schema_def schema_transaction_def create_schema_def
      account_file_def io_bind_def run_pragma_def io_return_def Let_def SCHEMA_VERSION_def)

text \<open>
  Property C36. A database file stays readable and well-formed across restarts: however often it was
  opened and used, and at whatever statements SQLite failed meanwhile, opening it again without a fault
  succeeds, gives the current schema version and tables that satisfy every constraint, and keeps the
  tables that were there. An opening that fails leaves the file as it was.
\<close>

theorem reopened_store_sound:
  assumes "stored enc h f" "op_file c = f" "open_connection journal_mode True c = (r, c')"
  shows "case r of
      Inr _ \<Rightarrow> df_user_version (op_file c') = SCHEMA_VERSION
        \<and> (\<exists>t. df_tables (op_file c') = Some t \<and> store_wf t \<and> (\<forall>t0. df_tables f = Some t0 \<longrightarrow> t = t0))
    | Inl e \<Rightarrow> op_file c' = f \<and> \<not> (op_faults c = (\<lambda>_. None) \<and> eq_ignore_ascii_case journal_mode ''wal'')"
proof (cases r)
  case (Inl e)
  have "\<not> (op_faults c = (\<lambda>_. None) \<and> eq_ignore_ascii_case journal_mode ''wal'')"
    using open_connection_succeeds [of c journal_mode] stored_account_file [OF assms(1)] assms(2,3) Inl by auto
  with Inl open_connection_Err [of journal_mode True c e c'] assms(2,3) show ?thesis by simp
next
  case (Inr u)
  with open_connection_Ok [of journal_mode True c u c'] stored_account_file [OF assms(1)] assms(2,3) show ?thesis by simp
qed

definition new_file :: opened where
  "new_file = \<lparr>op_file = \<lparr>df_user_version = 0, df_tables = None\<rparr>, op_clock = 0, op_faults = \<lambda>_. None\<rparr>"

lemma reopened_file: "\<exists>c. open_connection ''wal'' True new_file = (Ok (), c)"
  by (rule open_connection_succeeds) (simp_all add: new_file_def account_file_def eq_ignore_ascii_case_def)

theorem reopened_store_sound_witness:
  "\<exists>c' t. open_connection ''wal'' True new_file = (Ok (), c')
     \<and> df_user_version (op_file c') = SCHEMA_VERSION \<and> df_tables (op_file c') = Some t \<and> store_wf t"
proof -
  obtain r c' where run: "open_connection ''wal'' True new_file = (r, c')" by fastforce
  from reopened_store_sound [OF stored.new [of id id] _ run] run show ?thesis
    by (cases r) (auto simp: new_file_def eq_ignore_ascii_case_def)
qed

end
