(* ===== verification/Ingress_Config.thy ===== *)
theory Ingress_Config
  imports Secure_Files Ip_Addr Tor_Connect
begin

text \<open>
  The configuration of the public ingress (\<open>src/src/private_ingress.rs\<close>): its settings are read from
  environment variables by \<open>RuntimeIngressConfig::from_lookup\<close>, checked by \<open>IngressConfig::validate\<close>, and
  \<open>load_server_config\<close> builds the TLS configuration from the files they name.

  The environment is the lookup function the code itself takes; the file system is \<open>file_ops\<close>, and rustls
  with its PEM reader is \<open>tls_ops\<close>. A \<open>Duration\<close> is a number of nanoseconds, a path its bytes.
\<close>

section \<open>Socket addresses\<close>

text \<open>\<open>SocketAddr\<close> of the standard library with its parser; the scope is that of an IPv6 address.\<close>

datatype SocketAddr = SocketAddr (sa_ip: IpAddr) (sa_port: u16) (sa_scope: u32)

fun ip_is_loopback :: "IpAddr \<Rightarrow> bool" where
  "ip_is_loopback (V4 a) = v4_is_loopback a"
| "ip_is_loopback (V6 a) = v6_is_loopback a"

definition read_port :: "string \<Rightarrow> (u16 \<times> string) option" where
  "read_port s =
     Option.bind (read_given_char CHR '':'' s) (\<lambda>s.
     map_option (\<lambda>(v, r). (of_nat v, r)) (read_number 10 (length s) 65535 True s))"

definition read_scope_id :: "string \<Rightarrow> u32 \<times> string" where
  "read_scope_id s =
     (case Option.bind (read_given_char CHR ''%'' s) (\<lambda>s. read_number 10 (length s) (2 ^ 32 - 1) True s) of
        Some (v, r) \<Rightarrow> (of_nat v, r)
      | None \<Rightarrow> (0, s))"

definition read_socket_addr_v4 :: "string \<Rightarrow> (SocketAddr \<times> string) option" where
  "read_socket_addr_v4 s =
     Option.bind (read_ipv4_addr s) (\<lambda>(ip, s).
     Option.bind (read_port s) (\<lambda>(port, s). Some (SocketAddr (V4 ip) port 0, s)))"

definition read_socket_addr_v6 :: "string \<Rightarrow> (SocketAddr \<times> string) option" where
  "read_socket_addr_v6 s =
     Option.bind (read_given_char CHR ''['' s) (\<lambda>s.
     Option.bind (read_ipv6_addr s) (\<lambda>(ip, s).
     case read_scope_id s of (scope, s) \<Rightarrow>
     Option.bind (read_given_char CHR '']'' s) (\<lambda>s.
     Option.bind (read_port s) (\<lambda>(port, s). Some (SocketAddr (V6 ip) port scope, s)))))"

definition parse_socket_addr :: "string \<Rightarrow> (SocketAddr, string) result" where
  "parse_socket_addr s =
     (case (case read_socket_addr_v4 s of Some x \<Rightarrow> Some x | None \<Rightarrow> read_socket_addr_v6 s) of
        Some (a, []) \<Rightarrow> Ok a
      | _ \<Rightarrow> Err ''invalid socket address syntax'')"

text \<open>The text of \<open>ParseIntError\<close> for a string that \<open>parse_unsigned\<close> refuses.\<close>

definition parse_int_error :: "nat \<Rightarrow> string \<Rightarrow> string" where
  "parse_int_error mx s =
     (let body = (case s of [] \<Rightarrow> [] | c # cs \<Rightarrow> if c = CHR ''+'' then cs else s);
          digits = takeWhile is_ascii_digit body
      in if s = [] then ''cannot parse integer from empty string''
         else if body = [] \<or> (digits \<noteq> body \<and> digits_value digits \<le> mx) then ''invalid digit found in string''
         else ''number too large to fit in target type'')"

section \<open>The configuration\<close>

definition HTTP_1_1_ALPN :: string where "HTTP_1_1_ALPN = ''http/1.1''"

datatype DeploymentMode = Mode_Development | Mode_Production
datatype ClientCertificateMode = Certificates_Required | Certificates_DisabledForDevelopment
datatype ApiKeyMode = ApiKeys_Required | ApiKeys_DisabledForDevelopment
datatype AlpnPolicy = Http11Only
datatype CertificateReloadStrategy = ValidateThenAtomicSwap

fun wire_protocols :: "AlpnPolicy \<Rightarrow> string list" where
  "wire_protocols Http11Only = [HTTP_1_1_ALPN]"

record CertificateRotationPolicy =
  reload_strategy :: CertificateReloadStrategy
  trust_overlap :: nat

record IngressTimeouts =
  tls_handshake :: nat
  first_request :: nat

record IngressCapacity =
  max_concurrent_handshakes :: nat
  max_client_connections :: nat

record TlsMaterialPaths =
  server_certificate_chain :: string
  server_private_key :: string
  client_ca_roots :: "string option"

record IngressConfig =
  ic_listen_addr :: SocketAddr
  ic_server_names :: "string list"
  ic_deployment_mode :: DeploymentMode
  ic_tls_material :: TlsMaterialPaths
  ic_client_certificates :: ClientCertificateMode
  ic_api_keys :: ApiKeyMode
  ic_alpn :: AlpnPolicy
  ic_timeouts :: IngressTimeouts
  ic_capacity :: IngressCapacity
  ic_certificate_rotation :: CertificateRotationPolicy

datatype RuntimeIngressConfig =
    RIC_Development SocketAddr
  | RIC_Production IngressConfig (ric_account_database: string) (ric_api_key_hash_key_file: string)
      (ric_max_cached_accounts: nat) (ric_usage_period: nat)

datatype PemMaterial = ServerCertificateChain | ServerPrivateKey | ClientCaRoots

datatype PrivateIngressError =
    InvalidConfiguration string
  | RuntimeConfiguration string string
  | ReadMaterial PemMaterial string nat
  | MalformedPem PemMaterial string nat
  | InsecurePrivateKeyPath string
  | InsecurePrivateKeyPermissions u32
  | EmptyCertificateChain
  | MissingPrivateKey
  | AmbiguousPrivateKeys nat
  | EmptyClientRootStore
  | InvalidClientRoot nat string
  | TlsConfiguration string string
  | UnsupportedApplicationProtocol

section \<open>Settings\<close>

type_synonym lookup = "string \<Rightarrow> (string option, PrivateIngressError) result"

text \<open>\<open>from_environment\<close>: the lookup in the environment of the process.\<close>

definition environment_lookup :: "(string \<Rightarrow> env_var) \<Rightarrow> lookup" where
  "environment_lookup env name =
     (case env name of
        Env_NotPresent \<Rightarrow> Ok None
      | Env_Value value \<Rightarrow> Ok (Some value)
      | Env_NotUnicode \<Rightarrow> Err (RuntimeConfiguration name ''value is not valid UTF-8''))"

definition optional_value :: "lookup \<Rightarrow> lookup" where
  "optional_value lookup variable =
     map_sum id (\<lambda>v. case v of Some s \<Rightarrow> if str_trim s = [] then None else Some s | None \<Rightarrow> None) (lookup variable)"

definition required_value :: "lookup \<Rightarrow> string \<Rightarrow> (string, PrivateIngressError) result" where
  "required_value lookup variable =
     and_then (optional_value lookup variable)
       (ok_or (RuntimeConfiguration variable ''value is required in production mode''))"

text \<open>\<open>usize_value\<close> and \<open>u64_value\<close>: both types have 64 bits.\<close>

definition unsigned_value :: "lookup \<Rightarrow> string \<Rightarrow> nat \<Rightarrow> (nat, PrivateIngressError) result" where
  "unsigned_value lookup variable default_value =
     and_then (optional_value lookup variable) (\<lambda>value.
     and_then (transpose_option (map_option (\<lambda>s.
         ok_or (RuntimeConfiguration variable (parse_int_error u64_max s)) (parse_unsigned u64_max s)) value)) (\<lambda>parsed.
     let v = (case parsed of Some v \<Rightarrow> v | None \<Rightarrow> default_value) in
     if v = 0 then Err (RuntimeConfiguration variable ''value must be positive'') else Ok v))"

definition usize_value :: "lookup \<Rightarrow> string \<Rightarrow> nat \<Rightarrow> (nat, PrivateIngressError) result" where
  "usize_value = unsigned_value"

definition u64_value :: "lookup \<Rightarrow> string \<Rightarrow> nat \<Rightarrow> (nat, PrivateIngressError) result" where
  "u64_value = unsigned_value"

definition duration_value :: "lookup \<Rightarrow> string \<Rightarrow> nat \<Rightarrow> (nat, PrivateIngressError) result" where
  "duration_value lookup variable default_seconds =
     and_then (u64_value lookup variable default_seconds) (\<lambda>seconds. Ok (secs seconds))"

section \<open>Validation\<close>

definition require :: "bool \<Rightarrow> string \<Rightarrow> (unit, PrivateIngressError) result" where
  "require ok message = (if ok then Ok () else Err (InvalidConfiguration message))"

definition IngressConfig_validate :: "IngressConfig \<Rightarrow> (unit, PrivateIngressError) result" where
  "IngressConfig_validate c =
     and_then (require (sa_port (ic_listen_addr c) \<noteq> 0) ''private ingress listen port must be non-zero'') (\<lambda>_.
     and_then (require (ic_server_names c \<noteq> [] \<and> \<not> list_ex (\<lambda>n. str_trim n = []) (ic_server_names c))
       ''at least one non-empty server name is required'') (\<lambda>_.
     and_then (require (server_certificate_chain (ic_tls_material c) \<noteq> []) ''server certificate chain path must be explicit'') (\<lambda>_.
     and_then (require (server_private_key (ic_tls_material c) \<noteq> []) ''server private key path must be explicit'') (\<lambda>_.
     and_then (require (tls_handshake (ic_timeouts c) \<noteq> 0) ''TLS handshake timeout must be non-zero'') (\<lambda>_.
     and_then (require (first_request (ic_timeouts c) \<noteq> 0) ''first-request timeout must be non-zero'') (\<lambda>_.
     and_then (require (max_concurrent_handshakes (ic_capacity c) \<noteq> 0)
       ''maximum concurrent TLS handshakes must be non-zero'') (\<lambda>_.
     and_then (require (max_client_connections (ic_capacity c) \<noteq> 0) ''maximum client connections must be non-zero'') (\<lambda>_.
     and_then (if ic_client_certificates c = Certificates_Required
       then and_then (ok_or (InvalidConfiguration ''required client authentication needs an explicit client CA path'')
              (client_ca_roots (ic_tls_material c))) (\<lambda>roots.
            require (roots \<noteq> []) ''client CA path must be explicit'')
       else Ok ()) (\<lambda>_.
     if ic_deployment_mode c = Mode_Production
     then and_then (require (ic_client_certificates c = Certificates_Required) ''production private ingress requires mTLS'') (\<lambda>_.
          and_then (require (ic_api_keys c = ApiKeys_Required)
            ''production private ingress requires API-key authentication'') (\<lambda>_.
          require (trust_overlap (ic_certificate_rotation c) \<noteq> 0)
            ''production certificate rotation requires a non-zero trust overlap''))
     else Ok ())))))))))"

section \<open>Reading the configuration\<close>

definition MODE :: string where "MODE = ''PROXY_INGRESS_MODE''"
definition LISTEN_ADDR :: string where "LISTEN_ADDR = ''PROXY_INGRESS_LISTEN_ADDR''"
definition SERVER_NAMES :: string where "SERVER_NAMES = ''PROXY_INGRESS_SERVER_NAMES''"
definition SERVER_CERT :: string where "SERVER_CERT = ''PROXY_INGRESS_SERVER_CERT''"
definition SERVER_KEY :: string where "SERVER_KEY = ''PROXY_INGRESS_SERVER_KEY''"
definition CLIENT_CA :: string where "CLIENT_CA = ''PROXY_INGRESS_CLIENT_CA''"
definition ACCOUNT_DATABASE :: string where "ACCOUNT_DATABASE = ''PROXY_ACCOUNT_DATABASE''"
definition API_KEY_HASH_KEY_FILE :: string where "API_KEY_HASH_KEY_FILE = ''PROXY_API_KEY_HASH_KEY_FILE''"
definition TLS_HANDSHAKE_SECONDS :: string where "TLS_HANDSHAKE_SECONDS = ''PROXY_TLS_HANDSHAKE_TIMEOUT_SECONDS''"
definition FIRST_REQUEST_SECONDS :: string where "FIRST_REQUEST_SECONDS = ''PROXY_FIRST_REQUEST_TIMEOUT_SECONDS''"
definition MAX_HANDSHAKES :: string where "MAX_HANDSHAKES = ''PROXY_MAX_CONCURRENT_TLS_HANDSHAKES''"
definition MAX_CONNECTIONS :: string where "MAX_CONNECTIONS = ''PROXY_MAX_CLIENT_CONNECTIONS''"
definition TRUST_OVERLAP_SECONDS :: string where "TRUST_OVERLAP_SECONDS = ''PROXY_CERT_TRUST_OVERLAP_SECONDS''"
definition MAX_CACHED_ACCOUNTS :: string where "MAX_CACHED_ACCOUNTS = ''PROXY_MAX_CACHED_ACCOUNTS''"
definition USAGE_PERIOD_SECONDS :: string where "USAGE_PERIOD_SECONDS = ''PROXY_USAGE_PERIOD_SECONDS''"

lemmas setting_names = MODE_def LISTEN_ADDR_def SERVER_NAMES_def SERVER_CERT_def SERVER_KEY_def CLIENT_CA_def ACCOUNT_DATABASE_def
  API_KEY_HASH_KEY_FILE_def TLS_HANDSHAKE_SECONDS_def FIRST_REQUEST_SECONDS_def MAX_HANDSHAKES_def MAX_CONNECTIONS_def
  TRUST_OVERLAP_SECONDS_def MAX_CACHED_ACCOUNTS_def USAGE_PERIOD_SECONDS_def

definition production_only :: "string list" where
  "production_only = [SERVER_NAMES, SERVER_CERT, SERVER_KEY, CLIENT_CA, ACCOUNT_DATABASE, API_KEY_HASH_KEY_FILE,
     TLS_HANDSHAKE_SECONDS, FIRST_REQUEST_SECONDS, MAX_HANDSHAKES, MAX_CONNECTIONS, TRUST_OVERLAP_SECONDS,
     MAX_CACHED_ACCOUNTS, USAGE_PERIOD_SECONDS]"

primrec refuse_production_settings :: "lookup \<Rightarrow> string list \<Rightarrow> (unit, PrivateIngressError) result" where
  "refuse_production_settings lookup [] = Ok ()"
| "refuse_production_settings lookup (variable # variables) =
     and_then (optional_value lookup variable) (\<lambda>value.
     if value \<noteq> None
     then Err (RuntimeConfiguration MODE ''production credential settings require PROXY_INGRESS_MODE=production'')
     else refuse_production_settings lookup variables)"

definition listen_setting :: "string \<Rightarrow> (SocketAddr, PrivateIngressError) result" where
  "listen_setting value = map_err (RuntimeConfiguration LISTEN_ADDR) (parse_socket_addr value)"

definition development_config :: "lookup \<Rightarrow> (RuntimeIngressConfig, PrivateIngressError) result" where
  "development_config lookup =
     and_then (refuse_production_settings lookup production_only) (\<lambda>_.
     and_then (optional_value lookup LISTEN_ADDR) (\<lambda>value.
     and_then (listen_setting (case value of Some v \<Rightarrow> v | None \<Rightarrow> ''127.0.0.1:8080'')) (\<lambda>listen_addr.
     if \<not> ip_is_loopback (sa_ip listen_addr)
     then Err (RuntimeConfiguration LISTEN_ADDR ''development plaintext ingress must remain loopback-only'')
     else Ok (RIC_Development listen_addr))))"

definition production_tls :: "lookup \<Rightarrow> (IngressConfig, PrivateIngressError) result" where
  "production_tls lookup =
     and_then (required_value lookup LISTEN_ADDR) (\<lambda>value.
     and_then (listen_setting value) (\<lambda>listen_addr.
     and_then (required_value lookup SERVER_NAMES) (\<lambda>names.
     and_then (required_value lookup SERVER_CERT) (\<lambda>server_cert.
     and_then (required_value lookup SERVER_KEY) (\<lambda>server_key.
     and_then (required_value lookup CLIENT_CA) (\<lambda>client_ca.
     and_then (duration_value lookup TLS_HANDSHAKE_SECONDS 10) (\<lambda>handshake.
     and_then (duration_value lookup FIRST_REQUEST_SECONDS 10) (\<lambda>first.
     and_then (usize_value lookup MAX_HANDSHAKES 64) (\<lambda>handshakes.
     and_then (usize_value lookup MAX_CONNECTIONS 512) (\<lambda>connections.
     and_then (duration_value lookup TRUST_OVERLAP_SECONDS 86400) (\<lambda>overlap.
     Ok \<lparr>ic_listen_addr = listen_addr,
         ic_server_names = filter (\<lambda>n. n \<noteq> []) (map str_trim (str_split CHR '','' names)),
         ic_deployment_mode = Mode_Production,
         ic_tls_material = \<lparr>server_certificate_chain = server_cert, server_private_key = server_key,
           client_ca_roots = Some client_ca\<rparr>,
         ic_client_certificates = Certificates_Required, ic_api_keys = ApiKeys_Required, ic_alpn = Http11Only,
         ic_timeouts = \<lparr>tls_handshake = handshake, first_request = first\<rparr>,
         ic_capacity = \<lparr>max_concurrent_handshakes = handshakes, max_client_connections = connections\<rparr>,
         ic_certificate_rotation = \<lparr>reload_strategy = ValidateThenAtomicSwap, trust_overlap = overlap\<rparr>\<rparr>)))))))))))"

definition production_config :: "lookup \<Rightarrow> (RuntimeIngressConfig, PrivateIngressError) result" where
  "production_config lookup =
     and_then (production_tls lookup) (\<lambda>tls.
     and_then (IngressConfig_validate tls) (\<lambda>_.
     and_then (required_value lookup ACCOUNT_DATABASE) (\<lambda>account_database.
     and_then (required_value lookup API_KEY_HASH_KEY_FILE) (\<lambda>key_file.
     and_then (usize_value lookup MAX_CACHED_ACCOUNTS 1024) (\<lambda>cached.
     and_then (duration_value lookup USAGE_PERIOD_SECONDS 2592000) (\<lambda>usage_period.
     Ok (RIC_Production tls account_database key_file cached usage_period)))))))"

definition from_lookup :: "lookup \<Rightarrow> (RuntimeIngressConfig, PrivateIngressError) result" where
  "from_lookup lookup =
     and_then (optional_value lookup MODE) (\<lambda>value.
     let mode = to_ascii_lowercase (str_trim (case value of Some v \<Rightarrow> v | None \<Rightarrow> ''development'')) in
     if mode = ''development'' then development_config lookup
     else if mode \<noteq> ''production'' then Err (RuntimeConfiguration MODE ''expected development or production'')
     else production_config lookup)"

fun RuntimeIngressConfig_listen_addr :: "RuntimeIngressConfig \<Rightarrow> SocketAddr" where
  "RuntimeIngressConfig_listen_addr (RIC_Development listen_addr) = listen_addr"
| "RuntimeIngressConfig_listen_addr (RIC_Production tls account_database key_file cached usage_period) = ic_listen_addr tls"

section \<open>TLS material\<close>

datatype pem_item = Pkcs1Key string | Pkcs8Key string | Sec1Key string | Other_Item
datatype PrivateKeyDer = Pkcs1 string | Pkcs8 string | Sec1 string

text \<open>
  rustls: the certificates and the items of an opened PEM file as they are read from it, the checks
  of the protocol versions, of a trust anchor, of the client verifier built from roots, and of
  a certificate chain with its key.
\<close>

record 'f tls_ops =
  tls_certs :: "'f \<Rightarrow> (string, nat) result list"
  tls_read_all :: "'f \<Rightarrow> (pem_item, nat) result list"
  tls_protocol_versions :: "string list \<Rightarrow> (unit, string) result"
  tls_trust_anchor :: "string \<Rightarrow> (unit, string) result"
  tls_client_verifier :: "string list \<Rightarrow> (unit, string) result"
  tls_single_cert :: "string list \<Rightarrow> PrivateKeyDer \<Rightarrow> (unit, string) result"

record ServerConfig =
  sc_versions :: "string list"
  sc_client_roots :: "string list option"
  sc_chain :: "string list"
  sc_key :: PrivateKeyDer
  sc_alpn_protocols :: "string list"

definition open_material ::
    "('w, 'f) file_ops \<Rightarrow> string \<Rightarrow> PemMaterial \<Rightarrow> ('w, 'f, PrivateIngressError) io" where
  "open_material fs path material = io_map_err (ReadMaterial material path) (fs_open fs path)"

definition load_certificates ::
    "('w, 'f) file_ops \<Rightarrow> 'f tls_ops \<Rightarrow> string \<Rightarrow> PemMaterial \<Rightarrow> ('w, string list, PrivateIngressError) io" where
  "load_certificates fs tls path material =
     io_bind (open_material fs path material) (\<lambda>reader.
     io_lift (map_err (MalformedPem material path) (try_map id (tls_certs tls reader))))"

fun push_key :: "PrivateKeyDer list \<Rightarrow> pem_item \<Rightarrow> PrivateKeyDer list" where
  "push_key keys (Pkcs1Key key) = keys @ [Pkcs1 key]"
| "push_key keys (Pkcs8Key key) = keys @ [Pkcs8 key]"
| "push_key keys (Sec1Key key) = keys @ [Sec1 key]"
| "push_key keys Other_Item = keys"

definition collect_keys ::
    "string \<Rightarrow> (pem_item, nat) result list \<Rightarrow> (PrivateKeyDer list, PrivateIngressError) result" where
  "collect_keys path items =
     try_fold (\<lambda>keys item. and_then (map_err (MalformedPem ServerPrivateKey path) item) (\<lambda>i. Ok (push_key keys i))) [] items"

fun exactly_one_key :: "PrivateKeyDer list \<Rightarrow> (PrivateKeyDer, PrivateIngressError) result" where
  "exactly_one_key [] = Err MissingPrivateKey"
| "exactly_one_key [key] = Ok key"
| "exactly_one_key keys = Err (AmbiguousPrivateKeys (length keys))"

unbundle bit_operations_syntax

definition load_one_private_key ::
    "('w, 'f) file_ops \<Rightarrow> 'f tls_ops \<Rightarrow> string \<Rightarrow> ('w, PrivateKeyDer, PrivateIngressError) io" where
  "load_one_private_key fs tls path =
     io_bind (io_map_err (ReadMaterial ServerPrivateKey path) (fs_symlink_metadata fs path)) (\<lambda>metadata.
     if meta_is_symlink metadata then io_fail (InsecurePrivateKeyPath ''symbolic links are not accepted'')
     else if \<not> meta_is_file metadata then io_fail (InsecurePrivateKeyPath ''path is not a regular file'')
     else if meta_mode metadata AND 0x3f \<noteq> 0 then io_fail (InsecurePrivateKeyPermissions (meta_mode metadata))
     else io_bind (open_material fs path ServerPrivateKey) (\<lambda>reader.
       io_lift (and_then (collect_keys path (tls_read_all tls reader)) exactly_one_key)))"

primrec add_roots :: "'f tls_ops \<Rightarrow> nat \<Rightarrow> string list \<Rightarrow> string list \<Rightarrow> (string list, PrivateIngressError) result" where
  "add_roots tls i roots [] = Ok roots"
| "add_roots tls i roots (c # cs) =
     and_then (map_err (InvalidClientRoot i) (tls_trust_anchor tls c)) (\<lambda>_. add_roots tls (Suc i) (roots @ [c]) cs)"

definition load_client_roots ::
    "('w, 'f) file_ops \<Rightarrow> 'f tls_ops \<Rightarrow> string \<Rightarrow> ('w, string list, PrivateIngressError) io" where
  "load_client_roots fs tls path =
     io_bind (load_certificates fs tls path ClientCaRoots) (\<lambda>certificates.
     io_lift (
       if certificates = [] then Err EmptyClientRootStore
       else and_then (add_roots tls 0 [] certificates) (\<lambda>roots.
         if roots = [] then Err EmptyClientRootStore else Ok roots)))"

definition client_verifier ::
    "('w, 'f) file_ops \<Rightarrow> 'f tls_ops \<Rightarrow> IngressConfig \<Rightarrow> ('w, string list option, PrivateIngressError) io" where
  "client_verifier fs tls config =
     (case ic_client_certificates config of
        Certificates_Required \<Rightarrow>
          io_bind (io_lift (ok_or (InvalidConfiguration ''required client authentication needs an explicit client CA path'')
              (client_ca_roots (ic_tls_material config)))) (\<lambda>roots_path.
          io_bind (load_client_roots fs tls roots_path) (\<lambda>roots.
          io_bind (io_lift (map_err (TlsConfiguration ''client certificate verifier'') (tls_client_verifier tls roots))) (\<lambda>_.
          io_return (Some roots))))
      | Certificates_DisabledForDevelopment \<Rightarrow> io_return None)"

definition load_server_config ::
    "('w, 'f) file_ops \<Rightarrow> 'f tls_ops \<Rightarrow> IngressConfig \<Rightarrow> ('w, ServerConfig, PrivateIngressError) io" where
  "load_server_config fs tls config =
     io_bind (io_lift (IngressConfig_validate config)) (\<lambda>_.
     io_bind (load_certificates fs tls (server_certificate_chain (ic_tls_material config)) ServerCertificateChain) (\<lambda>chain.
     if chain = [] then io_fail EmptyCertificateChain
     else io_bind (load_one_private_key fs tls (server_private_key (ic_tls_material config))) (\<lambda>key.
       io_bind (io_lift (map_err (TlsConfiguration ''protocol versions'') (tls_protocol_versions tls [''TLS13'']))) (\<lambda>_.
       io_bind (client_verifier fs tls config) (\<lambda>roots.
       io_bind (io_lift (map_err (TlsConfiguration ''server certificate and private key'') (tls_single_cert tls chain key))) (\<lambda>_.
       io_return \<lparr>sc_versions = [''TLS13''], sc_client_roots = roots, sc_chain = chain, sc_key = key,
         sc_alpn_protocols = wire_protocols (ic_alpn config)\<rparr>))))))"

definition validate_negotiated_alpn :: "string option \<Rightarrow> (unit, PrivateIngressError) result" where
  "validate_negotiated_alpn negotiated_protocol =
     (case negotiated_protocol of
        Some protocol \<Rightarrow> if protocol = HTTP_1_1_ALPN then Ok () else Err UnsupportedApplicationProtocol
      | None \<Rightarrow> Err UnsupportedApplicationProtocol)"

section \<open>Accepted configurations\<close>

lemma require_Ok [simp]: "require ok message = Inr u \<longleftrightarrow> ok"
  by (simp add: require_def)

lemma validate_Ok:
  "IngressConfig_validate c = Ok () \<longleftrightarrow>
     sa_port (ic_listen_addr c) \<noteq> 0 \<and> ic_server_names c \<noteq> [] \<and> (\<forall>n\<in>set (ic_server_names c). str_trim n \<noteq> [])
     \<and> server_certificate_chain (ic_tls_material c) \<noteq> [] \<and> server_private_key (ic_tls_material c) \<noteq> []
     \<and> 0 < tls_handshake (ic_timeouts c) \<and> 0 < first_request (ic_timeouts c)
     \<and> 0 < max_concurrent_handshakes (ic_capacity c) \<and> 0 < max_client_connections (ic_capacity c)
     \<and> (ic_client_certificates c = Certificates_Required
          \<longrightarrow> (\<exists>roots. client_ca_roots (ic_tls_material c) = Some roots \<and> roots \<noteq> []))
     \<and> (ic_deployment_mode c = Mode_Production
          \<longrightarrow> ic_client_certificates c = Certificates_Required \<and> ic_api_keys c = ApiKeys_Required
              \<and> 0 < trust_overlap (ic_certificate_rotation c))"
  by (auto simp: IngressConfig_validate_def list_ex_iff split: if_splits)

lemma unsigned_value_pos: "unsigned_value lookup variable d = Ok n \<Longrightarrow> 0 < n"
  by (auto simp: unsigned_value_def Let_def split: if_splits)

lemma duration_value_pos: "duration_value lookup variable d = Ok n \<Longrightarrow> 0 < n"
  by (auto simp: duration_value_def u64_value_def secs_def dest: unsigned_value_pos)

lemma required_value_Ok: "required_value lookup variable = Ok s \<Longrightarrow> str_trim s \<noteq> [] \<and> lookup variable = Ok (Some s)"
  by (cases "lookup variable")
    (auto simp: required_value_def optional_value_def split: option.splits if_splits)

lemma refuse_production_settings_Ok:
  "refuse_production_settings lookup vs = Ok u \<longleftrightarrow> (\<forall>v\<in>set vs. optional_value lookup v = Ok None)"
  by (induction vs) (auto split: if_splits)

text \<open>What an accepted configuration guarantees.\<close>

fun hardened :: "lookup \<Rightarrow> RuntimeIngressConfig \<Rightarrow> bool" where
  "hardened lookup (RIC_Development listen_addr) \<longleftrightarrow>
     ip_is_loopback (sa_ip listen_addr) \<and> (\<forall>v\<in>set production_only. optional_value lookup v = Ok None)"
| "hardened lookup (RIC_Production tls account_database key_file cached usage_period) \<longleftrightarrow>
     IngressConfig_validate tls = Ok () \<and> ic_deployment_mode tls = Mode_Production
     \<and> ic_client_certificates tls = Certificates_Required \<and> ic_api_keys tls = ApiKeys_Required
     \<and> account_database \<noteq> [] \<and> key_file \<noteq> [] \<and> 0 < cached \<and> 0 < usage_period"

lemma str_trim_Nil [simp]: "str_trim [] = []"
  by (simp add: str_trim_def trim_start_def trim_end_def)

lemma from_lookup_hardened: "from_lookup lookup = Ok config \<Longrightarrow> hardened lookup config"
  by (auto simp: from_lookup_def development_config_def production_config_def production_tls_def Let_def usize_value_def
      refuse_production_settings_Ok split: if_splits dest!: required_value_Ok dest: unsigned_value_pos duration_value_pos)

text \<open>
  Only a safe ingress can be configured: a development configuration listens in plain text on
  a loopback address only and no production setting is given; a production configuration always requires
  client certificates and API keys, names its certificate, key, client roots, database and hash secret,
  and has a listening port, server names, and positive time-outs, capacities and usage period.
\<close>

lemma accepted_ingress_config:
  assumes "from_lookup lookup = Ok config"
  shows "case config of
      RIC_Development listen_addr \<Rightarrow>
        ip_is_loopback (sa_ip listen_addr) \<and> (\<forall>v\<in>set production_only. optional_value lookup v = Ok None)
    | RIC_Production tls account_database key_file cached usage_period \<Rightarrow>
        ic_client_certificates tls = Certificates_Required \<and> ic_api_keys tls = ApiKeys_Required
        \<and> (\<exists>roots. client_ca_roots (ic_tls_material tls) = Some roots \<and> roots \<noteq> [])
        \<and> server_certificate_chain (ic_tls_material tls) \<noteq> [] \<and> server_private_key (ic_tls_material tls) \<noteq> []
        \<and> account_database \<noteq> [] \<and> key_file \<noteq> []
        \<and> sa_port (ic_listen_addr tls) \<noteq> 0 \<and> ic_server_names tls \<noteq> []
        \<and> 0 < tls_handshake (ic_timeouts tls) \<and> 0 < first_request (ic_timeouts tls)
        \<and> 0 < max_concurrent_handshakes (ic_capacity tls) \<and> 0 < max_client_connections (ic_capacity tls)
        \<and> 0 < trust_overlap (ic_certificate_rotation tls) \<and> 0 < cached \<and> 0 < usage_period"
  using from_lookup_hardened [OF assms] by (cases config) (auto simp: validate_Ok)

section \<open>Loaded material\<close>

definition key_of :: "pem_item \<Rightarrow> PrivateKeyDer list" where
  "key_of i = push_key [] i"

lemma push_key_append: "push_key keys i = keys @ key_of i"
  by (cases i) (simp_all add: key_of_def)

lemma collect_keys_Ok:
  "collect_keys path items = Ok keys \<longleftrightarrow> (\<exists>is. items = map Ok is \<and> keys = concat (map key_of is))"
proof -
  have "try_fold (\<lambda>keys item. and_then (map_err (MalformedPem ServerPrivateKey path) item) (\<lambda>i. Ok (keys @ key_of i))) ks items
      = Ok keys \<longleftrightarrow> (\<exists>is. items = map Ok is \<and> keys = ks @ concat (map key_of is))" for ks
  proof (induction items arbitrary: ks)
    case Nil
    then show ?case by auto
  next
    case (Cons item items)
    have "(\<exists>is. item # items = map Ok is \<and> P is) \<longleftrightarrow> (\<exists>i is. item = Ok i \<and> items = map Ok is \<and> P (i # is))" for P
      by (auto simp: Cons_eq_map_conv)
    then show ?case by (cases item) (simp_all add: Cons.IH)
  qed
  then show ?thesis by (simp add: collect_keys_def push_key_append)
qed

lemma exactly_one_key_Ok: "exactly_one_key keys = Ok key \<longleftrightarrow> keys = [key]"
  by (cases keys rule: exactly_one_key.cases) auto

lemma add_roots_Ok:
  "add_roots tls i roots cs = Ok roots' \<longleftrightarrow> roots' = roots @ cs \<and> (\<forall>c\<in>set cs. tls_trust_anchor tls c = Ok ())"
  by (induction cs arbitrary: i roots) auto

lemma load_one_private_key_Ok:
  "load_one_private_key fs tls path w = (Ok key, w') \<longleftrightarrow>
     (\<exists>metadata w1 reader is. fs_symlink_metadata fs path w = (Ok metadata, w1) \<and> private_file metadata
        \<and> fs_open fs path w1 = (Ok reader, w') \<and> tls_read_all tls reader = map Ok is \<and> concat (map key_of is) = [key])"
  by (auto simp: load_one_private_key_def open_material_def private_file_def io_simps collect_keys_Ok exactly_one_key_Ok
      split: if_splits)

lemma load_client_roots_Ok:
  assumes "load_client_roots fs tls path w = (Ok roots, w')"
  shows "roots \<noteq> [] \<and> (\<forall>c\<in>set roots. tls_trust_anchor tls c = Ok ())"
  using assms by (auto simp: load_client_roots_def io_simps add_roots_Ok split: if_splits)

text \<open>
  The TLS configuration of an accepted ingress configuration speaks TLS 1.3 and HTTP/1.1 only,
  has a certificate chain, and a private key that was the only key in a regular file, not a symbolic link,
  closed to group and others; when client certificates are required, clients are verified against a
  non-empty list of roots, each a valid trust anchor.
\<close>

lemma server_config_loaded:
  assumes "load_server_config fs tls config w = (Ok server, w')"
  shows "sc_versions server = [''TLS13''] \<and> sc_alpn_protocols server = [''http/1.1''] \<and> sc_chain server \<noteq> []
    \<and> (\<exists>w1 metadata w2 reader w3 is.
         fs_symlink_metadata fs (server_private_key (ic_tls_material config)) w1 = (Ok metadata, w2) \<and> private_file metadata
         \<and> fs_open fs (server_private_key (ic_tls_material config)) w2 = (Ok reader, w3)
         \<and> tls_read_all tls reader = map Ok is \<and> concat (map key_of is) = [sc_key server])
    \<and> (ic_client_certificates config = Certificates_Required \<longrightarrow>
         (\<exists>roots. sc_client_roots server = Some roots \<and> roots \<noteq> [] \<and> (\<forall>c\<in>set roots. tls_trust_anchor tls c = Ok ())))"
proof -
  obtain w1 w2 w3 roots where k: "load_one_private_key fs tls (server_private_key (ic_tls_material config)) w1 = (Ok (sc_key server), w2)"
      and r: "client_verifier fs tls config w2 = (Ok roots, w3)" "sc_client_roots server = roots"
      and s: "sc_versions server = [''TLS13'']" "sc_alpn_protocols server = [HTTP_1_1_ALPN]" "sc_chain server \<noteq> []"
    using assms by (cases "ic_alpn config") (auto simp: load_server_config_def io_simps split: if_splits)
  from r have "ic_client_certificates config = Certificates_Required \<longrightarrow>
      (\<exists>roots. sc_client_roots server = Some roots \<and> roots \<noteq> [] \<and> (\<forall>c\<in>set roots. tls_trust_anchor tls c = Ok ()))"
    by (auto simp: client_verifier_def io_simps dest!: load_client_roots_Ok)
  moreover from k have "\<exists>w1 metadata w2 reader w3 is.
         fs_symlink_metadata fs (server_private_key (ic_tls_material config)) w1 = (Ok metadata, w2) \<and> private_file metadata
         \<and> fs_open fs (server_private_key (ic_tls_material config)) w2 = (Ok reader, w3)
         \<and> tls_read_all tls reader = map Ok is \<and> concat (map key_of is) = [sc_key server]"
    unfolding load_one_private_key_Ok by blast
  ultimately show ?thesis using s by (simp add: HTTP_1_1_ALPN_def)
qed

section \<open>A demonstration\<close>

definition demo_settings :: "string \<Rightarrow> env_var" where
  "demo_settings name =
     (case map_of [(MODE, ''Production''), (LISTEN_ADDR, ''10.0.0.5:8443''), (SERVER_NAMES, ''proxy.example''),
        (SERVER_CERT, ''/etc/cert''), (SERVER_KEY, ''/etc/key''), (CLIENT_CA, ''/etc/ca''), (ACCOUNT_DATABASE, ''/var/db''),
        (API_KEY_HASH_KEY_FILE, ''/etc/secret''), (MAX_CONNECTIONS, ''32''),
        (''PROXY_SINGLE_TIER_PERIOD_BYTE_LIMIT'', ''1000'')] name of
        Some value \<Rightarrow> Env_Value value
      | None \<Rightarrow> Env_NotPresent)"

definition demo_tls :: IngressConfig where
  "demo_tls = \<lparr>ic_listen_addr = SocketAddr (V4 (Ipv4Addr 10 0 0 5)) 8443 0,
     ic_server_names = [''proxy.example''], ic_deployment_mode = Mode_Production,
     ic_tls_material = \<lparr>server_certificate_chain = ''/etc/cert'', server_private_key = ''/etc/key'', client_ca_roots = Some ''/etc/ca''\<rparr>,
     ic_client_certificates = Certificates_Required, ic_api_keys = ApiKeys_Required, ic_alpn = Http11Only,
     ic_timeouts = \<lparr>tls_handshake = secs 10, first_request = secs 10\<rparr>,
     ic_capacity = \<lparr>max_concurrent_handshakes = 64, max_client_connections = 32\<rparr>,
     ic_certificate_rotation = \<lparr>reload_strategy = ValidateThenAtomicSwap, trust_overlap = secs 86400\<rparr>\<rparr>"

lemma demo_trim:
  "str_trim ''Production'' = ''Production''" "str_trim ''10.0.0.5:8443'' = ''10.0.0.5:8443''" "str_trim ''proxy.example'' = ''proxy.example''"
  "str_trim ''/etc/cert'' = ''/etc/cert''" "str_trim ''/etc/key'' = ''/etc/key''" "str_trim ''/etc/ca'' = ''/etc/ca''"
  "str_trim ''/var/db'' = ''/var/db''" "str_trim ''/etc/secret'' = ''/etc/secret''" "str_trim ''32'' = ''32''"
  by (rule str_trim_id, code_simp)+

lemma demo_listen: "parse_socket_addr ''10.0.0.5:8443'' = Ok (SocketAddr (V4 (Ipv4Addr 10 0 0 5)) 8443 0)"
  by (simp add: parse_socket_addr_def read_socket_addr_v4_def read_ipv4_addr_def read_octet_def read_separator_def read_given_char_def
      read_number_def read_port_def hex_digit_def byte_def Let_def)

lemma demo_validate: "IngressConfig_validate demo_tls = Ok ()"
  unfolding validate_Ok by (simp add: demo_tls_def demo_trim secs_def)

lemma demo_required:
  "required_value (environment_lookup demo_settings) LISTEN_ADDR = Ok ''10.0.0.5:8443''"
  "required_value (environment_lookup demo_settings) SERVER_NAMES = Ok ''proxy.example''"
  "required_value (environment_lookup demo_settings) SERVER_CERT = Ok ''/etc/cert''"
  "required_value (environment_lookup demo_settings) SERVER_KEY = Ok ''/etc/key''"
  "required_value (environment_lookup demo_settings) CLIENT_CA = Ok ''/etc/ca''"
  "required_value (environment_lookup demo_settings) ACCOUNT_DATABASE = Ok ''/var/db''"
  "required_value (environment_lookup demo_settings) API_KEY_HASH_KEY_FILE = Ok ''/etc/secret''"
  "optional_value (environment_lookup demo_settings) MODE = Ok (Some ''Production'')"
  "optional_value (environment_lookup demo_settings) MAX_CONNECTIONS = Ok (Some ''32'')"
  by (simp_all add: required_value_def optional_value_def environment_lookup_def demo_settings_def demo_trim setting_names)

lemma demo_unset:
  "optional_value (environment_lookup demo_settings) TLS_HANDSHAKE_SECONDS = Ok None"
  "optional_value (environment_lookup demo_settings) FIRST_REQUEST_SECONDS = Ok None"
  "optional_value (environment_lookup demo_settings) MAX_HANDSHAKES = Ok None"
  "optional_value (environment_lookup demo_settings) TRUST_OVERLAP_SECONDS = Ok None"
  "optional_value (environment_lookup demo_settings) MAX_CACHED_ACCOUNTS = Ok None"
  "optional_value (environment_lookup demo_settings) USAGE_PERIOD_SECONDS = Ok None"
  by (simp_all add: optional_value_def environment_lookup_def demo_settings_def setting_names)

lemma demo_numbers: "parse_unsigned u64_max ''32'' = Some 32"
  by (simp add: parse_unsigned_def is_ascii_digit_def byte_def digits_value_def u64_max_def)

lemma demo_config:
  "from_lookup (environment_lookup demo_settings)
     = Ok (RIC_Production demo_tls ''/var/db'' ''/etc/secret'' 1024 (secs 2592000))"
proof -
  have mode: "to_ascii_lowercase ''Production'' = ''production''" by code_simp
  have "production_tls (environment_lookup demo_settings) = Ok demo_tls"
    by (simp add: production_tls_def demo_required listen_setting_def demo_listen duration_value_def u64_value_def usize_value_def
        unsigned_value_def demo_unset demo_numbers demo_tls_def demo_trim)
  then show ?thesis
    by (simp add: from_lookup_def demo_required demo_trim mode production_config_def demo_validate duration_value_def u64_value_def
        usize_value_def unsigned_value_def demo_unset)
qed

text \<open>PEM files whose contents are one item; a file with a certificate holds \<open>''C''\<close> and its bytes.\<close>

definition demo_tls_ops :: "string tls_ops" where
  "demo_tls_ops = \<lparr>tls_certs = (\<lambda>s. [Ok s]), tls_read_all = (\<lambda>s. [Ok Other_Item, Ok (Pkcs8Key s)]),
     tls_protocol_versions = (\<lambda>_. Ok ()), tls_trust_anchor = (\<lambda>_. Ok ()), tls_client_verifier = (\<lambda>_. Ok ()),
     tls_single_cert = (\<lambda>_ _. Ok ())\<rparr>"

definition demo_disk :: demo_files where
  "demo_disk = [''/etc/cert'' \<mapsto> (0x1a4, ''chain''), ''/etc/key'' \<mapsto> (0x180, ''key''), ''/etc/ca'' \<mapsto> (0x1a4, ''root'')]"

definition demo_server :: ServerConfig where
  "demo_server = \<lparr>sc_versions = [''TLS13''], sc_client_roots = Some [''root''], sc_chain = [''chain''], sc_key = Pkcs8 ''key'',
     sc_alpn_protocols = [HTTP_1_1_ALPN]\<rparr>"

end
