(* ===== verification/Proxy_Hooks.thy ===== *)
theory Proxy_Hooks
  imports Bridge_Ingress
begin

text \<open>
  The hooks Pingora calls for a request it proxies (\<open>impl ProxyHttp for Proxy\<close>, \<open>src/src/main.rs\<close>), in the order in
  which a request passes them: \<open>request_filter\<close> finds the account the connection was admitted for, leases a
  token for the bridge and resolves the isolation; \<open>request_cache_filter\<close> and \<open>cache_key_callback\<close> decide on the
  cache; \<open>upstream_peer\<close> directs the connection to the bridge; \<open>upstream_request_filter\<close>, \<open>response_cache_filter\<close>
  and \<open>response_filter\<close> see the request and the response pass; \<open>logging\<close> counts it. The lease ends
  with the context of the request.

  \<open>proxy_env\<close> has the libraries: the authority parser, the keyed hash, the random source, Pingora's parsers of
  cache headers and the outcome of writing a response. The session has what the hooks read and set.
\<close>

section \<open>Context, session and proxy\<close>

record 't RequestCtx =
  ctx_id :: "int option"
  ctx_account_id :: "AccountId option"
  ctx_ingress_identity :: "IngressIdentity option"
  ctx_usage_period_start :: "UnixTimestamp option"
  ctx_bridge_identity_lease :: "string option"
  ctx_token :: 't
  ctx_isolation_identity :: string
  ctx_isolation_group_key :: u64
  ctx_strict_isolation :: bool
  ctx_cache_scope :: "string option"
  ctx_request_started :: nat
  ctx_cache_started :: "nat option"
  ctx_cache_lock_recorded :: bool

record 'p session =
  ss_request :: RequestHeader
  ss_client_addr :: "'p option"
  ss_keepalive :: bool
  ss_response_written :: "u16 option"
  ss_cache_enabled :: bool
  ss_cache_max_file_size :: "nat option"
  ss_cache_phase :: CachePhase

record ('t, 'p, 'r) Proxy =
  px_request_counter :: u64
  px_cache :: "'t IsolationStore"
  px_cache_policy :: CachePolicy
  px_metrics :: CircuitMetrics
  px_downstream_contexts :: "'p AuthenticatedDownstreamStore"
  px_bridge_identities :: BridgeIdentityRegistry
  px_id_counter :: u64
  px_rng :: 'r

record ('t, 'r) proxy_env =
  pe_authenticated :: bool
  pe_parse_authority :: "string \<Rightarrow> (Authority, string) result"
  pe_tenant_hash :: "string \<Rightarrow> string"
  pe_fill :: "'r \<Rightarrow> (string, string) result \<times> 'r"
  pe_encode :: "string \<Rightarrow> string"
  pe_new_token :: "nat \<Rightarrow> 't"
  pe_req_cc :: "RequestHeader \<Rightarrow> CacheControl option"
  pe_resp_cc :: "ResponseHeader \<Rightarrow> CacheControl option"
  pe_resp_cacheable :: "CacheControl \<Rightarrow> ResponseHeader \<Rightarrow> RespCacheable"
  pe_time_max :: nat
  pe_respond_error :: "u16 \<Rightarrow> (unit, string) result"

datatype pingora_error = InvalidHTTPHeader string | InternalError string | WriteError string

definition new_ctx :: "'t \<Rightarrow> nat \<Rightarrow> 't RequestCtx" where
  "new_ctx token now = \<lparr>ctx_id = None, ctx_account_id = None, ctx_ingress_identity = None, ctx_usage_period_start = None,
     ctx_bridge_identity_lease = None, ctx_token = token, ctx_isolation_identity = [], ctx_isolation_group_key = 0,
     ctx_strict_isolation = False, ctx_cache_scope = None, ctx_request_started = now, ctx_cache_started = None,
     ctx_cache_lock_recorded = False\<rparr>"

text \<open>The context is dropped at the end of the request, and its lease with it.\<close>

definition drop_ctx :: "'t RequestCtx \<Rightarrow> ('t, 'p, 'r) Proxy \<Rightarrow> ('t, 'p, 'r) Proxy" where
  "drop_ctx ctx px =
     (case ctx_bridge_identity_lease ctx of
        Some token \<Rightarrow> px\<lparr>px_bridge_identities := BridgeIdentityRegistry_remove token (px_bridge_identities px)\<rparr>
      | None \<Rightarrow> px)"

section \<open>Admitting the request\<close>

type_synonym ('t, 'p, 'r) hook_state = "('t, 'p, 'r) Proxy \<times> 'p session \<times> 't RequestCtx"

definition respond_error ::
    "('t, 'r) proxy_env \<Rightarrow> u16 \<Rightarrow> ('t, 'p, 'r) hook_state \<Rightarrow> (bool, pingora_error) result \<times> ('t, 'p, 'r) hook_state" where
  "respond_error env status = (\<lambda>(px, session, ctx).
     case pe_respond_error env status of
       Inl e \<Rightarrow> (Err (WriteError e), px, session, ctx)
     | Inr _ \<Rightarrow> (Ok True, px, session\<lparr>ss_response_written := Some status\<rparr>, ctx))"

text \<open>The branch of an authenticated deployment, from the registered context to the resolved isolation.\<close>

definition lease_and_resolve ::
    "('t, 'r) proxy_env \<Rightarrow> AuthenticatedRequestContext \<Rightarrow> ('t, 'p, 'r) hook_state
      \<Rightarrow> (ResolvedIsolation, pingora_error) result \<times> ('t, 'p, 'r) hook_state" where
  "lease_and_resolve env registered = (\<lambda>(px, session, ctx).
     case take_isolation_request (ss_request session) of
       (Inl e, request) \<Rightarrow> (Err (InvalidHTTPHeader ''invalid isolation header''), px, session\<lparr>ss_request := request\<rparr>, ctx)
     | (Inr _, request) \<Rightarrow>
         let session = session\<lparr>ss_request := request\<rparr> in
         (case canonical_cache_key_parts (pe_parse_authority env) request of
            Inl e \<Rightarrow> (Err (InvalidHTTPHeader ''invalid request destination''), px, session, ctx)
          | Inr (destination, _) \<Rightarrow>
              let scope = context_scope registered in
              (case BridgeIdentityRegistry_issue (pe_fill env) (pe_encode env) scope (px_rng px) (px_bridge_identities px) of
                 (Inl e, rng, reg) \<Rightarrow>
                   (Err (InternalError ''failed to issue bridge identity''), px\<lparr>px_rng := rng, px_bridge_identities := reg\<rparr>, session, ctx)
               | (Inr lease, rng, reg) \<Rightarrow>
                   (case TenantIsolationHasher_resolve (pe_tenant_hash env) (scope_identity scope) destination
                           (context_isolation registered) (px_id_counter px) of
                      (isolation, counter) \<Rightarrow>
                        (Ok isolation, px\<lparr>px_rng := rng, px_bridge_identities := reg, px_id_counter := counter\<rparr>,
                         session\<lparr>ss_keepalive := False\<rparr>,
                         ctx\<lparr>ctx_account_id := Some (identity_account_id (scope_identity scope)),
                             ctx_ingress_identity := Some (scope_identity scope),
                             ctx_usage_period_start := Some (scope_period_start scope),
                             ctx_bridge_identity_lease := Some lease\<rparr>)))))"

definition development_isolation ::
    "('t, 'p, 'r) hook_state \<Rightarrow> (ResolvedIsolation, pingora_error) result \<times> ('t, 'p, 'r) hook_state" where
  "development_isolation = (\<lambda>(px, session, ctx).
     case take_isolation_request (ss_request session) of
       (Inl e, request) \<Rightarrow> (Err (InvalidHTTPHeader ''invalid isolation header''), px, session\<lparr>ss_request := request\<rparr>, ctx)
     | (Inr isolation_request, request) \<Rightarrow>
         (case resolve_isolation isolation_request (px_id_counter px) of
            (isolation, counter) \<Rightarrow> (Ok isolation, px\<lparr>px_id_counter := counter\<rparr>, session\<lparr>ss_request := request\<rparr>, ctx)))"

definition request_cache_scope :: "('t, 'r) proxy_env \<Rightarrow> bool \<Rightarrow> IngressIdentity option \<Rightarrow> string \<Rightarrow> u64 \<Rightarrow> string option" where
  "request_cache_scope env strict identity isolation_identity isolation_group =
     (if strict then None
      else case (pe_authenticated env, identity) of
        (True, Some identity) \<Rightarrow>
          Some (TenantIsolationHasher_cache_scope (pe_tenant_hash env) identity isolation_identity isolation_group)
      | _ \<Rightarrow> None)"

text \<open>The rest of \<open>request_filter\<close>: the request's number, its isolation material and its cache scope.\<close>

definition isolate_request ::
    "('t, 'r) proxy_env \<Rightarrow> nat \<Rightarrow> ResolvedIsolation \<Rightarrow> ('t, 'p, 'r) hook_state \<Rightarrow> (bool, pingora_error) result \<times> ('t, 'p, 'r) hook_state" where
  "isolate_request env now isolation = (\<lambda>(px, session, ctx).
     let strict = resolved_strict isolation; identity = resolved_identity isolation in
     case (if strict then draw_material (pe_new_token env) (px_cache px)
           else material_for_at (pe_new_token env) identity now (px_cache px)) of
       (material, store) \<Rightarrow>
         (Ok False,
          px\<lparr>px_request_counter := px_request_counter px + 1, px_cache := store\<rparr>,
          (if strict then session\<lparr>ss_keepalive := False\<rparr> else session),
          ctx\<lparr>ctx_id := Some (sint (px_request_counter px)), ctx_strict_isolation := strict, ctx_isolation_identity := identity,
              ctx_token := iso_token material, ctx_isolation_group_key := group_key material,
              ctx_cache_scope := request_cache_scope env strict (ctx_ingress_identity ctx) identity (group_key material)\<rparr>))"

definition request_filter ::
    "('t, 'r) proxy_env \<Rightarrow> nat \<Rightarrow> ('t, 'p, 'r) hook_state \<Rightarrow> (bool, pingora_error) result \<times> ('t, 'p, 'r) hook_state" where
  "request_filter env now st =
     (let proceed = (\<lambda>resolve. case resolve st of
            (Inl e, st') \<Rightarrow> (Err e, st')
          | (Inr isolation, st') \<Rightarrow> isolate_request env now isolation st')
      in case st of (px, session, ctx) \<Rightarrow>
        if pe_authenticated env then
          (case ss_client_addr session of
             None \<Rightarrow> respond_error env 403 st
           | Some client_address \<Rightarrow>
               (case downstream_context (px_downstream_contexts px) client_address of
                  None \<Rightarrow> respond_error env 403 st
                | Some registered \<Rightarrow> proceed (lease_and_resolve env registered)))
        else proceed development_isolation)"

section \<open>The upstream connection\<close>

definition BRIDGE_SOCKET :: string where "BRIDGE_SOCKET = ''/tmp/proxy-bridge.sock''"

record proxy_hop =
  hop_next_hop :: string
  hop_host :: string
  hop_port :: u16
  hop_headers :: "(string \<times> string) list"

record HttpPeer =
  peer_address :: string
  peer_tls :: bool
  peer_sni :: string
  peer_group_key :: u64
  peer_proxy :: proxy_hop

text \<open>The \<open>BTreeMap\<close> of the proxy headers, in the order of its keys.\<close>

definition proxy_headers :: "'t RequestCtx \<Rightarrow> (string \<times> string) list" where
  "proxy_headers ctx =
     (case ctx_bridge_identity_lease ctx of Some token \<Rightarrow> [(INTERNAL_IDENTITY_HEADER, token)] | None \<Rightarrow> [])
     @ [(ISOLATION_HEADER, ctx_isolation_identity ctx),
        (ISOLATION_MODE_HEADER, if ctx_strict_isolation ctx then ''strict'' else ''session'')]"

definition upstream_peer :: "('t, 'r) proxy_env \<Rightarrow> 'p session \<Rightarrow> 't RequestCtx \<Rightarrow> (HttpPeer, pingora_error) result" where
  "upstream_peer env session ctx =
     and_then (ok_or (InvalidHTTPHeader []) (Option.bind (map_of (req_headers (ss_request session)) ''host'') header_to_str)) (\<lambda>host.
     and_then (map_err (\<lambda>_. InvalidHTTPHeader []) (pe_parse_authority env host)) (\<lambda>authority.
     let host = auth_host authority; port = (case auth_port authority of Some p \<Rightarrow> p | None \<Rightarrow> 80) in
     Ok \<lparr>peer_address = host @ '':'' @ show_nat (unat port), peer_tls = False, peer_sni = host,
         peer_group_key = ctx_isolation_group_key ctx,
         peer_proxy = \<lparr>hop_next_hop = BRIDGE_SOCKET, hop_host = host, hop_port = port, hop_headers = proxy_headers ctx\<rparr>\<rparr>))"

definition insert_request_header :: "string \<Rightarrow> string \<Rightarrow> RequestHeader \<Rightarrow> RequestHeader" where
  "insert_request_header name value request =
     (let r = remove_header name request in r\<lparr>req_headers := req_headers r @ [(to_ascii_lowercase name, value)]\<rparr>)"

definition upstream_request_filter :: "'t RequestCtx \<Rightarrow> RequestHeader \<Rightarrow> RequestHeader" where
  "upstream_request_filter ctx request =
     (let r = remove_header INTERNAL_IDENTITY_HEADER (remove_header PROXY_AUTHORIZATION_HEADER
            (remove_header ISOLATION_MODE_HEADER (remove_header ISOLATION_HEADER request)))
      in if ctx_strict_isolation ctx then insert_request_header ''connection'' ''close'' r else r)"

fun connected_to_upstream :: "bool \<Rightarrow> ('t, 'p, 'r) Proxy \<Rightarrow> ('t, 'p, 'r) Proxy" where
  "connected_to_upstream True px = px\<lparr>px_metrics := (px_metrics px)\<lparr>m_upstream_reused := m_upstream_reused (px_metrics px) + 1\<rparr>\<rparr>"
| "connected_to_upstream False px = px\<lparr>px_metrics := (px_metrics px)\<lparr>m_upstream_fresh := m_upstream_fresh (px_metrics px) + 1\<rparr>\<rparr>"

text \<open>\<open>decide_reuse\<close> is Pingora's, on its retry type.\<close>

definition error_while_proxy :: "(bool \<Rightarrow> 'e \<Rightarrow> 'e) \<Rightarrow> bool \<Rightarrow> bool \<Rightarrow> 'e \<Rightarrow> 'e" where
  "error_while_proxy decide_reuse client_reused retry_buffer_truncated error =
     decide_reuse (client_reused \<and> \<not> retry_buffer_truncated) error"

section \<open>The cache\<close>

definition CACHE_MAX_OBJECT_BYTES :: nat where "CACHE_MAX_OBJECT_BYTES = 4 * 1024 * 1024"

fun record_cache_access_decision :: "CacheAccessDecision \<Rightarrow> CircuitMetrics \<Rightarrow> CircuitMetrics" where
  "record_cache_access_decision (Eligible scope origin) m = m"
| "record_cache_access_decision BypassStrict m = m\<lparr>m_cache_bypass_strict := m_cache_bypass_strict m + 1\<rparr>"
| "record_cache_access_decision BypassUnauthenticated m =
     m\<lparr>m_cache_bypass_unauthenticated := m_cache_bypass_unauthenticated m + 1\<rparr>"
| "record_cache_access_decision BypassOriginNotAllowed m =
     m\<lparr>m_cache_bypass_origin_not_allowed := m_cache_bypass_origin_not_allowed m + 1\<rparr>"
| "record_cache_access_decision BypassRequestPolicy m = m\<lparr>m_cache_bypass_request_policy := m_cache_bypass_request_policy m + 1\<rparr>"

definition decide_cache :: "('t, 'r) proxy_env \<Rightarrow> ('t, 'p, 'r) hook_state \<Rightarrow> CacheAccessDecision" where
  "decide_cache env = (\<lambda>(px, session, ctx).
     cache_access_decision (pe_parse_authority env) (pe_req_cc env) (ss_request session) (ctx_strict_isolation ctx)
       (ctx_cache_scope ctx) (px_cache_policy px))"

definition request_cache_filter ::
    "('t, 'r) proxy_env \<Rightarrow> nat \<Rightarrow> ('t, 'p, 'r) hook_state \<Rightarrow> (unit, pingora_error) result \<times> ('t, 'p, 'r) hook_state" where
  "request_cache_filter env now st =
     (case st of (px, session, ctx) \<Rightarrow>
        if req_method (ss_request session) = ''GET''
           \<and> isl (canonical_cache_key_parts (pe_parse_authority env) (ss_request session))
        then (Err (InvalidHTTPHeader ''invalid cache authority''), st)
        else
          let decision = decide_cache env st; px' = px\<lparr>px_metrics := record_cache_access_decision decision (px_metrics px)\<rparr> in
          (case decision of
            Eligible scope origin \<Rightarrow>
              (Ok (), px', session\<lparr>ss_cache_enabled := True, ss_cache_max_file_size := Some CACHE_MAX_OBJECT_BYTES\<rparr>,
               ctx\<lparr>ctx_cache_started := Some now\<rparr>)
          | _ \<Rightarrow> (Ok (), px', session, ctx)))"

definition cache_key_callback :: "('t, 'r) proxy_env \<Rightarrow> ('t, 'p, 'r) hook_state \<Rightarrow> (CacheKey, pingora_error) result" where
  "cache_key_callback env st =
     (case decide_cache env st of
        Eligible scope origin \<Rightarrow>
          map_err (\<lambda>_. InvalidHTTPHeader ''invalid cache authority'')
            (scoped_cache_key (pe_parse_authority env) (ss_request (fst (snd st))) scope)
      | _ \<Rightarrow> Err (InternalError ''cache key callback invoked without an eligible trusted scope''))"

fun is_cacheable :: "RespCacheable \<Rightarrow> bool" where
  "is_cacheable (Cacheable meta) = True"
| "is_cacheable (Uncacheable reason) = False"

definition count_response_cache :: "bool \<Rightarrow> bool \<Rightarrow> bool \<Rightarrow> CircuitMetrics \<Rightarrow> CircuitMetrics" where
  "count_response_cache capped metadata_failed cacheable m =
     (let m = (if capped then m\<lparr>m_cache_ttl_caps := m_cache_ttl_caps m + 1\<rparr> else m);
          m = (if metadata_failed then m\<lparr>m_cache_metadata_failures := m_cache_metadata_failures m + 1\<rparr> else m)
      in if cacheable then m\<lparr>m_cache_insertions := m_cache_insertions m + 1\<rparr>
         else m\<lparr>m_cache_bypass_response_policy := m_cache_bypass_response_policy m + 1\<rparr>)"

definition response_cache_filter ::
    "('t, 'r) proxy_env \<Rightarrow> nat \<Rightarrow> ResponseHeader \<Rightarrow> ('t, 'p, 'r) hook_state \<Rightarrow> RespCacheable \<times> ('t, 'p, 'r) Proxy" where
  "response_cache_filter env now upstream_response st =
     (case st of (px, session, ctx) \<Rightarrow>
       (case decide_cache env st of
          Eligible scope origin \<Rightarrow>
            (case bounded_response_cacheable (pe_req_cc env) (pe_resp_cc env) (pe_resp_cacheable env) (pe_time_max env) now
                    (ss_request session) upstream_response (effective_max_ttl (px_cache_policy px)) of
               (cacheable, capped, metadata_failed) \<Rightarrow>
                 (cacheable, px\<lparr>px_metrics := count_response_cache capped metadata_failed (is_cacheable cacheable) (px_metrics px)\<rparr>))
        | _ \<Rightarrow> (Uncacheable ''cache-access-policy'', px)))"

definition proxy_upstream_filter :: "nat \<Rightarrow> ('t, 'p, 'r) Proxy \<times> 't RequestCtx \<Rightarrow> ('t, 'p, 'r) Proxy \<times> 't RequestCtx" where
  "proxy_upstream_filter now = (\<lambda>(px, ctx).
     case (ctx_cache_lock_recorded ctx, ctx_cache_started ctx) of
       (False, Some started) \<Rightarrow>
         (px\<lparr>px_metrics := (px_metrics px)\<lparr>m_cache_lock_wait := observe (now - started) (m_cache_lock_wait (px_metrics px))\<rparr>\<rparr>,
          ctx\<lparr>ctx_cache_lock_recorded := True\<rparr>)
     | _ \<Rightarrow> (px, ctx))"

section \<open>Responses and logging\<close>

definition show_int :: "int \<Rightarrow> string" where
  "show_int i = (if i < 0 then ''-'' @ show_nat (nat (- i)) else show_nat (nat i))"

definition extract_id :: "int option \<Rightarrow> (string, string) result" where
  "extract_id id_option = ok_or ''Error: No ID found'' (map_option show_int id_option)"

definition insert_response_header :: "string \<Rightarrow> string \<Rightarrow> ResponseHeader \<Rightarrow> ResponseHeader" where
  "insert_response_header name value upstream_response =
     upstream_response\<lparr>resp_headers := filter (\<lambda>(n, _). n \<noteq> name) (resp_headers upstream_response) @ [(name, value)]\<rparr>"

definition response_filter :: "'t RequestCtx \<Rightarrow> ResponseHeader \<Rightarrow> ResponseHeader" where
  "response_filter ctx upstream_response =
     (let r = strip_cache_status_header upstream_response in
      case extract_id (ctx_id ctx) of
        Inr id_string \<Rightarrow> insert_response_header ''server-response-id'' id_string r
      | Inl _ \<Rightarrow> r)"

definition count_cache_status :: "string \<Rightarrow> CircuitMetrics \<Rightarrow> CircuitMetrics" where
  "count_cache_status status m =
     (if status = ''HIT'' then m\<lparr>m_cache_hits := m_cache_hits m + 1\<rparr>
      else if status = ''MISS'' then m\<lparr>m_cache_misses := m_cache_misses m + 1\<rparr>
      else if status = ''STALE'' then m\<lparr>m_cache_stale_hits := m_cache_stale_hits m + 1\<rparr>
      else m\<lparr>m_cache_bypasses := m_cache_bypasses m + 1\<rparr>)"

definition logging :: "nat \<Rightarrow> bool \<Rightarrow> ('t, 'p, 'r) hook_state \<Rightarrow> ('t, 'p, 'r) Proxy" where
  "logging now is_error = (\<lambda>(px, session, ctx).
     let latency = now - ctx_request_started ctx;
         status = (case ss_response_written session of Some s \<Rightarrow> s | None \<Rightarrow> if is_error then 502 else 0);
         m = count_cache_status (cache_status_header (ss_cache_phase session)) (px_metrics px);
         m = (if is_error then m\<lparr>m_request_errors := m_request_errors m + 1\<rparr> else m)
     in px\<lparr>px_metrics := record_request (req_method (ss_request session)) status latency m\<rparr>)"

definition request_summary :: "'p session \<Rightarrow> string" where
  "request_summary session =
     (let m = req_method (ss_request session) in
      ''method='' @ (if m \<in> {''GET'', ''POST'', ''PUT'', ''PATCH'', ''DELETE'', ''HEAD'', ''OPTIONS''} then m else ''OTHER''))"

definition suppress_error_log :: bool where
  "suppress_error_log = True"

section \<open>From the admitted connection to the bridge\<close>

lemma issue_lease_resolves:
  "issue_lease n fill encode scope rng reg = (Ok token, rng', reg')
    \<Longrightarrow> BridgeIdentityRegistry_resolve reg' token = Some scope \<and> (\<exists>r bytes r'. fill r = (Ok bytes, r') \<and> token = encode bytes)"
proof (induction n arbitrary: rng reg)
  case (Suc n)
  then show ?case
    by (fastforce simp: BridgeIdentityRegistry_resolve_def Let_def split: prod.splits sum.splits if_splits option.splits)
qed simp

lemma issue_resolves:
  "BridgeIdentityRegistry_issue fill encode scope rng reg = (Ok token, rng', reg')
    \<Longrightarrow> BridgeIdentityRegistry_resolve reg' token = Some scope \<and> (\<exists>r bytes r'. fill r = (Ok bytes, r') \<and> token = encode bytes)"
  unfolding BridgeIdentityRegistry_issue_def by (rule issue_lease_resolves)

lemma resolve_parts:
  "TenantIsolationHasher_resolve h x d r c = (i, c') \<Longrightarrow> resolved_identity i = h (resolve_message x d r c) \<and> resolved_strict i = request_strict r"
  using resolve_simps(1,2) [of h x d r c] by simp

lemma isolate_request_state:
  assumes "isolate_request env now isolation (px, session, ctx) = (r, px', session', ctx')"
  shows "r = Ok False \<and> ctx_isolation_identity ctx' = resolved_identity isolation \<and> ctx_strict_isolation ctx' = resolved_strict isolation
    \<and> ctx_bridge_identity_lease ctx' = ctx_bridge_identity_lease ctx \<and> ctx_ingress_identity ctx' = ctx_ingress_identity ctx
    \<and> px_bridge_identities px' = px_bridge_identities px \<and> ss_cache_enabled session' = ss_cache_enabled session
    \<and> ctx_cache_scope ctx' = request_cache_scope env (resolved_strict isolation) (ctx_ingress_identity ctx)
        (resolved_identity isolation) (ctx_isolation_group_key ctx')"
  using assms by (auto simp: isolate_request_def Let_def split: prod.splits if_splits)

text \<open>A request that is proxied in authenticated mode was registered, and acts under its registration.\<close>

lemma request_filter_proceeds:
  assumes "request_filter env now (px, session, ctx) = (Ok False, px', session', ctx')" "pe_authenticated env"
  obtains addr registered token d c where
    "ss_client_addr session = Some addr" "downstream_context (px_downstream_contexts px) addr = Some registered"
    "ctx_bridge_identity_lease ctx' = Some token"
    "BridgeIdentityRegistry_resolve (px_bridge_identities px') token = Some (context_scope registered)"
    "\<exists>r bytes r'. pe_fill env r = (Ok bytes, r') \<and> token = pe_encode env bytes"
    "ctx_ingress_identity ctx' = Some (scope_identity (context_scope registered))"
    "ctx_isolation_identity ctx' = pe_tenant_hash env (resolve_message (scope_identity (context_scope registered)) d (context_isolation registered) c)"
    "ctx_strict_isolation ctx' = request_strict (context_isolation registered)"
    "ss_cache_enabled session' = ss_cache_enabled session"
    "ctx_cache_scope ctx' = request_cache_scope env (ctx_strict_isolation ctx') (ctx_ingress_identity ctx') (ctx_isolation_identity ctx') (ctx_isolation_group_key ctx')"
proof -
  have no: "respond_error env 403 st \<noteq> (Ok False, st')" for st st' :: "('a, 'b, 'c) hook_state"
    by (auto simp: respond_error_def split: prod.splits sum.splits)
  from assms no obtain addr registered isolation px1 session1 ctx1 where
      reg: "ss_client_addr session = Some addr" "downstream_context (px_downstream_contexts px) addr = Some registered"
    and l: "lease_and_resolve env registered (px, session, ctx) = (Ok isolation, px1, session1, ctx1)"
    and i: "isolate_request env now isolation (px1, session1, ctx1) = (Ok False, px', session', ctx')"
    by (auto simp: request_filter_def Let_def split: option.splits prod.splits sum.splits)
  from l obtain token d c rng where t: "resolved_identity isolation
        = pe_tenant_hash env (resolve_message (scope_identity (context_scope registered)) d (context_isolation registered) c)"
      "BridgeIdentityRegistry_issue (pe_fill env) (pe_encode env) (context_scope registered) (px_rng px) (px_bridge_identities px)
        = (Ok token, rng, px_bridge_identities px1)"
      "ctx_bridge_identity_lease ctx1 = Some token" "ctx_ingress_identity ctx1 = Some (scope_identity (context_scope registered))"
      "resolved_strict isolation = request_strict (context_isolation registered)" "ss_cache_enabled session1 = ss_cache_enabled session"
    by (auto simp: lease_and_resolve_def Let_def dest!: resolve_parts split: prod.splits sum.splits)
  note lease = issue_resolves [OF t(2)]
  from isolate_request_state [OF i] t reg lease show thesis by (intro that [of addr registered token d c]) simp_all
qed

text \<open>
  What the documentation of the random source, of the URL-safe base64 alphabet and of the hexadecimal
  digest promises of the identifiers the proxy makes.
\<close>

definition identifiers_valid :: "('t, 'r) proxy_env \<Rightarrow> bool" where
  "identifiers_valid env \<longleftrightarrow>
     (\<forall>r bytes r'. pe_fill env r = (Ok bytes, r') \<longrightarrow> length bytes = 24)
     \<and> (\<forall>bytes. length bytes = 24 \<longrightarrow> length (pe_encode env bytes) = 32 \<and> list_all is_base64_url_byte (pe_encode env bytes))
     \<and> (\<forall>message. length (pe_tenant_hash env message) = 64
          \<and> list_all is_ascii_alphanumeric (pe_tenant_hash env message))"

lemma valid_identifiers:
  assumes "identifiers_valid env"
  shows "validate_isolation_identity (pe_tenant_hash env message) = Ok (pe_tenant_hash env message)"
    and "pe_fill env r = (Ok bytes, r') \<Longrightarrow> validate_isolation_identity (pe_encode env bytes) = Ok (pe_encode env bytes)"
proof -
  have hex: "length (pe_tenant_hash env message) = 64"
      "list_all is_ascii_alphanumeric (pe_tenant_hash env message)"
    using assms by (simp_all add: identifiers_valid_def)
  have "list_all isolation_identity_byte (pe_tenant_hash env message)"
    by (rule list.pred_mono_strong [OF hex(2)]) (simp add: isolation_identity_byte_def)
  moreover have "pe_tenant_hash env message \<noteq> []" using hex(1) by auto
  ultimately show "validate_isolation_identity (pe_tenant_hash env message) = Ok (pe_tenant_hash env message)"
    using hex(1) by (simp add: validate_isolation_identity_Ok)
  assume "pe_fill env r = (Ok bytes, r')"
  then have b64: "length (pe_encode env bytes) = 32" "list_all is_base64_url_byte (pe_encode env bytes)"
    using assms unfolding identifiers_valid_def by blast+
  have "list_all isolation_identity_byte (pe_encode env bytes)"
    by (rule list.pred_mono_strong [OF b64(2)]) (auto simp: isolation_identity_byte_def is_base64_url_byte_def)
  moreover have "pe_encode env bytes \<noteq> []" using b64(1) by auto
  ultimately show "validate_isolation_identity (pe_encode env bytes) = Ok (pe_encode env bytes)"
    using b64(1) by (simp add: validate_isolation_identity_Ok)
qed

lemma proxy_headers_read_back:
  assumes "validate_isolation_identity (ctx_isolation_identity ctx) = Ok (ctx_isolation_identity ctx)"
    and "ctx_bridge_identity_lease ctx = Some token" "validate_isolation_identity token = Ok token"
  shows "ingress_headers_from_httparse (proxy_headers ctx)
    = Ok \<lparr>ingress_isolation = \<lparr>request_identity = Some (ctx_isolation_identity ctx), request_strict = ctx_strict_isolation ctx\<rparr>,
          ingress_proxy_authorization = None, ingress_internal_identity = Some token\<rparr>"
  using assms
  by (simp add: proxy_headers_def ingress_headers_from_httparse_def eq_ignore_ascii_case_def ingress_names_lower
      parse_isolation_mode_def) (simp add: to_ascii_lowercase_def ascii_lower_def byte_def ascii_defs)

text \<open>
  Property C8. A proxied request reaches the bridge under the account its connection was admitted for: when the
  proxy lets a request of an authenticated deployment pass, its connection has a registered context, and the
  headers sent to the bridge are read there as the isolation identity and mode of the request and as a
  leased token that resolves to the scope of that registration. When the request ends, the token no longer
  resolves.
\<close>

theorem proxied_request_keeps_account:
  assumes "identifiers_valid env" "pe_authenticated env"
    and "request_filter env now (px, session, ctx) = (Ok False, px', session', ctx')"
    and "upstream_peer env session' ctx' = Ok peer"
  shows "\<exists>addr registered token.
      ss_client_addr session = Some addr \<and> downstream_context (px_downstream_contexts px) addr = Some registered
    \<and> ingress_headers_from_httparse (hop_headers (peer_proxy peer))
        = Ok \<lparr>ingress_isolation = \<lparr>request_identity = Some (ctx_isolation_identity ctx'),
                                    request_strict = request_strict (context_isolation registered)\<rparr>,
              ingress_proxy_authorization = None, ingress_internal_identity = Some token\<rparr>
    \<and> BridgeIdentityRegistry_resolve (px_bridge_identities px') token = Some (context_scope registered)
    \<and> BridgeIdentityRegistry_resolve (px_bridge_identities (drop_ctx ctx' px')) token = None
    \<and> hop_next_hop (peer_proxy peer) = BRIDGE_SOCKET \<and> peer_group_key peer = ctx_isolation_group_key ctx'"
proof -
  obtain addr registered token d c where f: "ss_client_addr session = Some addr"
      "downstream_context (px_downstream_contexts px) addr = Some registered" "ctx_bridge_identity_lease ctx' = Some token"
      "BridgeIdentityRegistry_resolve (px_bridge_identities px') token = Some (context_scope registered)"
      "\<exists>r bytes r'. pe_fill env r = (Ok bytes, r') \<and> token = pe_encode env bytes"
      "ctx_isolation_identity ctx' = pe_tenant_hash env (resolve_message (scope_identity (context_scope registered)) d (context_isolation registered) c)"
      "ctx_strict_isolation ctx' = request_strict (context_isolation registered)"
    using request_filter_proceeds [OF assms(3,2)] by metis
  have "validate_isolation_identity token = Ok token" using f(5) valid_identifiers(2) [OF assms(1)] by blast
  moreover have "validate_isolation_identity (ctx_isolation_identity ctx') = Ok (ctx_isolation_identity ctx')"
    unfolding f(6) by (rule valid_identifiers(1) [OF assms(1)])
  ultimately have "ingress_headers_from_httparse (proxy_headers ctx')
      = Ok \<lparr>ingress_isolation = \<lparr>request_identity = Some (ctx_isolation_identity ctx'), request_strict = ctx_strict_isolation ctx'\<rparr>,
            ingress_proxy_authorization = None, ingress_internal_identity = Some token\<rparr>"
    using proxy_headers_read_back f(3) by blast
  moreover have "hop_headers (peer_proxy peer) = proxy_headers ctx'" "hop_next_hop (peer_proxy peer) = BRIDGE_SOCKET"
      "peer_group_key peer = ctx_isolation_group_key ctx'"
    using assms(4) by (auto simp: upstream_peer_def Let_def)
  moreover have "BridgeIdentityRegistry_resolve (px_bridge_identities (drop_ctx ctx' px')) token = None"
    by (simp add: drop_ctx_def f(3) BridgeIdentityRegistry_resolve_def BridgeIdentityRegistry_remove_def hashmap_simps)
  ultimately show ?thesis using f(1,2,4,7) by auto
qed

section \<open>The cache\<close>

lemma request_filter_scope:
  assumes "request_filter env now (px, session, ctx) = (Ok False, px', session', ctx')"
  shows "ss_cache_enabled session' = ss_cache_enabled session
    \<and> (pe_authenticated env \<or> ctx_ingress_identity ctx' = ctx_ingress_identity ctx)
    \<and> ctx_cache_scope ctx' = request_cache_scope env (ctx_strict_isolation ctx') (ctx_ingress_identity ctx')
        (ctx_isolation_identity ctx') (ctx_isolation_group_key ctx')"
proof (cases "pe_authenticated env")
  case True
  from request_filter_proceeds [OF assms True] True show ?thesis by metis
next
  case False
  with assms obtain isolation px1 session1 ctx1 where
      d: "development_isolation (px, session, ctx) = (Ok isolation, px1, session1, ctx1)"
    and i: "isolate_request env now isolation (px1, session1, ctx1) = (Ok False, px', session', ctx')"
    by (auto simp: request_filter_def Let_def split: prod.splits sum.splits)
  from d have "ss_cache_enabled session1 = ss_cache_enabled session" "ctx1 = ctx"
    by (auto simp: development_isolation_def split: prod.splits sum.splits)
  with isolate_request_state [OF i] show ?thesis by simp
qed

lemma cache_enabled_eligible:
  assumes "request_cache_filter env now (px, session, ctx) = (Ok (), px', session', ctx')"
    and "\<not> ss_cache_enabled session" "ss_cache_enabled session'"
  shows "\<exists>scope origin. decide_cache env (px, session, ctx) = Eligible scope origin"
    and "decide_cache env (px', session', ctx') = decide_cache env (px, session, ctx)" "ss_request session' = ss_request session"
    and "ctx' = ctx\<lparr>ctx_cache_started := Some now\<rparr>" "px_cache_policy px' = px_cache_policy px"
  using assms by (auto simp: request_cache_filter_def decide_cache_def Let_def split: if_splits CacheAccessDecision.splits)

lemma eligible_cases:
  assumes "cache_access_decision parse req_cc request strict scope policy = Eligible s origin"
  shows "\<not> strict \<and> scope = Some s \<and> CachePolicy_allows policy origin \<and> request_cache_eligible req_cc request
    \<and> (\<exists>path. canonical_cache_key_parts parse request = Ok (origin, path))"
  using assms by (auto simp: cache_access_decision_def split: if_splits option.splits sum.splits prod.splits)

text \<open>
  Property C22. Only requests of an authenticated account that share a session use the cache, and only under the
  key of that account: when the cache is enabled for a request, the deployment is authenticated and the
  request not strict, it is a GET without credentials to an allowed origin, and its cache key exists
  and carries the cache scope of its account, isolation identity and isolation group.
\<close>

theorem cached_requests_scoped:
  assumes "request_filter env now (px, session, ctx) = (Ok False, px1, session1, ctx1)"
    and "request_cache_filter env now' (px1, session1, ctx1) = (Ok (), px2, session2, ctx2)"
    and "ctx_ingress_identity ctx = None" "\<not> ss_cache_enabled session" "ss_cache_enabled session2"
  shows "pe_authenticated env \<and> \<not> ctx_strict_isolation ctx2
    \<and> req_method (ss_request session2) = ''GET'' \<and> \<not> headers_contain (req_headers (ss_request session2)) ''authorization''
    \<and> \<not> headers_contain (req_headers (ss_request session2)) ''cookie''
    \<and> (\<exists>identity key origin path. ctx_ingress_identity ctx2 = Some identity
         \<and> cache_key_callback env (px2, session2, ctx2) = Ok key
         \<and> canonical_cache_key_parts (pe_parse_authority env) (ss_request session2) = Ok (origin, path)
         \<and> CachePolicy_allows (px_cache_policy px2) origin
         \<and> key = \<lparr>key_namespace = CACHE_KEY_NAMESPACE_VERSION @ origin, key_primary = path,
             key_user_tag = TenantIsolationHasher_cache_scope (pe_tenant_hash env) identity (ctx_isolation_identity ctx2) (ctx_isolation_group_key ctx2)\<rparr>)"
proof -
  note e = cache_enabled_eligible [OF assms(2) _ assms(5)]
  have off: "\<not> ss_cache_enabled session1" using request_filter_scope [OF assms(1)] assms(4) by simp
  obtain scope origin where el: "decide_cache env (px2, session2, ctx2) = Eligible scope origin"
    using e [OF off] by auto
  from eligible_cases [OF this [unfolded decide_cache_def prod.case]] obtain path where
      c: "\<not> ctx_strict_isolation ctx2" "ctx_cache_scope ctx2 = Some scope" "CachePolicy_allows (px_cache_policy px2) origin"
      "request_cache_eligible (pe_req_cc env) (ss_request session2)"
      "canonical_cache_key_parts (pe_parse_authority env) (ss_request session2) = Ok (origin, path)"
    by blast
  have ctx2: "ctx2 = ctx1\<lparr>ctx_cache_started := Some now'\<rparr>" using e(4) [OF off] .
  with c(1,2) request_filter_scope [OF assms(1)] have "Some scope = request_cache_scope env False (ctx_ingress_identity ctx2)
      (ctx_isolation_identity ctx2) (ctx_isolation_group_key ctx2)" "pe_authenticated env \<or> ctx_ingress_identity ctx2 = None"
    using assms(3) by auto
  then obtain identity where i: "pe_authenticated env" "ctx_ingress_identity ctx2 = Some identity"
      "scope = TenantIsolationHasher_cache_scope (pe_tenant_hash env) identity (ctx_isolation_identity ctx2) (ctx_isolation_group_key ctx2)"
    by (auto simp: request_cache_scope_def split: option.splits bool.splits)
  have "cache_key_callback env (px2, session2, ctx2)
      = Ok \<lparr>key_namespace = CACHE_KEY_NAMESPACE_VERSION @ origin, key_primary = path, key_user_tag = scope\<rparr>"
    by (simp add: cache_key_callback_def el scoped_cache_key_def c(5))
  with c i show ?thesis by (auto simp: request_cache_eligible_def split: if_splits)
qed

section \<open>What the origin sees\<close>

text \<open>
  The origin receives none of the proxy's own headers: of the headers of a request exactly the isolation,
  authorization and lease headers are removed, in whatever number they occur; a strict request
  additionally asks for its connection to be closed.
\<close>

lemma upstream_request_clean:
  "req_headers (upstream_request_filter ctx request) =
     (let kept = filter (\<lambda>(n, _). n \<notin> {''x-proxy-isolation'', ''x-proxy-isolation-mode'', ''proxy-authorization'', ''x-proxy-authenticated-lease''})
        (req_headers request)
      in if ctx_strict_isolation ctx then filter (\<lambda>(n, _). n \<noteq> ''connection'') kept @ [(''connection'', ''close'')] else kept)"
proof -
  have "to_ascii_lowercase ''connection'' = ''connection''" by code_simp
  then show ?thesis
    by (simp add: upstream_request_filter_def insert_request_header_def remove_header_def ingress_names_lower Let_def
        case_prod_unfold conj_ac cong: filter_cong)
qed

section \<open>A demonstration\<close>

text \<open>A session request to host \<open>a\<close> on a connection registered for the demonstration account.\<close>

definition hook_env :: "(nat, nat) proxy_env" where
  "hook_env = \<lparr>pe_authenticated = True, pe_parse_authority = host_only, pe_tenant_hash = (\<lambda>_. replicate 64 (CHR ''a'')),
     pe_fill = (\<lambda>r. (Ok (replicate 24 (CHR ''x'')), Suc r)), pe_encode = (\<lambda>_. replicate 32 (CHR ''k'')), pe_new_token = id,
     pe_req_cc = (\<lambda>_. None), pe_resp_cc = (\<lambda>_. None), pe_resp_cacheable = (\<lambda>_ _. Uncacheable ''demo''), pe_time_max = 1000,
     pe_respond_error = (\<lambda>_. Ok ())\<rparr>"

definition session_context :: AuthenticatedRequestContext where
  "session_context = \<lparr>context_scope = demo_account_scope, context_isolation = \<lparr>request_identity = None, request_strict = False\<rparr>\<rparr>"

definition hook_proxy :: "(nat, nat, nat) Proxy" where
  "hook_proxy = \<lparr>px_request_counter = 0,
     px_cache = \<lparr>iso_entries = [], iso_capacity = 4, iso_ttl = 100, tokens_drawn = 0, group_counter = 1\<rparr>,
     px_cache_policy = \<lparr>allowed_http_origins = {format_canonical_origin ''http'' ''a'' 80}, configured_max_ttl = 60, absolute_max_ttl = 300\<rparr>,
     px_metrics = CircuitMetrics_default,
     px_downstream_contexts = \<lparr>ds_entries = [(7, \<lparr>entry_generation = 1, entry_context = session_context\<rparr>)], ds_capacity = 4,
       ds_sequence = 2, ds_poisoned = False\<rparr>,
     px_bridge_identities = \<lparr>reg_entries = [], reg_capacity = 4, reg_poisoned = False\<rparr>, px_id_counter = 1, px_rng = 0\<rparr>"

definition hook_session :: "nat session" where
  "hook_session = \<lparr>ss_request = Cache_Policy.demo_request ''a'', ss_client_addr = Some 7, ss_keepalive = True, ss_response_written = None,
     ss_cache_enabled = False, ss_cache_max_file_size = None, ss_cache_phase = Uninit\<rparr>"

lemma hook_identifiers: "identifiers_valid hook_env"
  by (simp add: identifiers_valid_def hook_env_def is_base64_url_byte_def ascii_defs byte_def list_all_iff)

lemma hook_take: "take_isolation_request (Cache_Policy.demo_request ''a'') = (Ok \<lparr>request_identity = None, request_strict = False\<rparr>, Cache_Policy.demo_request ''a'')"
  by (simp add: take_isolation_request_def single_value_def get_all_def remove_header_def Cache_Policy.demo_request_def ingress_names_lower)

lemma hook_filter:
  "\<exists>px' session' ctx'. request_filter hook_env 5 (hook_proxy, hook_session, new_ctx 9 5) = (Ok False, px', session', ctx')
     \<and> ss_request session' = Cache_Policy.demo_request ''a'' \<and> ctx_strict_isolation ctx' = False \<and> px_cache_policy px' = px_cache_policy hook_proxy"
  by (simp add: request_filter_def Let_def hook_env_def hook_proxy_def hook_session_def downstream_context_def lease_and_resolve_def hook_take
      demo_parts BridgeIdentityRegistry_issue_def eval_nat_numeral TenantIsolationHasher_resolve_def session_context_def
      isolate_request_def material_for_at_def retain_live_def evict_oldest_def draw_material_def put_entry_def hm_evict_min_def hashmap_simps)

theorem proxied_request_keeps_account_witness:
  "\<exists>px' session' ctx' peer token. request_filter hook_env 5 (hook_proxy, hook_session, new_ctx 9 5) = (Ok False, px', session', ctx')
     \<and> upstream_peer hook_env session' ctx' = Ok peer
     \<and> BridgeIdentityRegistry_resolve (px_bridge_identities px') token = Some demo_account_scope"
proof -
  obtain px' session' ctx' where f: "request_filter hook_env 5 (hook_proxy, hook_session, new_ctx 9 5) = (Ok False, px', session', ctx')"
      "ss_request session' = Cache_Policy.demo_request ''a''"
    using hook_filter by blast
  have "\<exists>peer. upstream_peer hook_env session' ctx' = Ok peer"
    by (simp add: upstream_peer_def f(2) Cache_Policy.demo_request_def header_to_str_def byte_def hook_env_def host_only_def Let_def)
  then obtain peer where p: "upstream_peer hook_env session' ctx' = Ok peer" by blast
  have "pe_authenticated hook_env" by (simp add: hook_env_def)
  from proxied_request_keeps_account [OF hook_identifiers this f(1) p] f(1) p show ?thesis
    by (auto simp: hook_session_def hook_proxy_def downstream_context_def session_context_def)
qed

theorem cached_requests_scoped_witness:
  "\<exists>px1 session1 ctx1 px2 session2 ctx2 key. request_filter hook_env 5 (hook_proxy, hook_session, new_ctx 9 5) = (Ok False, px1, session1, ctx1)
     \<and> request_cache_filter hook_env 6 (px1, session1, ctx1) = (Ok (), px2, session2, ctx2)
     \<and> cache_key_callback hook_env (px2, session2, ctx2) = Ok key"
proof -
  obtain px1 session1 ctx1 where f: "request_filter hook_env 5 (hook_proxy, hook_session, new_ctx 9 5) = (Ok False, px1, session1, ctx1)"
      "ss_request session1 = Cache_Policy.demo_request ''a''" "ctx_strict_isolation ctx1 = False" "px_cache_policy px1 = px_cache_policy hook_proxy"
    using hook_filter by blast
  have auth: "pe_authenticated hook_env" by (simp add: hook_env_def)
  from request_filter_proceeds [OF f(1) auth] f(3) auth obtain scope where sc: "ctx_cache_scope ctx1 = Some scope"
    by (auto simp: request_cache_scope_def)
  have parse: "pe_parse_authority hook_env = host_only" "pe_req_cc hook_env = (\<lambda>_. None)" by (simp_all add: hook_env_def)
  have "decide_cache hook_env (px1, session1, ctx1) = Eligible scope (format_canonical_origin ''http'' ''a'' 80)"
    by (simp add: decide_cache_def cache_access_decision_def f(2,3,4) sc parse demo_parts CachePolicy_allows_def hook_proxy_def
        request_cache_eligible_def) (simp add: Cache_Policy.demo_request_def headers_contain_def)
  then have "\<exists>px2 session2 ctx2. request_cache_filter hook_env 6 (px1, session1, ctx1) = (Ok (), px2, session2, ctx2) \<and> ss_cache_enabled session2"
    by (simp add: request_cache_filter_def f(2) parse demo_parts)
  then obtain px2 session2 ctx2 where c: "request_cache_filter hook_env 6 (px1, session1, ctx1) = (Ok (), px2, session2, ctx2)" "ss_cache_enabled session2"
    by blast
  from cached_requests_scoped [OF f(1) c(1) _ _ c(2)] f(1) c(1) show ?thesis by (auto simp: new_ctx_def hook_session_def)
qed

end
