(* ===== verification/Startup.thy ===== *)
theory Startup
  imports Account_Open Ingress_Config Data_Session Ingress_Stores Admission_Slots
begin

text \<open>
  Building the public ingress at start-up (\<open>src/src/main.rs\<close>): \<open>configured_public_ingress\<close> reads the configuration,
  opens the account store and makes the shared stores with their capacities; \<open>PublicIngressRuntime\<close> and
  \<open>AuthenticatedIngressRuntime\<close> are its result.

  \<open>startup_env\<close> has what the process is given: its environment variables, the file system, SQLite, rustls and
  the random source. A constructor that panics, on a capacity of zero or on a semaphore of more than
  \<open>MAX_PERMITS\<close>, is the error \<open>Startup_Panic\<close>; the lemmas show which configurations get there.
\<close>

section \<open>The runtime\<close>

record ('l, 'p) AuthenticatedIngressRuntime =
  ar_accounts :: "'l AccountManager"
  ar_data_limiter :: data_limiter
  ar_downstream_contexts :: "'p AuthenticatedDownstreamStore"
  ar_bridge_identities :: BridgeIdentityRegistry
  ar_isolation_key :: string
  ar_usage_period :: nat

datatype ('s, 'l, 'p) PublicIngressRuntime =
    PIR_Development SocketAddr
  | PIR_AuthenticatedTls (pir_listen: SocketAddr) (pir_acceptor: ServerConfig) (pir_handshake_timeout: nat)
      (pir_first_request_timeout: nat) (pir_handshake_semaphore: 's) (pir_max_client_connections: nat)
      (pir_authentication: "('l, 'p) AuthenticatedIngressRuntime")

definition MAX_CONNECTION_TASKS :: nat where "MAX_CONNECTION_TASKS = 512"

fun PublicIngressRuntime_listen_addr :: "('s, 'l, 'p) PublicIngressRuntime \<Rightarrow> SocketAddr" where
  "PublicIngressRuntime_listen_addr (PIR_Development listen_addr) = listen_addr"
| "PublicIngressRuntime_listen_addr (PIR_AuthenticatedTls listen_addr acceptor handshake first sem connections authentication) = listen_addr"

fun PublicIngressRuntime_max_client_connections :: "('s, 'l, 'p) PublicIngressRuntime \<Rightarrow> nat" where
  "PublicIngressRuntime_max_client_connections (PIR_Development listen_addr) = MAX_CONNECTION_TASKS"
| "PublicIngressRuntime_max_client_connections (PIR_AuthenticatedTls listen_addr acceptor handshake first sem connections authentication) = connections"

fun PublicIngressRuntime_authentication :: "('s, 'l, 'p) PublicIngressRuntime \<Rightarrow> ('l, 'p) AuthenticatedIngressRuntime option" where
  "PublicIngressRuntime_authentication (PIR_Development listen_addr) = None"
| "PublicIngressRuntime_authentication (PIR_AuthenticatedTls listen_addr acceptor handshake first sem connections authentication) = Some authentication"

section \<open>Configuration\<close>

record ('w, 'f, 's, 'l) startup_env =
  su_variables :: "string \<Rightarrow> env_var"
  su_files :: "('w, 'f) file_ops"
  su_sqlite :: "'w sqlite_ops"
  su_tls :: "'f tls_ops"
  su_random :: "('w, string, string) io"
  su_semaphore :: "'s semaphore_ops"
  su_admission_memory :: "nat \<Rightarrow> 'l AccountAdmissionState"
  su_period_memory :: "nat \<Rightarrow> CustomerPeriodUsage"

datatype startup_error =
    Startup_Ingress PrivateIngressError
  | Startup_Account AccountManagementError
  | Startup_Message string
  | Startup_Panic

text \<open>\<open>usize::checked_mul\<close>.\<close>

definition checked_mul_usize :: "nat \<Rightarrow> nat \<Rightarrow> nat option" where
  "checked_mul_usize a b = (if a * b \<le> u64_max then Some (a * b) else None)"

definition TenantIsolationHasher_new :: "('w, string, string) io \<Rightarrow> ('w, string, startup_error) io" where
  "TenantIsolationHasher_new random = io_map_err (\<lambda>e. Startup_Message (''failed to seed tenant isolation: '' @ e)) random"

definition authenticated_runtime ::
    "('w, 'f, 's, 'l) startup_env \<Rightarrow> SingleTierPolicy \<Rightarrow> 'l AccountManager \<Rightarrow> nat \<Rightarrow> nat \<Rightarrow> nat
      \<Rightarrow> ('w, ('l, 'p) AuthenticatedIngressRuntime, startup_error) io" where
  "authenticated_runtime env policy manager cached connections usage_period =
     io_bind (io_lift (ok_or (Startup_Message ''customer data-limit cache capacity overflow'') (checked_mul_usize cached 2))) (\<lambda>periods.
     io_bind (io_lift (ok_or (Startup_Message ''bridge identity capacity overflow'') (checked_mul_usize connections 4))) (\<lambda>identities.
     io_bind (io_lift (map_err Startup_Message (CustomerDataLimiter_new (su_period_memory env) policy periods))) (\<lambda>limiter.
     io_bind (io_lift (ok_or Startup_Panic (AuthenticatedDownstreamStore_new connections))) (\<lambda>downstream.
     io_bind (io_lift (ok_or Startup_Panic (BridgeIdentityRegistry_new identities))) (\<lambda>registry.
     io_bind (TenantIsolationHasher_new (su_random env)) (\<lambda>key.
     io_return \<lparr>ar_accounts = manager, ar_data_limiter = limiter, ar_downstream_contexts = downstream,
       ar_bridge_identities = registry, ar_isolation_key = key, ar_usage_period = usage_period\<rparr>))))))"

fun public_ingress ::
    "('w, 'f, 's, 'l) startup_env \<Rightarrow> RuntimeIngressConfig \<Rightarrow> ('w, ('s, 'l, 'p) PublicIngressRuntime, startup_error) io" where
  "public_ingress env (RIC_Development listen_addr) =
     (if su_variables env SINGLE_TIER_PERIOD_BYTE_LIMIT_ENV \<noteq> Env_NotPresent
      then io_fail (Startup_Message (SINGLE_TIER_PERIOD_BYTE_LIMIT_ENV @ '' requires PROXY_INGRESS_MODE=production''))
      else io_return (PIR_Development listen_addr))"
| "public_ingress env (RIC_Production tls account_database key_file cached usage_period) =
     io_bind (io_lift (map_err Startup_Message
       (SingleTierPolicy_from_environment (su_variables env SINGLE_TIER_PERIOD_BYTE_LIMIT_ENV)))) (\<lambda>policy.
     io_bind (io_map_err Startup_Ingress (load_server_config (su_files env) (su_tls env) tls)) (\<lambda>server_config.
     io_bind (io_map_err Startup_Account (ApiKeyHasher_from_key_file (su_files env) key_file)) (\<lambda>hasher.
     io_bind (io_map_err Startup_Account
       (AccountManager_open (su_files env) (su_sqlite env) (su_admission_memory env) account_database hasher cached)) (\<lambda>manager.
     io_bind (authenticated_runtime env policy manager cached (max_client_connections (ic_capacity tls)) usage_period) (\<lambda>authentication.
     if MAX_PERMITS < max_concurrent_handshakes (ic_capacity tls) then io_fail Startup_Panic
     else io_return (PIR_AuthenticatedTls (ic_listen_addr tls) server_config (tls_handshake (ic_timeouts tls)) (first_request (ic_timeouts tls))
       (sem_new (su_semaphore env) (max_concurrent_handshakes (ic_capacity tls))) (max_client_connections (ic_capacity tls))
       authentication))))))"

definition configured_public_ingress ::
    "('w, 'f, 's, 'l) startup_env \<Rightarrow> ('w, ('s, 'l, 'p) PublicIngressRuntime, startup_error) io" where
  "configured_public_ingress env =
     io_bind (io_lift (map_err Startup_Ingress (from_lookup (environment_lookup (su_variables env))))) (public_ingress env)"

section \<open>What start-up guarantees\<close>

lemma authenticated_runtime_Ok:
  assumes "authenticated_runtime env policy manager cached connections usage_period w = (Ok a, w')"
  shows "ar_accounts a = manager \<and> ar_usage_period a = usage_period
    \<and> ds_capacity (ar_downstream_contexts a) = connections \<and> 0 < connections
    \<and> reg_capacity (ar_bridge_identities a) = 4 * connections
    \<and> dl_policy (ar_data_limiter a) = policy \<and> dl_max_cached_periods (ar_data_limiter a) = 2 * cached"
  using assms
  by (auto simp: authenticated_runtime_def io_simps checked_mul_usize_def CustomerDataLimiter_new_def AuthenticatedDownstreamStore_new_def
      BridgeIdentityRegistry_new_def split: if_splits)

lemma authenticated_runtime_panic:
  "authenticated_runtime env policy manager cached connections usage_period w = (Err Startup_Panic, w') \<Longrightarrow> connections = 0"
  by (auto simp: authenticated_runtime_def TenantIsolationHasher_new_def io_simps checked_mul_usize_def AuthenticatedDownstreamStore_new_def
      BridgeIdentityRegistry_new_def split: if_splits)

lemma schema_transaction_version:
  "schema_transaction c = (Inr u, c') \<Longrightarrow> df_user_version (op_file c') = SCHEMA_VERSION"
  by (auto dest: schema_transaction_Ok)

lemma open_connection_version:
  "open_connection journal_mode file_backed c = (Ok u, c') \<Longrightarrow> df_user_version (op_file c') = SCHEMA_VERSION"
  by (auto simp: open_connection_def migrate_schema_def io_simps split: if_splits dest!: schema_transaction_version)

lemma AccountManager_open_Ok:
  assumes "AccountManager_open fs sq memory path hasher cached w = (Ok manager, w')"
  shows "am_hasher manager = hasher \<and> max_cached_accounts (am_admission manager) = cached
    \<and> df_user_version (op_file (am_database manager)) = SCHEMA_VERSION
    \<and> (\<exists>w1 w2. prepare_database_file fs path w1 = (Ok (), w2))"
proof -
  obtain database w1 where d: "AccountDatabase_open fs sq path w = (Ok database, w1)"
      and a: "am_database manager = database" "am_hasher manager = hasher" "max_cached_accounts (am_admission manager) = cached"
    using assms by (auto simp: AccountManager_open_def io_simps AccountAdmissionController_new_def split: if_splits)
  from d obtain c w2 where "prepare_database_file fs path w = (Ok (), w2)"
      "opened_or_error (open_connection (sq_journal_mode sq path) True c) = Ok database"
    by (auto simp: AccountDatabase_open_def io_simps)
  then show ?thesis using a
    by (cases "open_connection (sq_journal_mode sq path) True c") (auto simp: opened_or_error_def dest: open_connection_version)
qed

text \<open>What an authenticated runtime has, whatever the process was given.\<close>

fun runtime_ok :: "('w, 'f, 's, 'l) startup_env \<Rightarrow> ('s, 'l, 'p) PublicIngressRuntime \<Rightarrow> bool" where
  "runtime_ok env (PIR_Development listen_addr) \<longleftrightarrow> ip_is_loopback (sa_ip listen_addr)"
| "runtime_ok env (PIR_AuthenticatedTls listen_addr acceptor handshake first sem connections authentication) \<longleftrightarrow>
     sc_versions acceptor = [''TLS13''] \<and> sc_alpn_protocols acceptor = [HTTP_1_1_ALPN]
     \<and> sc_chain acceptor \<noteq> []
     \<and> (\<exists>roots. sc_client_roots acceptor = Some roots \<and> roots \<noteq> [] \<and> (\<forall>c\<in>set roots. tls_trust_anchor (su_tls env) c = Ok ()))
     \<and> sa_port listen_addr \<noteq> 0 \<and> 0 < handshake \<and> 0 < first \<and> 0 < connections
     \<and> (\<exists>n>0. n \<le> MAX_PERMITS \<and> sem = sem_new (su_semaphore env) n)
     \<and> length (am_hasher (ar_accounts authentication)) = 32
     \<and> df_user_version (op_file (am_database (ar_accounts authentication))) = SCHEMA_VERSION
     \<and> 0 < max_cached_accounts (am_admission (ar_accounts authentication))
     \<and> dl_max_cached_periods (ar_data_limiter authentication) = 2 * max_cached_accounts (am_admission (ar_accounts authentication))
     \<and> 0 < policy_period_byte_limit (dl_policy (ar_data_limiter authentication))
     \<and> uint (policy_period_byte_limit (dl_policy (ar_data_limiter authentication))) \<le> i64_max
     \<and> ds_capacity (ar_downstream_contexts authentication) = connections
     \<and> reg_capacity (ar_bridge_identities authentication) = 4 * connections
     \<and> 0 < ar_usage_period authentication"

lemma public_ingress_production:
  assumes "public_ingress env (RIC_Production tls account_database key_file cached usage_period) w = (Ok ingress, w')"
    and "hardened lookup (RIC_Production tls account_database key_file cached usage_period)"
  shows "runtime_ok env ingress"
proof -
  obtain policy server hasher manager authentication w1 w2 w3 where
      p: "SingleTierPolicy_from_environment (su_variables env SINGLE_TIER_PERIOD_BYTE_LIMIT_ENV) = Ok policy"
    and s: "load_server_config (su_files env) (su_tls env) tls w = (Ok server, w1)"
    and h: "ApiKeyHasher_from_key_file (su_files env) key_file w1 = (Ok hasher, w2)"
    and a: "AccountManager_open (su_files env) (su_sqlite env) (su_admission_memory env) account_database hasher cached w2 = (Ok manager, w3)"
    and r: "authenticated_runtime env policy manager cached (max_client_connections (ic_capacity tls)) usage_period w3 = (Ok authentication, w')"
    and i: "ingress = PIR_AuthenticatedTls (ic_listen_addr tls) server (tls_handshake (ic_timeouts tls)) (first_request (ic_timeouts tls))
       (sem_new (su_semaphore env) (max_concurrent_handshakes (ic_capacity tls))) (max_client_connections (ic_capacity tls)) authentication"
    and n: "max_concurrent_handshakes (ic_capacity tls) \<le> MAX_PERMITS"
    using assms(1) by (auto simp: io_simps split: if_splits)
  have v: "IngressConfig_validate tls = Ok ()" "ic_client_certificates tls = Certificates_Required" "0 < cached" "0 < usage_period"
    using assms(2) by simp_all
  note sc = server_config_loaded [OF s]
  have "length hasher = 32" using h by (simp add: from_key_file_Ok KEY_LEN_def)
  moreover have "0 < policy_period_byte_limit policy" "uint (policy_period_byte_limit policy) \<le> i64_max"
    using policy_fits_database [OF p] by simp_all
  ultimately show ?thesis
    using sc v n authenticated_runtime_Ok [OF r] AccountManager_open_Ok [OF a] by (auto simp: i validate_Ok HTTP_1_1_ALPN_def)
qed

text \<open>
  Property C35. The process starts only with a safe ingress: if start-up succeeds, the ingress is plain text on a
  loopback address, or TLS 1.3 with verified client certificates, a secret of 32 bytes for the API keys, the
  current database schema, a positive data limit the database can count, positive time-outs, a handshake
  semaphore of a capacity that Tokio takes, and stores
  whose capacities fit each other, four leases and one context for every client connection and two
  periods for every cached account. If building the ingress fails it reports an error; it panics only for a
  configuration with more concurrent handshakes than a Tokio semaphore has permits.
\<close>

theorem public_ingress_hardened:
  assumes "configured_public_ingress env w = (r, w')"
  shows "case r of
      Inl e \<Rightarrow> e = Startup_Panic \<longrightarrow>
        (\<exists>tls account_database key_file cached usage_period.
          from_lookup (environment_lookup (su_variables env)) = Ok (RIC_Production tls account_database key_file cached usage_period)
          \<and> MAX_PERMITS < max_concurrent_handshakes (ic_capacity tls))
    | Inr ingress \<Rightarrow> runtime_ok env ingress"
proof (cases "from_lookup (environment_lookup (su_variables env))")
  case (Inl e)
  with assms show ?thesis by (auto simp: configured_public_ingress_def io_bind_def io_lift_def)
next
  case (Inr config)
  then have h: "hardened (environment_lookup (su_variables env)) config" by (rule from_lookup_hardened)
  have p: "public_ingress env config w = (r, w')"
    using assms Inr by (simp add: configured_public_ingress_def io_bind_def io_lift_def)
  show ?thesis
  proof (cases config)
    case (RIC_Development listen_addr)
    with p h show ?thesis by (auto simp: io_fail_def io_return_def split: if_splits)
  next
    case (RIC_Production tls account_database key_file cached usage_period)
    show ?thesis
    proof (cases r)
      case (Inl e)
      have "0 < max_client_connections (ic_capacity tls)" using h RIC_Production by (simp add: validate_Ok)
      with p Inl RIC_Production have "e = Startup_Panic \<longrightarrow> MAX_PERMITS < max_concurrent_handshakes (ic_capacity tls)"
        by (auto simp: io_simps split: if_splits dest: authenticated_runtime_panic)
      with Inl RIC_Production \<open>from_lookup _ = Inr config\<close> show ?thesis by auto
    next
      case (Inr ingress)
      from public_ingress_production [OF p [unfolded Inr RIC_Production] h [unfolded RIC_Production]] Inr show ?thesis by simp
    qed
  qed
qed

section \<open>A demonstration\<close>

definition startup_demo :: "(demo_files, string, nat, unit) startup_env" where
  "startup_demo = \<lparr>su_variables = demo_settings, su_files = demo_fs,
     su_sqlite = \<lparr>sq_open = (\<lambda>path w. (Ok new_file, w)), sq_journal_mode = (\<lambda>_. ''wal'')\<rparr>, su_tls = demo_tls_ops,
     su_random = (\<lambda>w. (Ok (replicate 32 (CHR ''r'')), w)),
     su_semaphore = \<lparr>sem_new = id, sem_acquire = (\<lambda>wait n. if n > 0 then (Permit, n - 1) else (Elapsed, n)), sem_release = Suc,
       sem_close = id, sem_available = id, sem_is_closed = (\<lambda>_. False)\<rparr>,
     su_admission_memory = (\<lambda>_. undefined), su_period_memory = (\<lambda>_. undefined)\<rparr>"

definition startup_disk :: demo_files where
  "startup_disk = demo_disk(''/etc/secret'' \<mapsto> (0x180, replicate 32 (CHR ''s'')), ''/var/db'' \<mapsto> (0x180, []))"

text \<open>The configuration of the demonstration with another number of concurrent handshakes.\<close>

definition handshakes_tls :: "nat \<Rightarrow> IngressConfig" where
  "handshakes_tls n = demo_tls\<lparr>ic_capacity := \<lparr>max_concurrent_handshakes = n, max_client_connections = 32\<rparr>\<rparr>"

lemma handshakes_validate: "0 < n \<Longrightarrow> IngressConfig_validate (handshakes_tls n) = Ok ()"
  unfolding validate_Ok by (simp add: handshakes_tls_def demo_tls_def demo_trim secs_def)

lemma startup_load:
  assumes "0 < n"
  shows "load_server_config demo_fs demo_tls_ops (handshakes_tls n) startup_disk = (Ok demo_server, startup_disk)"
proof -
  have "ic_tls_material (handshakes_tls n)
        = \<lparr>server_certificate_chain = ''/etc/cert'', server_private_key = ''/etc/key'', client_ca_roots = Some ''/etc/ca''\<rparr>"
      "ic_client_certificates (handshakes_tls n) = Certificates_Required" "ic_alpn (handshakes_tls n) = Http11Only"
    by (simp_all add: handshakes_tls_def demo_tls_def)
  then show ?thesis
    by (simp add: handshakes_validate assms load_server_config_def io_bind_def io_lift_def io_return_def load_certificates_def open_material_def
        io_map_err_def load_one_private_key_def client_verifier_def load_client_roots_def collect_keys_def demo_server_def demo_fs_def
        startup_disk_def demo_disk_def demo_tls_ops_def)
qed

lemma startup_open:
  "\<exists>manager. AccountManager_open demo_fs (su_sqlite startup_demo) (su_admission_memory startup_demo) ''/var/db'' hasher 1024 startup_disk
     = (Ok manager, startup_disk)"
proof -
  obtain c where "open_connection ''wal'' True new_file = (Ok (), c)" using reopened_file by blast
  then show ?thesis
    by (simp add: AccountManager_open_def AccountDatabase_open_def io_bind_def io_lift_def io_return_def io_map_err_def startup_demo_def
        opened_or_error_def AccountAdmissionController_new_def prepare_database_file_def demo_fs_def startup_disk_def demo_disk_def)
qed

lemma startup_builds:
  assumes "0 < n"
  shows "\<exists>ingress :: (nat, unit, nat) PublicIngressRuntime.
    public_ingress startup_demo (RIC_Production (handshakes_tls n) ''/var/db'' ''/etc/secret'' 1024 (secs 2592000)) startup_disk
      = (if MAX_PERMITS < n then Err Startup_Panic else Ok ingress, startup_disk)"
proof -
  obtain manager where m: "AccountManager_open demo_fs (su_sqlite startup_demo) (su_admission_memory startup_demo) ''/var/db''
      (replicate 32 (CHR ''s'')) 1024 startup_disk = (Ok manager, startup_disk)"
    using startup_open by blast
  have key: "ApiKeyHasher_from_key_file demo_fs ''/etc/secret'' startup_disk = (Ok (replicate 32 (CHR ''s'')), startup_disk)"
    by (simp add: from_key_file_Ok KEY_LEN_def demo_fs_def startup_disk_def private_file_def)
  have limit: "SingleTierPolicy_from_environment (demo_settings SINGLE_TIER_PERIOD_BYTE_LIMIT_ENV) = Ok \<lparr>policy_period_byte_limit = 1000\<rparr>"
  proof -
    have "str_trim ''1000'' = ''1000''" by (rule str_trim_id) code_simp
    moreover have "parse_u64 ''1000'' = Some 1000"
      by (simp add: parse_u64_def parse_unsigned_def is_ascii_digit_def byte_def digits_value_def u64_max_def)
    moreover have "demo_settings SINGLE_TIER_PERIOD_BYTE_LIMIT_ENV = Env_Value ''1000''"
      by (simp add: demo_settings_def setting_names SINGLE_TIER_PERIOD_BYTE_LIMIT_ENV_def)
    ultimately show ?thesis by (simp add: SingleTierPolicy_from_environment_def SingleTierPolicy_parse_def i64_max_def)
  qed
  have capacity: "max_client_connections (ic_capacity (handshakes_tls n)) = 32" "max_concurrent_handshakes (ic_capacity (handshakes_tls n)) = n"
    by (simp_all add: handshakes_tls_def)
  have env: "su_variables startup_demo = demo_settings" "su_files startup_demo = demo_fs" "su_tls startup_demo = demo_tls_ops"
      "su_random startup_demo = (\<lambda>w. (Ok (replicate 32 (CHR ''r'')), w))"
    by (simp_all add: startup_demo_def)
  show ?thesis
    by (simp add: io_bind_def io_lift_def env limit io_map_err_def startup_load assms key m
        authenticated_runtime_def capacity checked_mul_usize_def u64_max_def CustomerDataLimiter_new_def
        AuthenticatedDownstreamStore_new_def BridgeIdentityRegistry_new_def TenantIsolationHasher_new_def io_return_def io_fail_def)
qed

text \<open>
  A configuration that validation accepts makes start-up panic: one more concurrent handshake than a
  semaphore has permits.
\<close>

lemma accepted_configuration_panics:
  "IngressConfig_validate (handshakes_tls (Suc MAX_PERMITS)) = Ok () \<and>
   public_ingress startup_demo (RIC_Production (handshakes_tls (Suc MAX_PERMITS)) ''/var/db'' ''/etc/secret'' 1024 (secs 2592000)) startup_disk
     = (Err Startup_Panic :: ((nat, unit, nat) PublicIngressRuntime, startup_error) result, startup_disk)"
  using startup_builds [of "Suc MAX_PERMITS"] by (simp add: handshakes_validate)

lemma startup_succeeds:
  "\<exists>ingress :: (nat, unit, nat) PublicIngressRuntime. configured_public_ingress startup_demo startup_disk = (Ok ingress, startup_disk)"
proof -
  have "handshakes_tls 64 = demo_tls" by (simp add: handshakes_tls_def demo_tls_def)
  moreover have "\<not> MAX_PERMITS < 64" by (simp add: MAX_PERMITS_def u64_max_def)
  moreover have "su_variables startup_demo = demo_settings" by (simp add: startup_demo_def)
  ultimately show ?thesis
    using startup_builds [of 64] by (simp add: configured_public_ingress_def io_bind_def io_lift_def demo_config del: public_ingress.simps)
qed

theorem public_ingress_hardened_witness:
  "\<exists>ingress :: (nat, unit, nat) PublicIngressRuntime. configured_public_ingress startup_demo startup_disk = (Ok ingress, startup_disk)
     \<and> runtime_ok startup_demo ingress"
proof -
  obtain ingress :: "(nat, unit, nat) PublicIngressRuntime" where i: "configured_public_ingress startup_demo startup_disk = (Ok ingress, startup_disk)"
    using startup_succeeds by blast
  from public_ingress_hardened [OF this] i show ?thesis by auto
qed

end
