(* ===== verification/Task_Drain.thy ===== *)
theory Task_Drain
  imports Metrics Tor_Connect
begin

text \<open>
  The tasks of the bridge and their shutdown (\<open>src/src/main.rs\<close>): \<open>BridgeTaskDrainConfig\<close> with its
  environment variables, \<open>BridgeTaskRegistry\<close> with its gauge, and \<open>drain\<close>, which waits for the tasks, aborts
  those that are left at the deadline and gives up on those that do not stop in time.

  The \<open>JoinSet\<close> is the list of the tasks that have not been joined, each running or ended.
  \<open>drain\<close> is a state machine over what happens while it waits: a task ends, or time passes; after each of these
  it is polled. A poll is not atomic: a task may end on another thread after the poll looked for ended
  tasks, so that it leaves the loop at the deadline and finds the task in the \<open>try_join_next\<close> loop that follows.
  Counts of tasks are numbers, since a process has fewer than \<open>2 ^ 64\<close> of them.
\<close>

section \<open>Configuration\<close>

definition DEFAULT_BRIDGE_TASK_DRAIN_SECONDS :: u64 where "DEFAULT_BRIDGE_TASK_DRAIN_SECONDS = 30"
definition DEFAULT_BRIDGE_TASK_FORCE_STOP_SECONDS :: u64 where "DEFAULT_BRIDGE_TASK_FORCE_STOP_SECONDS = 5"
definition MAX_BRIDGE_TASK_SHUTDOWN_SECONDS :: u64 where "MAX_BRIDGE_TASK_SHUTDOWN_SECONDS = 3600"
definition SHUTDOWN_GRACE_MARGIN_SECONDS :: u64 where "SHUTDOWN_GRACE_MARGIN_SECONDS = 1"
definition GRACEFUL_SHUTDOWN_TIMEOUT_SECONDS :: u64 where "GRACEFUL_SHUTDOWN_TIMEOUT_SECONDS = 1"

record BridgeTaskDrainConfig =
  drain_timeout :: nat
  force_stop_timeout :: nat

definition BridgeTaskDrainConfig_new :: "nat \<Rightarrow> nat \<Rightarrow> (BridgeTaskDrainConfig, string) result" where
  "BridgeTaskDrainConfig_new drain force_stop =
     (if drain = 0 then Err ''bridge task drain timeout must be positive''
      else if force_stop = 0 then Err ''bridge task force-stop timeout must be positive''
      else if drain > secs (unat MAX_BRIDGE_TASK_SHUTDOWN_SECONDS) then Err ''bridge task drain timeout cannot exceed 3600 seconds''
      else if force_stop > secs (unat MAX_BRIDGE_TASK_SHUTDOWN_SECONDS) then Err ''bridge task force-stop timeout cannot exceed 3600 seconds''
      else Ok \<lparr>drain_timeout = drain, force_stop_timeout = force_stop\<rparr>)"

definition shutdown_seconds_from_environment :: "string \<Rightarrow> u64 \<Rightarrow> env_var \<Rightarrow> (u64, string) result" where
  "shutdown_seconds_from_environment name default_seconds var =
     (case var of
        Env_Value raw \<Rightarrow>
          and_then (ok_or (name @ '' must be a positive integer number of seconds'') (parse_u64 raw)) (\<lambda>seconds.
          if seconds = 0 \<or> seconds > MAX_BRIDGE_TASK_SHUTDOWN_SECONDS
          then Err (name @ '' must be between 1 and 3600 seconds'')
          else Ok seconds)
      | Env_NotPresent \<Rightarrow> Ok default_seconds
      | Env_NotUnicode \<Rightarrow> Err (name @ '' must contain valid Unicode''))"

definition BridgeTaskDrainConfig_from_environment :: "(string \<Rightarrow> env_var) \<Rightarrow> (BridgeTaskDrainConfig, string) result" where
  "BridgeTaskDrainConfig_from_environment env =
     and_then (shutdown_seconds_from_environment ''PROXY_SHUTDOWN_DRAIN_SECONDS'' DEFAULT_BRIDGE_TASK_DRAIN_SECONDS
       (env ''PROXY_SHUTDOWN_DRAIN_SECONDS'')) (\<lambda>drain_seconds.
     and_then (shutdown_seconds_from_environment ''PROXY_SHUTDOWN_FORCE_STOP_SECONDS'' DEFAULT_BRIDGE_TASK_FORCE_STOP_SECONDS
       (env ''PROXY_SHUTDOWN_FORCE_STOP_SECONDS'')) (\<lambda>force_stop_seconds.
     BridgeTaskDrainConfig_new (secs (unat drain_seconds)) (secs (unat force_stop_seconds))))"

text \<open>\<open>Duration::as_secs\<close>.\<close>

definition as_secs :: "nat \<Rightarrow> u64" where
  "as_secs d = of_nat (d div 1000000000)"

definition pingora_grace_period_seconds :: "BridgeTaskDrainConfig \<Rightarrow> (u64, string) result" where
  "pingora_grace_period_seconds config =
     ok_or ''bridge shutdown budget exceeds the supported range''
       (Option.bind (checked_add (as_secs (drain_timeout config)) (as_secs (force_stop_timeout config)))
         (\<lambda>seconds. checked_add seconds SHUTDOWN_GRACE_MARGIN_SECONDS))"

record server_conf =
  grace_period_seconds :: "u64 option"
  graceful_shutdown_timeout_seconds :: "u64 option"

text \<open>\<open>conf\<close> is \<open>ServerConf::new()\<close>.\<close>

definition proxy_server_configuration :: "server_conf option \<Rightarrow> BridgeTaskDrainConfig \<Rightarrow> (server_conf, string) result" where
  "proxy_server_configuration conf config =
     and_then (ok_or ''failed to create Pingora server configuration'' conf) (\<lambda>conf.
     and_then (pingora_grace_period_seconds config) (\<lambda>grace.
     Ok (conf\<lparr>grace_period_seconds := Some grace, graceful_shutdown_timeout_seconds := Some GRACEFUL_SHUTDOWN_TIMEOUT_SECONDS\<rparr>)))"

section \<open>The registry\<close>

datatype BridgeTaskKind = Kind_Metrics | Kind_Internal | Kind_Public

datatype BridgeTaskOutcome = Outcome_Completed BridgeTaskKind | Outcome_Failed BridgeTaskKind

datatype BridgeTaskCompletion = Completion_Completed | Completion_Failed

datatype join_error = Panicked | Cancelled

datatype task = Running BridgeTaskKind | Ended "(BridgeTaskOutcome, join_error) result"

record BridgeTaskRegistry =
  reg_tasks :: "(nat \<times> task) list"
  reg_next :: nat
  reg_metrics :: CircuitMetrics

definition BridgeTaskRegistry_new :: "CircuitMetrics \<Rightarrow> BridgeTaskRegistry" where
  "BridgeTaskRegistry_new metrics = \<lparr>reg_tasks = [], reg_next = 0, reg_metrics = metrics\<rparr>"

definition task_gauge_increment :: "CircuitMetrics \<Rightarrow> CircuitMetrics" where
  "task_gauge_increment m = m\<lparr>m_bridge_tasks_active := m_bridge_tasks_active m + 1\<rparr>"

definition drop_task_gauge :: "CircuitMetrics \<Rightarrow> CircuitMetrics" where
  "drop_task_gauge m = m\<lparr>m_bridge_tasks_active := m_bridge_tasks_active m - 1\<rparr>"

definition registry_spawn :: "BridgeTaskKind \<Rightarrow> BridgeTaskRegistry \<Rightarrow> BridgeTaskRegistry" where
  "registry_spawn kind reg =
     reg\<lparr>reg_tasks := reg_tasks reg @ [(reg_next reg, Running kind)], reg_next := Suc (reg_next reg),
         reg_metrics := task_gauge_increment (reg_metrics reg)\<rparr>"

definition registry_is_empty :: "BridgeTaskRegistry \<Rightarrow> bool" where
  "registry_is_empty reg \<longleftrightarrow> reg_tasks reg = []"

text \<open>
  How a task ends: its future returns a result, panics, or is dropped because it was aborted; in each case
  the gauge guard it owns is dropped.
\<close>

datatype task_end = Returned "(unit, string) result" | Panics | Aborted

fun join_result :: "BridgeTaskKind \<Rightarrow> task_end \<Rightarrow> (BridgeTaskOutcome, join_error) result" where
  "join_result kind (Returned (Inr _)) = Ok (Outcome_Completed kind)"
| "join_result kind (Returned (Inl _)) = Ok (Outcome_Failed kind)"
| "join_result kind Panics = Err Panicked"
| "join_result kind Aborted = Err Cancelled"

fun end_in :: "nat \<Rightarrow> task_end \<Rightarrow> (nat \<times> task) list \<Rightarrow> (nat \<times> task) list option" where
  "end_in k how [] = None"
| "end_in k how ((j, Running kind) # ts) =
     (if j = k then Some ((j, Ended (join_result kind how)) # ts)
      else map_option (\<lambda>ts'. (j, Running kind) # ts') (end_in k how ts))"
| "end_in k how ((j, Ended r) # ts) = map_option (\<lambda>ts'. (j, Ended r) # ts') (end_in k how ts)"

definition task_ends :: "nat \<Rightarrow> task_end \<Rightarrow> BridgeTaskRegistry \<Rightarrow> BridgeTaskRegistry" where
  "task_ends k how reg =
     (case end_in k how (reg_tasks reg) of
        Some ts \<Rightarrow> reg\<lparr>reg_tasks := ts, reg_metrics := drop_task_gauge (reg_metrics reg)\<rparr>
      | None \<Rightarrow> reg)"

fun take_ended :: "(nat \<times> task) list \<Rightarrow> ((BridgeTaskOutcome, join_error) result \<times> (nat \<times> task) list) option" where
  "take_ended [] = None"
| "take_ended ((k, Ended r) # ts) = Some (r, ts)"
| "take_ended ((k, Running kind) # ts) = map_option (\<lambda>(r, ts'). (r, (k, Running kind) # ts')) (take_ended ts)"

text \<open>\<open>try_join_next\<close>, and \<open>join_next\<close> when it is ready.\<close>

definition try_join_next :: "BridgeTaskRegistry \<Rightarrow> ((BridgeTaskOutcome, join_error) result \<times> BridgeTaskRegistry) option" where
  "try_join_next reg = map_option (\<lambda>(r, ts). (r, reg\<lparr>reg_tasks := ts\<rparr>)) (take_ended (reg_tasks reg))"

definition count_failed_task :: "CircuitMetrics \<Rightarrow> CircuitMetrics" where
  "count_failed_task m = m\<lparr>m_bridge_tasks_failed := m_bridge_tasks_failed m + 1\<rparr>"

definition record_join :: "(BridgeTaskOutcome, join_error) result \<Rightarrow> BridgeTaskRegistry \<Rightarrow> BridgeTaskCompletion \<times> BridgeTaskRegistry" where
  "record_join joined reg =
     (let m = reg_metrics reg in
      case joined of
        Inr (Outcome_Completed kind) \<Rightarrow>
          (Completion_Completed, reg\<lparr>reg_metrics := m\<lparr>m_bridge_tasks_completed := m_bridge_tasks_completed m + 1\<rparr>\<rparr>)
      | Inr (Outcome_Failed kind) \<Rightarrow> (Completion_Failed, reg\<lparr>reg_metrics := count_failed_task m\<rparr>)
      | Inl e \<Rightarrow> (Completion_Failed, reg\<lparr>reg_metrics := count_failed_task m\<rparr>))"

section \<open>Draining\<close>

record BridgeDrainSummary =
  sum_completed :: nat
  sum_failed :: nat
  sum_deadline_cancelled :: nat
  sum_force_aborted :: nat
  sum_deadline_reached :: bool
  sum_termination_confirmed :: bool
  sum_elapsed :: nat

fun summary_observe :: "BridgeTaskCompletion \<Rightarrow> BridgeDrainSummary \<Rightarrow> BridgeDrainSummary" where
  "summary_observe Completion_Completed s = s\<lparr>sum_completed := sum_completed s + 1\<rparr>"
| "summary_observe Completion_Failed s = s\<lparr>sum_failed := sum_failed s + 1\<rparr>"

lemma take_ended_length: "take_ended ts = Some (r, ts') \<Longrightarrow> length ts = Suc (length ts')"
  by (induction ts arbitrary: ts' rule: take_ended.induct) auto

text \<open>\<open>while let Some(joined) = self.tasks.try_join_next()\<close>.\<close>

function join_ready :: "BridgeDrainSummary \<Rightarrow> BridgeTaskRegistry \<Rightarrow> BridgeDrainSummary \<times> BridgeTaskRegistry" where
  "join_ready s reg =
     (case try_join_next reg of
        None \<Rightarrow> (s, reg)
      | Some (joined, reg') \<Rightarrow>
          (case record_join joined reg' of (completion, reg'') \<Rightarrow> join_ready (summary_observe completion s) reg''))"
  by auto
termination
  by (relation "measure (\<lambda>(s, reg). length (reg_tasks reg))")
    (auto simp: try_join_next_def record_join_def Let_def dest!: take_ended_length
      split: sum.splits BridgeTaskOutcome.splits)

text \<open>\<open>while self.tasks.join_next().await.is_some() {}\<close>, as far as tasks have ended.\<close>

function discard_ended :: "BridgeTaskRegistry \<Rightarrow> BridgeTaskRegistry" where
  "discard_ended reg = (case try_join_next reg of None \<Rightarrow> reg | Some (joined, reg') \<Rightarrow> discard_ended reg')"
  by auto
termination
  by (relation "measure (\<lambda>reg. length (reg_tasks reg))") (auto simp: try_join_next_def dest!: take_ended_length)

declare join_ready.simps [simp del] discard_ended.simps [simp del]

datatype drain_phase = Draining | Stopping | Drained

record drain_state =
  dr_phase :: drain_phase
  dr_registry :: BridgeTaskRegistry
  dr_summary :: BridgeDrainSummary
  dr_started :: nat
  dr_now :: nat
  dr_deadline :: nat
  dr_late :: "(nat \<times> task_end) list"

definition drain_return :: "drain_state \<Rightarrow> drain_state" where
  "drain_return st = st\<lparr>dr_phase := Drained, dr_summary := (dr_summary st)\<lparr>sum_elapsed := dr_now st - dr_started st\<rparr>\<rparr>"

definition summary_default :: BridgeDrainSummary where
  "summary_default = \<lparr>sum_completed = 0, sum_failed = 0, sum_deadline_cancelled = 0, sum_force_aborted = 0, sum_deadline_reached = False,
     sum_termination_confirmed = False, sum_elapsed = 0\<rparr>"

definition drain_start :: "BridgeTaskDrainConfig \<Rightarrow> nat \<Rightarrow> BridgeTaskRegistry \<Rightarrow> drain_state" where
  "drain_start config now reg =
     (case join_ready (summary_default\<lparr>sum_termination_confirmed := True\<rparr>) reg of
        (s, reg') \<Rightarrow>
          let st = \<lparr>dr_phase = Draining, dr_registry = reg', dr_summary = s, dr_started = now, dr_now = now,
                    dr_deadline = now + drain_timeout config, dr_late = []\<rparr>
          in if registry_is_empty reg' then drain_return st else st)"

text \<open>What follows the loop: the tasks that are left are aborted and get \<open>force_stop_timeout\<close> to stop.\<close>

definition stop_remaining :: "BridgeTaskDrainConfig \<Rightarrow> drain_state \<Rightarrow> drain_state" where
  "stop_remaining config st =
     (case join_ready (dr_summary st) (dr_registry st) of
        (s, reg) \<Rightarrow>
          if registry_is_empty reg then drain_return (st\<lparr>dr_summary := s, dr_registry := reg\<rparr>)
          else
            let n = length (reg_tasks reg); m = reg_metrics reg in
            st\<lparr>dr_phase := Stopping, dr_summary := s\<lparr>sum_deadline_cancelled := n\<rparr>,
               dr_registry := reg\<lparr>reg_metrics :=
                 m\<lparr>m_bridge_tasks_deadline_cancelled := m_bridge_tasks_deadline_cancelled m + of_nat n\<rparr>\<rparr>,
               dr_deadline := dr_now st + force_stop_timeout config\<rparr>)"

text \<open>The tasks that end after a poll has looked for ended tasks.\<close>

definition late_ends :: "drain_state \<Rightarrow> drain_state" where
  "late_ends st = st\<lparr>dr_registry := fold (\<lambda>(k, how). task_ends k how) (dr_late st) (dr_registry st), dr_late := []\<rparr>"

definition drain_poll :: "BridgeTaskDrainConfig \<Rightarrow> drain_state \<Rightarrow> drain_state" where
  "drain_poll config st =
     (case dr_phase st of
        Draining \<Rightarrow>
          (case join_ready (dr_summary st) (dr_registry st) of
             (s, reg) \<Rightarrow>
               let st' = late_ends (st\<lparr>dr_summary := s, dr_registry := reg\<rparr>) in
               if registry_is_empty reg then stop_remaining config st'
               else if dr_deadline st \<le> dr_now st
               then stop_remaining config (st'\<lparr>dr_summary := s\<lparr>sum_deadline_reached := True\<rparr>\<rparr>)
               else st')
      | Stopping \<Rightarrow>
          (let st' = late_ends (st\<lparr>dr_registry := discard_ended (dr_registry st)\<rparr>); reg = dr_registry st';
               n = length (reg_tasks reg); m = reg_metrics reg in
           if registry_is_empty reg then drain_return st'
           else if dr_deadline st \<le> dr_now st
           then drain_return (st'\<lparr>dr_summary := (dr_summary st)\<lparr>sum_force_aborted := n, sum_termination_confirmed := False\<rparr>,
                  dr_registry := reg\<lparr>reg_metrics :=
                    m\<lparr>m_bridge_tasks_force_aborted := m_bridge_tasks_force_aborted m + of_nat n\<rparr>\<rparr>\<rparr>)
           else st')
      | Drained \<Rightarrow> st)"

text \<open>\<open>Late_End\<close> is the end of a task between the look of the next poll and what the poll does then.\<close>

datatype drain_event = Task_Ends nat task_end | Time_Is nat | Late_End nat task_end

fun happens :: "drain_event \<Rightarrow> drain_state \<Rightarrow> drain_state" where
  "happens (Task_Ends k how) st = st\<lparr>dr_registry := task_ends k how (dr_registry st)\<rparr>"
| "happens (Time_Is t) st = st\<lparr>dr_now := max (dr_now st) t\<rparr>"
| "happens (Late_End k how) st = st\<lparr>dr_late := dr_late st @ [(k, how)]\<rparr>"

definition drain_step :: "BridgeTaskDrainConfig \<Rightarrow> drain_event \<Rightarrow> drain_state \<Rightarrow> drain_state" where
  "drain_step config ev st =
     (case ev of Late_End k how \<Rightarrow> happens ev st | _ \<Rightarrow> drain_poll config (happens ev st))"

definition drain :: "BridgeTaskDrainConfig \<Rightarrow> nat \<Rightarrow> BridgeTaskRegistry \<Rightarrow> drain_event list \<Rightarrow> drain_state" where
  "drain config now reg evs = fold (drain_step config) evs (drain_start config now reg)"

section \<open>Counting\<close>

definition running :: "(nat \<times> task) list \<Rightarrow> nat" where
  "running ts = length (filter (\<lambda>(k, t). case t of Running _ \<Rightarrow> True | Ended _ \<Rightarrow> False) ts)"

lemma running_simps [simp]:
  "running [] = 0" "running ((k, Running kind) # ts) = Suc (running ts)" "running ((k, Ended r) # ts) = running ts"
  "running (ts @ ts') = running ts + running ts'"
  by (simp_all add: running_def)

definition gauge_exact :: "BridgeTaskRegistry \<Rightarrow> bool" where
  "gauge_exact reg \<longleftrightarrow> m_bridge_tasks_active (reg_metrics reg) = of_nat (running (reg_tasks reg))"

lemma take_ended_running: "take_ended ts = Some (r, ts') \<Longrightarrow> running ts' = running ts"
  by (induction ts arbitrary: ts' rule: take_ended.induct) auto

lemma take_ended_None: "take_ended ts = None \<Longrightarrow> running ts = length ts"
  by (induction ts rule: take_ended.induct) auto

lemma end_in_running: "end_in k how ts = Some ts' \<Longrightarrow> running ts = Suc (running ts') \<and> length ts' = length ts"
  by (induction k how ts arbitrary: ts' rule: end_in.induct) (auto split: if_splits)

lemma task_ends_keeps:
  "gauge_exact reg \<Longrightarrow> gauge_exact (task_ends k how reg)"
  "length (reg_tasks (task_ends k how reg)) = length (reg_tasks reg)"
  "m_bridge_tasks_completed (reg_metrics (task_ends k how reg)) = m_bridge_tasks_completed (reg_metrics reg)"
  "m_bridge_tasks_failed (reg_metrics (task_ends k how reg)) = m_bridge_tasks_failed (reg_metrics reg)"
  "m_bridge_tasks_deadline_cancelled (reg_metrics (task_ends k how reg)) = m_bridge_tasks_deadline_cancelled (reg_metrics reg)"
  "m_bridge_tasks_force_aborted (reg_metrics (task_ends k how reg)) = m_bridge_tasks_force_aborted (reg_metrics reg)"
  by (auto simp: task_ends_def gauge_exact_def drop_task_gauge_def dest!: end_in_running split: option.splits)

lemma registry_spawn_gauge: "gauge_exact reg \<Longrightarrow> gauge_exact (registry_spawn kind reg)"
  by (simp add: gauge_exact_def registry_spawn_def task_gauge_increment_def)

lemma registry_new_gauge: "m_bridge_tasks_active m = 0 \<Longrightarrow> gauge_exact (BridgeTaskRegistry_new m)"
  by (simp add: gauge_exact_def BridgeTaskRegistry_new_def)

text \<open>
  What a summary and the metrics of the registry have in common: the counters of completed and failed tasks
  moved by exactly what the summary counted.
\<close>

definition in_step :: "CircuitMetrics \<Rightarrow> BridgeDrainSummary \<Rightarrow> BridgeTaskRegistry \<Rightarrow> bool" where
  "in_step m0 s reg \<longleftrightarrow>
     m_bridge_tasks_completed (reg_metrics reg) = m_bridge_tasks_completed m0 + of_nat (sum_completed s)
     \<and> m_bridge_tasks_failed (reg_metrics reg) = m_bridge_tasks_failed m0 + of_nat (sum_failed s)
     \<and> m_bridge_tasks_deadline_cancelled (reg_metrics reg) = m_bridge_tasks_deadline_cancelled m0 + of_nat (sum_deadline_cancelled s)
     \<and> m_bridge_tasks_force_aborted (reg_metrics reg) = m_bridge_tasks_force_aborted m0 + of_nat (sum_force_aborted s)
     \<and> gauge_exact reg"

lemma join_step:
  assumes "try_join_next reg = Some (joined, reg')" "record_join joined reg' = (completion, reg'')"
  shows "length (reg_tasks reg) = Suc (length (reg_tasks reg''))"
    and "in_step m0 s reg \<Longrightarrow> in_step m0 (summary_observe completion s) reg''"
    and "sum_completed (summary_observe completion s) + sum_failed (summary_observe completion s) = Suc (sum_completed s + sum_failed s)"
    and "sum_deadline_cancelled (summary_observe completion s) = sum_deadline_cancelled s"
      "sum_force_aborted (summary_observe completion s) = sum_force_aborted s"
      "sum_deadline_reached (summary_observe completion s) = sum_deadline_reached s"
      "sum_termination_confirmed (summary_observe completion s) = sum_termination_confirmed s"
  using assms
  by (auto simp: try_join_next_def record_join_def count_failed_task_def in_step_def gauge_exact_def Let_def
      dest: take_ended_length take_ended_running split: sum.splits BridgeTaskOutcome.splits)

lemma join_ready_counts:
  assumes "join_ready s reg = (s', reg')"
  shows "(in_step m0 s reg \<longrightarrow> in_step m0 s' reg')
     \<and> sum_completed s' + sum_failed s' + length (reg_tasks reg') = sum_completed s + sum_failed s + length (reg_tasks reg)
     \<and> take_ended (reg_tasks reg') = None
     \<and> sum_deadline_cancelled s' = sum_deadline_cancelled s \<and> sum_force_aborted s' = sum_force_aborted s
     \<and> sum_deadline_reached s' = sum_deadline_reached s \<and> sum_termination_confirmed s' = sum_termination_confirmed s"
  using assms
proof (induction s reg rule: join_ready.induct)
  case (1 s reg)
  show ?case
  proof (cases "try_join_next reg")
    case None
    then show ?thesis using 1(2) by (auto simp: join_ready.simps [of s reg] try_join_next_def)
  next
    case (Some x)
    obtain joined reg1 completion reg2 where x: "x = (joined, reg1)" "record_join joined reg1 = (completion, reg2)"
      by (metis surj_pair)
    note step = join_step [OF Some [unfolded x(1)] x(2)]
    have "join_ready (summary_observe completion s) reg2 = (s', reg')"
      using 1(2) Some x by (simp add: join_ready.simps [of s reg])
    from 1(1) [OF Some x(1) [symmetric] x(2) [symmetric] this] step show ?thesis by auto
  qed
qed

lemma discard_ended_counts:
  "gauge_exact reg \<Longrightarrow> gauge_exact (discard_ended reg)"
  "length (reg_tasks (discard_ended reg)) \<le> length (reg_tasks reg)"
  "reg_metrics (discard_ended reg) = reg_metrics reg"
proof -
  have "(gauge_exact reg \<longrightarrow> gauge_exact (discard_ended reg)) \<and> length (reg_tasks (discard_ended reg)) \<le> length (reg_tasks reg)
    \<and> reg_metrics (discard_ended reg) = reg_metrics reg"
  proof (induction reg rule: discard_ended.induct)
    case (1 reg)
    show ?case
    proof (cases "try_join_next reg")
      case None
      then show ?thesis by (simp add: discard_ended.simps [of reg])
    next
      case (Some x)
      obtain joined reg1 where x: "x = (joined, reg1)" by fastforce
      with Some have "length (reg_tasks reg) = Suc (length (reg_tasks reg1))" "running (reg_tasks reg1) = running (reg_tasks reg)"
        "reg_metrics reg1 = reg_metrics reg"
        by (auto simp: try_join_next_def dest: take_ended_length take_ended_running)
      with 1 [OF Some x [symmetric]] Some x show ?thesis by (auto simp: discard_ended.simps [of reg] gauge_exact_def)
    qed
  qed
  then show "gauge_exact reg \<Longrightarrow> gauge_exact (discard_ended reg)"
    "length (reg_tasks (discard_ended reg)) \<le> length (reg_tasks reg)"
    "reg_metrics (discard_ended reg) = reg_metrics reg" by simp_all
qed

section \<open>The summary of a drain\<close>

fun drain_ok :: "CircuitMetrics \<Rightarrow> nat \<Rightarrow> drain_phase \<Rightarrow> BridgeDrainSummary \<Rightarrow> BridgeTaskRegistry \<Rightarrow> bool" where
  "drain_ok m0 n Draining s reg \<longleftrightarrow>
     sum_completed s + sum_failed s + length (reg_tasks reg) = n \<and> sum_deadline_cancelled s = 0 \<and> sum_force_aborted s = 0
     \<and> \<not> sum_deadline_reached s \<and> sum_termination_confirmed s \<and> in_step m0 s reg"
| "drain_ok m0 n Stopping s reg \<longleftrightarrow>
     sum_completed s + sum_failed s + sum_deadline_cancelled s = n \<and> sum_force_aborted s = 0 \<and> 0 < sum_deadline_cancelled s
     \<and> length (reg_tasks reg) \<le> sum_deadline_cancelled s
     \<and> sum_deadline_reached s \<and> sum_termination_confirmed s \<and> in_step m0 s reg"
| "drain_ok m0 n Drained s reg \<longleftrightarrow>
     sum_completed s + sum_failed s + sum_deadline_cancelled s = n \<and> sum_force_aborted s = length (reg_tasks reg)
     \<and> sum_force_aborted s \<le> sum_deadline_cancelled s \<and> (0 < sum_deadline_cancelled s \<longrightarrow> sum_deadline_reached s)
     \<and> (sum_termination_confirmed s \<longleftrightarrow> reg_tasks reg = []) \<and> in_step m0 s reg"

abbreviation drain_inv :: "CircuitMetrics \<Rightarrow> nat \<Rightarrow> drain_state \<Rightarrow> bool" where
  "drain_inv m0 n st \<equiv> drain_ok m0 n (dr_phase st) (dr_summary st) (dr_registry st)"

lemma in_step_update [simp]:
  "in_step m0 (s\<lparr>sum_elapsed := e\<rparr>) reg = in_step m0 s reg"
  "in_step m0 (s\<lparr>sum_deadline_reached := d\<rparr>) reg = in_step m0 s reg"
  "in_step m0 (s\<lparr>sum_termination_confirmed := d\<rparr>) reg = in_step m0 s reg"
  by (simp_all add: in_step_def)

lemma task_ends_inv:
  "drain_ok m0 n phase s reg \<Longrightarrow> drain_ok m0 n phase s (task_ends k how reg)"
proof -
  have "in_step m0 s reg \<Longrightarrow> in_step m0 s (task_ends k how reg)" by (simp add: in_step_def task_ends_keeps)
  moreover have "reg_tasks (task_ends k how reg) = [] \<longleftrightarrow> reg_tasks reg = []"
    using task_ends_keeps(2) [of k how reg] by (metis length_0_conv)
  ultimately show "drain_ok m0 n phase s reg \<Longrightarrow> drain_ok m0 n phase s (task_ends k how reg)"
    by (cases phase) (simp_all add: task_ends_keeps(2))
qed

lemma happens_inv: "drain_inv m0 n st \<Longrightarrow> drain_inv m0 n (happens ev st)"
  by (cases ev) (simp_all add: task_ends_inv)

lemma late_ends_simps [simp]:
  "dr_phase (late_ends st) = dr_phase st" "dr_summary (late_ends st) = dr_summary st" "dr_now (late_ends st) = dr_now st"
  "dr_deadline (late_ends st) = dr_deadline st" "dr_started (late_ends st) = dr_started st"
  by (simp_all add: late_ends_def)

lemma late_ends_inv: "drain_ok m0 n phase s (dr_registry st) \<Longrightarrow> drain_ok m0 n phase s (dr_registry (late_ends st))"
proof -
  have "drain_ok m0 n phase s reg \<Longrightarrow> drain_ok m0 n phase s (fold (\<lambda>(k, how). task_ends k how) ls reg)" for reg ls
    by (induction ls arbitrary: reg) (auto simp: task_ends_inv)
  then show "drain_ok m0 n phase s (dr_registry st) \<Longrightarrow> drain_ok m0 n phase s (dr_registry (late_ends st))"
    by (simp add: late_ends_def)
qed

text \<open>The end of the loop: tasks are left only if the deadline was reached.\<close>

lemma stop_remaining_inv:
  assumes "drain_ok m0 n Draining s (dr_registry st)" "dr_summary st = s\<lparr>sum_deadline_reached := d\<rparr>"
    "d \<or> reg_tasks (dr_registry st) = []"
  shows "drain_inv m0 n (stop_remaining config st)"
proof -
  obtain s' reg where j: "join_ready (dr_summary st) (dr_registry st) = (s', reg)" by fastforce
  have "d \<or> reg_tasks reg = []" using assms(3) join_ready_counts [OF j] j by (auto simp: join_ready.simps try_join_next_def)
  moreover have "in_step m0 s' reg \<and> sum_completed s' + sum_failed s' + length (reg_tasks reg) = n \<and> sum_deadline_cancelled s' = 0
    \<and> sum_force_aborted s' = 0 \<and> sum_deadline_reached s' = d \<and> sum_termination_confirmed s'"
    using join_ready_counts [OF j, of m0] assms(1,2) by auto
  ultimately show ?thesis
    unfolding stop_remaining_def j
    by (auto simp: registry_is_empty_def drain_return_def Let_def) (auto simp: in_step_def gauge_exact_def)
qed

lemma drain_poll_inv:
  assumes "drain_inv m0 n st"
  shows "drain_inv m0 n (drain_poll config st)"
proof (cases "dr_phase st")
  case Draining
  obtain s reg where j: "join_ready (dr_summary st) (dr_registry st) = (s, reg)" by fastforce
  let ?st = "late_ends (st\<lparr>dr_summary := s, dr_registry := reg\<rparr>)"
  have ok: "drain_ok m0 n Draining s reg" using join_ready_counts [OF j, of m0] assms Draining by simp
  have late: "drain_ok m0 n Draining s (dr_registry ?st)" using late_ends_inv [of m0 n Draining s "st\<lparr>dr_summary := s, dr_registry := reg\<rparr>"] ok by simp
  have empty: "reg_tasks reg = [] \<Longrightarrow> reg_tasks (dr_registry ?st) = []" using ok late by simp
  have "\<not> sum_deadline_reached s" using ok by simp
  then have same: "s\<lparr>sum_deadline_reached := False\<rparr> = s" by (cases s) simp
  show ?thesis
    using Draining late stop_remaining_inv [OF late, of False config] stop_remaining_inv [of m0 n s "?st\<lparr>dr_summary := s\<lparr>sum_deadline_reached := True\<rparr>\<rparr>" True config]
      empty same
    by (auto simp: drain_poll_def j registry_is_empty_def Let_def)
next
  case Stopping
  let ?st = "late_ends (st\<lparr>dr_registry := discard_ended (dr_registry st)\<rparr>)"
  have "drain_ok m0 n Stopping (dr_summary st) (discard_ended (dr_registry st))"
    using assms Stopping discard_ended_counts [of "dr_registry st"] by (auto simp: in_step_def)
  then have "drain_ok m0 n Stopping (dr_summary st) (dr_registry ?st)"
    using late_ends_inv [of m0 n Stopping "dr_summary st" "st\<lparr>dr_registry := discard_ended (dr_registry st)\<rparr>"] by simp
  with Stopping show ?thesis
    by (auto simp: drain_poll_def registry_is_empty_def Let_def drain_return_def) (auto simp: in_step_def gauge_exact_def)
next
  case Drained
  with assms show ?thesis by (simp add: drain_poll_def)
qed

lemma drain_step_inv: "drain_inv m0 n st \<Longrightarrow> drain_inv m0 n (drain_step config ev st)"
  unfolding drain_step_def by (cases ev) (simp_all only: drain_event.case drain_poll_inv happens_inv)

lemma drain_start_inv:
  assumes "gauge_exact reg"
  shows "drain_inv (reg_metrics reg) (length (reg_tasks reg)) (drain_start config now reg)"
proof -
  let ?s = "summary_default\<lparr>sum_termination_confirmed := True\<rparr>"
  obtain s reg' where j: "join_ready ?s reg = (s, reg')" by fastforce
  have "in_step (reg_metrics reg) ?s reg" using assms by (simp add: in_step_def summary_default_def)
  with join_ready_counts [OF j, of "reg_metrics reg"] show ?thesis
    unfolding drain_start_def j by (auto simp: registry_is_empty_def drain_return_def Let_def summary_default_def)
qed

lemma drain_inv_run:
  "gauge_exact reg \<Longrightarrow> drain_inv (reg_metrics reg) (length (reg_tasks reg)) (drain config now reg evs)"
proof (induction evs rule: rev_induct)
  case Nil
  then show ?case by (simp add: drain_def drain_start_inv)
next
  case (snoc ev evs)
  then show ?case by (simp add: drain_def drain_step_inv)
qed

section \<open>A drain ends\<close>

lemma drain_step_cases:
  assumes "P (happens ev st)" "P (drain_poll config (happens ev st))"
  shows "P (drain_step config ev st)"
  using assms unfolding drain_step_def by (cases ev) (simp_all only: drain_event.case)

lemma happens_time:
  "dr_phase (happens ev st) = dr_phase st" "dr_deadline (happens ev st) = dr_deadline st" "dr_now st \<le> dr_now (happens ev st)"
  by (cases ev; simp)+

lemma stop_remaining_time:
  "dr_phase st = Draining \<Longrightarrow> dr_phase (stop_remaining config st) \<noteq> Draining"
  "dr_now (stop_remaining config st) = dr_now st"
  "dr_phase (stop_remaining config st) = Stopping \<Longrightarrow> dr_deadline (stop_remaining config st) = dr_now st + force_stop_timeout config"
  by (auto simp: stop_remaining_def drain_return_def Let_def split: prod.splits if_splits)

lemma drain_poll_time:
  "dr_now (drain_poll config st) = dr_now st"
  "dr_phase st \<noteq> Draining \<Longrightarrow> dr_phase (drain_poll config st) \<noteq> Draining"
  "dr_phase (drain_poll config st) = Draining \<Longrightarrow> dr_deadline (drain_poll config st) = dr_deadline st \<and> dr_now st < dr_deadline st"
  "dr_phase st = Draining \<Longrightarrow> dr_phase (drain_poll config st) = Stopping
     \<Longrightarrow> dr_deadline (drain_poll config st) = dr_now st + force_stop_timeout config"
  "dr_phase st \<noteq> Draining \<Longrightarrow> dr_phase (drain_poll config st) = Stopping
     \<Longrightarrow> dr_phase st = Stopping \<and> dr_deadline (drain_poll config st) = dr_deadline st \<and> dr_now st < dr_deadline st"
  using stop_remaining_time
  by (auto simp: drain_poll_def drain_return_def Let_def split: drain_phase.splits prod.splits if_splits)

text \<open>The timer of each phase, while it runs.\<close>

definition timers :: "BridgeTaskDrainConfig \<Rightarrow> nat \<Rightarrow> drain_state \<Rightarrow> bool" where
  "timers config started st \<longleftrightarrow>
     (dr_phase st = Draining \<longrightarrow> dr_deadline st = started + drain_timeout config)
     \<and> (dr_phase st = Stopping \<longrightarrow> dr_deadline st \<le> dr_now st + force_stop_timeout config)"

lemma timers_step:
  assumes "timers config started st"
  shows "timers config started (drain_step config ev st)"
proof (rule drain_step_cases [where config = config and ev = ev and st = st])
  have "timers config started (happens ev st)" using assms happens_time [where ev = ev and st = st] by (auto simp: timers_def)
  then show "timers config started (happens ev st)" "timers config started (drain_poll config (happens ev st))"
    using drain_poll_time [where config = config and st = "happens ev st"]
    by (cases "dr_phase (happens ev st)"; auto simp: timers_def)+
qed

lemma timers_run: "timers config now (drain config now reg evs)"
proof (induction evs rule: rev_induct)
  case Nil
  then show ?case
    by (auto simp: drain_def timers_def drain_start_def drain_return_def Let_def split: prod.splits)
next
  case (snoc ev evs)
  then show ?case by (simp add: drain_def timers_step)
qed

lemma stopping_run:
  assumes "dr_phase st \<noteq> Draining" "dr_phase st = Stopping \<longrightarrow> dr_deadline st \<le> d"
  shows "dr_phase (fold (drain_step config) evs st) \<noteq> Draining
    \<and> (dr_phase (fold (drain_step config) evs st) = Stopping \<longrightarrow> dr_deadline (fold (drain_step config) evs st) \<le> d)"
  using assms
proof (induction evs arbitrary: st)
  case (Cons ev evs)
  have "dr_phase (drain_step config ev st) \<noteq> Draining"
    "dr_phase (drain_step config ev st) = Stopping \<longrightarrow> dr_deadline (drain_step config ev st) \<le> d"
    using Cons.prems drain_poll_time(2,5) [where st = "happens ev st" and config = config] happens_time [where ev = ev and st = st]
    by (rule_tac [!] drain_step_cases) auto
  from Cons.IH [OF this] show ?case by simp
qed simp

text \<open>
  Property C29. A drain always ends: whatever the tasks do, it has returned once the drain time-out has passed
  since its start and after that the force-stop time-out.
\<close>

theorem drain_returns_in_time:
  assumes "now + drain_timeout config \<le> t1"
    and "dr_now (drain config now reg (evs1 @ [Time_Is t1])) + force_stop_timeout config \<le> t2"
  shows "dr_phase (drain config now reg (evs1 @ [Time_Is t1] @ evs2 @ [Time_Is t2])) = Drained"
proof -
  let ?st0 = "drain config now reg evs1" and ?st1 = "drain config now reg (evs1 @ [Time_Is t1])"
  have st1: "?st1 = drain_poll config (happens (Time_Is t1) ?st0)" by (simp add: drain_def drain_step_def)
  have "dr_phase ?st1 \<noteq> Draining"
  proof
    assume d: "dr_phase ?st1 = Draining"
    with timers_run [of config now reg "evs1 @ [Time_Is t1]"] have "dr_deadline ?st1 = now + drain_timeout config"
      by (simp add: timers_def)
    with d assms(1) drain_poll_time(3) [where config = config and st = "happens (Time_Is t1) ?st0"] st1 show False by simp
  qed
  moreover have "dr_phase ?st1 = Stopping \<longrightarrow> dr_deadline ?st1 \<le> t2"
    using timers_run [of config now reg "evs1 @ [Time_Is t1]"] assms(2) by (auto simp: timers_def)
  ultimately have st2: "dr_phase (fold (drain_step config) evs2 ?st1) \<noteq> Draining"
    "dr_phase (fold (drain_step config) evs2 ?st1) = Stopping \<longrightarrow> dr_deadline (fold (drain_step config) evs2 ?st1) \<le> t2"
    using stopping_run by blast+
  let ?st2 = "happens (Time_Is t2) (fold (drain_step config) evs2 ?st1)"
  have "dr_phase ?st2 \<noteq> Draining" "dr_phase ?st2 = Stopping \<longrightarrow> dr_deadline ?st2 \<le> dr_now ?st2"
    using st2 by (auto simp: happens_time)
  with drain_poll_time(2,5) [where st = ?st2 and config = config] have "dr_phase (drain_poll config ?st2) = Drained"
    by (metis drain_phase.exhaust linorder_not_le)
  then show ?thesis by (simp add: drain_def drain_step_def)
qed

section \<open>Deadlines and cancelled tasks\<close>

text \<open>A drain that reports the deadline has waited for it.\<close>

definition waited :: "BridgeTaskDrainConfig \<Rightarrow> nat \<Rightarrow> drain_state \<Rightarrow> bool" where
  "waited config started st \<longleftrightarrow> dr_started st = started
     \<and> (sum_deadline_reached (dr_summary st) \<longrightarrow>
         (if dr_phase st = Drained then drain_timeout config \<le> sum_elapsed (dr_summary st)
          else started + drain_timeout config \<le> dr_now st))"

lemma stop_remaining_waited:
  assumes "waited config started st" "dr_phase st = Draining"
  shows "waited config started (stop_remaining config st)"
proof -
  obtain s reg where j: "join_ready (dr_summary st) (dr_registry st) = (s, reg)" by fastforce
  have "sum_deadline_reached s = sum_deadline_reached (dr_summary st)"
    using join_ready_counts [OF j, of "reg_metrics reg"] by simp
  then show ?thesis using assms unfolding stop_remaining_def j by (auto simp: waited_def drain_return_def Let_def)
qed

lemma drain_poll_waited:
  assumes "waited config started st" "dr_phase st = Draining \<longrightarrow> dr_deadline st = started + drain_timeout config"
  shows "waited config started (drain_poll config st)"
proof (cases "dr_phase st")
  case Draining
  obtain s reg where j: "join_ready (dr_summary st) (dr_registry st) = (s, reg)" by fastforce
  let ?st = "late_ends (st\<lparr>dr_summary := s, dr_registry := reg\<rparr>)"
  have w: "waited config started ?st"
    using assms Draining join_ready_counts [OF j, of "reg_metrics reg"] by (simp add: waited_def)
  moreover have "waited config started (?st\<lparr>dr_summary := s\<lparr>sum_deadline_reached := True\<rparr>\<rparr>)" if "dr_deadline st \<le> dr_now st"
    using w assms(2) Draining that by (simp add: waited_def)
  ultimately show ?thesis
    using Draining by (auto simp: drain_poll_def j Let_def intro!: stop_remaining_waited)
next
  case Stopping
  then show ?thesis using assms by (auto simp: drain_poll_def waited_def drain_return_def Let_def)
next
  case Drained
  then show ?thesis using assms by (simp add: drain_poll_def)
qed

lemma waited_run: "waited config now (drain config now reg evs)"
proof (induction evs rule: rev_induct)
  case Nil
  obtain s reg' where j: "join_ready (summary_default\<lparr>sum_termination_confirmed := True\<rparr>) reg = (s, reg')" by fastforce
  have "\<not> sum_deadline_reached s"
    using join_ready_counts [OF j, of "reg_metrics reg"] by (simp add: summary_default_def)
  then show ?case by (simp add: drain_def drain_start_def j waited_def drain_return_def Let_def)
next
  case (snoc ev evs)
  let ?st = "drain config now reg evs"
  have h: "waited config now (happens ev ?st)"
    using snoc.IH by (cases ev) (auto simp: waited_def)
  have "dr_phase (happens ev ?st) = Draining \<longrightarrow> dr_deadline (happens ev ?st) = now + drain_timeout config"
    using timers_run [of config now reg evs] by (simp add: timers_def happens_time)
  then have "waited config now (drain_step config ev ?st)"
    using h drain_poll_waited by (intro drain_step_cases [where P = "waited config now"]) blast+
  then show ?case by (simp add: drain_def)
qed

text \<open>The number of cancelled tasks is set once, on the way from the loop to the abortion of the rest, and all of them are then running.\<close>

lemma stop_remaining_cancels:
  "dr_phase (stop_remaining config st) = Stopping \<Longrightarrow>
     sum_deadline_cancelled (dr_summary (stop_remaining config st)) = running (reg_tasks (dr_registry (stop_remaining config st)))"
proof -
  assume stop: "dr_phase (stop_remaining config st) = Stopping"
  obtain s reg where j: "join_ready (dr_summary st) (dr_registry st) = (s, reg)" by fastforce
  from join_ready_counts [OF j, of "reg_metrics reg"] have "running (reg_tasks reg) = length (reg_tasks reg)" by (simp add: take_ended_None)
  with stop show ?thesis unfolding stop_remaining_def j by (auto simp: drain_return_def Let_def)
qed

lemma drain_poll_cancels:
  "dr_phase st = Draining \<Longrightarrow> dr_phase (drain_poll config st) = Stopping \<Longrightarrow>
     sum_deadline_cancelled (dr_summary (drain_poll config st)) = running (reg_tasks (dr_registry (drain_poll config st)))"
  "dr_phase st \<noteq> Draining \<Longrightarrow> sum_deadline_cancelled (dr_summary (drain_poll config st)) = sum_deadline_cancelled (dr_summary st)"
  by (auto simp: drain_poll_def drain_return_def Let_def stop_remaining_cancels split: drain_phase.splits prod.splits if_splits)

lemma drain_step_cancels:
  assumes "dr_phase st \<noteq> Draining"
  shows "sum_deadline_cancelled (dr_summary (drain_step config ev st)) = sum_deadline_cancelled (dr_summary st)"
proof (rule drain_step_cases [where config = config and ev = ev and st = st])
  show h: "sum_deadline_cancelled (dr_summary (happens ev st)) = sum_deadline_cancelled (dr_summary st)" by (cases ev) simp_all
  show "sum_deadline_cancelled (dr_summary (drain_poll config (happens ev st))) = sum_deadline_cancelled (dr_summary st)"
    using drain_poll_cancels(2) [of "happens ev st" config] assms h by (simp add: happens_time)
qed

text \<open>Tasks are first cancelled by the step that turns to aborting them.\<close>

lemma drain_step_first_cancel:
  assumes "dr_phase st = Draining" "sum_deadline_cancelled (dr_summary st) = 0"
    "0 < sum_deadline_cancelled (dr_summary (drain_step config ev st))"
  shows "dr_phase (drain_step config ev st) = Stopping"
proof -
  let ?st = "happens ev st"
  have h: "dr_phase ?st = Draining" "sum_deadline_cancelled (dr_summary ?st) = 0" using assms(1,2) by (cases ev, simp_all)+
  have stop: "sum_deadline_cancelled (dr_summary (stop_remaining config x)) = 0 \<or> dr_phase (stop_remaining config x) = Stopping"
    if "sum_deadline_cancelled (dr_summary x) = 0" for x
  proof -
    obtain s reg where j: "join_ready (dr_summary x) (dr_registry x) = (s, reg)" by fastforce
    with that join_ready_counts [OF j, of "reg_metrics reg"] show ?thesis by (simp add: stop_remaining_def drain_return_def Let_def)
  qed
  obtain s reg where j: "join_ready (dr_summary ?st) (dr_registry ?st) = (s, reg)" by fastforce
  have "sum_deadline_cancelled s = 0" using join_ready_counts [OF j, of "reg_metrics reg"] h by simp
  then have "sum_deadline_cancelled (dr_summary (drain_poll config ?st)) = 0 \<or> dr_phase (drain_poll config ?st) = Stopping"
    using h stop by (simp add: drain_poll_def j Let_def)
  then show ?thesis using assms(3) h by (cases ev) (simp_all add: drain_step_def)
qed

text \<open>A step that leaves the loop with tasks to abort.\<close>

definition aborts_at :: "BridgeTaskDrainConfig \<Rightarrow> nat \<Rightarrow> BridgeTaskRegistry \<Rightarrow> drain_event list \<Rightarrow> drain_event \<Rightarrow> bool" where
  "aborts_at config now reg evs ev \<longleftrightarrow>
     dr_phase (drain config now reg evs) = Draining \<and> dr_phase (drain config now reg (evs @ [ev])) = Stopping"

lemma aborts_at_cancels:
  assumes "aborts_at config now reg evs ev"
  shows "sum_deadline_cancelled (dr_summary (drain config now reg (evs @ [ev])))
    = running (reg_tasks (dr_registry (drain config now reg (evs @ [ev]))))"
  using assms drain_poll_cancels(1) [of "happens ev (drain config now reg evs)" config]
  by (cases ev) (auto simp: aborts_at_def drain_def drain_step_def happens_time)

lemma cancelled_were_running:
  assumes "gauge_exact reg" "0 < sum_deadline_cancelled (dr_summary (drain config now reg evs))"
  shows "\<exists>evs1 ev evs2. evs = evs1 @ ev # evs2 \<and> aborts_at config now reg evs1 ev
    \<and> sum_deadline_cancelled (dr_summary (drain config now reg evs))
      = running (reg_tasks (dr_registry (drain config now reg (evs1 @ [ev]))))"
  using assms(2)
proof (induction evs rule: rev_induct)
  case Nil
  obtain s reg' where j: "join_ready (summary_default\<lparr>sum_termination_confirmed := True\<rparr>) reg = (s, reg')" by fastforce
  have "sum_deadline_cancelled s = 0" using join_ready_counts [OF j, of "reg_metrics reg"] by (simp add: summary_default_def)
  with Nil show ?case by (simp add: drain_def drain_start_def j drain_return_def Let_def split: if_splits)
next
  case (snoc ev evs)
  show ?case
  proof (cases "dr_phase (drain config now reg evs) = Draining")
    case True
    moreover have "sum_deadline_cancelled (dr_summary (drain config now reg evs)) = 0"
      using drain_inv_run [OF assms(1), of config now evs] True by simp
    ultimately have "dr_phase (drain config now reg (evs @ [ev])) = Stopping"
      using snoc.prems drain_step_first_cancel [of "drain config now reg evs" config ev] by (simp add: drain_def)
    with True have "aborts_at config now reg evs ev" by (simp add: aborts_at_def)
    with aborts_at_cancels [OF this] show ?thesis by blast
  next
    case False
    then have same: "sum_deadline_cancelled (dr_summary (drain config now reg (evs @ [ev])))
      = sum_deadline_cancelled (dr_summary (drain config now reg evs))"
      using drain_step_cancels by (simp add: drain_def)
    with snoc obtain evs1 ev' evs2 where "evs = evs1 @ ev' # evs2" "aborts_at config now reg evs1 ev'"
        "sum_deadline_cancelled (dr_summary (drain config now reg evs))
          = running (reg_tasks (dr_registry (drain config now reg (evs1 @ [ev']))))" by auto
    with same show ?thesis by (intro exI [of _ evs1] exI [of _ ev'] exI [of _ "evs2 @ [ev]"]) simp
  qed
qed

text \<open>
  Property C28. A drain accounts for every task: whatever the tasks do and however time passes, also when a
  task ends while the drain leaves its loop at the deadline, when the drain
  has returned, every task it found is counted exactly once as completed, failed or cancelled at the deadline.
  Tasks are cancelled only if the deadline was reached, the deadline is reported as reached only if the drain
  time-out has elapsed, and the number of cancelled tasks is the number of tasks that were still
  running when the drain turned from waiting to aborting: a task that ended before is never counted as cancelled. The tasks that are still there are those
  reported as force-aborted, and termination is confirmed exactly if there are none. The metrics moved by
  the same numbers and the gauge of active tasks is exact.
\<close>

theorem drain_accounts_every_task:
  assumes "gauge_exact reg" "dr_phase (drain config now reg evs) = Drained"
  shows "let s = dr_summary (drain config now reg evs); reg' = dr_registry (drain config now reg evs);
             m = reg_metrics reg; m' = reg_metrics reg' in
      sum_completed s + sum_failed s + sum_deadline_cancelled s = length (reg_tasks reg)
    \<and> (0 < sum_deadline_cancelled s \<longrightarrow> sum_deadline_reached s)
    \<and> (sum_deadline_reached s \<longrightarrow> drain_timeout config \<le> sum_elapsed s)
    \<and> (0 < sum_deadline_cancelled s \<longrightarrow>
        (\<exists>evs1 ev evs2. evs = evs1 @ ev # evs2
          \<and> dr_phase (drain config now reg evs1) = Draining \<and> dr_phase (drain config now reg (evs1 @ [ev])) = Stopping
          \<and> sum_deadline_cancelled s = running (reg_tasks (dr_registry (drain config now reg (evs1 @ [ev]))))))
    \<and> sum_force_aborted s = length (reg_tasks reg') \<and> sum_force_aborted s \<le> sum_deadline_cancelled s
    \<and> (sum_termination_confirmed s \<longleftrightarrow> reg_tasks reg' = [])
    \<and> m_bridge_tasks_completed m' = m_bridge_tasks_completed m + of_nat (sum_completed s)
    \<and> m_bridge_tasks_failed m' = m_bridge_tasks_failed m + of_nat (sum_failed s)
    \<and> m_bridge_tasks_deadline_cancelled m' = m_bridge_tasks_deadline_cancelled m + of_nat (sum_deadline_cancelled s)
    \<and> m_bridge_tasks_force_aborted m' = m_bridge_tasks_force_aborted m + of_nat (sum_force_aborted s)
    \<and> m_bridge_tasks_active m' = of_nat (running (reg_tasks reg'))"
proof -
  let ?st = "drain config now reg evs"
  have inv: "drain_ok (reg_metrics reg) (length (reg_tasks reg)) Drained (dr_summary ?st) (dr_registry ?st)"
    using drain_inv_run [OF assms(1), of config now evs] assms(2) by simp
  have waited: "sum_deadline_reached (dr_summary ?st) \<longrightarrow> drain_timeout config \<le> sum_elapsed (dr_summary ?st)"
    using waited_run [of config now reg evs] assms(2) by (simp add: waited_def)
  show ?thesis
    unfolding Let_def using inv waited cancelled_were_running [OF assms(1), of config now evs]
    by (auto simp: in_step_def gauge_exact_def aborts_at_def)
qed

section \<open>The shutdown budget\<close>

lemma shutdown_seconds_bounds:
  assumes "shutdown_seconds_from_environment name d var = Ok n" "1 \<le> unat d" "unat d \<le> 3600"
  shows "1 \<le> unat n \<and> unat n \<le> 3600"
  using assms
  by (auto simp: shutdown_seconds_from_environment_def MAX_BRIDGE_TASK_SHUTDOWN_SECONDS_def word_less_nat_alt word_le_nat_alt
      unat_gt_0 Suc_le_eq not_less split: env_var.splits if_splits)

lemma as_secs_secs: "as_secs (secs n) = of_nat n"
  by (simp add: as_secs_def secs_def)

text \<open>
  The grace period given to the server covers the shutdown of the bridge: with the time-outs an
  accepted environment configures, each between one second and one hour, the sum with the margin of one
  second does not overflow and is the grace period.
\<close>

lemma grace_period_covers_drain:
  assumes "BridgeTaskDrainConfig_from_environment env = Ok config"
  shows "\<exists>grace. pingora_grace_period_seconds config = Ok grace
    \<and> secs (unat grace) = drain_timeout config + force_stop_timeout config + secs 1
    \<and> secs 1 \<le> drain_timeout config \<and> drain_timeout config \<le> secs 3600
    \<and> secs 1 \<le> force_stop_timeout config \<and> force_stop_timeout config \<le> secs 3600"
proof -
  obtain a b where c: "config = \<lparr>drain_timeout = secs (unat a), force_stop_timeout = secs (unat b)\<rparr>"
      and d: "shutdown_seconds_from_environment ''PROXY_SHUTDOWN_DRAIN_SECONDS'' DEFAULT_BRIDGE_TASK_DRAIN_SECONDS
        (env ''PROXY_SHUTDOWN_DRAIN_SECONDS'') = Ok a"
        "shutdown_seconds_from_environment ''PROXY_SHUTDOWN_FORCE_STOP_SECONDS'' DEFAULT_BRIDGE_TASK_FORCE_STOP_SECONDS
        (env ''PROXY_SHUTDOWN_FORCE_STOP_SECONDS'') = Ok b"
    using assms
    by (auto simp: BridgeTaskDrainConfig_from_environment_def BridgeTaskDrainConfig_new_def split: if_splits)
  have a: "1 \<le> unat a \<and> unat a \<le> 3600"
    by (rule shutdown_seconds_bounds [OF d(1)]) (simp_all add: DEFAULT_BRIDGE_TASK_DRAIN_SECONDS_def)
  have b: "1 \<le> unat b \<and> unat b \<le> 3600"
    by (rule shutdown_seconds_bounds [OF d(2)]) (simp_all add: DEFAULT_BRIDGE_TASK_FORCE_STOP_SECONDS_def)
  have ab: "unat (a + b) = unat a + unat b" using a b by (intro unat_add_lem [THEN iffD1]) simp
  moreover have "unat (a + b + 1) = unat a + unat b + 1"
    using a b ab unat_add_lem [of "a + b" 1] by simp
  moreover have "pingora_grace_period_seconds config = Ok (a + b + 1)"
    using a b ab by (simp add: pingora_grace_period_seconds_def c as_secs_secs checked_add_def SHUTDOWN_GRACE_MARGIN_SECONDS_def)
  ultimately show ?thesis using a b by (simp add: c secs_def)
qed

section \<open>A demonstration\<close>

text \<open>Three tasks: one completes, one is stopped at the deadline, one does not stop.\<close>

definition drain_registry :: BridgeTaskRegistry where
  "drain_registry = registry_spawn Kind_Public (registry_spawn Kind_Internal (registry_spawn Kind_Metrics
     (BridgeTaskRegistry_new CircuitMetrics_default)))"

definition drain_config :: BridgeTaskDrainConfig where
  "drain_config = \<lparr>drain_timeout = 30, force_stop_timeout = 5\<rparr>"

definition drain_events :: "drain_event list" where
  "drain_events = [Task_Ends 0 (Returned (Ok ())), Time_Is 30, Task_Ends 1 Aborted]"

lemma drain_gauge: "gauge_exact drain_registry"
  by (simp add: drain_registry_def registry_spawn_gauge registry_new_gauge CircuitMetrics_default_def)

lemma drain_now: "dr_now (drain drain_config 0 drain_registry ([Task_Ends 0 (Returned (Ok ()))] @ [Time_Is 30])) = 30"
  by code_simp

text \<open>
  When the last task ends while the loop is left at the deadline, the deadline is reached and no task is cancelled.
\<close>

lemma deadline_without_cancellation:
  "let st = drain drain_config 0 drain_registry
      [Task_Ends 0 (Returned (Ok ())), Task_Ends 1 Panics, Late_End 2 (Returned (Ok ())), Time_Is 30] in
     dr_phase st = Drained \<and> sum_deadline_reached (dr_summary st) \<and> sum_deadline_cancelled (dr_summary st) = 0
     \<and> sum_completed (dr_summary st) = 2 \<and> sum_failed (dr_summary st) = 1"
  by code_simp

theorem drain_returns_in_time_witness:
  "dr_phase (drain drain_config 0 drain_registry ([Task_Ends 0 (Returned (Ok ()))] @ [Time_Is 30] @ [Task_Ends 1 Aborted] @ [Time_Is 35]))
     = Drained"
  using drain_returns_in_time [of 0 drain_config 30 drain_registry "[Task_Ends 0 (Returned (Ok ()))]" 35 "[Task_Ends 1 Aborted]"]
  using drain_now by (simp add: drain_config_def)

theorem drain_accounts_every_task_witness:
  "let s = dr_summary (drain drain_config 0 drain_registry (drain_events @ [Time_Is 35])) in
     sum_completed s = 1 \<and> sum_failed s = 0 \<and> sum_deadline_cancelled s = 2 \<and> sum_force_aborted s = 1
     \<and> sum_completed s + sum_failed s + sum_deadline_cancelled s = length (reg_tasks drain_registry)"
proof -
  let ?st = "drain drain_config 0 drain_registry (drain_events @ [Time_Is 35])"
  have st: "dr_phase ?st = Drained" "sum_completed (dr_summary ?st) = 1" "sum_failed (dr_summary ?st) = 0"
      "sum_deadline_cancelled (dr_summary ?st) = 2" "sum_force_aborted (dr_summary ?st) = 1"
    by code_simp+
  from drain_accounts_every_task [OF drain_gauge st(1)] st show ?thesis unfolding Let_def by simp
qed

end
