(* ===== verification/Accept_Loop.thy ===== *)
theory Accept_Loop
  imports Startup Task_Drain Bridge_Ingress
begin

text \<open>
  The bridge as it runs (\<open>src/src/main.rs\<close>): \<open>Bridge::new\<close> with its semaphores, the TLS handshake of a client
  (\<open>accept_bounded_tls\<close>, \<open>tls_client_fingerprint\<close>), \<open>handle_public_tcp_connection\<close>, and \<open>run_bridge\<close>, the loop that accepts
  connections, starts a task for each and drains the tasks at shutdown.

  The loop is a state machine over the branches of its \<open>select!\<close>: what is ready may be any of them, so that its runs
  are all sequences of events. A connection task owns its permit, which returns when the task ends.
  The three listeners, the socket file and the handshake are parameters.
\<close>

section \<open>The TLS handshake\<close>

text \<open>\<open>try_acquire_owned\<close>: an acquisition that does not wait.\<close>

definition try_acquire_owned :: "'s semaphore_ops \<Rightarrow> 's \<Rightarrow> bool \<times> 's" where
  "try_acquire_owned ops s = (case sem_acquire ops 0 s of (Permit, s') \<Rightarrow> (True, s') | (_, s') \<Rightarrow> (False, s'))"

record tls_session =
  tls_alpn_protocol :: "string option"
  tls_peer_certificates :: "string list option"

datatype handshake = Handshake_Done tls_session | Handshake_Elapsed | Handshake_Error string

definition accept_bounded_tls ::
    "'s semaphore_ops \<Rightarrow> (nat \<Rightarrow> 'w \<Rightarrow> handshake \<times> 'w) \<Rightarrow> nat \<Rightarrow> 's \<times> 'w \<Rightarrow> (tls_session, string) result \<times> 's \<times> 'w" where
  "accept_bounded_tls ops accept handshake_timeout = (\<lambda>(sem, w).
     case try_acquire_owned ops sem of
       (False, sem') \<Rightarrow> (Err ''TLS handshake capacity reached'', sem', w)
     | (True, sem') \<Rightarrow>
         (case accept handshake_timeout w of
            (Handshake_Elapsed, w') \<Rightarrow> (Err ''TLS handshake timed out'', sem_release ops sem', w')
          | (Handshake_Error e, w') \<Rightarrow> (Err (''TLS handshake failed: '' @ e), sem_release ops sem', w')
          | (Handshake_Done tls, w') \<Rightarrow> (Ok tls, sem_release ops sem', w')))"

definition tls_client_fingerprint :: "(string \<Rightarrow> string) \<Rightarrow> tls_session \<Rightarrow> (string, string) result" where
  "tls_client_fingerprint sha256 tls =
     and_then (map_err (\<lambda>_. ''private ingress requires negotiated ALPN http/1.1'') (validate_negotiated_alpn (tls_alpn_protocol tls))) (\<lambda>_.
     and_then (ok_or ''mTLS connection has no peer certificate'' (tls_peer_certificates tls)) (\<lambda>certificates.
     case certificates of
       [] \<Rightarrow> Err ''mTLS connection has an empty peer certificate chain''
     | leaf # _ \<Rightarrow> Ok (sha256 leaf)))"

text \<open>The state of the handshake semaphore is passed beside the state of the bridge.\<close>

definition handle_public_tcp_connection ::
    "('s, 't, 'l, 'w, 'a, 'p, 'd) bridge_env \<Rightarrow> (nat \<Rightarrow> 'w \<Rightarrow> handshake \<times> 'w) \<Rightarrow> (string \<Rightarrow> string) \<Rightarrow> ('s, 'm, 'q) PublicIngressRuntime
      \<Rightarrow> 's \<times> ('s, 't, 'l, 'w, 'a, 'p) bridge \<Rightarrow> (unit, bridge_error) result option \<times> 's \<times> ('s, 't, 'l, 'w, 'a, 'p) bridge" where
  "handle_public_tcp_connection env accept sha256 ingress = (\<lambda>(sem, b).
     case ingress of
       PIR_Development listen_addr \<Rightarrow> (case handle_public_connection env None None b of (r, b') \<Rightarrow> (r, sem, b'))
     | PIR_AuthenticatedTls listen_addr acceptor handshake_timeout first_request_timeout sem0 connections authentication \<Rightarrow>
         (case accept_bounded_tls (env_semaphore env) accept handshake_timeout (sem, b_world b) of
            (Inl e, sem', w) \<Rightarrow> (Some (Err (Bail e)), sem', b\<lparr>b_world := w\<rparr>)
          | (Inr tls, sem', w) \<Rightarrow>
              (case tls_client_fingerprint sha256 tls of
                 Inl e \<Rightarrow> (Some (Err (Bail e)), sem', b\<lparr>b_world := w\<rparr>)
               | Inr fingerprint \<Rightarrow>
                   (case handle_public_connection env (Some fingerprint) (Some first_request_timeout) (b\<lparr>b_world := w\<rparr>) of
                      (r, b') \<Rightarrow> (r, sem', b')))))"

section \<open>The accept loop\<close>

record 's bridge_runtime =
  br_circuits :: 's
  br_tunnels :: 's
  br_public :: 's
  br_internal :: 's
  br_breaker :: CircuitBreaker
  br_registry :: BridgeTaskRegistry
  br_development :: bool
  br_capacity_responses :: "BridgeTaskKind list"
  br_stopped :: bool

definition MAX_BREAKER_ENTRIES :: nat where "MAX_BREAKER_ENTRIES = 10000"
definition BREAKER_FAILURE_THRESHOLD :: u64 where "BREAKER_FAILURE_THRESHOLD = 3"
definition BREAKER_COOLDOWN :: nat where "BREAKER_COOLDOWN = secs 30"

text \<open>
  \<open>CircuitBreaker::new\<close> panics on a capacity or threshold of zero, which these constants are not;
  \<open>Semaphore::new\<close> panics on more than \<open>MAX_PERMITS\<close>, which the configured number of client connections may be.
  \<open>None\<close> is a panic.
\<close>

definition Bridge_new :: "'s semaphore_ops \<Rightarrow> ('s, 'm, 'q) PublicIngressRuntime \<Rightarrow> CircuitMetrics \<Rightarrow> 's bridge_runtime option" where
  "Bridge_new ops ingress metrics =
     (if MAX_PERMITS < PublicIngressRuntime_max_client_connections ingress then None else
      map_option (\<lambda>breaker. \<lparr>br_circuits = sem_new ops MAX_CONCURRENT_CIRCUIT_BUILDS, br_tunnels = sem_new ops MAX_ACTIVE_TUNNELS,
       br_public = sem_new ops (PublicIngressRuntime_max_client_connections ingress), br_internal = sem_new ops MAX_CONNECTION_TASKS,
       br_breaker = breaker, br_registry = BridgeTaskRegistry_new metrics,
       br_development = (PublicIngressRuntime_authentication ingress = None), br_capacity_responses = [], br_stopped = False\<rparr>)
     (CircuitBreaker_new MAX_BREAKER_ENTRIES BREAKER_FAILURE_THRESHOLD BREAKER_COOLDOWN))"

text \<open>
  A branch of the \<open>select!\<close> that is ready, a boolean saying whether \<open>accept\<close> returned a connection, or the end of a task.
\<close>

datatype accept_event =
    Shutdown_Changed bool bool
  | Join_Ready
  | Metrics_Accept bool
  | Interval_Tick
  | Internal_Accept bool
  | Public_Accept bool
  | Task_Over nat task_end

definition on_registry :: "(BridgeTaskRegistry \<Rightarrow> BridgeTaskRegistry) \<Rightarrow> 's bridge_runtime \<Rightarrow> 's bridge_runtime" where
  "on_registry f rt = rt\<lparr>br_registry := f (br_registry rt)\<rparr>"

definition count_rejected :: "BridgeTaskRegistry \<Rightarrow> BridgeTaskRegistry" where
  "count_rejected reg =
     reg\<lparr>reg_metrics := (reg_metrics reg)\<lparr>m_rejected_tunnels := m_rejected_tunnels (reg_metrics reg) + 1\<rparr>\<rparr>"

text \<open>A connection gets a permit and a task, or is refused, with the capacity response if \<open>answer\<close>.\<close>

definition admit_connection ::
    "'s semaphore_ops \<Rightarrow> BridgeTaskKind \<Rightarrow> bool \<Rightarrow> 's \<Rightarrow> 's bridge_runtime \<Rightarrow> 's \<times> 's bridge_runtime" where
  "admit_connection ops kind answer sem rt =
     (case try_acquire_owned ops sem of
        (True, sem') \<Rightarrow> (sem', on_registry (registry_spawn kind) rt)
      | (False, sem') \<Rightarrow>
          (sem', (on_registry count_rejected rt)\<lparr>br_capacity_responses :=
             br_capacity_responses rt @ (if answer then [kind] else [])\<rparr>))"

fun running_task :: "nat \<Rightarrow> (nat \<times> task) list \<Rightarrow> BridgeTaskKind option" where
  "running_task k [] = None"
| "running_task k ((j, Running kind) # ts) = (if j = k then Some kind else running_task k ts)"
| "running_task k ((j, Ended r) # ts) = running_task k ts"

fun return_permit :: "'s semaphore_ops \<Rightarrow> BridgeTaskKind \<Rightarrow> 's bridge_runtime \<Rightarrow> 's bridge_runtime" where
  "return_permit ops Kind_Metrics rt = rt"
| "return_permit ops Kind_Internal rt = rt\<lparr>br_internal := sem_release ops (br_internal rt)\<rparr>"
| "return_permit ops Kind_Public rt = rt\<lparr>br_public := sem_release ops (br_public rt)\<rparr>"

fun select_branch :: "'s semaphore_ops \<Rightarrow> accept_event \<Rightarrow> 's bridge_runtime \<Rightarrow> 's bridge_runtime" where
  "select_branch ops (Shutdown_Changed closed value) rt = (if closed \<or> value then rt\<lparr>br_stopped := True\<rparr> else rt)"
| "select_branch ops Join_Ready rt =
     (case try_join_next (br_registry rt) of
        Some (joined, reg) \<Rightarrow> rt\<lparr>br_registry := snd (record_join joined reg)\<rparr>
      | None \<Rightarrow> rt)"
| "select_branch ops (Metrics_Accept accepted) rt = (if accepted then on_registry (registry_spawn Kind_Metrics) rt else rt)"
| "select_branch ops Interval_Tick rt = rt"
| "select_branch ops (Internal_Accept accepted) rt =
     (if accepted then case admit_connection ops Kind_Internal True (br_internal rt) rt of (sem, rt') \<Rightarrow> rt'\<lparr>br_internal := sem\<rparr> else rt)"
| "select_branch ops (Public_Accept accepted) rt =
     (if accepted then case admit_connection ops Kind_Public (br_development rt) (br_public rt) rt of (sem, rt') \<Rightarrow> rt'\<lparr>br_public := sem\<rparr> else rt)"
| "select_branch ops (Task_Over k how) rt =
     (case running_task k (reg_tasks (br_registry rt)) of
        Some kind \<Rightarrow> return_permit ops kind (on_registry (task_ends k how) rt)
      | None \<Rightarrow> rt)"

definition accept_step :: "'s semaphore_ops \<Rightarrow> accept_event \<Rightarrow> 's bridge_runtime \<Rightarrow> 's bridge_runtime" where
  "accept_step ops ev rt = (if br_stopped rt then rt else select_branch ops ev rt)"

definition accept_loop :: "'s semaphore_ops \<Rightarrow> accept_event list \<Rightarrow> 's bridge_runtime \<Rightarrow> 's bridge_runtime" where
  "accept_loop ops evs rt = fold (accept_step ops) evs rt"

section \<open>The whole run\<close>

record 'w listener_ops =
  lo_remove_socket :: "('w, unit, nat) io"
  lo_bind_bridge :: "('w, unit, nat) io"
  lo_set_permissions :: "u32 \<Rightarrow> ('w, unit, nat) io"
  lo_bind_public :: "SocketAddr \<Rightarrow> ('w, unit, nat) io"
  lo_bind_metrics :: "('w, unit, nat) io"
  lo_not_found :: "nat \<Rightarrow> bool"

definition remove_stale_socket :: "'w listener_ops \<Rightarrow> ('w, unit, nat) io" where
  "remove_stale_socket lo w =
     (case lo_remove_socket lo w of
        (Inl e, w') \<Rightarrow> if lo_not_found lo e then (Ok (), w') else (Err e, w')
      | (Inr _, w') \<Rightarrow> (Ok (), w'))"

definition open_listeners :: "'w listener_ops \<Rightarrow> ('s, 'm, 'q) PublicIngressRuntime \<Rightarrow> ('w, unit, nat) io" where
  "open_listeners lo ingress =
     io_bind (remove_stale_socket lo) (\<lambda>_.
     io_bind (lo_bind_bridge lo) (\<lambda>_.
     io_bind (lo_set_permissions lo 0x180) (\<lambda>_.
     io_bind (lo_bind_public lo (PublicIngressRuntime_listen_addr ingress)) (\<lambda>_.
     lo_bind_metrics lo))))"

text \<open>
  \<open>run_bridge\<close> on the events of the loop and of the drain: an error if a listener could not be opened, \<open>None\<close> while the
  loop runs, and the state of the drain after shutdown. The last removal of the socket is not reported.
\<close>

definition run_bridge ::
    "'w listener_ops \<Rightarrow> 's semaphore_ops \<Rightarrow> ('s, 'm, 'q) PublicIngressRuntime \<Rightarrow> 's bridge_runtime \<Rightarrow> BridgeTaskDrainConfig \<Rightarrow> nat
      \<Rightarrow> accept_event list \<Rightarrow> drain_event list \<Rightarrow> ('w, drain_state option, nat) io" where
  "run_bridge lo ops ingress rt config now evs drain_evs =
     io_bind (open_listeners lo ingress) (\<lambda>_ w.
       let rt' = accept_loop ops evs rt in
       if \<not> br_stopped rt' then (Ok None, w)
       else
         let st = drain config now (br_registry rt') drain_evs in
         if dr_phase st = Drained then (Ok (Some st), snd (lo_remove_socket lo w)) else (Ok None, w))"

section \<open>Connection tasks\<close>

definition running_of :: "BridgeTaskKind \<Rightarrow> (nat \<times> task) list \<Rightarrow> nat" where
  "running_of kind ts = length (filter (\<lambda>(k, t). t = Running kind) ts)"

lemma running_of_simps [simp]:
  "running_of K [] = 0" "running_of K ((k, Running kind) # ts) = (if kind = K then Suc (running_of K ts) else running_of K ts)"
  "running_of K ((k, Ended r) # ts) = running_of K ts" "running_of K (ts @ ts') = running_of K ts + running_of K ts'"
  by (simp_all add: running_of_def)

lemma end_in_running_of:
  "running_task k ts = Some kind \<Longrightarrow>
     \<exists>ts'. end_in k how ts = Some ts' \<and> running_of K ts = (if kind = K then Suc (running_of K ts') else running_of K ts')"
  by (induction k how ts rule: end_in.induct) (auto split: if_splits)

lemma take_ended_running_of: "take_ended ts = Some (r, ts') \<Longrightarrow> running_of K ts' = running_of K ts"
  by (induction ts arbitrary: ts' rule: take_ended.induct) auto

lemma try_acquire_laws:
  assumes "semaphore_laws ops" "try_acquire_owned ops s = (got, s')"
  shows "sem_available ops s = (if got then Suc (sem_available ops s') else sem_available ops s')"
proof -
  obtain o' s1 where a: "sem_acquire ops 0 s = (o', s1)" by fastforce
  with assms(2) have "s1 = s'" "got \<longleftrightarrow> o' = Permit" by (auto simp: try_acquire_owned_def split: acquire_outcome.splits)
  with semaphore_acquire_laws(2,3) [OF assms(1) a] show ?thesis by (cases "o' = Permit") auto
qed

text \<open>Every task owns one permit of its kind, and the gauge counts the tasks.\<close>

definition permits_exact :: "'s semaphore_ops \<Rightarrow> nat \<Rightarrow> 's bridge_runtime \<Rightarrow> bool" where
  "permits_exact ops connections rt \<longleftrightarrow>
     sem_available ops (br_public rt) + running_of Kind_Public (reg_tasks (br_registry rt)) = connections
     \<and> sem_available ops (br_internal rt) + running_of Kind_Internal (reg_tasks (br_registry rt)) = MAX_CONNECTION_TASKS
     \<and> gauge_exact (br_registry rt)"

lemma record_join_keeps:
  "reg_tasks (snd (record_join joined reg)) = reg_tasks reg"
  "m_bridge_tasks_active (reg_metrics (snd (record_join joined reg))) = m_bridge_tasks_active (reg_metrics reg)"
  by (auto simp: record_join_def count_failed_task_def Let_def split: sum.splits BridgeTaskOutcome.splits)

lemma select_branch_permits:
  assumes "semaphore_laws ops" "permits_exact ops connections rt"
  shows "permits_exact ops connections (select_branch ops ev rt)"
proof (cases ev)
  case Join_Ready
  show ?thesis
  proof (cases "try_join_next (br_registry rt)")
    case (Some x)
    then obtain joined ts where x: "x = (joined, (br_registry rt)\<lparr>reg_tasks := ts\<rparr>)" "take_ended (reg_tasks (br_registry rt)) = Some (joined, ts)"
      by (auto simp: try_join_next_def)
    with assms(2) Some Join_Ready show ?thesis
      by (simp add: permits_exact_def gauge_exact_def record_join_keeps take_ended_running_of [OF x(2)] take_ended_running [OF x(2)])
  qed (use assms(2) Join_Ready in simp)
next
  case (Internal_Accept accepted)
  obtain got sem where "try_acquire_owned ops (br_internal rt) = (got, sem)" by fastforce
  with assms Internal_Accept try_acquire_laws [OF assms(1) this] show ?thesis
    by (cases got) (auto simp: permits_exact_def admit_connection_def on_registry_def count_rejected_def registry_spawn_def
        task_gauge_increment_def gauge_exact_def)
next
  case (Public_Accept accepted)
  obtain got sem where "try_acquire_owned ops (br_public rt) = (got, sem)" by fastforce
  with assms Public_Accept try_acquire_laws [OF assms(1) this] show ?thesis
    by (cases got) (auto simp: permits_exact_def admit_connection_def on_registry_def count_rejected_def registry_spawn_def
        task_gauge_increment_def gauge_exact_def)
next
  case (Task_Over k how)
  show ?thesis
  proof (cases "running_task k (reg_tasks (br_registry rt))")
    case (Some kind)
    have g: "gauge_exact (task_ends k how (br_registry rt))" using assms(2) by (simp add: permits_exact_def task_ends_keeps(1))
    have r: "running_of K (reg_tasks (br_registry rt)) = (if kind = K then Suc (running_of K (reg_tasks (task_ends k how (br_registry rt))))
        else running_of K (reg_tasks (task_ends k how (br_registry rt))))" for K
      using end_in_running_of [OF Some, of how K] by (auto simp: task_ends_def)
    from assms(2) Some Task_Over g r [of Kind_Public] r [of Kind_Internal] semaphore_other_laws(3) [OF assms(1)] show ?thesis
      by (cases kind) (auto simp: permits_exact_def on_registry_def)
  qed (use assms(2) Task_Over in simp)
qed (use assms(2) in \<open>auto simp: permits_exact_def on_registry_def registry_spawn_def task_gauge_increment_def gauge_exact_def\<close>)

lemma accept_loop_permits:
  "semaphore_laws ops \<Longrightarrow> permits_exact ops connections rt \<Longrightarrow> permits_exact ops connections (accept_loop ops evs rt)"
  unfolding accept_loop_def by (induction evs arbitrary: rt) (simp_all add: accept_step_def select_branch_permits)

lemma Bridge_new_permits:
  assumes "semaphore_laws ops" "Bridge_new ops ingress metrics = Some rt" "m_bridge_tasks_active metrics = 0"
  shows "permits_exact ops (PublicIngressRuntime_max_client_connections ingress) rt"
  using assms by (auto simp: Bridge_new_def permits_exact_def registry_new_gauge semaphore_other_laws(1) BridgeTaskRegistry_new_def
      gauge_exact_def split: if_splits)

text \<open>The bridge is made unless more client connections are configured than a semaphore has permits.\<close>

lemma Bridge_new_panics:
  "Bridge_new ops ingress metrics = None \<longleftrightarrow> MAX_PERMITS < PublicIngressRuntime_max_client_connections ingress"
  by (simp add: Bridge_new_def CircuitBreaker_new_def MAX_BREAKER_ENTRIES_def BREAKER_FAILURE_THRESHOLD_def)

text \<open>
  Property C17. The bridge never has more connection tasks than it was configured for: whatever connections
  arrive, however tasks end and in whatever order the loop sees it, at most the configured number of client
  connections and at most 512 internal ones are handled at a time, the free permits and the tasks
  of each kind add up to the capacity, and the gauge of active tasks is exact.
\<close>

theorem connection_tasks_bounded:
  assumes "semaphore_laws ops" "Bridge_new ops ingress metrics = Some rt" "m_bridge_tasks_active metrics = 0"
  shows "let rt' = accept_loop ops evs rt; ts = reg_tasks (br_registry rt') in
      running_of Kind_Public ts \<le> PublicIngressRuntime_max_client_connections ingress
    \<and> running_of Kind_Internal ts \<le> MAX_CONNECTION_TASKS
    \<and> sem_available ops (br_public rt') = PublicIngressRuntime_max_client_connections ingress - running_of Kind_Public ts
    \<and> sem_available ops (br_internal rt') = MAX_CONNECTION_TASKS - running_of Kind_Internal ts
    \<and> m_bridge_tasks_active (reg_metrics (br_registry rt')) = of_nat (running ts)"
  using accept_loop_permits [OF assms(1) Bridge_new_permits [OF assms], of evs]
  by (auto simp: permits_exact_def gauge_exact_def Let_def)

section \<open>The client's connection\<close>

lemma accept_bounded_tls_Ok:
  "accept_bounded_tls ops accept handshake_timeout (sem, w) = (Ok tls, sem', w') \<Longrightarrow>
     accept handshake_timeout w = (Handshake_Done tls, w') \<and> fst (try_acquire_owned ops sem)"
  by (auto simp: accept_bounded_tls_def split: prod.splits handshake.splits if_splits bool.splits)

lemma tls_client_fingerprint_Ok:
  "tls_client_fingerprint sha256 tls = Ok fingerprint \<longleftrightarrow>
     tls_alpn_protocol tls = Some HTTP_1_1_ALPN \<and> (\<exists>leaf rest. tls_peer_certificates tls = Some (leaf # rest) \<and> fingerprint = sha256 leaf)"
  by (cases "tls_peer_certificates tls"; cases "the (tls_peer_certificates tls)")
    (auto simp: tls_client_fingerprint_def validate_negotiated_alpn_def split: option.splits if_splits)

text \<open>The handshake semaphore is back where it was, whatever became of the connection.\<close>

lemma handshake_permit_returned:
  assumes "semaphore_laws (env_semaphore env)" "handle_public_tcp_connection env accept sha256 ingress (sem, b) = (r, sem', b')"
  shows "sem_available (env_semaphore env) sem' = sem_available (env_semaphore env) sem"
proof (cases ingress)
  case (PIR_Development listen_addr)
  with assms(2) show ?thesis by (auto simp: handle_public_tcp_connection_def split: prod.splits)
next
  case (PIR_AuthenticatedTls listen_addr acceptor handshake_timeout first_request_timeout sem0 connections authentication)
  obtain got s1 where a: "try_acquire_owned (env_semaphore env) sem = (got, s1)" by fastforce
  have "sem' = (if got then sem_release (env_semaphore env) s1 else s1)"
    using assms(2) a PIR_AuthenticatedTls
    by (auto simp: handle_public_tcp_connection_def accept_bounded_tls_def split: prod.splits sum.splits handshake.splits bool.splits)
  then show ?thesis using try_acquire_laws [OF assms(1) a] semaphore_other_laws(3) [OF assms(1)] by auto
qed

text \<open>
  Property C1. In production nothing is forwarded for a client that was not admitted. A connection to the
  public listener makes the bridge ask Tor for a stream, or hand a request to the internal proxy, only if its TLS
  handshake succeeded within the handshake limit, negotiated HTTP/1.1 and presented a client certificate, and its request
  carried no internal identity and was authenticated by its key together with the fingerprint of that certificate, within the
  account's request rate, data limit and quota, to which it was charged; what the internal proxy receives is the
  request without the ingress headers, registered for that account.
\<close>

theorem public_connection_admitted:
  assumes "handle_public_tcp_connection env accept sha256 (PIR_AuthenticatedTls listen_addr acceptor handshake_timeout
      first_request_timeout sem0 connections authentication) (sem, b) = (res, sem', b')"
    and "e \<in> set (drop (length (b_trace b)) (b_trace b'))" "forwarding e"
  shows "\<exists>tls w0 leaf rest request buffer w auth identity w' c1 period l c2 snapshot c3.
      accept handshake_timeout (b_world b) = (Handshake_Done tls, w0) \<and> fst (try_acquire_owned (env_semaphore env) sem)
    \<and> tls_alpn_protocol tls = Some HTTP_1_1_ALPN \<and> tls_peer_certificates tls = Some (leaf # rest)
    \<and> read_proxy_request (env_http_parse env) (env_read_client env) [] w0 = (Ok (request, buffer), w)
    \<and> parsed_internal_identity request = None \<and> parsed_proxy_authorization request = Some auth
    \<and> env_worker env w = (None, w')
    \<and> AccountManager_authenticate_ingress (env_std_decode env) (env_key_hash env) auth (sha256 leaf) (b_db b) = (Ok identity, c1)
    \<and> fst (check_request_rate (env_request_limiter env) (env_limiter_check env) identity (b_admission b)) = Ok ()
    \<and> UnixTimestamp_period_start_now (env_usage_period env) (env_system_time env w') = Ok period
    \<and> limiter_ensure_available identity period (b_limiter b) c1 = (Ok (), l, c2)
    \<and> db_admit_request identity period c2 = (Ok snapshot, c3)
    \<and> (\<forall>bytes context. e = Dispatched bytes context \<longrightarrow>
         strip_ingress_headers (env_http_parse env) buffer (parsed_header_len request) = Ok bytes
         \<and> context = Some \<lparr>context_scope = \<lparr>scope_identity = identity, scope_period_start = period\<rparr>,
                            context_isolation = parsed_isolation request\<rparr>)"
proof -
  obtain r sem1 w0 where a: "accept_bounded_tls (env_semaphore env) accept handshake_timeout (sem, b_world b) = (r, sem1, w0)"
    by (metis prod_cases3)
  have quiet: False if "b' = b\<lparr>b_world := w0\<rparr>" using assms(2) that by simp
  obtain tls where tls: "r = Ok tls" using assms(1) a quiet by (cases r) (auto simp: handle_public_tcp_connection_def)
  obtain fingerprint where f: "tls_client_fingerprint sha256 tls = Ok fingerprint"
    using assms(1) a tls quiet by (cases "tls_client_fingerprint sha256 tls") (auto simp: handle_public_tcp_connection_def)
  have run: "handle_public_connection env (Some fingerprint) (Some first_request_timeout) (b\<lparr>b_world := w0\<rparr>) = (res, b')"
    using assms(1) a tls f by (auto simp: handle_public_tcp_connection_def split: prod.splits)
  have e: "e \<in> set (drop (length (b_trace (b\<lparr>b_world := w0\<rparr>))) (b_trace b'))" using assms(2) by simp
  note done_ = accept_bounded_tls_Ok [OF a [unfolded tls]]
  obtain leaf rest where leaf: "tls_alpn_protocol tls = Some HTTP_1_1_ALPN" "tls_peer_certificates tls = Some (leaf # rest)"
      "fingerprint = sha256 leaf"
    using f by (auto simp: tls_client_fingerprint_Ok)
  from forwarded_only_when_admitted [OF run e assms(3)] done_ leaf show ?thesis by simp
qed

section \<open>A demonstration\<close>

definition demo_accept :: "nat \<Rightarrow> unit \<Rightarrow> handshake \<times> unit" where
  "demo_accept limit w = (Handshake_Done \<lparr>tls_alpn_protocol = Some HTTP_1_1_ALPN, tls_peer_certificates = Some [''leaf'']\<rparr>, w)"

lemma demo_connection_forwards:
  "\<exists>b'. handle_public_tcp_connection ingress_env demo_accept (\<lambda>_. demo_fingerprint)
       (PIR_AuthenticatedTls listen_addr acceptor 10 5 sem0 32 authentication) ((1, False), demo_bridge) = (None, (1, False), b')
     \<and> b_trace b' = [Dispatched sample_output (Some demo_context)]"
proof -
  obtain b' where "handle_public_connection ingress_env (Some demo_fingerprint) (Some 5) demo_bridge = (None, b')"
      "b_trace b' = [Dispatched sample_output (Some demo_context)]"
    using demo_public by blast
  moreover have "env_semaphore ingress_env = counting_semaphore" by (simp add: ingress_env_def demo_env_def)
  moreover have "try_acquire_owned counting_semaphore (1, False) = (True, (0, False))"
    by (simp add: try_acquire_owned_def counting_semaphore_def)
  moreover have world: "demo_bridge\<lparr>b_world := ()\<rparr> = demo_bridge" by (simp add: demo_bridge_def)
  ultimately show ?thesis
    by (simp add: world counting_semaphore_def handle_public_tcp_connection_def accept_bounded_tls_def demo_accept_def tls_client_fingerprint_def
        validate_negotiated_alpn_def)
qed

theorem public_connection_admitted_witness:
  "\<exists>request buffer w identity c1.
     read_proxy_request (env_http_parse ingress_env) (env_read_client ingress_env) [] () = (Ok (request, buffer), w)
   \<and> AccountManager_authenticate_ingress (env_std_decode ingress_env) (env_key_hash ingress_env) ''Basic cHh5'' demo_fingerprint
       (b_db demo_bridge) = (Ok identity, c1)"
proof -
  obtain b' where run: "handle_public_tcp_connection ingress_env demo_accept (\<lambda>_. demo_fingerprint)
       (PIR_AuthenticatedTls (SocketAddr (V4 (Ipv4Addr 0 0 0 0)) 8443 0) demo_server 10 5 (1, False) 32 undefined) ((1, False), demo_bridge) = (None, (1, False), b')"
      and t: "b_trace b' = [Dispatched sample_output (Some demo_context)]"
    using demo_connection_forwards by blast
  have e: "Dispatched sample_output (Some demo_context) \<in> set (drop (length (b_trace demo_bridge)) (b_trace b'))"
      "forwarding (Dispatched sample_output (Some demo_context))"
    by (simp_all add: t demo_bridge_def)
  have "env_http_parse ingress_env = sample_parser" by (simp add: ingress_env_def demo_env_def)
  with public_connection_admitted [OF run e] show ?thesis
    by (auto simp: sample_read sample_request_def)
qed

definition demo_ingress :: "(nat \<times> bool, unit, nat) PublicIngressRuntime" where
  "demo_ingress = PIR_Development (SocketAddr (V4 (Ipv4Addr 127 0 0 1)) 8080 0)"

theorem connection_tasks_bounded_witness:
  "\<exists>rt. Bridge_new counting_semaphore demo_ingress CircuitMetrics_default = Some rt
     \<and> running_of Kind_Public (reg_tasks (br_registry (accept_loop counting_semaphore [Public_Accept True, Internal_Accept True] rt))) = 1
     \<and> 1 \<le> MAX_CONNECTION_TASKS"
proof -
  obtain rt where rt: "Bridge_new counting_semaphore demo_ingress CircuitMetrics_default = Some rt"
    by (simp add: Bridge_new_def demo_ingress_def CircuitBreaker_new_def MAX_BREAKER_ENTRIES_def BREAKER_FAILURE_THRESHOLD_def
        MAX_PERMITS_def u64_max_def MAX_CONNECTION_TASKS_def)
  have one: "running_of Kind_Public (reg_tasks (br_registry (accept_loop counting_semaphore [Public_Accept True, Internal_Accept True] rt))) = 1"
    using rt by (auto simp: Bridge_new_def MAX_PERMITS_def u64_max_def demo_ingress_def accept_loop_def accept_step_def admit_connection_def try_acquire_owned_def
        counting_semaphore_def MAX_CONNECTION_TASKS_def on_registry_def registry_spawn_def BridgeTaskRegistry_new_def)
  have "m_bridge_tasks_active CircuitMetrics_default = 0" by (simp add: CircuitMetrics_default_def)
  from connection_tasks_bounded [OF counting_semaphore_laws rt this, of "[Public_Accept True, Internal_Accept True]"] one rt
  show ?thesis by (auto simp: Let_def demo_ingress_def)
qed

end
