(* ===== verification/Metrics_Endpoint.thy ===== *)
theory Metrics_Endpoint
  imports Metrics Circuit_Breaker Isolation Request_Parsing Tor_Connect "HOL-Library.Product_Lexorder"
    "HOL-Library.List_Lexorder" "HOL-Library.Char_ord"
begin

text \<open>
  The metrics page (\<open>src/src/main.rs\<close>): \<open>append_histogram_metrics\<close>, \<open>render_prometheus_metrics\<close> and
  \<open>serve_prometheus_connection\<close>.

  A line written by \<open>writeln!\<close> is a string that ends in a line feed. Numbers in seconds are printed from a floating-point
  quotient of microseconds, which is the parameter \<open>seconds\<close>; the four numbers of pingora's eviction
  manager are a record. The property is that the page can be read back: a reader of the text format
  finds exactly the counters of the state.
\<close>

section \<open>The text of the page\<close>

definition line_feed :: char where "line_feed = CHR 0x0A"

definition writelns :: "string list \<Rightarrow> string" where
  "writelns ls = concat (map (\<lambda>l. l @ [line_feed]) ls)"

definition quoted :: "string \<Rightarrow> string" where
  "quoted s = [CHR 0x22] @ s @ [CHR 0x22]"

definition append_histogram_metrics :: "(u64 \<Rightarrow> string) \<Rightarrow> string \<Rightarrow> string \<Rightarrow> LatencyHistogram \<Rightarrow> string \<Rightarrow> string" where
  "append_histogram_metrics seconds name help h output =
     output
     @ writelns [''# HELP '' @ name @ '' '' @ help, ''# TYPE '' @ name @ '' histogram'']
     @ writelns (map2 (\<lambda>upper_bound count. name @ ''_bucket{le='' @ quoted (seconds upper_bound) @ ''} '' @ show_nat (unat count))
         LATENCY_BUCKET_MICROS (hist_buckets h))
     @ writelns [name @ ''_bucket{le='' @ quoted ''+Inf'' @ ''} '' @ show_nat (unat (hist_count h)),
         name @ ''_sum '' @ seconds (hist_sum_micros h), name @ ''_count '' @ show_nat (unat (hist_count h))]"

record eviction_manager =
  ev_total_items :: nat
  ev_total_size :: nat
  ev_evicted_items :: nat
  ev_evicted_size :: nat

text \<open>The uses of the macro \<open>metric!\<close>: name, help, kind and value.\<close>

definition plain_metrics ::
    "eviction_manager \<Rightarrow> CircuitMetrics \<Rightarrow> nat \<Rightarrow> CircuitBreaker \<Rightarrow> (string \<times> string \<times> string \<times> nat) list" where
  "plain_metrics ev m tokens breaker =
     [
      (''proxy_active_tunnels'', ''Currently active Tor tunnels.'', ''gauge'', unat (m_active_tunnels m)),
      (''proxy_queued_tunnels'', ''Requests waiting for tunnel capacity.'', ''gauge'', unat (m_queued_tunnels m)),
      (''proxy_queued_circuit_builds'', ''Requests waiting for circuit-build capacity.'', ''gauge'', unat (m_queued_circuit_builds m)),
      (''proxy_circuit_acquire_timeouts_total'', ''Requests that timed out waiting for circuit-build capacity.'', ''counter'', unat (m_acquire_timeouts m)),
      (''proxy_circuit_build_attempts_total'', ''Completed Tor circuit or stream establishment attempts.'', ''counter'', unat (m_circuit_build_count m)),
      (''proxy_circuit_build_latency_microseconds_total'', ''Cumulative Tor circuit or stream establishment latency in microseconds.'', ''counter'', unat (m_circuit_build_latency_micros m)),
      (''proxy_rejected_tunnels_total'', ''Tunnel and connection capacity rejections.'', ''counter'', unat (m_rejected_tunnels m)),
      (''proxy_completed_tunnels_total'', ''Tunnel attempts that acquired active capacity.'', ''counter'', unat (m_completed_tunnels m)),
      (''proxy_connect_timeouts_total'', ''Tor establishment timeouts.'', ''counter'', unat (m_connect_timeouts m)),
      (''proxy_idle_timeouts_total'', ''Inactive tunnel timeouts.'', ''counter'', unat (m_idle_timeouts m)),
      (''proxy_request_errors_total'', ''HTTP requests ending with an internal error.'', ''counter'', unat (m_request_errors m)),
      (''proxy_retries_total'', ''Tor connection retries.'', ''counter'', unat (m_retries m)),
      (''proxy_circuit_breaker_rejections_total'', ''Requests rejected by an open circuit breaker.'', ''counter'', unat (m_breaker_rejections m)),
      (''proxy_bytes_to_tor_total'', ''Payload bytes sent toward Tor.'', ''counter'', unat (m_bytes_to_tor m)),
      (''proxy_bytes_from_tor_total'', ''Payload bytes received from Tor.'', ''counter'', unat (m_bytes_from_tor m)),
      (''proxy_customer_data_limit_rejections_total'', ''Requests or active tunnels stopped by the account-wide period data limit.'', ''counter'', unat (m_customer_data_limit_rejections m)),
      (''proxy_account_usage_checkpoint_failures_total'', ''Active-tunnel usage checkpoints that failed closed.'', ''counter'', unat (m_account_usage_checkpoint_failures m)),
      (''proxy_cache_hits_total'', ''Fresh tenant-scoped cache hits.'', ''counter'', unat (m_cache_hits m)),
      (''proxy_cache_misses_total'', ''Tenant-scoped cache misses.'', ''counter'', unat (m_cache_misses m)),
      (''proxy_cache_stale_hits_total'', ''Unexpected stale tenant-scoped cache hits.'', ''counter'', unat (m_cache_stale_hits m)),
      (''proxy_cache_bypasses_total'', ''Requests bypassing the tenant-scoped cache.'', ''counter'', unat (m_cache_bypasses m)),
      (''proxy_cache_insertions_total'', ''Responses accepted by the tenant-scoped cache admission policy.'', ''counter'', unat (m_cache_insertions m)),
      (''proxy_cache_bypass_strict_total'', ''Cache bypasses required by strict isolation.'', ''counter'', unat (m_cache_bypass_strict m)),
      (''proxy_cache_bypass_unauthenticated_total'', ''Cache bypasses without a trusted authenticated scope.'', ''counter'', unat (m_cache_bypass_unauthenticated m)),
      (''proxy_cache_bypass_origin_not_allowed_total'', ''Cache bypasses for origins outside the exact local allowlist.'', ''counter'', unat (m_cache_bypass_origin_not_allowed m)),
      (''proxy_cache_bypass_request_policy_total'', ''Cache bypasses required by request semantics.'', ''counter'', unat (m_cache_bypass_request_policy m)),
      (''proxy_cache_bypass_response_policy_total'', ''Responses rejected by cache admission policy.'', ''counter'', unat (m_cache_bypass_response_policy m)),
      (''proxy_cache_ttl_caps_total'', ''Cached responses whose freshness was reduced by the local TTL ceiling.'', ''counter'', unat (m_cache_ttl_caps m)),
      (''proxy_cache_metadata_failures_total'', ''Cache metadata construction failures that failed safely.'', ''counter'', unat (m_cache_metadata_failures m)),
      (''proxy_cache_entries'', ''Assets tracked by cache eviction.'', ''gauge'', ev_total_items ev),
      (''proxy_cache_bytes'', ''Bytes tracked by cache eviction.'', ''gauge'', ev_total_size ev),
      (''proxy_cache_evictions_total'', ''Assets evicted by the LRU manager.'', ''counter'', ev_evicted_items ev),
      (''proxy_cache_evicted_bytes_total'', ''Bytes evicted by the LRU manager.'', ''counter'', ev_evicted_size ev),
      (''proxy_upstream_connections_reused_total'', ''HTTP requests reusing an upstream connection.'', ''counter'', unat (m_upstream_reused m)),
      (''proxy_upstream_connections_fresh_total'', ''HTTP requests using a newly established upstream connection.'', ''counter'', unat (m_upstream_fresh m)),
      (''proxy_bridge_tasks_active'', ''Currently owned bridge connection tasks.'', ''gauge'', unat (m_bridge_tasks_active m)),
      (''proxy_bridge_tasks_completed_total'', ''Owned bridge tasks that completed normally.'', ''counter'', unat (m_bridge_tasks_completed m)),
      (''proxy_bridge_tasks_failed_total'', ''Owned bridge tasks that failed or panicked.'', ''counter'', unat (m_bridge_tasks_failed m)),
      (''proxy_bridge_tasks_deadline_cancelled_total'', ''Owned bridge tasks cancelled at the natural drain deadline.'', ''counter'', unat (m_bridge_tasks_deadline_cancelled m)),
      (''proxy_bridge_tasks_force_aborted_total'', ''Owned bridge tasks whose termination exceeded the force-stop timeout.'', ''counter'', unat (m_bridge_tasks_force_aborted m)),
      (''proxy_isolation_tokens'', ''Current bounded isolation-token entries.'', ''gauge'', tokens),
      (''proxy_circuit_breaker_entries'', ''Current destination circuit-breaker entries.'', ''gauge'', breaker_len breaker)]"

definition metric :: "string \<times> string \<times> string \<times> nat \<Rightarrow> string" where
  "metric = (\<lambda>(name, help, kind, v).
     writelns [''# HELP '' @ name @ '' '' @ help, ''# TYPE '' @ name @ '' '' @ kind, name @ '' '' @ show_nat v])"

definition request_lines :: "CircuitMetrics \<Rightarrow> string list" where
  "request_lines m =
     map (\<lambda>(method, status, count). ''proxy_requests_total{method='' @ quoted method @ '',status='' @ quoted (show_nat (unat status))
         @ ''} '' @ show_nat (unat count))
       (sort (map (\<lambda>((method, status), count). (method, status, count)) (m_request_counts m)))"

definition failure_lines :: "CircuitMetrics \<Rightarrow> string list" where
  "failure_lines m =
     map (\<lambda>(class, count). ''proxy_arti_failures_total{class='' @ quoted class @ ''} '' @ show_nat (unat count))
       (sort (m_arti_failures m))"

definition render_prometheus_metrics ::
    "(u64 \<Rightarrow> string) \<Rightarrow> eviction_manager \<Rightarrow> nat \<Rightarrow> CircuitMetrics \<Rightarrow> 't IsolationStore \<Rightarrow> CircuitBreaker
      \<Rightarrow> string \<times> 't IsolationStore" where
  "render_prometheus_metrics seconds ev now m store breaker =
     (let output = writelns [''# HELP proxy_requests_total Completed public proxy requests.'',
            ''# TYPE proxy_requests_total counter''] @ writelns (request_lines m);
          output = append_histogram_metrics seconds ''proxy_request_duration_seconds''
            ''End-to-end request latency.'' (m_request_latency m) output;
          output = append_histogram_metrics seconds ''proxy_tunnel_duration_seconds''
            ''CONNECT tunnel lifetime.'' (m_tunnel_latency m) output;
          output = append_histogram_metrics seconds ''proxy_tor_connect_duration_seconds''
            ''Tor stream establishment latency.'' (m_tor_connect_latency m) output;
          output = append_histogram_metrics seconds ''proxy_cache_lock_wait_seconds''
            ''Time from cache enablement until an upstream fetch is selected.'' (m_cache_lock_wait m) output;
          (tokens, store') = store_len now store;
          output = output @ concat (map metric (plain_metrics ev m tokens breaker))
      in (output
          @ writelns [''# HELP proxy_arti_failures_total Tor connection failures by stable class.'',
              ''# TYPE proxy_arti_failures_total counter'']
          @ writelns (failure_lines m), store'))"

section \<open>The endpoint\<close>

definition MAX_METRICS_REQUEST_BYTES :: nat where "MAX_METRICS_REQUEST_BYTES = 4 * 1024"

text \<open>\<open>request.windows(4).any(...)\<close>.\<close>

fun ends_header :: "string \<Rightarrow> bool" where
  "ends_header [] = False"
| "ends_header (c # cs) \<longleftrightarrow> take 4 (c # cs) = crlf @ crlf \<or> ends_header cs"

text \<open>Reading the request: \<open>None\<close> if the stream ended first.\<close>

function read_metrics_request ::
    "(nat \<Rightarrow> 'w \<Rightarrow> (string, nat) result \<times> 'w) \<Rightarrow> string \<Rightarrow> 'w \<Rightarrow> (string option, nat) result \<times> 'w" where
  "read_metrics_request read request w =
     (if length request < MAX_METRICS_REQUEST_BYTES \<and> \<not> ends_header request
      then case read 512 w of
          (Inl e, w') \<Rightarrow> (Err e, w')
        | (Inr chunk, w') \<Rightarrow>
            if take 512 chunk = [] then (Ok None, w')
            else read_metrics_request read (request @ take 512 chunk) w'
      else (Ok (Some request), w))"
  by pat_completeness auto

termination
  by (relation "measure (\<lambda>(_, request, _). MAX_METRICS_REQUEST_BYTES - length request)")
    (auto simp: min_def length_greater_0_conv [symmetric] simp del: length_greater_0_conv split: if_splits)

declare read_metrics_request.simps [simp del]

definition metrics_response :: "string \<Rightarrow> string \<Rightarrow> string" where
  "metrics_response status body =
     ''HTTP/1.1 '' @ status @ crlf @ ''Content-Type: text/plain; version=0.0.4'' @ crlf
     @ ''Content-Length: '' @ show_nat (length body) @ crlf @ ''Connection: close'' @ crlf @ crlf @ body"

definition serve_prometheus_connection ::
    "(nat \<Rightarrow> 'w \<Rightarrow> (string, nat) result \<times> 'w) \<Rightarrow> (string \<Rightarrow> 'w \<Rightarrow> (unit, nat) result \<times> 'w) \<Rightarrow> ('w \<Rightarrow> (unit, nat) result \<times> 'w)
      \<Rightarrow> (u64 \<Rightarrow> string) \<Rightarrow> eviction_manager \<Rightarrow> nat \<Rightarrow> CircuitMetrics \<Rightarrow> CircuitBreaker
      \<Rightarrow> 't IsolationStore \<times> 'w \<Rightarrow> (unit, nat) result \<times> 't IsolationStore \<times> 'w" where
  "serve_prometheus_connection read write shutdown seconds ev now m breaker = (\<lambda>(store, w).
     case read_metrics_request read [] w of
       (Inl e, w1) \<Rightarrow> (Err e, store, w1)
     | (Inr None, w1) \<Rightarrow> (Ok (), store, w1)
     | (Inr (Some request), w1) \<Rightarrow>
         let (status, body, store') =
               (if starts_with request ''GET /metrics ''
                then (case render_prometheus_metrics seconds ev now m store breaker of (page, st) \<Rightarrow> (''200 OK'', page, st))
                else (''404 Not Found'', ''not found'' @ [line_feed], store))
         in case write (metrics_response status body) w1 of
              (Inl e, w2) \<Rightarrow> (Err e, store', w2)
            | (Inr _, w2) \<Rightarrow> (case shutdown w2 of (r, w3) \<Rightarrow> (r, store', w3)))"

section \<open>Reading a page\<close>

primrec lines_from :: "string \<Rightarrow> string \<Rightarrow> string list" where
  "lines_from acc [] = (if acc = [] then [] else [acc])"
| "lines_from acc (c # cs) = (if c = line_feed then acc # lines_from [] cs else lines_from (acc @ [c]) cs)"

definition sample_of :: "string \<Rightarrow> string \<times> string" where
  "sample_of l = (takeWhile (\<lambda>c. c \<noteq> CHR 0x20) l, tl (dropWhile (\<lambda>c. c \<noteq> CHR 0x20) l))"

definition is_comment :: "string \<Rightarrow> bool" where
  "is_comment l \<longleftrightarrow> take 1 l = ''#''"

definition line_samples :: "string list \<Rightarrow> (string \<times> string) list" where
  "line_samples ls = map sample_of (filter (\<lambda>l. \<not> is_comment l) ls)"

text \<open>The samples of a page: the lines that are no comments, split at the first space.\<close>

definition page_samples :: "string \<Rightarrow> (string \<times> string) list" where
  "page_samples page = line_samples (lines_from [] page)"

definition one_line :: "string \<Rightarrow> bool" where
  "one_line s \<longleftrightarrow> line_feed \<notin> set s"

definition plain :: "string \<Rightarrow> bool" where
  "plain s \<longleftrightarrow> one_line s \<and> CHR 0x20 \<notin> set s"

lemma writelns_append [simp]: "writelns (ls @ ls') = writelns ls @ writelns ls'"
  by (simp add: writelns_def)

lemma lines_from_line: "one_line l \<Longrightarrow> lines_from acc (l @ line_feed # rest) = (acc @ l) # lines_from [] rest"
  by (induction l arbitrary: acc) (auto simp: one_line_def)

lemma lines_from_writelns: "\<forall>l\<in>set ls. one_line l \<Longrightarrow> lines_from [] (writelns ls) = ls"
  by (induction ls) (auto simp: writelns_def lines_from_line)

lemma sample_of_line: "plain series \<Longrightarrow> sample_of (series @ '' '' @ v) = (series, v)"
  by (induction series) (auto simp: sample_of_def plain_def one_line_def)

lemma one_line_append [simp]: "one_line (s @ t) \<longleftrightarrow> one_line s \<and> one_line t"
  by (auto simp: one_line_def)

lemma one_line_Cons [simp]: "one_line (c # s) \<longleftrightarrow> c \<noteq> line_feed \<and> one_line s" "one_line []"
  by (auto simp: one_line_def)

lemma plain_append [simp]: "plain (s @ t) \<longleftrightarrow> plain s \<and> plain t"
  by (auto simp: plain_def)

lemma plain_Cons [simp]: "plain (c # s) \<longleftrightarrow> c \<noteq> line_feed \<and> c \<noteq> CHR 0x20 \<and> plain s" "plain []"
  by (auto simp: plain_def)

lemma plain_one_line [intro]: "plain s \<Longrightarrow> one_line s"
  by (simp add: plain_def)

lemma plain_show_nat [simp]: "plain (show_nat n)"
  using show_nat_digits [of n] by (auto simp: plain_def one_line_def line_feed_def list_all_iff is_ascii_digit_def byte_def)

lemma one_line_show_nat [simp]: "one_line (show_nat n)"
  by (rule plain_one_line) simp

lemma plain_quoted [simp]: "plain (quoted s) \<longleftrightarrow> plain s" "one_line (quoted s) \<longleftrightarrow> one_line s"
  by (auto simp: quoted_def line_feed_def)

text \<open>Text that reads as a list of samples, and how such text is put together.\<close>

definition reads :: "string \<Rightarrow> (string \<times> string) list \<Rightarrow> bool" where
  "reads text samples \<longleftrightarrow> (\<exists>ls. text = writelns ls \<and> (\<forall>l\<in>set ls. one_line l) \<and> line_samples ls = samples)"

lemma reads_page: "reads page samples \<Longrightarrow> page_samples page = samples"
  by (auto simp: reads_def page_samples_def lines_from_writelns)

lemma reads_append: "reads s xs \<Longrightarrow> reads t ys \<Longrightarrow> reads (s @ t) (xs @ ys)"
  unfolding reads_def line_samples_def by (metis filter_append map_append set_append Un_iff writelns_append)

lemma reads_concat: "\<forall>x\<in>set xs. reads (f x) (g x) \<Longrightarrow> reads (concat (map f xs)) (concat (map g xs))"
proof (induction xs)
  case Nil
  have "reads (writelns []) []" unfolding reads_def line_samples_def by (rule exI [of _ "[]"]) simp
  then show ?case by (simp add: writelns_def)
qed (simp add: reads_append)

lemma reads_comments: "\<forall>l\<in>set ls. one_line l \<and> is_comment l \<Longrightarrow> reads (writelns ls) []"
  unfolding reads_def by (rule exI [of _ ls]) (simp add: line_samples_def filter_empty_conv)

lemma reads_samples:
  assumes "\<forall>x\<in>set xs. plain (series x) \<and> one_line (v x) \<and> \<not> is_comment (series x @ '' '' @ v x)"
  shows "reads (writelns (map (\<lambda>x. series x @ '' '' @ v x) xs)) (map (\<lambda>x. (series x, v x)) xs)"
proof -
  have "\<forall>l\<in>set (map (\<lambda>x. series x @ '' '' @ v x) xs). one_line l"
    using assms by (auto simp: line_feed_def)
  moreover have "line_samples (map (\<lambda>x. series x @ '' '' @ v x) xs) = map (\<lambda>x. (series x, v x)) xs"
    using assms by (induction xs) (auto simp: line_samples_def sample_of_line [simplified])
  ultimately show ?thesis unfolding reads_def by blast
qed

section \<open>The page against the counters\<close>

definition request_series :: "CircuitMetrics \<Rightarrow> (string \<times> string) list" where
  "request_series m =
     map (\<lambda>(method, status, count). (''proxy_requests_total{method='' @ quoted method @ '',status='' @ quoted (show_nat (unat status)) @ ''}'',
         show_nat (unat count)))
       (sort (map (\<lambda>((method, status), count). (method, status, count)) (m_request_counts m)))"

definition failure_series :: "CircuitMetrics \<Rightarrow> (string \<times> string) list" where
  "failure_series m =
     map (\<lambda>(class, count). (''proxy_arti_failures_total{class='' @ quoted class @ ''}'', show_nat (unat count))) (sort (m_arti_failures m))"

definition histogram_series :: "(u64 \<Rightarrow> string) \<Rightarrow> string \<Rightarrow> LatencyHistogram \<Rightarrow> (string \<times> string) list" where
  "histogram_series seconds name h =
     map2 (\<lambda>upper_bound count. (name @ ''_bucket{le='' @ quoted (seconds upper_bound) @ ''}'', show_nat (unat count)))
       LATENCY_BUCKET_MICROS (hist_buckets h)
     @ [(name @ ''_bucket{le='' @ quoted ''+Inf'' @ ''}'', show_nat (unat (hist_count h))),
        (name @ ''_sum'', seconds (hist_sum_micros h)), (name @ ''_count'', show_nat (unat (hist_count h)))]"

lemma reads_histogram:
  assumes "\<forall>n. plain (seconds n)" "plain name" "one_line help" "\<not> is_comment (name @ x)" "name \<noteq> []" "reads output samples"
  shows "reads (append_histogram_metrics seconds name help h output) (samples @ histogram_series seconds name h)"
proof -
  have c: "\<not> is_comment (name @ y)" for y using assms(4,5) by (cases name) (auto simp: is_comment_def)
  have head: "reads (writelns [''# HELP '' @ name @ '' '' @ help, ''# TYPE '' @ name @ '' histogram'']) []"
    using assms(2,3) by (intro reads_comments) (auto simp: is_comment_def line_feed_def)
  let ?buckets = "zip LATENCY_BUCKET_MICROS (hist_buckets h)"
  have buckets: "reads (writelns (map (\<lambda>(b, n). (name @ ''_bucket{le='' @ quoted (seconds b) @ ''}'') @ '' '' @ show_nat (unat n)) ?buckets))
      (map (\<lambda>(b, n). (name @ ''_bucket{le='' @ quoted (seconds b) @ ''}'', show_nat (unat n))) ?buckets)"
    using reads_samples [of ?buckets "\<lambda>(b, n). name @ ''_bucket{le='' @ quoted (seconds b) @ ''}''" "\<lambda>(b, n). show_nat (unat n)"] assms(1,2) c
    by (auto simp: line_feed_def case_prod_unfold)
  let ?totals = "[(name @ ''_bucket{le='' @ quoted ''+Inf'' @ ''}'', show_nat (unat (hist_count h))),
        (name @ ''_sum'', seconds (hist_sum_micros h)), (name @ ''_count'', show_nat (unat (hist_count h)))]"
  have totals: "reads (writelns (map (\<lambda>(s, v). s @ '' '' @ v) ?totals)) ?totals"
    using reads_samples [of ?totals fst snd] assms(1,2) c by (auto simp: line_feed_def case_prod_unfold)
  from reads_append [OF assms(6) reads_append [OF head reads_append [OF buckets totals]]] show ?thesis
    by (simp add: append_histogram_metrics_def histogram_series_def case_prod_unfold)
qed

lemma reads_labelled:
  assumes "\<forall>x\<in>set xs. plain (label x)"
  shows "reads (writelns (map (\<lambda>x. (''proxy_'' @ label x) @ '' '' @ show_nat (v x)) xs)) (map (\<lambda>x. (''proxy_'' @ label x, show_nat (v x))) xs)"
  using assms by (intro reads_samples) (auto simp: is_comment_def line_feed_def)

lemma reads_requests:
  assumes "\<forall>((method, status), count) \<in> set (m_request_counts m). plain method"
  shows "reads (writelns (request_lines m)) (request_series m)"
  using reads_labelled [of "sort (map (\<lambda>((method, status), count). (method, status, count)) (m_request_counts m))"
      "\<lambda>(method, status, count). ''requests_total{method='' @ quoted method @ '',status='' @ quoted (show_nat (unat status)) @ ''}''"
      "\<lambda>(method, status, count). unat count"] assms
  by (force simp: request_lines_def request_series_def line_feed_def case_prod_unfold)

lemma reads_failures:
  assumes "\<forall>(class, count) \<in> set (m_arti_failures m). plain class"
  shows "reads (writelns (failure_lines m)) (failure_series m)"
  using reads_labelled [of "sort (m_arti_failures m)" "\<lambda>(class, count). ''arti_failures_total{class='' @ quoted class @ ''}''"
      "\<lambda>(class, count). unat count"] assms
  by (force simp: failure_lines_def failure_series_def line_feed_def case_prod_unfold)

text \<open>
  What the page has to report besides the labelled series: each name with the quantity an operator reads under it.
  \<open>tokens\<close> and \<open>entries\<close> are the numbers of live isolation entries and of destinations in the breaker.
\<close>

definition reported_values :: "eviction_manager \<Rightarrow> CircuitMetrics \<Rightarrow> nat \<Rightarrow> nat \<Rightarrow> (string \<times> nat) list" where
  "reported_values ev m tokens entries =
     [
      (''proxy_active_tunnels'', unat (m_active_tunnels m)),
      (''proxy_queued_tunnels'', unat (m_queued_tunnels m)),
      (''proxy_queued_circuit_builds'', unat (m_queued_circuit_builds m)),
      (''proxy_circuit_acquire_timeouts_total'', unat (m_acquire_timeouts m)),
      (''proxy_circuit_build_attempts_total'', unat (m_circuit_build_count m)),
      (''proxy_circuit_build_latency_microseconds_total'', unat (m_circuit_build_latency_micros m)),
      (''proxy_rejected_tunnels_total'', unat (m_rejected_tunnels m)),
      (''proxy_completed_tunnels_total'', unat (m_completed_tunnels m)),
      (''proxy_connect_timeouts_total'', unat (m_connect_timeouts m)),
      (''proxy_idle_timeouts_total'', unat (m_idle_timeouts m)),
      (''proxy_request_errors_total'', unat (m_request_errors m)),
      (''proxy_retries_total'', unat (m_retries m)),
      (''proxy_circuit_breaker_rejections_total'', unat (m_breaker_rejections m)),
      (''proxy_bytes_to_tor_total'', unat (m_bytes_to_tor m)),
      (''proxy_bytes_from_tor_total'', unat (m_bytes_from_tor m)),
      (''proxy_customer_data_limit_rejections_total'', unat (m_customer_data_limit_rejections m)),
      (''proxy_account_usage_checkpoint_failures_total'', unat (m_account_usage_checkpoint_failures m)),
      (''proxy_cache_hits_total'', unat (m_cache_hits m)),
      (''proxy_cache_misses_total'', unat (m_cache_misses m)),
      (''proxy_cache_stale_hits_total'', unat (m_cache_stale_hits m)),
      (''proxy_cache_bypasses_total'', unat (m_cache_bypasses m)),
      (''proxy_cache_insertions_total'', unat (m_cache_insertions m)),
      (''proxy_cache_bypass_strict_total'', unat (m_cache_bypass_strict m)),
      (''proxy_cache_bypass_unauthenticated_total'', unat (m_cache_bypass_unauthenticated m)),
      (''proxy_cache_bypass_origin_not_allowed_total'', unat (m_cache_bypass_origin_not_allowed m)),
      (''proxy_cache_bypass_request_policy_total'', unat (m_cache_bypass_request_policy m)),
      (''proxy_cache_bypass_response_policy_total'', unat (m_cache_bypass_response_policy m)),
      (''proxy_cache_ttl_caps_total'', unat (m_cache_ttl_caps m)),
      (''proxy_cache_metadata_failures_total'', unat (m_cache_metadata_failures m)),
      (''proxy_cache_entries'', ev_total_items ev),
      (''proxy_cache_bytes'', ev_total_size ev),
      (''proxy_cache_evictions_total'', ev_evicted_items ev),
      (''proxy_cache_evicted_bytes_total'', ev_evicted_size ev),
      (''proxy_upstream_connections_reused_total'', unat (m_upstream_reused m)),
      (''proxy_upstream_connections_fresh_total'', unat (m_upstream_fresh m)),
      (''proxy_bridge_tasks_active'', unat (m_bridge_tasks_active m)),
      (''proxy_bridge_tasks_completed_total'', unat (m_bridge_tasks_completed m)),
      (''proxy_bridge_tasks_failed_total'', unat (m_bridge_tasks_failed m)),
      (''proxy_bridge_tasks_deadline_cancelled_total'', unat (m_bridge_tasks_deadline_cancelled m)),
      (''proxy_bridge_tasks_force_aborted_total'', unat (m_bridge_tasks_force_aborted m)),
      (''proxy_isolation_tokens'', tokens),
      (''proxy_circuit_breaker_entries'', entries)]"

text \<open>The names and help texts of the table are as the format wants them.\<close>

definition well_named :: "string \<times> string \<times> string \<times> nat \<Rightarrow> bool" where
  "well_named = (\<lambda>(name, help, kind, v). plain name \<and> one_line help \<and> one_line kind \<and> \<not> is_comment name \<and> name \<noteq> [])"

lemma plain_metrics_well_named: "list_all well_named (plain_metrics ev m tokens breaker)"
  by (simp add: plain_metrics_def well_named_def is_comment_def line_feed_def)

lemma reads_metric: "well_named x \<Longrightarrow> reads (metric x) [(fst x, show_nat (snd (snd (snd x))))]"
proof -
  assume w: "well_named x"
  obtain name about kind v where x: "x = (name, about, kind, v)" by (cases x)
  have c: "\<not> is_comment (name @ y)" for y using w x by (cases name) (auto simp: well_named_def is_comment_def)
  have "reads (writelns [''# HELP '' @ name @ '' '' @ about, ''# TYPE '' @ name @ '' '' @ kind]) []"
    using w x by (intro reads_comments) (auto simp: well_named_def is_comment_def line_feed_def)
  from reads_append [OF this reads_samples [of "[v]" "\<lambda>_. name" show_nat]] w x c show ?thesis
    by (auto simp: metric_def well_named_def writelns_def)
qed

lemma plain_metrics_values:
  "map (\<lambda>x. (fst x, snd (snd (snd x)))) (plain_metrics ev m tokens breaker) = reported_values ev m tokens (length (cb_entries breaker))"
  by (simp add: plain_metrics_def reported_values_def breaker_len_def)

lemma reads_plain_metrics:
  "reads (concat (map metric (plain_metrics ev m tokens breaker)))
     (map (\<lambda>(name, v). (name, show_nat v)) (reported_values ev m tokens (length (cb_entries breaker))))"
  using reads_concat [of "plain_metrics ev m tokens breaker" metric "\<lambda>x. [(fst x, show_nat (snd (snd (snd x))))]"]
    plain_metrics_well_named [of ev m tokens breaker]
  by (simp add: list_all_iff reads_metric concat_map_singleton comp_def flip: plain_metrics_values)

lemma store_len_live: "fst (store_len now st) = length (filter (\<lambda>(_, e). now < expires_at e) (iso_entries st))"
  by (simp add: store_len_def retain_live_def Let_def hm_retain_def)

subsection \<open>No series twice\<close>

text \<open>The name of a series without its labels, and lists of samples whose series differ and have names of a given set.\<close>

definition series_family :: "string \<Rightarrow> string" where
  "series_family s = takeWhile (\<lambda>c. c \<noteq> CHR 0x7B) s"

definition series_in :: "string set \<Rightarrow> (string \<times> string) list \<Rightarrow> bool" where
  "series_in F samples \<longleftrightarrow> distinct (map fst samples) \<and> series_family ` fst ` set samples \<subseteq> F"

lemma series_in_append: "series_in F xs \<Longrightarrow> series_in G ys \<Longrightarrow> F \<inter> G = {} \<Longrightarrow> series_in (F \<union> G) (xs @ ys)"
  unfolding series_in_def map_append distinct_append set_append image_Un set_map by blast

lemma series_family_labelled: "CHR 0x7B \<notin> set name \<Longrightarrow> series_family (name @ CHR 0x7B # labels) = name"
  by (induction name) (auto simp: series_family_def)

lemma series_family_plain: "CHR 0x7B \<notin> set name \<Longrightarrow> series_family name = name"
  by (induction name) (auto simp: series_family_def)

lemma quoted_inj: "CHR 0x22 \<notin> set a \<Longrightarrow> CHR 0x22 \<notin> set b \<Longrightarrow> quoted a @ r = quoted b @ r' \<Longrightarrow> a = b \<and> r = r'"
  unfolding quoted_def by (induction a arbitrary: b; case_tac b; auto)

lemma distinct_map_sort: "distinct (map f (sort xs)) = distinct (map f xs)"
  by (simp add: distinct_map)

lemma request_series_in:
  assumes "distinct (map fst (m_request_counts m))" "\<forall>((method, status), count) \<in> set (m_request_counts m). CHR 0x22 \<notin> set method"
  shows "series_in {''proxy_requests_total''} (request_series m)"
proof -
  let ?label = "\<lambda>(method, status). ''proxy_requests_total{method='' @ quoted method @ '',status='' @ quoted (show_nat (unat (status :: u16))) @ ''}''"
  have "inj_on ?label (fst ` set (m_request_counts m))"
  proof (rule inj_onI)
    fix x y assume x: "x \<in> fst ` set (m_request_counts m)" and y: "y \<in> fst ` set (m_request_counts m)" and eq: "?label x = ?label y"
    obtain a s b s' where xy: "x = (a, s)" "y = (b, s')" by (cases x; cases y)
    have q: "CHR 0x22 \<notin> set a" "CHR 0x22 \<notin> set b" using x y xy assms(2) by auto
    have "a = b" and r: "'',status='' @ quoted (show_nat (unat s)) @ ''}'' = '',status='' @ quoted (show_nat (unat s')) @ ''}''"
      using quoted_inj [OF q] eq xy by auto
    moreover have "show_nat (unat s) = show_nat (unat s')" using r by (simp add: quoted_def)
    ultimately show "x = y" using xy by (simp add: word_unat_eq_iff)
  qed
  with assms(1) have "distinct (map ?label (map fst (m_request_counts m)))" unfolding distinct_map [of ?label] set_map by blast
  then have "distinct (map fst (request_series m))"
    unfolding request_series_def map_map by (subst distinct_map_sort) (simp add: comp_def case_prod_unfold)
  moreover have "series_family ` fst ` set (request_series m) \<subseteq> {''proxy_requests_total''}"
    by (auto simp: request_series_def series_family_def)
  ultimately show ?thesis by (simp add: series_in_def)
qed

lemma failure_series_in:
  assumes "distinct (map fst (m_arti_failures m))"
  shows "series_in {''proxy_arti_failures_total''} (failure_series m)"
proof -
  let ?label = "\<lambda>class. ''proxy_arti_failures_total{class='' @ quoted class @ ''}''"
  have "inj_on ?label S" for S by (auto simp: inj_on_def quoted_def)
  with assms have "distinct (map ?label (map fst (m_arti_failures m)))" unfolding distinct_map [of ?label] by blast
  then have "distinct (map fst (failure_series m))"
    unfolding failure_series_def map_map by (subst distinct_map_sort) (simp add: comp_def case_prod_unfold)
  moreover have "series_family ` fst ` set (failure_series m) \<subseteq> {''proxy_arti_failures_total''}"
    by (auto simp: failure_series_def series_family_def)
  ultimately show ?thesis by (simp add: series_in_def)
qed

lemma histogram_series_in:
  assumes "inj_on seconds (set LATENCY_BUCKET_MICROS)" "''+Inf'' \<notin> seconds ` set LATENCY_BUCKET_MICROS" "CHR 0x7B \<notin> set name"
  shows "series_in {name @ ''_bucket'', name @ ''_sum'', name @ ''_count''} (histogram_series seconds name h)"
proof -
  let ?label = "\<lambda>b. (name @ ''_bucket'') @ CHR 0x7B # ''le='' @ quoted (seconds b) @ ''}''"
  let ?bounds = "map fst (zip LATENCY_BUCKET_MICROS (hist_buckets h))"
  have bounds: "distinct ?bounds" "set ?bounds \<subseteq> set LATENCY_BUCKET_MICROS"
    unfolding map_fst_zip_take by (rule distinct_take, simp add: LATENCY_BUCKET_MICROS_def) (rule set_take_subset)
  have inj: "inj_on ?label (set ?bounds)"
    using inj_on_subset [OF assms(1) bounds(2)] by (auto simp: inj_on_def quoted_def)
  have families: "series_family (?label b) = name @ ''_bucket''" "series_family (name @ ''_sum'') = name @ ''_sum''"
      "series_family (name @ ''_count'') = name @ ''_count''" "series_family (name @ ''_bucket{le='' @ r) = name @ ''_bucket''" for b r
    using series_family_labelled [of "name @ ''_bucket''"] series_family_plain [of "name @ ''_sum''"] series_family_plain [of "name @ ''_count''"]
      assms(3) by simp_all
  have "series_in {name @ ''_bucket''} (map2 (\<lambda>b n. (?label b, show_nat (unat n))) LATENCY_BUCKET_MICROS (hist_buckets h)
      @ [(name @ ''_bucket{le='' @ quoted ''+Inf'' @ ''}'', show_nat (unat (hist_count h)))])"
    using inj bounds assms(2) families
    by (auto simp: series_in_def distinct_map inj_on_def quoted_def case_prod_unfold)
  moreover have "series_in {name @ ''_sum'', name @ ''_count''}
      [(name @ ''_sum'', seconds (hist_sum_micros h)), (name @ ''_count'', show_nat (unat (hist_count h)))]"
    using families by (simp add: series_in_def)
  ultimately show ?thesis
    using series_in_append by (fastforce simp: histogram_series_def insert_commute)
qed

lemma reported_series_in:
  "series_in (fst ` set (reported_values ev m tokens entries)) (map (\<lambda>(name, v). (name, show_nat v)) (reported_values ev m tokens entries))"
  unfolding series_in_def by (simp add: reported_values_def series_family_def)

lemma reported_names_apart:
  "fst ` set (reported_values ev m tokens entries) \<inter>
    ({''proxy_requests_total'', ''proxy_arti_failures_total''}
     \<union> {''proxy_request_duration_seconds_bucket'', ''proxy_request_duration_seconds_sum'', ''proxy_request_duration_seconds_count''}
     \<union> {''proxy_tunnel_duration_seconds_bucket'', ''proxy_tunnel_duration_seconds_sum'', ''proxy_tunnel_duration_seconds_count''}
     \<union> {''proxy_tor_connect_duration_seconds_bucket'', ''proxy_tor_connect_duration_seconds_sum'', ''proxy_tor_connect_duration_seconds_count''}
     \<union> {''proxy_cache_lock_wait_seconds_bucket'', ''proxy_cache_lock_wait_seconds_sum'', ''proxy_cache_lock_wait_seconds_count''}) = {}"
  by (simp add: reported_values_def)

text \<open>The series a page is made of, as the reader gets them.\<close>

definition expected_samples ::
    "(u64 \<Rightarrow> string) \<Rightarrow> CircuitMetrics \<Rightarrow> (string \<times> nat) list \<Rightarrow> (string \<times> string) list" where
  "expected_samples seconds m values =
      request_series m
    @ histogram_series seconds ''proxy_request_duration_seconds'' (m_request_latency m)
    @ histogram_series seconds ''proxy_tunnel_duration_seconds'' (m_tunnel_latency m)
    @ histogram_series seconds ''proxy_tor_connect_duration_seconds'' (m_tor_connect_latency m)
    @ histogram_series seconds ''proxy_cache_lock_wait_seconds'' (m_cache_lock_wait m)
    @ map (\<lambda>(name, v). (name, show_nat v)) values
    @ failure_series m"

lemma expected_samples_distinct:
  assumes "distinct (map fst (m_request_counts m))" "\<forall>((method, status), count) \<in> set (m_request_counts m). CHR 0x22 \<notin> set method"
    "distinct (map fst (m_arti_failures m))" "inj_on seconds (set LATENCY_BUCKET_MICROS)" "''+Inf'' \<notin> seconds ` set LATENCY_BUCKET_MICROS"
  shows "distinct (map fst (expected_samples seconds m (reported_values ev m tokens entries)))"
proof -
  let ?reported = "reported_values ev m tokens entries"
  let ?H = "\<lambda>name. {name @ ''_bucket'', name @ ''_sum'', name @ ''_count''}"
  note apart = reported_names_apart [of ev m tokens entries]
  have "series_in ({''proxy_requests_total''} \<union> (?H ''proxy_request_duration_seconds'' \<union> (?H ''proxy_tunnel_duration_seconds''
      \<union> (?H ''proxy_tor_connect_duration_seconds'' \<union> (?H ''proxy_cache_lock_wait_seconds''
      \<union> (fst ` set ?reported \<union> {''proxy_arti_failures_total''})))))) (expected_samples seconds m ?reported)"
    unfolding expected_samples_def using apart
    by (intro series_in_append request_series_in [OF assms(1,2)] histogram_series_in [OF assms(4,5)] reported_series_in
        failure_series_in [OF assms(3)]) auto
  then show ?thesis by (simp add: series_in_def)
qed

text \<open>
  Property C38. The metrics page can be read back: whatever the state, a reader that drops the comment lines of the page
  and splits the others at their first space finds, in this order and nothing else, the number of requests
  of every method and status, the buckets, sum and count of the four histograms, the forty-two counters
  and gauges listed by name and value in \<open>reported_values\<close>, and the number of failures of every class. Of the isolation
  store and of the circuit breaker the page shows only the number of live entries and of destinations: no
  identity and no destination. No series is on the page twice, when the bounds of the buckets print differently and the
  recorded methods have no quotation mark.
\<close>

theorem metrics_page_reads_back:
  assumes "\<forall>n. plain (seconds n)"
    and "\<forall>((method, status), count) \<in> set (m_request_counts m). plain method"
    and "\<forall>(class, count) \<in> set (m_arti_failures m). plain class"
  shows "let samples = page_samples (fst (render_prometheus_metrics seconds ev now m store breaker)) in
      samples = request_series m
      @ histogram_series seconds ''proxy_request_duration_seconds'' (m_request_latency m)
      @ histogram_series seconds ''proxy_tunnel_duration_seconds'' (m_tunnel_latency m)
      @ histogram_series seconds ''proxy_tor_connect_duration_seconds'' (m_tor_connect_latency m)
      @ histogram_series seconds ''proxy_cache_lock_wait_seconds'' (m_cache_lock_wait m)
      @ map (\<lambda>(name, v). (name, show_nat v))
          (reported_values ev m (length (filter (\<lambda>(_, e). now < expires_at e) (iso_entries store))) (length (cb_entries breaker)))
      @ failure_series m
    \<and> (distinct (map fst (m_request_counts m)) \<and> distinct (map fst (m_arti_failures m))
        \<and> (\<forall>((method, status), count) \<in> set (m_request_counts m). CHR 0x22 \<notin> set method)
        \<and> inj_on seconds (set LATENCY_BUCKET_MICROS) \<and> ''+Inf'' \<notin> seconds ` set LATENCY_BUCKET_MICROS
        \<longrightarrow> distinct (map fst samples))"
proof -
  have hist: "reads (append_histogram_metrics seconds name about h page) (samples @ histogram_series seconds name h)"
    if "plain name \<and> one_line about \<and> \<not> is_comment name \<and> name \<noteq> []" "reads page samples" for name about h page samples
    using reads_histogram [OF assms(1), of name about "[]"] that by simp
  have names: "plain ''proxy_request_duration_seconds'' \<and> one_line ''End-to-end request latency.''
        \<and> \<not> is_comment ''proxy_request_duration_seconds'' \<and> ''proxy_request_duration_seconds'' \<noteq> []"
      "plain ''proxy_tunnel_duration_seconds'' \<and> one_line ''CONNECT tunnel lifetime.''
        \<and> \<not> is_comment ''proxy_tunnel_duration_seconds'' \<and> ''proxy_tunnel_duration_seconds'' \<noteq> []"
      "plain ''proxy_tor_connect_duration_seconds'' \<and> one_line ''Tor stream establishment latency.''
        \<and> \<not> is_comment ''proxy_tor_connect_duration_seconds'' \<and> ''proxy_tor_connect_duration_seconds'' \<noteq> []"
      "plain ''proxy_cache_lock_wait_seconds'' \<and> one_line ''Time from cache enablement until an upstream fetch is selected.''
        \<and> \<not> is_comment ''proxy_cache_lock_wait_seconds'' \<and> ''proxy_cache_lock_wait_seconds'' \<noteq> []"
    by (simp_all add: is_comment_def line_feed_def)
  have heads: "reads (writelns [''# HELP proxy_requests_total Completed public proxy requests.'', ''# TYPE proxy_requests_total counter'']) []"
      "reads (writelns [''# HELP proxy_arti_failures_total Tor connection failures by stable class.'', ''# TYPE proxy_arti_failures_total counter'']) []"
    by (rule reads_comments, simp add: is_comment_def line_feed_def)+
  note page = reads_append [OF reads_append [OF hist [OF names(4) hist [OF names(3) hist [OF names(2) hist [OF names(1)
      reads_append [OF heads(1) reads_requests [OF assms(2)]]]]]] reads_plain_metrics]
      reads_append [OF heads(2) reads_failures [OF assms(3)]]]
  have "page_samples (fst (render_prometheus_metrics seconds ev now m store breaker)) = expected_samples seconds m
      (reported_values ev m (length (filter (\<lambda>(_, e). now < expires_at e) (iso_entries store))) (length (cb_entries breaker)))"
    using reads_page [OF page] by (simp add: render_prometheus_metrics_def Let_def case_prod_unfold store_len_live expected_samples_def)
  then show ?thesis
    unfolding Let_def using expected_samples_distinct unfolding expected_samples_def by metis
qed

section \<open>The endpoint\<close>

text \<open>A request is never read far beyond its maximum, and reading ends for every client.\<close>

lemma metrics_request_bounded:
  "length request < MAX_METRICS_REQUEST_BYTES + 512 \<Longrightarrow> read_metrics_request read request w = (Ok (Some r), w')
     \<Longrightarrow> length r < MAX_METRICS_REQUEST_BYTES + 512"
proof (induction read request w rule: read_metrics_request.induct)
  case (1 read request w)
  show ?case
    using 1(1) [OF _ _ refl] 1(2,3) read_metrics_request.simps [of read request w]
    by (auto split: if_splits sum.splits prod.splits)
qed

text \<open>
  What the endpoint answers: it writes one response, whose length header counts its body; the page is served for
  \<open>GET /metrics\<close> only.
\<close>

lemma metrics_endpoint_answers:
  assumes "read_metrics_request read [] w = (Ok (Some request), w1)"
    and "serve_prometheus_connection read write shutdown seconds ev now m breaker (store, w) = (r, store', w')"
  shows "\<exists>status body. (status, body) = (if starts_with request ''GET /metrics ''
        then (''200 OK'', fst (render_prometheus_metrics seconds ev now m store breaker)) else (''404 Not Found'', ''not found'' @ [line_feed]))
    \<and> (case write (metrics_response status body) w1 of (Inl e, w2) \<Rightarrow> (r, w') = (Err e, w2) | (Inr _, w2) \<Rightarrow> shutdown w2 = (r, w'))"
  using assms by (auto simp: serve_prometheus_connection_def Let_def split: prod.splits sum.splits)

lemma set_hm_insert: "x \<in> set (hm_insert k v m) \<Longrightarrow> fst x = k \<or> x \<in> set m"
  by (induction m) (auto split: if_splits)

text \<open>The labels the program records are plain: nine methods and the classes of Tor errors.\<close>

lemma recorded_methods_plain:
  assumes "\<forall>((method, status), count) \<in> set (m_request_counts m). plain method"
  shows "\<forall>((method, status), count) \<in> set (m_request_counts (record_request method0 status0 latency m)). plain method"
proof -
  have "plain (method_label method0)"
    by (auto simp: method_label_def method_labels_def line_feed_def)
  with assms show ?thesis
    by (auto simp: record_request_def hm_increment_def dest!: set_hm_insert)
qed

lemma recorded_classes_plain:
  assumes "\<forall>(class, count) \<in> set (m_arti_failures m). plain class" "class0 \<in> insert ''timeout'' (range arti_error_class)"
  shows "\<forall>(class, count) \<in> set (m_arti_failures (record_arti_failure class0 m)). plain class"
proof -
  have "plain (arti_error_class kind)" for kind by (cases kind) (simp_all add: line_feed_def)
  then have "plain class0" using assms(2) by (auto simp: line_feed_def)
  with assms(1) show ?thesis by (auto simp: record_arti_failure_def hm_increment_def dest!: set_hm_insert)
qed

section \<open>A demonstration\<close>

definition demo_metrics :: CircuitMetrics where
  "demo_metrics = record_request ''GET'' 200 5000 CircuitMetrics_default"

definition demo_eviction :: eviction_manager where
  "demo_eviction = \<lparr>ev_total_items = 3, ev_total_size = 0, ev_evicted_items = 0, ev_evicted_size = 0\<rparr>"

definition demo_page :: string where
  "demo_page = fst (render_prometheus_metrics (\<lambda>n. show_nat (unat n)) demo_eviction 0 demo_metrics example_store
     \<lparr>cb_entries = [], cb_capacity = 4, cb_failure_threshold = 5, cb_cooldown = 30\<rparr>)"

theorem metrics_page_reads_back_witness:
  "(''proxy_requests_total{method='' @ quoted ''GET'' @ '',status='' @ quoted (show_nat 200) @ ''}'', show_nat 1) \<in> set (page_samples demo_page)
   \<and> (''proxy_cache_entries'', show_nat 3) \<in> set (page_samples demo_page)
   \<and> distinct (map fst (page_samples demo_page))"
proof -
  have counts: "m_request_counts demo_metrics = [((''GET'', 200), 1)]" "m_arti_failures demo_metrics = []"
    by (simp_all add: demo_metrics_def record_request_def CircuitMetrics_default_def hm_increment_def hashmap_simps method_label_def method_labels_def)
  have labels: "\<forall>((method, status), count) \<in> set (m_request_counts demo_metrics). plain method"
      "\<forall>(class, count) \<in> set (m_arti_failures demo_metrics). plain class"
    by (simp_all add: counts line_feed_def)
  have seconds: "\<forall>n. plain (show_nat (unat (n :: u64)))" "inj_on (\<lambda>n. show_nat (unat (n :: u64))) S" for S
    by (simp_all add: inj_on_def word_unat_eq_iff)
  have inf: "''+Inf'' \<notin> (\<lambda>n. show_nat (unat (n :: u64))) ` S" for S
  proof
    assume "''+Inf'' \<in> (\<lambda>n. show_nat (unat (n :: u64))) ` S"
    then obtain n where n: "show_nat n = ''+Inf''" by force
    from show_nat_digits [of n] show False unfolding n by (simp add: is_ascii_digit_def byte_def)
  qed
  let ?m = demo_metrics and ?breaker = "\<lparr>cb_entries = [], cb_capacity = 4, cb_failure_threshold = 5, cb_cooldown = 30\<rparr> :: CircuitBreaker"
  let ?live = "length (filter (\<lambda>(_, e). 0 < expires_at e) (iso_entries example_store))"
  note page = metrics_page_reads_back [OF seconds(1) labels, of demo_eviction 0 example_store ?breaker,
      unfolded Let_def, folded demo_page_def]
  have "(''proxy_requests_total{method='' @ quoted ''GET'' @ '',status='' @ quoted (show_nat 200) @ ''}'', show_nat 1) \<in> set (request_series ?m)"
    by (simp add: request_series_def counts)
  moreover have "(''proxy_cache_entries'', 3) \<in> set (reported_values demo_eviction ?m ?live (length (cb_entries ?breaker)))"
    by (simp add: reported_values_def demo_eviction_def)
  then have "(''proxy_cache_entries'', show_nat 3)
      \<in> set (map (\<lambda>(name, v). (name, show_nat v)) (reported_values demo_eviction ?m ?live (length (cb_entries ?breaker))))"
    by force
  moreover have "distinct (map fst (page_samples demo_page))"
    by (rule page [THEN conjunct2, THEN mp]) (simp add: counts seconds(2) inf)
  ultimately show ?thesis using page [THEN conjunct1] by (metis (no_types, lifting) Un_iff set_append)
qed

end
