(* ===== verification/Spec2Isabelle.thy ===== *)
theory Spec2Isabelle
  imports Account_Quota Account_Admission Tenant_Isolation Circuit_Breaker Ingress_Stores Data_Session Request_Parsing Bridge_Ingress Account_Open Ingress_Config Proxy_Hooks Accept_Loop Metrics_Endpoint
begin

text \<open>
  A verification of the privacy proxy in \<open>src/src\<close>: a forward proxy that authenticates its clients, charges their
  accounts and opens their tunnels through Tor.

  \<^bold>\<open>The program.\<close> A client connects to the public listener, in production over TLS with a client certificate. The bridge
  (\<open>main.rs\<close>) reads one request, authenticates its API key together with the certificate, checks the
  request rate of the account, the data left in its usage period and its request quota, and charges the request.
  A CONNECT request becomes a tunnel: the destination policy, the circuit breaker, the limits on the
  tunnels of the account and of the process, and an isolation token decide whether and how a Tor stream is
  opened, and the copy loops account for every byte. Any other request is handed, without its ingress headers,
  to the Pingora proxy in the same process, whose hooks find the account again by the address of the connection,
  decide about the cache and reach the bridge by its Unix socket, with a leased token that names the account.
  Accounts, keys, devices and usage are in SQLite (\<open>account_management.rs\<close>); the ingress is configured
  from the environment (\<open>private_ingress.rs\<close>); a small scheduler hands out request slots
  (\<open>request_scheduler.rs\<close>).

  \<^bold>\<open>How it is modelled.\<close> A \<open>Result\<close> is a sum with \<open>Ok\<close> and \<open>Err\<close>, every early return a branch. \<open>u64\<close>, \<open>u32\<close> and
  \<open>u16\<close> are words; database columns are \<open>int\<close> with their range checks; capacities and lengths are \<open>nat\<close>;
  a \<open>Duration\<close> is a number of nanoseconds. A \<open>HashMap\<close> is an association list with distinct keys.
  Text is a byte string. State behind an \<open>Arc\<close> is a heap with references and a multiset of the holders, so that
  reference counts and evictions are exact. Code that waits is a state machine whose steps are its
  suspension points, and a property of it holds for every sequence of events. A handler of the
  bridge returns an optional result with the new state: \<open>None\<close> says that it has not returned. Code outside the
  repository (Arti, rustls, SQLite's failures, base64, BLAKE3, httparse, governor, tokio's semaphore,
  sockets, clocks, the file system) is a parameter, with what is relied on as named hypotheses
  (\<open>semaphore_laws\<close>, \<open>identifiers_valid\<close> and the absence of hash collisions); the demonstrations
  at the end of a theory instantiate them.

  \<^bold>\<open>Foundations.\<close>
  \<^item> \<open>Prelude\<close>, \<open>Rust_Strings\<close>, \<open>Ip_Addr\<close>: results, words, hash maps and the parts of Rust's standard library the source calls
    (UTF-8, trimming, splitting, integer and address parsing, with the parsers proved inverse to the printers).
  \<^item> \<open>Keyed_Store\<close>: the interface of a store whose operations concern one key each; \<open>Admission_Slots\<close>
    has the interface \<open>slot_pool\<close> of a pool of permits, \<open>Account_Invariants\<close> the interface between SQL statements
    and what they keep.

  \<^bold>\<open>Accounts\<close> (\<open>account_management.rs\<close>).
  \<^item> \<open>Account_Types\<close>: identifiers, timestamps, limits, records and the normalisation of input.
  \<^item> \<open>Account_Database\<close>, \<open>Account_Usage\<close>, \<open>Account_Auth\<close>: the tables with their constraints, every SQL statement, transactions
    with a schedule of faults, every method of \<open>AccountDatabase\<close>, and key generation and authentication. The
    methods of \<open>AccountManager\<close> that only call the method of the database with the same name are
    that method.
  \<^item> \<open>Account_Invariants\<close>, \<open>Account_Atomicity\<close>, \<open>Account_Properties\<close>, \<open>Account_Quota\<close>: every reachable store is well-formed and every failing operation
    leaves it alone; a request is authenticated exactly if the store authorizes it; revocation is final; an issued key
    authenticates; a period never admits more requests than its limit.
  \<^item> \<open>Account_Admission\<close>: the cache of per-account limiters under every interleaving of its atomic actions.
  \<^item> \<open>Secure_Files\<close>, \<open>Account_Open\<close>: the checks on secret files, opening and migration of the database, across restarts.

  \<^bold>\<open>Shared state of the bridge\<close> (\<open>main.rs\<close>).
  \<^item> \<open>Isolation\<close>, \<open>Tenant_Isolation\<close>: the store of isolation tokens and the keyed names of tenants: different identities never share
    a token or a connection pool.
  \<^item> \<open>Circuit_Breaker\<close>: the bounded breaker refines one independent machine per destination.
  \<^item> \<open>Ingress_Stores\<close>: contexts of connections and leases of bridge identities.
  \<^item> \<open>Data_Limit\<close>, \<open>Data_Session\<close>: the byte limit of a period with its compare-and-exchange loop, its shared counters and its
    checkpoints into the database.
  \<^item> \<open>Metrics\<close>, \<open>Metrics_Endpoint\<close>: counters and histograms; the page that shows them can be read back, value by value.
  \<^item> \<open>Admission_Slots\<close>: the request scheduler and the tunnel and circuit permits with their gauges.

  \<^bold>\<open>Requests\<close> (\<open>main.rs\<close>).
  \<^item> \<open>Destination_Policy\<close>, \<open>Cache_Policy\<close>, \<open>Request_Parsing\<close>: which hosts may be contacted or cached, cache keys and what may be stored, parsing and
    sanitising of requests.
  \<^item> \<open>Tunnel_Copy\<close>, \<open>Tor_Connect\<close>: the copy loops with the data limit, the idle time-out and checkpoints; connecting with one
    retry.
  \<^item> \<open>Bridge_State\<close>, \<open>Bridge_Connect\<close>, \<open>Bridge_Answers\<close>: the state of the bridge and the CONNECT handler: what it gives back, what it answers and
    what has to hold before Tor is contacted.
  \<^item> \<open>Bridge_Ingress\<close>, \<open>Proxy_Hooks\<close>: the public and the internal handler and the hooks of the proxy, so that an account is carried from
    the client's connection through the proxy back to the bridge.

  \<^bold>\<open>The process.\<close>
  \<^item> \<open>Ingress_Config\<close> (\<open>private_ingress.rs\<close>), \<open>Startup\<close>: the configuration, the TLS material and the ingress the process starts with.
  \<^item> \<open>Accept_Loop\<close>: the handshake, the public connection and \<open>run_bridge\<close>; from a TCP connection to the admitted request, and the
    number of connection tasks.
  \<^item> \<open>Task_Drain\<close>: the registry of connection tasks and their shutdown: every task is accounted for, also one that ends while the
    deadline is being handled, and the drain ends in time.

  \<^bold>\<open>Bounds and termination.\<close> No definition uses fuel. Loops over input recurse on what is left to read (the readers of
  requests stop at the header limit), the retry loop has two rounds, the loops that join ended tasks shrink
  the registry, and waiting code runs on the list of events it is given, so that a statement about a returned
  result is paired with one that enough time makes it return (the drain and connecting to Tor). Capacities are
  those of the source: 256 tunnels, 32 circuit builds, 512 connection tasks, 10000 breaker entries;
  the isolation store takes its capacity as an argument. A configured capacity above \<open>MAX_PERMITS\<close> makes Tokio's
  \<open>Semaphore::new\<close> panic: the panic is a result of \<open>public_ingress\<close> (an error of its own) and of \<open>Bridge_new\<close> (\<open>None\<close>), and
  \<open>Startup\<close> shows which configurations have it.

  \<^bold>\<open>Granularity.\<close> Where the source takes several steps without a decision between them, the model takes one:
  \<^item> the methods of the database that list rows have one point at which SQLite may fail, and setting the journal mode
    does not change the modelled file;
  \<^item> \<open>state_for\<close> draws its sequence number in the critical section that follows, and a rate check uses the limiter of the account
    as it is then;
  \<^item> a permit and the gauge that counts it change together, and a waiter takes a released permit by acquiring it,
    with no hand-over in the queue of the semaphore;
  \<^item> a write that is dropped before it completes has written nothing, and a blocking task that fails has not run;
  \<^item> a poll of the drain looks at the tasks, then some may end, then it goes on: an end between two later instructions of the
    poll is not told apart from one after it, since nothing reads the tasks between them.

  \<^bold>\<open>Not modelled.\<close>
  \<^item> \<open>main\<close>, \<open>TorCircuit\<close>, \<open>start_bridge\<close> and \<open>BridgeShutdown\<close> start the runtimes, Arti and the Pingora server: calls of third-party code
    in sequence. What they configure is modelled (\<open>configured_public_ingress\<close>, \<open>proxy_server_configuration\<close>, \<open>Bridge::new\<close>).
  \<^item> Implementations of \<open>Display\<close>, \<open>Debug\<close> and \<open>Error\<close>, \<open>CircuitMetrics::log\<close> and lines on standard error: text nothing reads back. Of an
    error message the model keeps what decides a branch.
  \<^item> \<open>CircuitHandle\<close> and \<open>open_circuit\<close>, which nothing calls, code that is commented out, and the tests.
  \<^item> Inside Pingora: the cache storage and the HTTP exchange with the origin. Its session is a record of what the
    hooks read and write.
\<close>

end
